(* ===== verification/LE_Prelude.thy ===== *)
theory LE_Prelude
  imports Main "HOL-Library.Sublist" "HOL-Library.Multiset" "HOL-Library.Char_ord" "HOL-Library.List_Lexorder"
begin

text \<open>
  The prelude of the development: the parts of Go's \<^verbatim>\<open>strings\<close> and \<^verbatim>\<open>sort\<close> packages that the
  supervisor's code calls, and the lemmas on lists and byte strings that the component theories
  share.  A Go string is a sequence of bytes, which is what \<^typ>\<open>string\<close> is: a list of 8-bit
  characters, so \<^const>\<open>length\<close> is Go's \<^verbatim>\<open>len\<close> and the bytewise order of \<^verbatim>\<open>sort.Strings\<close> is the
  lexicographic order of \<^verbatim>\<open>List_Lexorder\<close> over \<^verbatim>\<open>Char_ord\<close>.
\<close>

named_theorems go_str "characterisations of the byte-string functions"
named_theorems go_sort "facts about the stable sort"

type_synonym gostring = string

section \<open>Errors as values\<close>

text \<open>A Go function that returns \<^verbatim>\<open>(T, error)\<close> is a function into a sum: \<open>Inl\<close> is the error.\<close>

type_synonym ('e, 'a) result = "'e + 'a"

definition is_ok :: "'e + 'a \<Rightarrow> bool" where
  "is_ok r = (case r of Inl _ \<Rightarrow> False | Inr _ \<Rightarrow> True)"

lemma is_ok_simps [simp]: "is_ok (Inr a)" "\<not> is_ok (Inl e)"
  by (simp_all add: is_ok_def)

lemma is_ok_iff: "is_ok r \<longleftrightarrow> (\<exists>a. r = Inr a)"
  by (cases r) auto

text \<open>A loop that returns the first error its body reports (\<^verbatim>\<open>for ... { if err != nil { return err } }\<close>).\<close>

fun first_error :: "('a \<Rightarrow> 'e option) \<Rightarrow> 'a list \<Rightarrow> 'e option" where
  "first_error f [] = None"
| "first_error f (x # xs) = (case f x of Some e \<Rightarrow> Some e | None \<Rightarrow> first_error f xs)"

lemma first_error_None_iff: "first_error f xs = None \<longleftrightarrow> (\<forall>x \<in> set xs. f x = None)"
  by (induction xs) (auto split: option.splits)

lemma first_error_append:
  "first_error f (xs @ ys) = (case first_error f xs of Some e \<Rightarrow> Some e | None \<Rightarrow> first_error f ys)"
  by (induction xs) (auto split: option.splits)

lemma first_error_Some_in: "first_error f xs = Some e \<Longrightarrow> \<exists>x \<in> set xs. f x = Some e"
  by (induction xs) (auto split: option.splits)

section \<open>Go's strings package on bytes\<close>

fun hasPrefix :: "string \<Rightarrow> string \<Rightarrow> bool" where
  "hasPrefix s [] = True"
| "hasPrefix [] (p # ps) = False"
| "hasPrefix (c # s) (p # ps) = (c = p \<and> hasPrefix s ps)"

definition hasSuffix :: "string \<Rightarrow> string \<Rightarrow> bool" where
  "hasSuffix s t = hasPrefix (rev s) (rev t)"

fun containsStr :: "string \<Rightarrow> string \<Rightarrow> bool" where
  "containsStr [] sub = (sub = [])"
| "containsStr (c # s) sub = (hasPrefix (c # s) sub \<or> containsStr s sub)"

definition trimPrefix :: "string \<Rightarrow> string \<Rightarrow> string" where
  "trimPrefix s p = (if hasPrefix s p then drop (length p) s else s)"

definition trimSuffix :: "string \<Rightarrow> string \<Rightarrow> string" where
  "trimSuffix s t = (if hasSuffix s t then take (length s - length t) s else s)"

text \<open>\<^verbatim>\<open>strings.Split(s, sep)\<close> for a one-byte separator: always at least one part.\<close>

fun splitOn :: "char \<Rightarrow> string \<Rightarrow> string list" where
  "splitOn c [] = [[]]"
| "splitOn c (x # xs) =
     (if x = c then [] # splitOn c xs
      else (case splitOn c xs of [] \<Rightarrow> [[x]] | p # ps \<Rightarrow> (x # p) # ps))"

fun joinWith :: "string \<Rightarrow> string list \<Rightarrow> string" where
  "joinWith sep [] = []"
| "joinWith sep [p] = p"
| "joinWith sep (p # q # ps) = p @ sep @ joinWith sep (q # ps)"

definition containsAny :: "string \<Rightarrow> string \<Rightarrow> bool" where
  "containsAny s chars = (\<exists>c \<in> set s. c \<in> set chars)"

text \<open>\<^verbatim>\<open>strings.ReplaceAll\<close> for a non-empty \<open>old\<close>: leftmost, non-overlapping occurrences.\<close>

fun replaceAll :: "string \<Rightarrow> string \<Rightarrow> string \<Rightarrow> string" where
  "replaceAll old new [] = []"
| "replaceAll old new (c # s) =
     (if old \<noteq> [] \<and> hasPrefix (c # s) old
      then new @ replaceAll old new (drop (length old - 1) s)
      else c # replaceAll old new s)"

lemma hasPrefix_iff [go_str]: "hasPrefix s p \<longleftrightarrow> (\<exists>t. s = p @ t)"
  by (induction s p rule: hasPrefix.induct) auto

lemma hasPrefix_append [simp]: "hasPrefix (p @ t) p"
  by (auto simp: hasPrefix_iff)

lemma hasPrefix_refl [simp]: "hasPrefix p p"
  by (auto simp: hasPrefix_iff)

lemma hasPrefix_extend: "hasPrefix s p \<Longrightarrow> hasPrefix (s @ t) p"
  by (auto simp: hasPrefix_iff)

lemma hasPrefix_length: "hasPrefix s p \<Longrightarrow> length p \<le> length s"
  by (auto simp: hasPrefix_iff)

lemma hasSuffix_iff [go_str]: "hasSuffix s t \<longleftrightarrow> (\<exists>u. s = u @ t)"
proof
  assume "hasSuffix s t"
  then obtain v where "rev s = rev t @ v" by (auto simp: hasSuffix_def hasPrefix_iff)
  then have "s = rev v @ t" by (metis rev_append rev_rev_ident)
  then show "\<exists>u. s = u @ t" by blast
qed (auto simp: hasSuffix_def hasPrefix_iff)

lemma containsStr_iff [go_str]: "containsStr s sub \<longleftrightarrow> (\<exists>a b. s = a @ sub @ b)"
proof (induction s)
  case (Cons c s)
  have "(\<exists>a b. c # s = a @ sub @ b) \<longleftrightarrow> (\<exists>b. c # s = sub @ b) \<or> (\<exists>a b. s = a @ sub @ b)"
    by (metis append_Cons append_Nil neq_Nil_conv list.inject)
  with Cons show ?case by (auto simp: hasPrefix_iff)
qed auto

lemma containsStr_prefix: "hasPrefix s p \<Longrightarrow> containsStr s p"
  by (metis append_Nil containsStr_iff hasPrefix_iff)

lemma containsStr_append: "containsStr s sub \<Longrightarrow> containsStr (a @ s @ b) sub"
  by (metis append.assoc containsStr_iff)

lemma trimPrefix_append [simp]: "trimPrefix (p @ t) p = t"
  by (simp add: trimPrefix_def)

lemma trimSuffix_append [simp]: "trimSuffix (u @ t) t = u"
  by (auto simp: trimSuffix_def hasSuffix_iff)

lemma splitOn_nonempty [simp]: "splitOn c s \<noteq> []"
  by (induction s) (auto split: list.splits)

lemma joinWith_splitOn: "joinWith [c] (splitOn c s) = s"
proof (induction s)
  case (Cons x s)
  obtain p ps where p: "splitOn c s = p # ps" by (meson neq_Nil_conv splitOn_nonempty)
  with Cons show ?case by (cases ps) (auto simp: p)
qed simp

lemma splitOn_no_sep: "p \<in> set (splitOn c s) \<Longrightarrow> c \<notin> set p"
  by (induction s arbitrary: p) (auto split: if_splits list.splits)

lemma splitOn_single: "c \<notin> set s \<Longrightarrow> splitOn c s = [s]"
  by (induction s) auto

lemma splitOn_append_sep: "c \<notin> set p \<Longrightarrow> splitOn c (p @ c # s) = p # splitOn c s"
  by (induction p) auto

lemma splitOn_joinWith:
  "ps \<noteq> [] \<Longrightarrow> (\<And>p. p \<in> set ps \<Longrightarrow> c \<notin> set p) \<Longrightarrow> splitOn c (joinWith [c] ps) = ps"
proof (induction ps rule: induct_list012)
  case (3 p q ps)
  then show ?case by (simp add: splitOn_append_sep)
qed (auto simp: splitOn_single)

lemma joinWith_append:
  "xs \<noteq> [] \<Longrightarrow> ys \<noteq> [] \<Longrightarrow> joinWith sep (xs @ ys) = joinWith sep xs @ sep @ joinWith sep ys"
proof (induction xs rule: induct_list012)
  case (2 x)
  then show ?case by (cases ys) auto
qed auto

section \<open>White space and case, on UTF-8 bytes\<close>

text \<open>
  Bytes and numbers for evaluation: both conversions bit by bit, without division.
\<close>

definition add_bit :: "bool \<Rightarrow> nat \<Rightarrow> nat" where
  "add_bit b n = (if b then Suc (n + n) else n + n)"

lemma add_bit_eq: "add_bit b n = of_bool b + 2 * n"
  by (simp add: add_bit_def)

fun nat_of_byte :: "char \<Rightarrow> nat" where
  "nat_of_byte (Char b0 b1 b2 b3 b4 b5 b6 b7) =
     add_bit b0 (add_bit b1 (add_bit b2 (add_bit b3 (add_bit b4 (add_bit b5 (add_bit b6 (add_bit b7 0)))))))"

lemma of_char_code [code_unfold]: "(of_char :: char \<Rightarrow> nat) = nat_of_byte"
proof
  fix c :: char
  show "of_char c = nat_of_byte c" by (cases c) (simp add: of_char_def add_bit_eq)
qed

fun halve :: "nat \<Rightarrow> bool \<times> nat" where
  "halve 0 = (False, 0)"
| "halve (Suc 0) = (True, 0)"
| "halve (Suc (Suc n)) = (case halve n of (b, h) \<Rightarrow> (b, Suc h))"

lemma halve_eq: "halve n = (odd n, n div 2)"
  by (induction n rule: halve.induct) auto

definition byte_of_nat :: "nat \<Rightarrow> char" where
  "byte_of_nat n0 =
     (case halve n0 of (b0, n1) \<Rightarrow> case halve n1 of (b1, n2) \<Rightarrow> case halve n2 of (b2, n3) \<Rightarrow> case halve n3 of (b3, n4) \<Rightarrow>
      case halve n4 of (b4, n5) \<Rightarrow> case halve n5 of (b5, n6) \<Rightarrow> case halve n6 of (b6, n7) \<Rightarrow> Char b0 b1 b2 b3 b4 b5 b6 (fst (halve n7)))"

lemma char_of_code [code_unfold]: "(char_of :: nat \<Rightarrow> char) = byte_of_nat"
  by (rule ext) (simp add: byte_of_nat_def halve_eq char_of_def bit_iff_odd flip: div_mult2_eq)

text \<open>The code of a byte as an integer, for the tests of character classes.\<close>

definition add_bit_int :: "bool \<Rightarrow> int \<Rightarrow> int" where
  "add_bit_int b n = (if b then 2 * n + 1 else 2 * n)"

lemma int_add_bit: "int (add_bit b n) = add_bit_int b (int n)"
  by (simp add: add_bit_def add_bit_int_def)

fun byte_code :: "char \<Rightarrow> int" where
  "byte_code (Char b0 b1 b2 b3 b4 b5 b6 b7) =
     add_bit_int b0 (add_bit_int b1 (add_bit_int b2 (add_bit_int b3 (add_bit_int b4 (add_bit_int b5 (add_bit_int b6 (add_bit_int b7 0)))))))"

lemma byte_code_eq: "byte_code c = int (of_char c)"
  unfolding of_char_code by (cases c) (simp add: int_add_bit)

text \<open>
  Prefixes and bounds whose number is large: the evaluation counts down an integer and never writes the
  number out in unary.
\<close>

fun int_take :: "int \<Rightarrow> 'a list \<Rightarrow> 'a list" where
  "int_take n [] = []"
| "int_take n (x # xs) = (if n \<le> 0 then [] else x # int_take (n - 1) xs)"

fun int_drop :: "int \<Rightarrow> 'a list \<Rightarrow> 'a list" where
  "int_drop n [] = []"
| "int_drop n (x # xs) = (if n \<le> 0 then x # xs else int_drop (n - 1) xs)"

fun exceeds :: "int \<Rightarrow> 'a list \<Rightarrow> bool" where
  "exceeds n [] = (n < 0)"
| "exceeds n (x # xs) = (n < 0 \<or> exceeds (n - 1) xs)"

lemma int_take_eq: "int_take n xs = take (nat n) xs"
  by (induction n xs rule: int_take.induct) (auto simp: take_Cons' nat_diff_distrib)

lemma int_drop_eq: "int_drop n xs = drop (nat n) xs"
  by (induction n xs rule: int_drop.induct) (auto simp: drop_Cons' nat_diff_distrib)

lemma exceeds_iff: "exceeds n xs \<longleftrightarrow> n < int (length xs)"
  by (induction n xs rule: exceeds.induct) auto

lemmas take_nat_code [code_unfold] = int_take_eq [symmetric]
lemmas drop_nat_code [code_unfold] = int_drop_eq [symmetric]

text \<open>
  \<^verbatim>\<open>spaceLen s\<close> is the number of bytes of the white-space rune at the head of \<open>s\<close>, 0 when there
  is none: the code points of \<^verbatim>\<open>unicode.IsSpace\<close> in their UTF-8 encodings (U+0085, U+00A0, U+1680,
  U+2000--U+200A, U+2028, U+2029, U+202F, U+205F and U+3000 beside the ASCII ones).
\<close>

definition byte_at :: "string \<Rightarrow> nat \<Rightarrow> nat" where
  "byte_at s i = (if i < length s then of_char (s ! i) else 0)"

definition spaceLen :: "string \<Rightarrow> nat" where
  "spaceLen s =
     (let a = byte_at s 0; b = byte_at s 1; c = byte_at s 2 in
      if s = [] then 0
      else if a = 32 \<or> (9 \<le> a \<and> a \<le> 13) then 1
      else if a = 0xC2 \<and> (b = 0x85 \<or> b = 0xA0) then 2
      else if a = 0xE1 \<and> b = 0x9A \<and> c = 0x80 then 3
      else if a = 0xE2 \<and> b = 0x80 \<and> (0x80 \<le> c \<and> c \<le> 0x8A \<or> c = 0xA8 \<or> c = 0xA9 \<or> c = 0xAF) then 3
      else if a = 0xE2 \<and> b = 0x81 \<and> c = 0x9F then 3
      else if a = 0xE3 \<and> b = 0x80 \<and> c = 0x80 then 3
      else 0)"

text \<open>\<^verbatim>\<open>strings.TrimSpace(s) == ""\<close>: the string is nothing but white space.\<close>

function isBlank :: "string \<Rightarrow> bool" where
  "isBlank s = (if s = [] then True else if spaceLen s = 0 then False else isBlank (drop (spaceLen s) s))"
  by pat_completeness auto
termination
  by (relation "measure length") auto

declare isBlank.simps [simp del]

lemma isBlank_Nil [simp]: "isBlank []"
  by (simp add: isBlank.simps)

text \<open>
  \<^verbatim>\<open>strings.TrimSpace\<close>.  No white-space rune's encoding ends in another's, so the trailing white
  space is the longest suffix that is blank.
\<close>

function trimLeft :: "string \<Rightarrow> string" where
  "trimLeft s = (if s = [] \<or> spaceLen s = 0 then s else trimLeft (drop (spaceLen s) s))"
  by pat_completeness auto
termination
  by (relation "measure length") auto

declare trimLeft.simps [simp del]

fun trimRight :: "string \<Rightarrow> string" where
  "trimRight [] = []"
| "trimRight (c # s) = (if isBlank (c # s) then [] else c # trimRight s)"

definition trimSpace :: "string \<Rightarrow> string" where
  "trimSpace s = trimRight (trimLeft s)"

lemma trimSpace_Nil_iff: "trimSpace s = [] \<longleftrightarrow> isBlank s"
proof (induction s rule: trimLeft.induct)
  case (1 s)
  show ?case
  proof (cases "s = [] \<or> spaceLen s = 0")
    case True
    then have "trimLeft s = s" by (subst trimLeft.simps) auto
    then show ?thesis by (cases s) (simp_all add: trimSpace_def)
  next
    case False
    then show ?thesis
      using "1.IH" by (simp add: trimSpace_def trimLeft.simps [of s] isBlank.simps [of s])
  qed
qed

text \<open>
  \<^verbatim>\<open>strings.ToLower\<close> as it is used here: its result is only ever searched for ASCII words.  ASCII
  letters are lowered; of the other runes only U+212A (Kelvin) and U+0130 lower into ASCII (to
  \<open>k\<close> and \<open>i\<close>); every remaining rune lowers to bytes from 128 up, which no ASCII word contains,
  so leaving those bytes alone cannot change the answer of such a search.
\<close>

definition ascii_lower :: "char \<Rightarrow> char" where
  "ascii_lower c = (if 65 \<le> (of_char c :: nat) \<and> (of_char c :: nat) \<le> 90 then char_of ((of_char c :: nat) + 32) else c)"

function toLower :: "string \<Rightarrow> string" where
  "toLower s =
     (if s = [] then []
      else if byte_at s 0 = 0xE2 \<and> byte_at s 1 = 0x84 \<and> byte_at s 2 = 0xAA then CHR ''k'' # toLower (drop 3 s)
      else if byte_at s 0 = 0xC4 \<and> byte_at s 1 = 0xB0 then CHR ''i'' # toLower (drop 2 s)
      else ascii_lower (hd s) # toLower (tl s))"
  by pat_completeness auto
termination
  by (relation "measure length") auto

declare toLower.simps [simp del]

section \<open>Decimal numbers\<close>

text \<open>\<^verbatim>\<open>%d\<close>, and \<^verbatim>\<open>strconv.Atoi\<close> of a string of digits (\<open>0\<close> for the empty one, clamped to 63 bits).\<close>

definition digit_char :: "nat \<Rightarrow> char" where
  "digit_char d = char_of (48 + d)"

fun showNat :: "nat \<Rightarrow> string" where
  "showNat n = (if n < 10 then [digit_char n] else showNat (n div 10) @ [digit_char (n mod 10)])"

declare showNat.simps [simp del]

definition showInt :: "int \<Rightarrow> string" where
  "showInt i = (if i < 0 then CHR ''-'' # showNat (nat (- i)) else showNat (nat i))"

definition isDigit :: "char \<Rightarrow> bool" where
  "isDigit c = (let b = (of_char c :: nat) in 48 \<le> b \<and> b \<le> 57)"

lemma isDigit_code [code]: "isDigit c = (let b = byte_code c in 48 \<le> b \<and> b \<le> 57)"
  by (simp add: isDigit_def byte_code_eq Let_def)

definition digits_nat :: "string \<Rightarrow> nat" where
  "digits_nat s = foldl (\<lambda>n c. n * 10 + ((of_char c :: nat) - 48)) 0 s"

definition atoi :: "string \<Rightarrow> int" where
  "atoi s = min (int (digits_nat s)) (2 ^ 63 - 1)"

lemma of_char_digit: "d < 10 \<Longrightarrow> (of_char (digit_char d) :: nat) = 48 + d"
  by (simp add: digit_char_def)

lemma digits_nat_snoc: "digits_nat (s @ [c]) = digits_nat s * 10 + ((of_char c :: nat) - 48)"
  by (simp add: digits_nat_def)

lemma digits_nat_showNat: "digits_nat (showNat n) = n"
proof (induction n rule: showNat.induct)
  case (1 n)
  show ?case
  proof (cases "n < 10")
    case True
    then show ?thesis by (simp add: showNat.simps [of n] digits_nat_def of_char_digit)
  next
    case False
    then show ?thesis using "1.IH" by (simp add: showNat.simps [of n] digits_nat_snoc of_char_digit)
  qed
qed

lemma showNat_inject: "showNat a = showNat b \<longleftrightarrow> a = b"
  by (metis digits_nat_showNat)

section \<open>Stable sorting\<close>

text \<open>
  \<^verbatim>\<open>sort.SliceStable\<close> with a strict comparison \<open>lt\<close>: insertion sort keeps the order of elements
  the comparison does not separate.
\<close>

fun insert_by :: "('a \<Rightarrow> 'a \<Rightarrow> bool) \<Rightarrow> 'a \<Rightarrow> 'a list \<Rightarrow> 'a list" where
  "insert_by lt x [] = [x]"
| "insert_by lt x (y # ys) = (if lt y x then y # insert_by lt x ys else x # y # ys)"

fun stable_sort :: "('a \<Rightarrow> 'a \<Rightarrow> bool) \<Rightarrow> 'a list \<Rightarrow> 'a list" where
  "stable_sort lt [] = []"
| "stable_sort lt (x # xs) = insert_by lt x (stable_sort lt xs)"

lemma mset_insert_by [go_sort]: "mset (insert_by lt x ys) = add_mset x (mset ys)"
  by (induction ys) auto

lemma mset_stable_sort [go_sort, simp]: "mset (stable_sort lt xs) = mset xs"
  by (induction xs) (auto simp: mset_insert_by)

lemma set_stable_sort [go_sort, simp]: "set (stable_sort lt xs) = set xs"
  by (metis mset_stable_sort set_mset_mset)

lemma length_stable_sort [go_sort, simp]: "length (stable_sort lt xs) = length xs"
  by (metis mset_stable_sort size_mset)

lemma stable_sort_Nil_iff [simp]: "stable_sort lt xs = [] \<longleftrightarrow> xs = []"
  by (metis length_0_conv length_stable_sort)

text \<open>A strict weak order, and what sorting by one establishes: no later element comes before an earlier one.\<close>

definition weak_order :: "('a \<Rightarrow> 'a \<Rightarrow> bool) \<Rightarrow> bool" where
  "weak_order lt \<longleftrightarrow>
     (\<forall>x y. lt x y \<longrightarrow> \<not> lt y x) \<and>
     (\<forall>x y z. \<not> lt y x \<longrightarrow> \<not> lt z y \<longrightarrow> \<not> lt z x)"

definition sorted_by :: "('a \<Rightarrow> 'a \<Rightarrow> bool) \<Rightarrow> 'a list \<Rightarrow> bool" where
  "sorted_by lt xs = sorted_wrt (\<lambda>x y. \<not> lt y x) xs"

lemma set_insert_by [simp]: "set (insert_by lt x ys) = insert x (set ys)"
  by (metis mset_insert_by set_mset_add_mset_insert set_mset_mset)

lemma weak_orderD:
  assumes "weak_order lt"
  shows "lt x y \<Longrightarrow> \<not> lt y x" and "\<not> lt y x \<Longrightarrow> \<not> lt z y \<Longrightarrow> \<not> lt z x"
  using assms unfolding weak_order_def by blast+

lemma sorted_by_insert:
  assumes "weak_order lt" and "sorted_by lt ys"
  shows "sorted_by lt (insert_by lt x ys)"
  using assms(2)
proof (induction ys)
  case (Cons y ys)
  then have IH: "sorted_by lt (insert_by lt x ys)" by (simp add: sorted_by_def)
  show ?case
  proof (cases "lt y x")
    case True
    with assms(1) have "\<not> lt x y" by (rule weak_orderD(1))
    with True IH Cons.prems show ?thesis by (auto simp: sorted_by_def)
  next
    case False
    have "\<not> lt z x" if "z \<in> set ys" for z
    proof -
      from that Cons.prems have "\<not> lt z y" by (simp add: sorted_by_def)
      with False show ?thesis by (rule weak_orderD(2) [OF assms(1)])
    qed
    with False Cons.prems show ?thesis by (auto simp: sorted_by_def)
  qed
qed (simp add: sorted_by_def)

lemma sorted_by_stable_sort [go_sort]: "weak_order lt \<Longrightarrow> sorted_by lt (stable_sort lt xs)"
  by (induction xs) (auto simp: sorted_by_insert, simp add: sorted_by_def)

lemma sorted_by_hd: "sorted_by lt (x # xs) \<Longrightarrow> y \<in> set xs \<Longrightarrow> \<not> lt y x"
  by (simp add: sorted_by_def)

text \<open>\<^verbatim>\<open>sort.Strings\<close> and deduplication in order of first occurrence.\<close>

definition sortStrings :: "string list \<Rightarrow> string list" where
  "sortStrings xs = sort xs"

lemma set_sortStrings [simp]: "set (sortStrings xs) = set xs"
  by (simp add: sortStrings_def)

fun nub_from :: "'a list \<Rightarrow> 'a list \<Rightarrow> 'a list" where
  "nub_from seen [] = []"
| "nub_from seen (x # xs) =
     (if x \<in> set seen then nub_from seen xs else x # nub_from (x # seen) xs)"

lemma set_nub_from: "set (nub_from seen xs) = set xs - set seen"
  by (induction xs arbitrary: seen) auto

lemma distinct_nub_from: "distinct (nub_from seen xs)"
  by (induction xs arbitrary: seen) (auto simp: set_nub_from)

text \<open>The same with a \<^verbatim>\<open>seen\<close> map over a key of the element.\<close>

fun nub_key :: "('a \<Rightarrow> 'k) \<Rightarrow> 'k list \<Rightarrow> 'a list \<Rightarrow> 'a list" where
  "nub_key key seen [] = []"
| "nub_key key seen (x # xs) =
     (if key x \<in> set seen then nub_key key seen xs else x # nub_key key (key x # seen) xs)"

lemma nub_key_set: "set (nub_key key seen xs) \<subseteq> set xs"
  by (induction xs arbitrary: seen) auto

lemma nub_key_keys: "key ` set (nub_key key seen xs) = key ` set xs - set seen"
  by (induction xs arbitrary: seen) auto

lemma nub_key_distinct: "distinct (map key (nub_key key seen xs))"
  by (induction xs arbitrary: seen) (auto simp: nub_key_keys)

section \<open>Lists\<close>

lemma filter_update_length: "length (map (\<lambda>r. if p r then f r else r) xs) = length xs"
  by simp

lemma map_if_id: "(\<And>r. r \<in> set xs \<Longrightarrow> p r \<Longrightarrow> f r = r) \<Longrightarrow> map (\<lambda>r. if p r then f r else r) xs = xs"
  by (induction xs) auto

definition max_of :: "int list \<Rightarrow> int" where
  "max_of xs = fold max xs 0"

lemma fold_max_ge: "a \<le> fold max xs (a::int)"
proof (induction xs arbitrary: a)
  case (Cons x xs)
  have "max x a \<le> fold max xs (max x a)" by (rule Cons.IH)
  then show ?case by simp
qed simp

lemma fold_max_upper: "x \<in> set xs \<Longrightarrow> x \<le> fold max xs (a::int)"
  by (induction xs arbitrary: a) (auto intro: order.trans [OF _ fold_max_ge])

lemma max_of_upper: "x \<in> set xs \<Longrightarrow> x \<le> max_of xs"
  by (simp add: max_of_def fold_max_upper)

lemma max_of_nonneg: "0 \<le> max_of xs"
  by (simp add: max_of_def fold_max_ge)

lemma max_of_snoc: "max_of (xs @ [x]) = max (max_of xs) x"
  by (simp add: max_of_def max.commute)

end
