(* ===== verification/Go_Path.thy ===== *)
theory Go_Path
  imports LE_Prelude
begin

text \<open>
  Go's \<^verbatim>\<open>path\<close> and \<^verbatim>\<open>path/filepath\<close> on a slash-separated system, as far as the supervisor uses
  them: \<^verbatim>\<open>Clean\<close>, \<^verbatim>\<open>Base\<close>, \<^verbatim>\<open>Dir\<close>, \<^verbatim>\<open>Join\<close>, \<^verbatim>\<open>Rel\<close>, \<^verbatim>\<open>IsAbs\<close> and the glob matcher \<^verbatim>\<open>Match\<close>
  with its \<^verbatim>\<open>ErrBadPattern\<close>.  Path policy, plan validation and the file access check rest on them.
\<close>

section \<open>Lexical path functions\<close>

abbreviation slash :: char where "slash \<equiv> CHR ''/''"

definition isAbs :: "string \<Rightarrow> bool" where
  "isAbs p = hasPrefix p ''/''"

text \<open>The stack of kept elements while \<^verbatim>\<open>Clean\<close> reads a path, innermost element first.\<close>

fun clean_step :: "bool \<Rightarrow> string list \<Rightarrow> string \<Rightarrow> string list" where
  "clean_step rooted st seg =
     (if seg = [] \<or> seg = ''.'' then st
      else if seg = ''..'' then
        (case st of
           [] \<Rightarrow> if rooted then [] else [seg]
         | t # below \<Rightarrow> if t = ''..'' then seg # st else below)
      else seg # st)"

definition cleanPath :: "string \<Rightarrow> string" where
  "cleanPath p =
     (if p = [] then ''.''
      else let rooted = isAbs p;
               st = foldl (clean_step rooted) [] (splitOn slash p);
               body = joinWith ''/'' (rev st)
           in if rooted then ''/'' @ body else if st = [] then ''.'' else body)"

definition basePath :: "string \<Rightarrow> string" where
  "basePath p =
     (if p = [] then ''.''
      else let q = rev (dropWhile (\<lambda>c. c = slash) (rev p))
           in if q = [] then ''/'' else last (splitOn slash q))"

definition dirPath :: "string \<Rightarrow> string" where
  "dirPath p = cleanPath (rev (dropWhile (\<lambda>c. c \<noteq> slash) (rev p)))"

definition joinPath :: "string \<Rightarrow> string \<Rightarrow> string" where
  "joinPath a b =
     (let es = filter (\<lambda>e. e \<noteq> []) [a, b] in if es = [] then [] else cleanPath (joinWith ''/'' es))"

definition path_segs :: "string \<Rightarrow> string list" where
  "path_segs p = filter (\<lambda>s. s \<noteq> []) (splitOn slash p)"

fun strip_common :: "'a list \<Rightarrow> 'a list \<Rightarrow> 'a list \<times> 'a list" where
  "strip_common (x # xs) (y # ys) = (if x = y then strip_common xs ys else (x # xs, y # ys))"
| "strip_common xs ys = (xs, ys)"

text \<open>\<^verbatim>\<open>filepath.Rel\<close> for two absolute paths, which is how it is called.\<close>

definition relPath :: "string \<Rightarrow> string \<Rightarrow> string" where
  "relPath base targ =
     (let b = cleanPath base; t = cleanPath targ in
      if b = t then ''.''
      else case strip_common (path_segs b) (path_segs t) of
             (bs, ts) \<Rightarrow> joinWith ''/'' (map (\<lambda>_. ''..'') bs @ ts))"

section \<open>Globs\<close>

text \<open>\<^verbatim>\<open>utf8.DecodeRuneInString\<close>: the rune at the head of a byte string and its width.\<close>

definition cont :: "nat \<Rightarrow> bool" where
  "cont b = (0x80 \<le> b \<and> b \<le> 0xBF)"

definition decodeRune :: "string \<Rightarrow> nat \<times> nat" where
  "decodeRune s =
     (let a = byte_at s 0; b = byte_at s 1; c = byte_at s 2; d = byte_at s 3 in
      if s = [] then (0xFFFD, 0)
      else if a < 0x80 then (a, 1)
      else if 0xC2 \<le> a \<and> a \<le> 0xDF \<and> cont b then ((a - 0xC0) * 64 + (b - 0x80), 2)
      else if 0xE0 \<le> a \<and> a \<le> 0xEF \<and> cont b \<and> cont c \<and> (a = 0xE0 \<longrightarrow> 0xA0 \<le> b) \<and> (a = 0xED \<longrightarrow> b \<le> 0x9F)
        then ((a - 0xE0) * 4096 + (b - 0x80) * 64 + (c - 0x80), 3)
      else if 0xF0 \<le> a \<and> a \<le> 0xF4 \<and> cont b \<and> cont c \<and> cont d \<and> (a = 0xF0 \<longrightarrow> 0x90 \<le> b) \<and> (a = 0xF4 \<longrightarrow> b \<le> 0x8F)
        then ((a - 0xF0) * 262144 + (b - 0x80) * 4096 + (c - 0x80) * 64 + (d - 0x80), 4)
      else (0xFFFD, 1))"

lemma decodeRune_width: "s \<noteq> [] \<Longrightarrow> 0 < snd (decodeRune s)"
  by (simp add: decodeRune_def Let_def)

abbreviation backslash :: char where "backslash \<equiv> CHR 0x5C"

definition getEsc :: "string \<Rightarrow> (nat \<times> string) option" where
  "getEsc chunk =
     (if chunk = [] \<or> hd chunk = CHR ''-'' \<or> hd chunk = CHR '']'' then None
      else let ch = (if hd chunk = backslash then tl chunk else chunk) in
           if ch = [] then None
           else case decodeRune ch of
                  (r, n) \<Rightarrow> if (r = 0xFFFD \<and> n = 1) \<or> drop n ch = [] then None else Some (r, drop n ch))"

lemma getEsc_shorter: "getEsc chunk = Some (r, rest) \<Longrightarrow> length rest < length chunk \<and> rest \<noteq> []"
proof -
  assume a: "getEsc chunk = Some (r, rest)"
  define ch where "ch = (if hd chunk = backslash then tl chunk else chunk)"
  have ne: "ch \<noteq> []" and r: "rest = drop (snd (decodeRune ch)) ch" "rest \<noteq> []"
    using a by (auto simp: getEsc_def ch_def Let_def split: if_splits prod.splits)
  then have "length rest < length ch" using decodeRune_width [OF ne] by simp
  moreover have "length ch \<le> length chunk" by (simp add: ch_def)
  ultimately show ?thesis using r by simp
qed

text \<open>The ranges of a character class up to its closing bracket; \<open>None\<close> is a malformed pattern.\<close>

function classRanges :: "nat \<Rightarrow> bool \<Rightarrow> bool \<Rightarrow> string \<Rightarrow> (bool \<times> string) option" where
  "classRanges r m some chunk =
     (if some \<and> chunk \<noteq> [] \<and> hd chunk = CHR '']'' then Some (m, tl chunk)
      else case getEsc chunk of
             None \<Rightarrow> None
           | Some (lo, ch) \<Rightarrow>
               (if hd ch = CHR ''-'' then
                  (case getEsc (tl ch) of
                     None \<Rightarrow> None
                   | Some (hi, ch') \<Rightarrow> classRanges r (m \<or> (lo \<le> r \<and> r \<le> hi)) True ch')
                else classRanges r (m \<or> lo = r) True ch))"
  by pat_completeness auto
termination
proof (relation "measure (\<lambda>(r, m, some, chunk). length chunk)", goal_cases)
  case (2 r m some chunk p lo ch q hi ch')
  then have "length ch < length chunk" "length ch' < length (tl ch)"
    using getEsc_shorter [of chunk lo ch] getEsc_shorter [of "tl ch" hi ch'] by auto
  then show ?case by simp
next
  case (3 r m some chunk p lo ch)
  then show ?case using getEsc_shorter [of chunk lo ch] by auto
qed simp

declare classRanges.simps [simp del]

lemma classRanges_shorter: "classRanges r m some chunk = Some (m', rest) \<Longrightarrow> length rest < length chunk"
proof (induction r m some chunk rule: classRanges.induct)
  case (1 r m some chunk)
  show ?case
  proof (cases "some \<and> chunk \<noteq> [] \<and> hd chunk = CHR '']''")
    case True
    then have "classRanges r m some chunk = Some (m, tl chunk)" by (subst classRanges.simps) simp
    with "1.prems" True show ?thesis by (cases chunk) auto
  next
    case False
    then obtain lo ch where g: "getEsc chunk = Some (lo, ch)"
      using "1.prems" by (auto simp: classRanges.simps [of r m some chunk] split: option.splits)
    note lt = getEsc_shorter [OF g]
    show ?thesis
    proof (cases "hd ch = CHR ''-''")
      case True
      then obtain hi ch' where g': "getEsc (tl ch) = Some (hi, ch')"
        using False g "1.prems" by (auto simp: classRanges.simps [of r m some chunk] split: option.splits)
      from "1.prems" have "classRanges r (m \<or> (lo \<le> r \<and> r \<le> hi)) True ch' = Some (m', rest)"
        using True False g g' by (subst (asm) classRanges.simps) (auto split: if_splits)
      then have "length rest < length ch'" using "1.IH"(1) [OF False g refl True g' refl] by simp
      with getEsc_shorter [OF g'] lt show ?thesis by auto
    next
      case False2: False
      from "1.prems" have "classRanges r (m \<or> lo = r) True ch = Some (m', rest)"
        using False2 False g by (subst (asm) classRanges.simps) (auto split: if_splits)
      then have "length rest < length ch" using "1.IH"(2) [OF False g refl False2] by simp
      with lt show ?thesis by simp
    qed
  qed
qed

text \<open>
  One chunk of the pattern against the head of the name: \<open>None\<close> is \<^verbatim>\<open>ErrBadPattern\<close>, \<open>Some None\<close> no
  match, \<open>Some (Some t)\<close> a match that leaves \<open>t\<close>.  After a failure the chunk is still read to its
  end, so that a malformed pattern is reported whatever the name is.
\<close>

function matchChunk :: "bool \<Rightarrow> string \<Rightarrow> string \<Rightarrow> string option option" where
  "matchChunk failed0 [] s = Some (if failed0 then None else Some s)"
| "matchChunk failed0 (c # ch) s =
     (let failed = (failed0 \<or> s = []) in
      if c = CHR ''['' then
        (let rs = (if failed then (0, s) else (fst (decodeRune s), drop (snd (decodeRune s)) s));
             neg = (ch \<noteq> [] \<and> hd ch = CHR ''^'')
         in case classRanges (fst rs) False False (if neg then tl ch else ch) of
              None \<Rightarrow> None
            | Some (m, ch2) \<Rightarrow> matchChunk (failed \<or> m = neg) ch2 (snd rs))
      else if c = CHR ''?'' then
        (if failed then matchChunk True ch s
         else matchChunk (hd s = slash) ch (drop (snd (decodeRune s)) s))
      else if c = backslash then
        (if ch = [] then None
         else if failed then matchChunk True (tl ch) s
         else matchChunk (hd ch \<noteq> hd s) (tl ch) (tl s))
      else if failed then matchChunk True ch s
      else matchChunk (c \<noteq> hd s) ch (tl s))"
  by pat_completeness auto
termination
proof (relation "measure (\<lambda>(failed, chunk, s). length chunk)", goal_cases)
  case (2 failed0 c ch s failed rs neg x m ch2)
  then have "length ch2 < length (if neg then tl ch else ch)"
    using classRanges_shorter by (metis (no_types, lifting))
  then show ?case by (auto split: if_splits)
qed auto

declare matchChunk.simps [simp del]

fun scanBody :: "bool \<Rightarrow> string \<Rightarrow> string \<times> string" where
  "scanBody inr [] = ([], [])"
| "scanBody inr [c] = (if c = CHR ''*'' \<and> \<not> inr then ([], [c]) else ([c], []))"
| "scanBody inr (c # d # cs) =
     (if c = backslash then (case scanBody inr cs of (a, b) \<Rightarrow> (c # d # a, b))
      else if c = CHR ''*'' \<and> \<not> inr then ([], c # d # cs)
      else case scanBody (if c = CHR ''['' then True else if c = CHR '']'' then False else inr) (d # cs) of
             (a, b) \<Rightarrow> (c # a, b))"

definition scanChunk :: "string \<Rightarrow> bool \<times> string \<times> string" where
  "scanChunk pat =
     (let p = dropWhile (\<lambda>c. c = CHR ''*'') pat in (p \<noteq> pat, scanBody False p))"

lemma scanBody_append: "fst (scanBody inr p) @ snd (scanBody inr p) = p"
  by (induction inr p rule: scanBody.induct) (auto split: prod.splits)

lemma scanBody_nonempty: "c \<noteq> CHR ''*'' \<Longrightarrow> fst (scanBody inr (c # cs)) \<noteq> []"
  by (cases cs) (auto split: prod.splits)

lemma scanChunk_rest_shorter:
  assumes "pat \<noteq> []" and "scanChunk pat = (star, chunk, rest)"
  shows "length rest < length pat"
proof -
  define p where "p = dropWhile (\<lambda>c. c = CHR ''*'') pat"
  have s: "scanBody False p = (chunk, rest)" and st: "star = (p \<noteq> pat)"
    using assms(2) by (auto simp: scanChunk_def p_def Let_def)
  have app: "chunk @ rest = p" using scanBody_append [of False p] s by simp
  have le: "length p \<le> length pat" by (simp add: p_def length_dropWhile_le)
  show ?thesis
  proof (cases "p = pat")
    case True
    obtain c cs where p: "p = c # cs" using True assms(1) by (cases p) auto
    have "c \<noteq> CHR ''*''"
      using hd_dropWhile [of "\<lambda>c. c = CHR ''*''" pat] p unfolding p_def by auto
    then have "fst (scanBody False p) \<noteq> []" unfolding p by (rule scanBody_nonempty)
    then have "chunk \<noteq> []" unfolding s by simp
    with app True show ?thesis by auto
  next
    case False
    have "length p < length pat"
      using False le takeWhile_dropWhile_id [of "\<lambda>c. c = CHR ''*''" pat] unfolding p_def
      by (metis append_Nil le_neq_implies_less length_append length_0_conv add_cancel_left_left)
    with app show ?thesis by auto
  qed
qed

lemma scanChunk_shorter' [dest]:
  "(star, chunk, rest) = scanChunk pat \<Longrightarrow> pat \<noteq> [] \<Longrightarrow> length rest < length pat"
  using scanChunk_rest_shorter by metis

function restValid :: "string \<Rightarrow> bool" where
  "restValid pat =
     (if pat = [] then True
      else case scanChunk pat of
             (star, chunk, rest) \<Rightarrow> if matchChunk False chunk [] = None then False else restValid rest)"
  by pat_completeness auto
termination
  by (relation "measure length") (auto dest: scanChunk_shorter')

declare restValid.simps [simp del]

fun skipMatch :: "string \<Rightarrow> bool \<Rightarrow> string \<Rightarrow> string option option" where
  "skipMatch chunk lastc [] = Some None"
| "skipMatch chunk lastc (c # cs) =
     (if c = slash then Some None
      else case matchChunk False chunk cs of
             None \<Rightarrow> None
           | Some None \<Rightarrow> skipMatch chunk lastc cs
           | Some (Some t) \<Rightarrow> if lastc \<and> t \<noteq> [] then skipMatch chunk lastc cs else Some (Some t))"

text \<open>\<^verbatim>\<open>path.Match(pattern, name)\<close>: \<open>None\<close> is \<^verbatim>\<open>ErrBadPattern\<close>.\<close>

function goMatch :: "string \<Rightarrow> string \<Rightarrow> bool option" where
  "goMatch pat name =
     (if pat = [] then Some (name = [])
      else case scanChunk pat of
             (star, chunk, rest) \<Rightarrow>
               if star \<and> chunk = [] then Some (slash \<notin> set name)
               else let giveup = (if restValid rest then Some False else None);
                        skip = (if star
                                then (case skipMatch chunk (rest = []) name of
                                        None \<Rightarrow> None
                                      | Some None \<Rightarrow> giveup
                                      | Some (Some t) \<Rightarrow> goMatch rest t)
                                else giveup)
                    in (case matchChunk False chunk name of
                          None \<Rightarrow> None
                        | Some None \<Rightarrow> skip
                        | Some (Some t) \<Rightarrow> if t = [] \<or> rest \<noteq> [] then goMatch rest t else skip))"
  by pat_completeness auto
termination
  by (relation "measure (\<lambda>(pat, name). length pat)") (auto dest: scanChunk_shorter')

declare goMatch.simps [simp del]

section \<open>Literal patterns, subtrees and parent segments\<close>

definition literal_pattern :: "string \<Rightarrow> bool" where
  "literal_pattern p = (\<forall>c \<in> set p. c \<notin> {CHR ''*'', CHR ''?'', CHR ''['', backslash})"

lemma literal_pattern_Cons:
  "literal_pattern (c # p) \<longleftrightarrow>
   c \<noteq> CHR ''*'' \<and> c \<noteq> CHR ''?'' \<and> c \<noteq> CHR ''['' \<and> c \<noteq> backslash \<and> literal_pattern p"
  unfolding literal_pattern_def by simp

lemma matchChunk_literal_step:
  assumes "literal_pattern (c # p)"
  shows "matchChunk f (c # p) s =
    (if f \<or> s = [] then matchChunk True p s else matchChunk (c \<noteq> hd s) p (tl s))"
  using assms unfolding literal_pattern_Cons matchChunk.simps(2) Let_def by simp

lemma matchChunk_literal_failed: "literal_pattern p \<Longrightarrow> matchChunk True p s = Some None"
  by (induction p arbitrary: s)
     (simp_all add: matchChunk_literal_step matchChunk.simps(1), simp add: literal_pattern_Cons)

lemma matchChunk_literal:
  "literal_pattern p \<Longrightarrow>
   matchChunk False p s = Some (if hasPrefix s p then Some (drop (length p) s) else None)"
proof (induction p arbitrary: s)
  case Nil
  then show ?case by (simp add: matchChunk.simps)
next
  case (Cons c p)
  then have lit: "literal_pattern p" by (simp add: literal_pattern_Cons)
  show ?case
    using Cons.IH [OF lit] matchChunk_literal_failed [OF lit] Cons.prems
    by (cases s; cases "c = hd s") (simp_all add: matchChunk_literal_step)
qed

lemma scanBody_literal: "literal_pattern p \<Longrightarrow> scanBody inr p = (p, [])"
  by (induction inr p rule: scanBody.induct) (simp_all add: literal_pattern_Cons)

lemma scanChunk_literal: "literal_pattern p \<Longrightarrow> scanChunk p = (False, p, [])"
proof -
  assume l: "literal_pattern p"
  then have "dropWhile (\<lambda>c. c = CHR ''*'') p = p"
    by (cases p) (simp_all add: literal_pattern_Cons)
  with l show ?thesis by (simp add: scanChunk_def scanBody_literal Let_def)
qed

text \<open>A pattern without metacharacters matches exactly itself, and is never malformed.\<close>

lemma goMatch_literal: "literal_pattern p \<Longrightarrow> goMatch p s = Some (p = s)"
proof -
  assume l: "literal_pattern p"
  have e: "goMatch [] t = Some (t = [])" for t by (simp add: goMatch.simps)
  have r: "restValid []" by (simp add: restValid.simps)
  show ?thesis
    by (subst goMatch.simps)
       (auto simp: l scanChunk_literal matchChunk_literal e r Let_def go_str)
qed

text \<open>Being under a directory is a matter of whole path segments.\<close>

definition under :: "string \<Rightarrow> string \<Rightarrow> bool" where
  "under d rel = (rel = d \<or> hasPrefix rel (d @ ''/''))"

lemma splitOn_append: "splitOn c (a @ c # b) = splitOn c a @ splitOn c b"
  by (induction a) (auto split: list.splits)

lemma under_iff_segments: "under d rel \<longleftrightarrow> prefix (splitOn slash d) (splitOn slash rel)"
proof
  assume "under d rel"
  then show "prefix (splitOn slash d) (splitOn slash rel)"
    by (auto simp: under_def hasPrefix_iff splitOn_append)
next
  assume "prefix (splitOn slash d) (splitOn slash rel)"
  then obtain zs where z: "splitOn slash rel = splitOn slash d @ zs" by (auto simp: prefix_def)
  show "under d rel"
  proof (cases zs)
    case Nil
    with z have "rel = d" by (metis append_Nil2 joinWith_splitOn)
    then show ?thesis by (simp add: under_def)
  next
    case (Cons a b)
    have "rel = joinWith [slash] (splitOn slash rel)" by (simp add: joinWith_splitOn)
    also have "\<dots> = d @ [slash] @ joinWith [slash] zs"
      unfolding z using Cons by (simp add: joinWith_append joinWith_splitOn)
    finally show ?thesis by (auto simp: under_def hasPrefix_iff)
  qed
qed

lemma under_trans: "under a b \<Longrightarrow> under b c \<Longrightarrow> under a c"
  by (meson prefix_order.trans under_iff_segments)

lemma under_child [simp]: "under d (d @ slash # x)"
  by (simp add: under_def hasPrefix_iff)

section \<open>Cleaned paths\<close>

text \<open>An ordinary path element, and the absolute path made of some of them.\<close>

definition plain_seg :: "string \<Rightarrow> bool" where
  "plain_seg s = (s \<noteq> [] \<and> s \<noteq> ''.'' \<and> s \<noteq> ''..'' \<and> slash \<notin> set s)"

definition abs_of :: "string list \<Rightarrow> string" where
  "abs_of ss = slash # joinWith ''/'' ss"

lemma clean_step_plain: "plain_seg s \<Longrightarrow> clean_step r st s = s # st"
  by (simp add: plain_seg_def)

lemma foldl_clean_plain: "list_all plain_seg ss \<Longrightarrow> foldl (clean_step r) st ss = rev ss @ st"
  by (induction ss arbitrary: st) (simp_all add: clean_step_plain del: clean_step.simps)

lemma clean_step_rooted:
  "list_all plain_seg st \<Longrightarrow> slash \<notin> set s \<Longrightarrow> list_all plain_seg (clean_step True st s)"
  by (auto simp: plain_seg_def split: list.splits)

lemma foldl_clean_rooted:
  "list_all plain_seg st \<Longrightarrow> (\<And>s. s \<in> set ss \<Longrightarrow> slash \<notin> set s) \<Longrightarrow>
   list_all plain_seg (foldl (clean_step True) st ss)"
  by (induction ss arbitrary: st) (simp_all add: clean_step_rooted del: clean_step.simps)

lemma isAbs_Cons: "isAbs p \<longleftrightarrow> (\<exists>q. p = slash # q)"
  by (auto simp: isAbs_def hasPrefix_iff)

lemma cleanPath_rooted:
  "cleanPath (slash # q) = abs_of (rev (foldl (clean_step True) [] (splitOn slash q)))"
  by (simp add: cleanPath_def isAbs_Cons abs_of_def)

lemma cleanPath_abs:
  assumes "isAbs p"
  shows "\<exists>ss. list_all plain_seg ss \<and> cleanPath p = abs_of ss"
proof -
  obtain q where p: "p = slash # q" using assms by (auto simp: isAbs_Cons)
  have "list_all plain_seg (foldl (clean_step True) [] (splitOn slash q))"
    by (rule foldl_clean_rooted) (auto dest: splitOn_no_sep)
  then show ?thesis unfolding p cleanPath_rooted by (metis list_all_rev)
qed

lemma plain_no_slash: "list_all plain_seg ss \<Longrightarrow> s \<in> set ss \<Longrightarrow> slash \<notin> set s"
  by (auto simp: list_all_iff plain_seg_def)

lemma splitOn_join_plain:
  "list_all plain_seg ss \<Longrightarrow> ss \<noteq> [] \<Longrightarrow> splitOn slash (joinWith ''/'' ss) = ss"
  by (rule splitOn_joinWith) (auto dest: plain_no_slash)

lemma cleanPath_abs_of: "list_all plain_seg ss \<Longrightarrow> cleanPath (abs_of ss) = abs_of ss"
  unfolding abs_of_def [of ss] cleanPath_rooted
  by (cases "ss = []") (simp_all add: abs_of_def splitOn_join_plain foldl_clean_plain)

lemma path_segs_abs_of: "list_all plain_seg ss \<Longrightarrow> path_segs (abs_of ss) = ss"
proof (cases "ss = []")
  case False
  assume p: "list_all plain_seg ss"
  then have "filter (\<lambda>s. s \<noteq> []) ss = ss"
    by (intro filter_True) (auto simp: list_all_iff plain_seg_def)
  with False p show ?thesis by (simp add: path_segs_def abs_of_def splitOn_join_plain)
qed (simp add: path_segs_def abs_of_def)

lemma abs_of_inject: "list_all plain_seg a \<Longrightarrow> list_all plain_seg b \<Longrightarrow> abs_of a = abs_of b \<longleftrightarrow> a = b"
  by (metis path_segs_abs_of)

lemma abs_of_append: "b \<noteq> [] \<Longrightarrow> a \<noteq> [] \<Longrightarrow> abs_of (a @ b) = abs_of a @ slash # joinWith ''/'' b"
  by (simp add: abs_of_def joinWith_append)

lemma joinPath_abs_of:
  assumes "list_all plain_seg ss" and "r \<noteq> []"
  shows "joinPath (abs_of ss) r = abs_of (rev (foldl (clean_step True) (rev ss) (splitOn slash r)))"
proof -
  have "joinPath (abs_of ss) r = cleanPath (slash # (joinWith ''/'' ss @ slash # r))"
    using assms(2) by (simp add: joinPath_def abs_of_def)
  also have "\<dots> = abs_of (rev (foldl (clean_step True)
      (foldl (clean_step True) [] (splitOn slash (joinWith ''/'' ss))) (splitOn slash r)))"
    by (simp add: cleanPath_rooted splitOn_append)
  also have "foldl (clean_step True) [] (splitOn slash (joinWith ''/'' ss)) = rev ss"
    using assms(1) by (cases "ss = []") (simp_all add: splitOn_join_plain foldl_clean_plain)
  finally show ?thesis .
qed

lemma joinPath_plain:
  "list_all plain_seg ss \<Longrightarrow> plain_seg s \<Longrightarrow> joinPath (abs_of ss) s = abs_of (ss @ [s])"
  by (simp add: joinPath_abs_of splitOn_single plain_seg_def)

lemma joinPath_abs_shape:
  assumes "list_all plain_seg ss" and "r \<noteq> []"
  shows "\<exists>ts. list_all plain_seg ts \<and> joinPath (abs_of ss) r = abs_of ts"
proof -
  have "list_all plain_seg (foldl (clean_step True) (rev ss) (splitOn slash r))"
    by (rule foldl_clean_rooted) (use assms in \<open>auto dest: splitOn_no_sep\<close>)
  with assms show ?thesis by (metis joinPath_abs_of list_all_rev)
qed

text \<open>\<^verbatim>\<open>inside\<close> is the segment order on cleaned absolute paths (the root directory contains only itself).\<close>

lemma under_abs_of:
  assumes "list_all plain_seg a" and "list_all plain_seg b"
  shows "under (abs_of a) (abs_of b) \<longleftrightarrow> b = a \<or> (a \<noteq> [] \<and> prefix a b)"
proof (cases "a = []")
  case True
  have "\<not> hasPrefix (abs_of b) ''//''"
  proof (cases b)
    case (Cons s ss)
    then obtain c s' where s: "s = c # s'" "c \<noteq> slash" using assms(2) by (cases s) (auto simp: plain_seg_def)
    then show ?thesis using Cons by (cases ss) (auto simp: abs_of_def)
  qed (simp add: abs_of_def)
  moreover have "abs_of [] @ ''/'' = ''//''" by (simp add: abs_of_def)
  ultimately show ?thesis using True abs_of_inject [OF assms] by (auto simp: under_def)
next
  case False
  have sp: "splitOn slash (abs_of s) = [] # (if s = [] then [[]] else s)" if "list_all plain_seg s" for s
    using that by (simp add: abs_of_def splitOn_join_plain)
  have "prefix a b" if "prefix a (if b = [] then [[]] else b)"
    using that assms(1) False by (cases b; cases a) (auto simp: plain_seg_def)
  then show ?thesis
    using False assms by (auto simp: under_iff_segments sp split: if_splits)
qed

lemma strip_common_append: "strip_common xs (xs @ ys) = ([], ys)"
  by (induction xs) (cases ys; auto)+

lemma relPath_abs_of:
  assumes "list_all plain_seg a" and "list_all plain_seg b"
  shows "relPath (abs_of a) (abs_of (a @ b)) = (if b = [] then ''.'' else joinWith ''/'' b)"
proof -
  have "list_all plain_seg (a @ b)" using assms by simp
  then show ?thesis
    using assms by (auto simp: relPath_def Let_def cleanPath_abs_of path_segs_abs_of abs_of_inject strip_common_append)
qed

text \<open>A cleaned relative path is some \<open>..\<close> elements and then ordinary ones.\<close>

lemma clean_step_relative:
  assumes "st = rev (replicate n ''..'' @ ss)" and "list_all plain_seg ss" and "slash \<notin> set s"
  shows "\<exists>m ts. clean_step False st s = rev (replicate m ''..'' @ ts) \<and> list_all plain_seg ts"
proof -
  consider (skip) "s = [] \<or> s = ''.''" | (up) "s = ''..''" | (plain) "plain_seg s"
    using assms(3) by (auto simp: plain_seg_def)
  then show ?thesis
  proof cases
    case skip
    with assms show ?thesis by (auto intro!: exI [of _ n] exI [of _ ss])
  next
    case plain
    have "clean_step False st s = rev (replicate n ''..'' @ (ss @ [s]))"
      using assms(1) clean_step_plain [OF plain, of False st] by simp
    moreover have "list_all plain_seg (ss @ [s])" using plain assms(2) by simp
    ultimately show ?thesis by blast
  next
    case up
    show ?thesis
    proof (cases ss rule: rev_cases)
      case Nil
      with up assms(1) have "clean_step False st s = rev (replicate (Suc n) ''..'' @ [])"
        by (cases n) (auto simp: replicate_append_same)
      moreover have "list_all plain_seg []" by simp
      ultimately show ?thesis by blast
    next
      case (snoc ys y)
      with assms(2) have "y \<noteq> ''..''" "list_all plain_seg ys" by (auto simp: plain_seg_def)
      with up snoc assms(1) have "clean_step False st s = rev (replicate n ''..'' @ ys)" by simp
      with \<open>list_all plain_seg ys\<close> show ?thesis by blast
    qed
  qed
qed

lemma foldl_clean_relative:
  "st = rev (replicate n ''..'' @ us) \<Longrightarrow> list_all plain_seg us \<Longrightarrow>
   (\<And>s. s \<in> set ss \<Longrightarrow> slash \<notin> set s) \<Longrightarrow>
   \<exists>m ts. foldl (clean_step False) st ss = rev (replicate m ''..'' @ ts) \<and> list_all plain_seg ts"
proof (induction ss arbitrary: st n us)
  case (Cons s ss)
  obtain m ts where "clean_step False st s = rev (replicate m ''..'' @ ts)" "list_all plain_seg ts"
    using clean_step_relative [OF Cons.prems(1,2) Cons.prems(3) [of s]] by (auto simp del: clean_step.simps)
  then show ?case using Cons.IH Cons.prems(3) by (simp del: clean_step.simps)
qed auto

text \<open>
  The guard that plan validation and the editor apply to a relative path: cleaned, not absolute,
  neither \<open>..\<close> nor below it.  What it means is that the path has no parent segment at all.
\<close>

definition confined_rel :: "string \<Rightarrow> bool" where
  "confined_rel f = (cleanPath f = f \<and> \<not> isAbs f \<and> f \<noteq> ''..'' \<and> \<not> hasPrefix f ''../'')"

lemma confined_rel_segments:
  assumes "confined_rel f" and "f \<noteq> ''.''"
  shows "list_all plain_seg (splitOn slash f) \<and> f \<noteq> []"
proof -
  have ne: "f \<noteq> []" using assms by (auto simp: confined_rel_def cleanPath_def)
  have na: "\<not> isAbs f" using assms by (simp add: confined_rel_def)
  obtain m ts where st: "foldl (clean_step False) [] (splitOn slash f) = rev (replicate m ''..'' @ ts)"
    and ts: "list_all plain_seg ts"
    using foldl_clean_relative [of "[]" 0 "[]" "splitOn slash f"] by (auto dest: splitOn_no_sep)
  define ps where "ps = replicate m ''..'' @ ts"
  have cl: "cleanPath f = (if ps = [] then ''.'' else joinWith ''/'' ps)"
    using ne na st by (auto simp: cleanPath_def Let_def ps_def)
  with assms have f: "f = joinWith ''/'' ps" and psne: "ps \<noteq> []" by (auto simp: confined_rel_def split: if_splits)
  have "m = 0"
  proof (rule ccontr)
    assume "m \<noteq> 0"
    then obtain k where "ps = ''..'' # (replicate k ''..'' @ ts)" unfolding ps_def by (cases m) auto
    then have "f = ''..'' \<or> hasPrefix f ''../''"
      unfolding f by (cases "replicate k ''..'' @ ts") (auto simp: hasPrefix_iff)
    with assms(1) show False by (auto simp: confined_rel_def)
  qed
  with ts psne have "splitOn slash f = ts" unfolding f ps_def by (simp add: splitOn_join_plain)
  with ts ne show ?thesis by simp
qed

section \<open>Walking up to an existing ancestor\<close>

lemma splitOn_snoc_sep: "splitOn c (s @ [c]) = splitOn c s @ [[]]"
  using splitOn_append [of c s "[]"] by simp

definition segs_size :: "string list \<Rightarrow> nat" where
  "segs_size ss = sum_list (map (\<lambda>s. Suc (length s)) ss)"

lemma length_joinWith: "ss \<noteq> [] \<Longrightarrow> Suc (length (joinWith [c] ss)) = segs_size ss"
  by (induction ss rule: induct_list012) (auto simp: segs_size_def)

lemma segs_size_splitOn: "segs_size (splitOn c s) = Suc (length s)"
  using length_joinWith [of "splitOn c s" c] by (simp add: joinWith_splitOn)

lemma clean_step_size: "segs_size (clean_step r st s) \<le> segs_size st + (if s = [] then 0 else Suc (length s))"
  by (auto simp: segs_size_def split: list.splits)

lemma foldl_clean_size:
  "segs_size (foldl (clean_step r) st ss) \<le> segs_size st + segs_size (filter (\<lambda>s. s \<noteq> []) ss)"
proof (induction ss arbitrary: st)
  case (Cons s ss)
  have "segs_size (foldl (clean_step r) (clean_step r st s) ss)
      \<le> segs_size (clean_step r st s) + segs_size (filter (\<lambda>s. s \<noteq> []) ss)" by (rule Cons.IH)
  also have "\<dots> \<le> segs_size st + segs_size (filter (\<lambda>s. s \<noteq> []) (s # ss))"
    using clean_step_size [of r st s] by (auto simp: segs_size_def simp del: clean_step.simps)
  finally show ?case by (simp del: clean_step.simps)
qed simp

lemma segs_size_filter: "segs_size (filter P ss) + length (filter (\<lambda>s. \<not> P s) ss) \<le> segs_size ss"
  by (induction ss) (auto simp: segs_size_def)

lemma segs_size_rev [simp]: "segs_size (rev ss) = segs_size ss"
  by (simp add: segs_size_def rev_map [symmetric] sum_list_rev)

lemma cleanPath_shorter:
  assumes "q \<noteq> []" 
  shows "length (cleanPath (q @ [slash])) < length (q @ [slash])"
proof -
  define p where "p = q @ [slash]"
  define st where "st = foldl (clean_step (isAbs p)) [] (splitOn slash p)"
  have sp: "splitOn slash p = splitOn slash q @ [[]]" by (simp add: p_def splitOn_snoc_sep)
  have total: "segs_size (splitOn slash p) = Suc (length p)" by (rule segs_size_splitOn)
  have empties: "(if isAbs p then 2 else 1) \<le> length (filter (\<lambda>s. \<not> s \<noteq> []) (splitOn slash p))"
  proof (cases "isAbs p")
    case True
    then obtain q' where "q = slash # q'" using assms by (cases q) (auto simp: p_def isAbs_Cons)
    then show ?thesis by (simp add: sp)
  qed (simp add: sp)
  have "segs_size st \<le> segs_size (filter (\<lambda>s. s \<noteq> []) (splitOn slash p))"
    using foldl_clean_size [of "isAbs p" "[]" "splitOn slash p"] by (simp add: st_def segs_size_def)
  then have size: "segs_size st + (if isAbs p then 2 else 1) \<le> Suc (length p)"
    using segs_size_filter [of "\<lambda>s. s \<noteq> []" "splitOn slash p"] total empties by linarith
  have len: "2 \<le> length p" using assms by (cases q) (auto simp: p_def)
  have cl: "cleanPath p = (if isAbs p then slash # joinWith ''/'' (rev st)
                           else if st = [] then ''.'' else joinWith ''/'' (rev st))"
    by (simp add: cleanPath_def st_def Let_def p_def)
  have "length (cleanPath p) < length p"
  proof (cases "st = []")
    case False
    then have "Suc (length (joinWith ''/'' (rev st))) = segs_size st"
      using length_joinWith [of "rev st" slash] by simp
    with size False show ?thesis by (auto simp: cl split: if_splits)
  qed (use len in \<open>auto simp: cl\<close>)
  then show ?thesis by (simp add: p_def)
qed

definition dir_measure :: "string \<Rightarrow> nat" where
  "dir_measure p = (if p = ''.'' then 0 else Suc (length p))"

text \<open>\<^verbatim>\<open>filepath.Dir\<close> makes progress until it reaches its fixed point.\<close>

lemma dirPath_progress: "dirPath p \<noteq> p \<Longrightarrow> dir_measure (dirPath p) < dir_measure p"
proof -
  assume ne: "dirPath p \<noteq> p"
  define q where "q = rev (dropWhile (\<lambda>c. c \<noteq> slash) (rev p))"
  have d: "dirPath p = cleanPath q" by (simp add: dirPath_def q_def)
  have le: "length q \<le> length p" unfolding q_def by (metis length_dropWhile_le length_rev)
  consider (none) "q = []" | (root) "q = ''/''" | (some) r where "q = r @ [slash]" "r \<noteq> []"
  proof (cases "dropWhile (\<lambda>c. c \<noteq> slash) (rev p)")
    case Nil
    then have "q = []" by (simp add: q_def)
    then show thesis by (rule none)
  next
    case (Cons c cs)
    then have "c = slash" using hd_dropWhile [of "\<lambda>c. c \<noteq> slash" "rev p"] by simp
    with Cons have "q = rev cs @ [slash]" by (simp add: q_def)
    then show thesis using root some by (cases "rev cs = []") auto
  qed
  then show ?thesis
  proof cases
    case none
    then have "dirPath p = ''.''" by (simp add: d cleanPath_def)
    with ne show ?thesis by (auto simp: dir_measure_def)
  next
    case root
    then have "dirPath p = ''/''" by (simp add: d cleanPath_rooted abs_of_def)
    moreover have "length p \<noteq> 1"
    proof
      assume "length p = 1"
      then obtain c where "p = [c]" by (cases p) auto
      then show False using root ne calculation by (cases "c = slash") (auto simp: q_def)
    qed
    ultimately show ?thesis using le root by (auto simp: dir_measure_def)
  next
    case some
    then have "length (dirPath p) < length p" using cleanPath_shorter [of r] le d by simp
    moreover have "p \<noteq> ''.''" using some le by auto
    ultimately show ?thesis by (auto simp: dir_measure_def)
  qed
qed

lemma dropWhile_rev_snoc_seg:
  "slash \<notin> set s \<Longrightarrow> dropWhile (\<lambda>c. c \<noteq> slash) (rev (a @ slash # s)) = slash # rev a"
  by (simp add: dropWhile_append)

lemma abs_of_snoc: "abs_of (ss @ [s]) = (if ss = [] then [] else abs_of ss) @ slash # s"
  by (simp add: abs_of_def joinWith_append)

lemma dirPath_abs_of:
  assumes "list_all plain_seg (ss @ [s])"
  shows "dirPath (abs_of (ss @ [s])) = abs_of ss"
proof -
  have s: "slash \<notin> set s" using assms by (simp add: plain_seg_def)
  show ?thesis
  proof (cases "ss = []")
    case False
    have "dirPath (abs_of (ss @ [s])) = cleanPath (abs_of ss @ [slash])"
      using False by (simp add: dirPath_def abs_of_snoc dropWhile_rev_snoc_seg [OF s] del: rev_append)
    also have "\<dots> = abs_of ss"
    proof -
      have "splitOn slash (joinWith ''/'' ss @ [slash]) = ss @ [[]]"
        using False assms by (simp add: splitOn_snoc_sep splitOn_join_plain)
      then show ?thesis
        using assms by (simp add: abs_of_def [of ss] cleanPath_rooted foldl_clean_plain)
    qed
    finally show ?thesis .
  next
    case True
    then show ?thesis
      using dropWhile_rev_snoc_seg [OF s, of "[]"]
      by (simp add: dirPath_def abs_of_def cleanPath_rooted)
  qed
qed

lemma basePath_abs_of:
  assumes "list_all plain_seg (ss @ [s])"
  shows "basePath (abs_of (ss @ [s])) = s"
proof -
  have s: "slash \<notin> set s" "s \<noteq> []" using assms by (auto simp: plain_seg_def)
  then obtain a c where sc: "s = a @ [c]" "c \<noteq> slash" by (cases s rule: rev_cases) auto
  have "dropWhile (\<lambda>c. c = slash) (rev (abs_of (ss @ [s]))) = rev (abs_of (ss @ [s]))"
    by (simp add: abs_of_snoc sc)
  then show ?thesis
    using s by (auto simp: basePath_def abs_of_snoc splitOn_append splitOn_single)
qed

lemma dirPath_root: "dirPath (abs_of []) = abs_of []"
  by (simp add: dirPath_def abs_of_def cleanPath_rooted)

end
