(* ===== verification/Policy.thy ===== *)
theory Policy
  imports Go_Path
begin

text \<open>
  The operator's repository-wide rules: \<^verbatim>\<open>src/internal/policy/policy.go\<close> (protected paths) and
  \<^verbatim>\<open>src/internal/policy/scope.go\<close> (a task's declared scope and the paths whose content must not
  enter a model's context).  The directory listing, the file reads and the YAML decoder are
  arguments of \<open>policy_Load\<close>.  On the platforms the program builds for the separator is \<open>/\<close>, so
  \<^verbatim>\<open>filepath.ToSlash\<close> is the identity.
\<close>

section \<open>Data\<close>

record Rule =
  Rule_Path :: string
  Rule_Reason :: string

record Policy =
  Policy_Name :: string
  Protected :: "Rule list"

record PolicySet =
  Policies :: "Policy list"

record Violation =
  Violation_Path :: string
  Violation_Policy :: string
  Violation_Rule :: string
  Violation_Reason :: string

datatype policy_error =
    NoPolicyName
  | ProtectsNothing string
  | RuleWithoutPath string nat
  | RuleWithoutReason string string
  | RuleBadPattern string string
  | ReadDirFailed
  | ReadFileFailed string
  | NotYaml string
  | InvalidFile string policy_error

section \<open>Validation and loading\<close>

definition rule_Validate :: "string \<Rightarrow> nat \<times> Rule \<Rightarrow> policy_error option" where
  "rule_Validate name ir =
     (case ir of (i, r) \<Rightarrow>
        if isBlank (Rule_Path r) then Some (RuleWithoutPath name (i + 1))
        else if isBlank (Rule_Reason r) then Some (RuleWithoutReason name (Rule_Path r))
        else if goMatch (Rule_Path r) ''probe'' = None then Some (RuleBadPattern name (Rule_Path r))
        else None)"

definition policy_Validate :: "Policy \<Rightarrow> policy_error option" where
  "policy_Validate p =
     (if isBlank (Policy_Name p) then Some NoPolicyName
      else if Protected p = [] then Some (ProtectsNothing (Policy_Name p))
      else first_error (rule_Validate (Policy_Name p)) (enumerate 0 (Protected p)))"

text \<open>What \<^verbatim>\<open>os.ReadDir\<close> answers: each entry with its name and whether it is a directory.\<close>

datatype listing = DirMissing | DirUnreadable | Entries "(string \<times> bool) list"

definition fileExt :: "string \<Rightarrow> string" where
  "fileExt name =
     (let tail = takeWhile (\<lambda>c. c \<noteq> CHR ''.'' \<and> c \<noteq> slash) (rev name) in
      case dropWhile (\<lambda>c. c \<noteq> CHR ''.'' \<and> c \<noteq> slash) (rev name) of
        [] \<Rightarrow> []
      | c # _ \<Rightarrow> if c = CHR ''.'' then c # rev tail else [])"

definition policy_files :: "(string \<times> bool) list \<Rightarrow> string list" where
  "policy_files es =
     sortStrings (map fst (filter (\<lambda>(n, isdir). \<not> isdir \<and> (fileExt n = ''.yaml'' \<or> fileExt n = ''.yml'')) es))"

fun load_files ::
  "(string \<Rightarrow> string option) \<Rightarrow> (string \<Rightarrow> Policy option) \<Rightarrow> string \<Rightarrow> Policy list \<Rightarrow> string list
   \<Rightarrow> policy_error + PolicySet" where
  "load_files readFile unmarshal dir acc [] = Inr \<lparr>Policies = acc\<rparr>"
| "load_files readFile unmarshal dir acc (n # ns) =
     (case readFile (joinPath dir n) of
        None \<Rightarrow> Inl (ReadFileFailed n)
      | Some body \<Rightarrow>
          (case unmarshal body of
             None \<Rightarrow> Inl (NotYaml n)
           | Some p \<Rightarrow>
               (case policy_Validate p of
                  Some e \<Rightarrow> Inl (InvalidFile n e)
                | None \<Rightarrow> load_files readFile unmarshal dir (acc @ [p]) ns)))"

definition policy_Load ::
  "(string \<Rightarrow> listing) \<Rightarrow> (string \<Rightarrow> string option) \<Rightarrow> (string \<Rightarrow> Policy option) \<Rightarrow> string
   \<Rightarrow> policy_error + PolicySet" where
  "policy_Load readDir readFile unmarshal dir =
     (case readDir dir of
        DirMissing \<Rightarrow> Inr \<lparr>Policies = []\<rparr>
      | DirUnreadable \<Rightarrow> Inl ReadDirFailed
      | Entries es \<Rightarrow> load_files readFile unmarshal dir [] (policy_files es))"

section \<open>Protected paths\<close>

definition policy_matches :: "string \<Rightarrow> string \<Rightarrow> bool" where
  "policy_matches pat rel =
     (if hasSuffix pat ''/**'' then
        (let pre = trimSuffix pat ''/**'' in rel = pre \<or> hasPrefix rel (pre @ ''/''))
      else if goMatch pat rel = Some True then True
      else hasPrefix rel (trimSuffix pat ''/'' @ ''/''))"

definition set_hits :: "PolicySet \<Rightarrow> string \<Rightarrow> Violation list" where
  "set_hits s c =
     (let rel = trimPrefix c ''./'' in
      concat (map (\<lambda>p. map (\<lambda>r. \<lparr>Violation_Path = rel, Violation_Policy = Policy_Name p,
                                   Violation_Rule = Rule_Path r, Violation_Reason = Rule_Reason r\<rparr>)
                           (filter (\<lambda>r. policy_matches (Rule_Path r) rel) (Protected p)))
                  (Policies s)))"

definition violation_before :: "Violation \<Rightarrow> Violation \<Rightarrow> bool" where
  "violation_before a b = (Violation_Path a < Violation_Path b)"

definition set_Check :: "PolicySet \<Rightarrow> string list \<Rightarrow> Violation list" where
  "set_Check s changed = stable_sort violation_before (concat (map (set_hits s) changed))"

definition set_Paths :: "PolicySet \<Rightarrow> string list" where
  "set_Paths s = sortStrings (concat (map (\<lambda>p. map Rule_Path (Protected p)) (Policies s)))"

section \<open>Scope\<close>

definition validScope :: "string \<Rightarrow> bool" where
  "validScope pat =
     (if pat = [] \<or> isAbs pat \<or> containsStr pat [backslash] then False
      else if ''..'' \<in> set (splitOn slash pat) then False
      else goMatch pat ''probe'' \<noteq> None)"

fun covers :: "string list \<Rightarrow> string \<Rightarrow> bool" where
  "covers [] rel = False"
| "covers (pat # pats) rel =
     (if \<not> validScope pat then covers pats rel
      else if cleanPath pat = ''.'' \<or> policy_matches (cleanPath pat) rel then True
      else covers pats rel)"

definition sensitive_part :: "string \<Rightarrow> bool" where
  "sensitive_part part =
     (let l = toLower part in
      hasPrefix l ''.env'' \<or> hasSuffix l ''.pem'' \<or> hasSuffix l ''.key'' \<or> containsStr l ''credentials'')"

definition sensitive :: "string \<Rightarrow> bool" where
  "sensitive rel =
     ((\<exists>part \<in> set (splitOn slash rel). sensitive_part part) \<or>
      hasPrefix (toLower rel) ''.agent/secrets'')"

section \<open>What validation and loading establish\<close>

text \<open>A rule that can be applied: it names a path, says why, and its pattern is well formed.\<close>

definition rule_applicable :: "Rule \<Rightarrow> bool" where
  "rule_applicable r =
     (\<not> isBlank (Rule_Path r) \<and> \<not> isBlank (Rule_Reason r) \<and> goMatch (Rule_Path r) ''probe'' \<noteq> None)"

lemma policy_Validate_None_iff:
  "policy_Validate p = None \<longleftrightarrow>
   \<not> isBlank (Policy_Name p) \<and> Protected p \<noteq> [] \<and> (\<forall>r \<in> set (Protected p). rule_applicable r)"
proof -
  have v: "rule_Validate n x = None \<longleftrightarrow> rule_applicable (snd x)" for n x
    by (cases x) (auto simp: rule_Validate_def rule_applicable_def)
  have "set (Protected p) = snd ` set (enumerate 0 (Protected p))"
    by (metis list.set_map map_snd_enumerate)
  then have "(\<forall>x \<in> set (enumerate 0 (Protected p)). rule_Validate (Policy_Name p) x = None) \<longleftrightarrow>
        (\<forall>r \<in> set (Protected p). rule_applicable r)"
    by (auto simp: v)
  then show ?thesis by (auto simp: policy_Validate_def first_error_None_iff)
qed

lemma load_files_Inr:
  "load_files rf um dir acc ns = Inr s \<longleftrightarrow>
   (\<exists>ps. Policies s = acc @ ps \<and> PolicySet.more s = () \<and>
         list_all2 (\<lambda>n p. \<exists>body. rf (joinPath dir n) = Some body \<and> um body = Some p \<and>
                                policy_Validate p = None) ns ps)"
proof (induction ns arbitrary: acc)
  case Nil
  then show ?case by (cases s) auto
next
  case (Cons n ns)
  show ?case
    by (auto simp: Cons.IH list_all2_Cons1 split: option.splits)
qed

text \<open>
  Loading fails closed: when it returns a set at all, the directory was either missing (and the
  set is empty) or it was read, and the set holds exactly one policy per YAML file, in the sorted
  order of the file names, each decoded from that file and each with a name, at least one rule, and
  a path, a reason and a well-formed pattern for every rule.
\<close>

theorem policy_Load_validated:
  assumes "policy_Load rd rf um dir = Inr s"
  shows "(rd dir = DirMissing \<and> Policies s = []) \<or>
    (\<exists>es. rd dir = Entries es \<and>
       list_all2 (\<lambda>n p. \<exists>body. rf (joinPath dir n) = Some body \<and> um body = Some p \<and>
                     \<not> isBlank (Policy_Name p) \<and> Protected p \<noteq> [] \<and>
                     list_all rule_applicable (Protected p))
         (policy_files es) (Policies s))"
proof (cases "rd dir")
  case (Entries es)
  with assms obtain ps where "Policies s = ps"
    "list_all2 (\<lambda>n p. \<exists>body. rf (joinPath dir n) = Some body \<and> um body = Some p \<and> policy_Validate p = None)
       (policy_files es) ps"
    by (auto simp: policy_Load_def load_files_Inr)
  then have "list_all2 (\<lambda>n p. \<exists>body. rf (joinPath dir n) = Some body \<and> um body = Some p \<and>
                     \<not> isBlank (Policy_Name p) \<and> Protected p \<noteq> [] \<and> list_all rule_applicable (Protected p))
         (policy_files es) (Policies s)"
    by (auto simp: policy_Validate_None_iff list_all_iff elim!: list_all2_mono)
  with Entries show ?thesis by blast
qed (use assms in \<open>auto simp: policy_Load_def\<close>)

definition demo_policy :: Policy where
  "demo_policy = \<lparr>Policy_Name = ''ci'', Protected = [\<lparr>Rule_Path = ''ci/**'', Rule_Reason = ''gates''\<rparr>]\<rparr>"

lemma goMatch_ci: "goMatch ''ci/**'' ''probe'' = Some False"
  by code_simp

lemma demo_policy_Validate: "policy_Validate demo_policy = None"
  by (simp add: policy_Validate_None_iff demo_policy_def rule_applicable_def goMatch_ci) code_simp

theorem policy_Load_validated_witness:
  "\<exists>s. policy_Load (\<lambda>_. Entries [(''b.yaml'', False), (''notes'', True)]) (\<lambda>_. Some ''x'')
         (\<lambda>_. Some demo_policy) ''p'' = Inr s \<and> Policies s \<noteq> []"
proof -
  let ?rd = "\<lambda>_::string. Entries [(''b.yaml'', False), (''notes'', True)]"
  have f: "policy_files [(''b.yaml'', False), (''notes'', True)] = [''b.yaml'']" by code_simp
  have "policy_Load ?rd (\<lambda>_. Some ''x'') (\<lambda>_. Some demo_policy) ''p'' = Inr \<lparr>Policies = [demo_policy]\<rparr>"
    by (simp add: policy_Load_def f demo_policy_Validate)
  with policy_Load_validated [OF this] show ?thesis by auto
qed

section \<open>What protection and scope mean\<close>

lemma policy_matches_subtree: "policy_matches (d @ ''/**'') rel \<longleftrightarrow> under d rel"
proof -
  have "hasSuffix (d @ ''/**'') ''/**''" by (auto simp: go_str)
  then show ?thesis by (simp add: policy_matches_def under_def)
qed

lemma policy_matches_literal:
  assumes "literal_pattern p" and "\<not> hasSuffix p ''/''"
  shows "policy_matches p rel \<longleftrightarrow> under p rel"
proof -
  have "\<not> hasSuffix p ''/**''"
  proof
    assume "hasSuffix p ''/**''"
    then have "CHR ''*'' \<in> set p" unfolding hasSuffix_iff by auto
    with assms(1) show False unfolding literal_pattern_def by blast
  qed
  moreover have "trimSuffix p ''/'' = p" using assms(2) by (simp add: trimSuffix_def)
  ultimately show ?thesis
    using assms(1) by (auto simp: policy_matches_def goMatch_literal under_def)
qed

text \<open>
  A rule protects whole subtrees by path segments, however it is written: \<open>d/**\<close> for any
  \<open>d\<close>, and a plain path \<open>d\<close> without metacharacters, match a path exactly when the segments of \<open>d\<close>
  are an initial part of the path's segments, so every descendant at any depth is caught and a
  sibling whose name merely starts the same way is not.
\<close>

theorem protected_subtree:
  "(policy_matches (d @ ''/**'') rel \<longleftrightarrow> prefix (splitOn slash d) (splitOn slash rel)) \<and>
   (literal_pattern d \<and> \<not> hasSuffix d ''/'' \<longrightarrow>
      (policy_matches d rel \<longleftrightarrow> prefix (splitOn slash d) (splitOn slash rel)))"
  by (auto simp: policy_matches_subtree policy_matches_literal under_iff_segments)

theorem protected_subtree_witness:
  "policy_matches ''ci/x/**'' ''ci/x/y/z'' \<and> policy_matches ''ci'' ''ci/y/z'' \<and> \<not> policy_matches ''ci'' ''ci-old/y''"
  using protected_subtree [of "''ci/x''" "''ci/x/y/z''"] protected_subtree [of "''ci''" "''ci/y/z''"]
    protected_subtree [of "''ci''" "''ci-old/y''"]
  by (simp add: literal_pattern_def hasSuffix_def)

lemma violation_order: "weak_order violation_before"
  unfolding weak_order_def violation_before_def by (auto dest: less_trans)

text \<open>
  \<open>Check\<close> reports exactly the protected changes: a violation for each changed path, policy and
  rule whose pattern matches the path, and no other; the report is in path order.  It does not
  depend on the task's scope, and it is empty only when no rule of any policy matches a change.
\<close>

theorem set_Check_exact:
  "set (set_Check s changed) =
     {\<lparr>Violation_Path = trimPrefix c ''./'', Violation_Policy = Policy_Name p,
       Violation_Rule = Rule_Path r, Violation_Reason = Rule_Reason r\<rparr> | c p r.
        c \<in> set changed \<and> p \<in> set (Policies s) \<and> r \<in> set (Protected p) \<and>
        policy_matches (Rule_Path r) (trimPrefix c ''./'')} \<and>
   sorted (map Violation_Path (set_Check s changed))"
proof
  have "sorted_by violation_before (set_Check s changed)"
    unfolding set_Check_def by (rule sorted_by_stable_sort [OF violation_order])
  then show "sorted (map Violation_Path (set_Check s changed))"
    by (simp add: sorted_by_def violation_before_def not_less sorted_map)
qed (auto simp: set_Check_def set_hits_def Let_def)

lemma covers_iff:
  "covers scope rel \<longleftrightarrow>
   (\<exists>pat \<in> set scope. validScope pat \<and> (cleanPath pat = ''.'' \<or> policy_matches (cleanPath pat) rel))"
  by (induction scope) auto

text \<open>
  What a client of a scope check relies on: an empty scope grants nothing, and a longer scope never
  grants less.
\<close>

locale scope_check =
  fixes granted :: "string list \<Rightarrow> string \<Rightarrow> bool"
  assumes granted_Nil: "\<not> granted [] rel"
    and granted_mono: "set a \<subseteq> set b \<Longrightarrow> granted a rel \<Longrightarrow> granted b rel"
begin

lemma granted_set: "set a = set b \<Longrightarrow> granted a rel = granted b rel"
  using granted_mono by blast

lemma granted_append: "granted a rel \<or> granted b rel \<Longrightarrow> granted (a @ b) rel"
  using granted_mono [of a "a @ b"] granted_mono [of b "a @ b"] by auto

lemma granted_nonempty: "granted a rel \<Longrightarrow> a \<noteq> []"
  using granted_Nil by auto

end

interpretation cov: scope_check covers
  by unfold_locales (auto simp: covers_iff)

lemma toLower_append_slash: "toLower (d @ slash # x) = toLower d @ slash # toLower x"
proof (induction d rule: toLower.induct)
  case (1 d)
  have nil: "toLower [] = []" by (simp add: toLower.simps)
  have sl: "toLower (slash # x) = slash # toLower x"
    by (subst toLower.simps) (simp add: byte_at_def ascii_lower_def)
  show ?case
  proof (cases d)
    case Nil
    then show ?thesis by (simp add: nil sl)
  next
    case (Cons a d')
    have b: "byte_at (d @ slash # x) 0 = byte_at d 0"
      using Cons by (simp add: byte_at_def)
    have k: "(byte_at (d @ slash # x) 0 = 0xE2 \<and> byte_at (d @ slash # x) 1 = 0x84 \<and> byte_at (d @ slash # x) 2 = 0xAA)
        \<longleftrightarrow> (byte_at d 0 = 0xE2 \<and> byte_at d 1 = 0x84 \<and> byte_at d 2 = 0xAA)"
      using Cons by (cases d'; cases "tl d'") (auto simp: byte_at_def)
    have i: "(byte_at (d @ slash # x) 0 = 0xC4 \<and> byte_at (d @ slash # x) 1 = 0xB0)
        \<longleftrightarrow> (byte_at d 0 = 0xC4 \<and> byte_at d 1 = 0xB0)"
      using Cons by (cases d') (auto simp: byte_at_def)
    have l3: "3 \<le> length d" if "byte_at d 0 = 0xE2 \<and> byte_at d 1 = 0x84 \<and> byte_at d 2 = 0xAA"
      using that by (auto simp: byte_at_def split: if_splits)
    have l2: "2 \<le> length d" if "byte_at d 0 = 0xC4 \<and> byte_at d 1 = 0xB0"
      using that by (auto simp: byte_at_def split: if_splits)
    have ne: "d \<noteq> []" using Cons by simp
    show ?thesis
      using "1.IH" ne l3 l2 unfolding toLower.simps [of d] toLower.simps [of "d @ slash # x"] k i
      by (auto simp: Cons)
  qed
qed

text \<open>
  What must not reach a model stays hidden with everything beneath it: if a path is sensitive,
  every path under it is sensitive too.
\<close>

theorem sensitive_under:
  assumes "sensitive d" and "under d rel"
  shows "sensitive rel"
proof (cases "rel = d")
  case False
  with assms(2) obtain x where rel: "rel = d @ slash # x" by (auto simp: under_def hasPrefix_iff)
  show ?thesis
  proof (cases "hasPrefix (toLower d) ''.agent/secrets''")
    case True
    then have "hasPrefix (toLower rel) ''.agent/secrets''"
      unfolding rel toLower_append_slash by (rule hasPrefix_extend)
    then show ?thesis by (simp add: sensitive_def)
  next
    case False
    with assms(1) show ?thesis unfolding rel by (auto simp: sensitive_def splitOn_append)
  qed
qed (use assms in simp)

theorem sensitive_under_witness: "sensitive ''.env.d/local/config''"
proof (rule sensitive_under)
  show "sensitive ''.env.d''" by code_simp
  show "under ''.env.d'' ''.env.d/local/config''" by code_simp
qed

end
