(* ===== verification/Worktree.thy ===== *)
theory Worktree
  imports Policy
begin

text \<open>
  A task's checkout: \<^verbatim>\<open>src/internal/worktree/worktree.go\<close>.  Git and the file system are arguments.
  Git is a function on an abstract world \<open>'w\<close> that answers the output of a command (with the
  trailing newlines cut) or fails; symbolic-link resolution is \<open>evalSymlinks\<close> and \<open>isSymlink\<close>
  answers whether \<^verbatim>\<open>os.Lstat\<close> finds a symbolic link.
\<close>

section \<open>Confinement\<close>

datatype fs_error = NotExist | FsFailure

datatype wt_error =
    OutsideEmpty | OutsideAbsolute | OutsideRoot | OutsideViaSymlink | OutsideDangling
  | FsErr fs_error | GitFailed | NotARepository | WorktreeExists | WorktreeMissing | ProtectedSource
  | RemoveFailed

record FS =
  evalSymlinks :: "string \<Rightarrow> fs_error + string"
  isSymlink :: "string \<Rightarrow> bool"

definition inside :: "string \<Rightarrow> string \<Rightarrow> bool" where
  "inside root p = (p = root \<or> hasPrefix p (root @ ''/''))"

text \<open>
  The loop of \<^verbatim>\<open>Resolve\<close>: walk up to the nearest ancestor that exists, collecting the names below
  it (the suffix, innermost first in the source; appended here in the same order).
\<close>

function resolve_loop :: "FS \<Rightarrow> string \<Rightarrow> string \<Rightarrow> string list \<Rightarrow> wt_error + string" where
  "resolve_loop fs root ancestor sufx =
     (case evalSymlinks fs ancestor of
        Inr resolved \<Rightarrow>
          if \<not> inside root resolved then Inl OutsideViaSymlink
          else Inr (foldl joinPath resolved (rev sufx))
      | Inl FsFailure \<Rightarrow> Inl (FsErr FsFailure)
      | Inl NotExist \<Rightarrow>
          if isSymlink fs ancestor then Inl OutsideDangling
          else if dirPath ancestor = ancestor then Inl (FsErr NotExist)
          else resolve_loop fs root (dirPath ancestor) (sufx @ [basePath ancestor]))"
  by pat_completeness auto
termination
  by (relation "measure (\<lambda>(fs, root, ancestor, sufx). dir_measure ancestor)")
     (auto intro: dirPath_progress)

declare resolve_loop.simps [simp del]

definition Resolve :: "FS \<Rightarrow> string \<Rightarrow> string \<Rightarrow> wt_error + string" where
  "Resolve fs worktreePath rel =
     (if rel = [] then Inl OutsideEmpty
      else if isAbs rel then Inl OutsideAbsolute
      else case evalSymlinks fs worktreePath of
             Inl e \<Rightarrow> Inl (FsErr e)
           | Inr root \<Rightarrow>
               (let full = joinPath root rel in
                if \<not> inside root full then Inl OutsideRoot else resolve_loop fs root full []))"

definition ReadWithin :: "FS \<Rightarrow> (string \<Rightarrow> fs_error + string) \<Rightarrow> string \<Rightarrow> string \<Rightarrow> wt_error + string" where
  "ReadWithin fs readFile worktreePath rel =
     (case Resolve fs worktreePath rel of
        Inl e \<Rightarrow> Inl e
      | Inr full \<Rightarrow> (case readFile full of Inl e \<Rightarrow> Inl (FsErr e) | Inr body \<Rightarrow> Inr body))"

text \<open>
  The other confined operations: writing makes the parent directories first; \<open>mkdirs\<close>, \<open>writeFile\<close>,
  \<open>stat\<close> and \<open>readDir\<close> are the file system's.
\<close>

definition WriteWithin ::
  "FS \<Rightarrow> (string \<Rightarrow> 'w \<Rightarrow> fs_error option \<times> 'w) \<Rightarrow> (string \<Rightarrow> string \<Rightarrow> 'w \<Rightarrow> fs_error option \<times> 'w)
   \<Rightarrow> string \<Rightarrow> string \<Rightarrow> string \<Rightarrow> 'w \<Rightarrow> wt_error option \<times> 'w" where
  "WriteWithin fs mkdirs writeFile worktreePath rel body w =
     (case Resolve fs worktreePath rel of
        Inl e \<Rightarrow> (Some e, w)
      | Inr full \<Rightarrow>
          (case mkdirs (dirPath full) w of
             (Some e, w1) \<Rightarrow> (Some (FsErr e), w1)
           | (None, w1) \<Rightarrow>
               (case writeFile full body w1 of
                  (Some e, w2) \<Rightarrow> (Some (FsErr e), w2)
                | (None, w2) \<Rightarrow> (None, w2))))"

definition StatWithin :: "FS \<Rightarrow> (string \<Rightarrow> fs_error + 'i) \<Rightarrow> string \<Rightarrow> string \<Rightarrow> wt_error + 'i" where
  "StatWithin fs stat worktreePath rel =
     (case Resolve fs worktreePath rel of
        Inl e \<Rightarrow> Inl e
      | Inr full \<Rightarrow> (case stat full of Inl e \<Rightarrow> Inl (FsErr e) | Inr i \<Rightarrow> Inr i))"

definition ListWithin :: "FS \<Rightarrow> (string \<Rightarrow> fs_error + 'd list) \<Rightarrow> string \<Rightarrow> string \<Rightarrow> wt_error + 'd list" where
  "ListWithin fs readDir worktreePath rel =
     (case Resolve fs worktreePath rel of
        Inl e \<Rightarrow> Inl e
      | Inr full \<Rightarrow> (case readDir full of Inl e \<Rightarrow> Inl (FsErr e) | Inr ds \<Rightarrow> Inr ds))"

section \<open>The checkout and its manager\<close>

record Worktree =
  wt_ID :: string
  wt_Path :: string
  wt_Branch :: string
  wt_Base :: string
  wt_Repo :: string

type_synonym 'w git = "string \<Rightarrow> string list \<Rightarrow> 'w \<Rightarrow> string option \<times> 'w"

abbreviation newline :: char where "newline \<equiv> CHR 0x0A"

definition IsRepository :: "'w git \<Rightarrow> string \<Rightarrow> 'w \<Rightarrow> bool \<times> 'w" where
  "IsRepository git p w =
     (case git p [''rev-parse'', ''--is-inside-work-tree''] w of
        (out, w') \<Rightarrow> ((case out of None \<Rightarrow> False | Some o' \<Rightarrow> trimSpace o' = ''true''), w'))"

definition wt_Create ::
  "'w git \<Rightarrow> (string \<Rightarrow> 'w \<Rightarrow> bool) \<Rightarrow> string \<Rightarrow> string \<Rightarrow> string \<Rightarrow> 'w \<Rightarrow> (wt_error + Worktree) \<times> 'w" where
  "wt_Create git statOk root repo taskID w =
     (case IsRepository git repo w of
        (False, w1) \<Rightarrow> (Inl NotARepository, w1)
      | (True, w1) \<Rightarrow>
          (case git repo [''rev-parse'', ''HEAD''] w1 of
             (None, w2) \<Rightarrow> (Inl GitFailed, w2)
           | (Some base, w2) \<Rightarrow>
               (let tid = ''wt-'' @ taskID; branch = ''le/task/'' @ taskID; p = joinPath root tid in
                if statOk p w2 then (Inl WorktreeExists, w2)
                else let w3 = snd (git repo [''worktree'', ''prune''] w2) in
                     (case git repo [''worktree'', ''add'', ''-b'', branch, p, base] w3 of
                        (None, w4) \<Rightarrow> (Inl GitFailed, w4)
                      | (Some _, w4) \<Rightarrow>
                          (Inr \<lparr>wt_ID = tid, wt_Path = p, wt_Branch = branch, wt_Base = base, wt_Repo = repo\<rparr>, w4)))))"

definition wt_Open ::
  "'w git \<Rightarrow> (string \<Rightarrow> 'w \<Rightarrow> bool) \<Rightarrow> string \<Rightarrow> string \<Rightarrow> string \<Rightarrow> 'w \<Rightarrow> (wt_error + Worktree) \<times> 'w" where
  "wt_Open git statOk root repo taskID w =
     (let tid = ''wt-'' @ taskID; p = joinPath root tid in
      if \<not> statOk p w then (Inl WorktreeMissing, w)
      else case git p [''rev-parse'', ''HEAD''] w of
             (out, w') \<Rightarrow>
               (Inr \<lparr>wt_ID = tid, wt_Path = p, wt_Branch = ''le/task/'' @ taskID,
                     wt_Base = (case out of None \<Rightarrow> [] | Some b \<Rightarrow> b), wt_Repo = repo\<rparr>, w'))"

definition wt_Remove ::
  "'w git \<Rightarrow> (string \<Rightarrow> 'w \<Rightarrow> bool \<times> 'w) \<Rightarrow> Worktree option \<Rightarrow> bool \<Rightarrow> 'w \<Rightarrow> wt_error option \<times> 'w" where
  "wt_Remove git rmTree wto keepBranch w =
     (case wto of
        None \<Rightarrow> (None, w)
      | Some wt \<Rightarrow>
          (let finish = (\<lambda>v. (None, if keepBranch then v else snd (git (wt_Repo wt) [''branch'', ''-D'', wt_Branch wt] v))) in
           case git (wt_Repo wt) [''worktree'', ''remove'', ''--force'', wt_Path wt] w of
             (Some _, w1) \<Rightarrow> finish w1
           | (None, w1) \<Rightarrow>
               (case rmTree (wt_Path wt) w1 of
                  (False, w2) \<Rightarrow> (Some RemoveFailed, w2)
                | (True, w2) \<Rightarrow> finish (snd (git (wt_Repo wt) [''worktree'', ''prune''] w2)))))"

definition commit_args :: "string \<Rightarrow> string list" where
  "commit_args msg =
     [''-c'', ''user.name=local-engineer'', ''-c'', ''user.email=le@localhost'', ''commit'', ''-q'', ''-m'', msg]"

definition wt_Commit :: "'w git \<Rightarrow> Worktree \<Rightarrow> string \<Rightarrow> 'w \<Rightarrow> (wt_error + bool) \<times> 'w" where
  "wt_Commit git wt msg w =
     (case git (wt_Path wt) [''add'', ''-A''] w of
        (None, w1) \<Rightarrow> (Inl GitFailed, w1)
      | (Some _, w1) \<Rightarrow>
          (case git (wt_Path wt) [''diff'', ''--cached'', ''--quiet''] w1 of
             (Some _, w2) \<Rightarrow> (Inr False, w2)
           | (None, w2) \<Rightarrow>
               (case git (wt_Path wt) (commit_args msg) w2 of
                  (None, w3) \<Rightarrow> (Inl GitFailed, w3)
                | (Some _, w3) \<Rightarrow> (Inr True, w3))))"

definition wt_ReadBase :: "FS \<Rightarrow> 'w git \<Rightarrow> Worktree \<Rightarrow> string \<Rightarrow> 'w \<Rightarrow> (wt_error + string option) \<times> 'w" where
  "wt_ReadBase fs git wt rel w =
     (case Resolve fs (wt_Path wt) rel of
        Inl e \<Rightarrow> (Inl e, w)
      | Inr _ \<Rightarrow>
          if sensitive rel then (Inl ProtectedSource, w)
          else (case git (wt_Path wt) [''ls-tree'', ''--name-only'', wt_Base wt, ''--'', rel] w of
                  (None, w1) \<Rightarrow> (Inl GitFailed, w1)
                | (Some listed, w1) \<Rightarrow>
                    (if listed = [] then (Inr None, w1)
                     else case git (wt_Path wt) [''show'', wt_Base wt @ '':'' @ rel] w1 of
                            (None, w2) \<Rightarrow> (Inl GitFailed, w2)
                          | (Some body, w2) \<Rightarrow> (Inr (Some body), w2))))"

definition wt_Diff :: "'w git \<Rightarrow> Worktree \<Rightarrow> 'w \<Rightarrow> (wt_error + string) \<times> 'w" where
  "wt_Diff git wt w =
     (case git (wt_Path wt) [''add'', ''-A''] w of
        (None, w1) \<Rightarrow> (Inl GitFailed, w1)
      | (Some _, w1) \<Rightarrow>
          (case git (wt_Path wt) [''diff'', ''--cached'', wt_Base wt] w1 of
             (None, w2) \<Rightarrow> (Inl GitFailed, w2)
           | (Some out, w2) \<Rightarrow> (Inr out, w2)))"

definition parse_changed :: "string \<Rightarrow> string list" where
  "parse_changed out = filter (\<lambda>p. p \<noteq> []) (map trimSpace (splitOn newline out))"

definition wt_ChangedFiles :: "'w git \<Rightarrow> Worktree \<Rightarrow> 'w \<Rightarrow> (wt_error + string list) \<times> 'w" where
  "wt_ChangedFiles git wt w =
     (case git (wt_Path wt) [''add'', ''-A''] w of
        (None, w1) \<Rightarrow> (Inl GitFailed, w1)
      | (Some _, w1) \<Rightarrow>
          (case git (wt_Path wt) [''diff'', ''--cached'', ''--name-only'', wt_Base wt] w1 of
             (None, w2) \<Rightarrow> (Inl GitFailed, w2)
           | (Some out, w2) \<Rightarrow> (Inr (parse_changed out), w2)))"

definition wt_OutOfScope :: "'w git \<Rightarrow> Worktree \<Rightarrow> string list \<Rightarrow> 'w \<Rightarrow> (wt_error + string list) \<times> 'w" where
  "wt_OutOfScope git wt allowed w =
     (case wt_ChangedFiles git wt w of
        (Inl e, w1) \<Rightarrow> (Inl e, w1)
      | (Inr changed, w1) \<Rightarrow>
          (Inr (if allowed = [] then [] else filter (\<lambda>f. \<not> covers allowed f) changed), w1))"

definition wt_Reset :: "'w git \<Rightarrow> Worktree \<Rightarrow> 'w \<Rightarrow> wt_error option \<times> 'w" where
  "wt_Reset git wt w =
     (case git (wt_Path wt) [''reset'', ''--hard'', wt_Base wt] w of
        (None, w1) \<Rightarrow> (Some GitFailed, w1)
      | (Some _, w1) \<Rightarrow>
          (case git (wt_Path wt) [''clean'', ''-fd''] w1 of
             (None, w2) \<Rightarrow> (Some GitFailed, w2)
           | (Some _, w2) \<Rightarrow> (None, w2)))"

text \<open>\<^verbatim>\<open>Rebase\<close> returns the checkout too, since it moves its base commit.\<close>

definition wt_Rebase :: "'w git \<Rightarrow> Worktree \<Rightarrow> 'w \<Rightarrow> (wt_error + Worktree) \<times> 'w" where
  "wt_Rebase git wt w =
     (case git (wt_Path wt) [''add'', ''-A''] w of
        (None, w1) \<Rightarrow> (Inl GitFailed, w1)
      | (Some _, w1) \<Rightarrow>
          (case git (wt_Path wt) [''diff'', ''--cached'', ''--quiet''] w1 of
             (Some _, w2) \<Rightarrow> (Inr wt, w2)
           | (None, w2) \<Rightarrow>
               (case git (wt_Path wt) (commit_args ''le: baseline (the operator's uncommitted state)'') w2 of
                  (None, w3) \<Rightarrow> (Inl GitFailed, w3)
                | (Some _, w3) \<Rightarrow>
                    (case git (wt_Path wt) [''rev-parse'', ''HEAD''] w3 of
                       (None, w4) \<Rightarrow> (Inl GitFailed, w4)
                     | (Some head, w4) \<Rightarrow> (Inr (wt\<lparr>wt_Base := head\<rparr>), w4)))))"

section \<open>What confinement guarantees\<close>

text \<open>
  The documented behaviour of \<^verbatim>\<open>filepath.EvalSymlinks\<close>: its result is a cleaned path, absolute when
  its argument is.
\<close>

definition fs_documented :: "FS \<Rightarrow> bool" where
  "fs_documented fs = (\<forall>p q. isAbs p \<longrightarrow> evalSymlinks fs p = Inr q \<longrightarrow> isAbs q \<and> cleanPath q = q)"

lemma fs_documentedD:
  "fs_documented fs \<Longrightarrow> isAbs p \<Longrightarrow> evalSymlinks fs p = Inr q \<Longrightarrow> \<exists>ss. list_all plain_seg ss \<and> q = abs_of ss"
  by (metis cleanPath_abs fs_documented_def)

lemma isAbs_abs_of [simp]: "isAbs (abs_of ss)"
  by (simp add: isAbs_Cons abs_of_def)

lemma inside_under: "inside root p = under root p"
  by (simp add: inside_def under_def)

lemma foldl_joinPath_plain:
  "list_all plain_seg ss \<Longrightarrow> list_all plain_seg ts \<Longrightarrow> foldl joinPath (abs_of ss) ts = abs_of (ss @ ts)"
  by (induction ts arbitrary: ss) (simp_all add: joinPath_plain)

lemma resolve_hit:
  assumes "fs_documented fs" and "list_all plain_seg sufx" and "list_all plain_seg rs"
    and "rs \<noteq> [] \<or> sufx = []"
    and "evalSymlinks fs (abs_of as) = Inr q" and "resolve_loop fs (abs_of rs) (abs_of as) sufx = Inr full"
  shows "\<exists>ts. list_all plain_seg ts \<and> full = abs_of ts \<and> inside (abs_of rs) full"
proof -
  obtain qs where q: "list_all plain_seg qs" "q = abs_of qs"
    using fs_documentedD [OF assms(1) _ assms(5)] by auto
  have "inside (abs_of rs) q \<and> full = foldl joinPath q (rev sufx)"
    using assms(6) unfolding resolve_loop.simps [of fs "abs_of rs" "abs_of as"] assms(5)
    by (simp split: if_splits)
  then have "inside (abs_of rs) (abs_of qs)" and full: "full = abs_of (qs @ rev sufx)"
    using q assms(2) by (auto simp: foldl_joinPath_plain)
  then have "inside (abs_of rs) (abs_of (qs @ rev sufx))"
    using q(1) assms(2-4) by (auto simp: inside_under under_abs_of prefix_append)
  then show ?thesis unfolding full using q(1) assms(2) by (intro exI [of _ "qs @ rev sufx"]) simp
qed

lemma resolve_miss:
  assumes "list_all plain_seg (as @ [a])" and "evalSymlinks fs (abs_of (as @ [a])) = Inl e"
    and "resolve_loop fs root (abs_of (as @ [a])) sufx = Inr full"
  shows "resolve_loop fs root (abs_of as) (sufx @ [a]) = Inr full"
  using assms(3)
  unfolding resolve_loop.simps [of fs root "abs_of (as @ [a])"] assms(2)
    dirPath_abs_of [OF assms(1)] basePath_abs_of [OF assms(1)]
  by (simp split: fs_error.splits if_splits)

lemma resolve_miss_root: "evalSymlinks fs (abs_of []) = Inl e \<Longrightarrow> resolve_loop fs root (abs_of []) sufx \<noteq> Inr full"
  by (simp add: resolve_loop.simps [of fs root "abs_of []"] dirPath_root split: fs_error.splits)

lemma resolve_loop_inside:
  assumes "fs_documented fs" and "list_all plain_seg rs"
  shows "list_all plain_seg as \<Longrightarrow> list_all plain_seg sufx \<Longrightarrow> rs \<noteq> [] \<or> as @ rev sufx = [] \<Longrightarrow>
    resolve_loop fs (abs_of rs) (abs_of as) sufx = Inr full \<Longrightarrow>
    \<exists>ts. list_all plain_seg ts \<and> full = abs_of ts \<and> inside (abs_of rs) full"
proof (induction as arbitrary: sufx rule: rev_induct)
  case Nil
  show ?case
  proof (cases "evalSymlinks fs (abs_of [])")
    case (Inr q)
    from Nil.prems(3) have "rs \<noteq> [] \<or> sufx = []" by simp
    from resolve_hit [OF assms(1) Nil.prems(2) assms(2) this Inr Nil.prems(4)] show ?thesis .
  qed (use resolve_miss_root Nil.prems in blast)
next
  case (snoc a as)
  then have rs: "rs \<noteq> []" by simp
  show ?case
  proof (cases "evalSymlinks fs (abs_of (as @ [a]))")
    case (Inr q)
    from resolve_hit [OF assms(1) snoc.prems(2) assms(2) disjI1 [OF rs] Inr snoc.prems(4)] show ?thesis .
  next
    case (Inl e)
    from resolve_miss [OF snoc.prems(1) Inl snoc.prems(4)] snoc.IH [of "sufx @ [a]"] snoc.prems(1,2) rs
    show ?thesis by simp
  qed
qed

lemma Resolve_inside:
  assumes "fs_documented fs" and "isAbs wtp" and "Resolve fs wtp rel = Inr full"
  shows "\<exists>rs ts. evalSymlinks fs wtp = Inr (abs_of rs) \<and> list_all plain_seg rs \<and>
    list_all plain_seg ts \<and> full = abs_of ts \<and> inside (abs_of rs) full"
proof -
  from assms(3) obtain root where r: "rel \<noteq> []" "\<not> isAbs rel" "evalSymlinks fs wtp = Inr root"
    "inside root (joinPath root rel)" "resolve_loop fs root (joinPath root rel) [] = Inr full"
    by (auto simp: Resolve_def Let_def split: if_splits sum.splits)
  obtain rs where rs: "list_all plain_seg rs" "root = abs_of rs"
    using fs_documentedD [OF assms(1,2) r(3)] by auto
  obtain as where as: "list_all plain_seg as" "joinPath root rel = abs_of as"
    using joinPath_abs_shape [OF rs(1) r(1)] rs(2) by auto
  have "rs \<noteq> [] \<or> as @ rev [] = []"
    using r(4) rs as by (auto simp: inside_under under_abs_of)
  from resolve_loop_inside [OF assms(1) rs(1) as(1) _ this] r(3,5) rs as show ?thesis by auto
qed

text \<open>
  C15. A path a model supplied cannot leave the checkout.  Whenever \<^verbatim>\<open>Resolve\<close> answers a path, it is
  the canonical checkout root itself or a path below it, absolute and cleaned: none of its elements
  is \<open>..\<close> or \<open>.\<close>, although the argument, and any symbolic link on the way, may hold anything.
\<close>

theorem resolve_confined:
  assumes "fs_documented fs" and "isAbs wtp" and "Resolve fs wtp rel = Inr full"
  shows "\<exists>root. evalSymlinks fs wtp = Inr root \<and> prefix (splitOn slash root) (splitOn slash full) \<and>
    isAbs full \<and> cleanPath full = full \<and> ''..'' \<notin> set (splitOn slash full)"
proof -
  obtain rs ts where *: "evalSymlinks fs wtp = Inr (abs_of rs)" "list_all plain_seg ts" "full = abs_of ts"
    "inside (abs_of rs) full"
    using Resolve_inside [OF assms] by blast
  have "''..'' \<notin> set (splitOn slash full)"
    using *(2) unfolding *(3) abs_of_def by (cases "ts = []") (auto simp: splitOn_join_plain list_all_iff plain_seg_def)
  with * show ?thesis by (auto simp: inside_under under_iff_segments cleanPath_abs_of)
qed

text \<open>A file system with one symbolic link out of the checkout and one inside it.\<close>

definition demo_fs :: FS where
  "demo_fs = \<lparr>evalSymlinks = (\<lambda>p. if p = ''/w'' then Inr ''/w''
                                 else if p = ''/w/out'' then Inr ''/etc''
                                 else if p = ''/w/lib'' then Inr ''/w/src''
                                 else Inl NotExist), isSymlink = (\<lambda>_. False)\<rparr>"

lemma demo_fs_documented: "fs_documented demo_fs"
proof -
  have "cleanPath ''/w'' = ''/w''" "cleanPath ''/etc'' = ''/etc''" "cleanPath ''/w/src'' = ''/w/src''"
    by code_simp+
  then show ?thesis by (simp add: fs_documented_def demo_fs_def isAbs_def)
qed

theorem resolve_confined_witness:
  "Resolve demo_fs ''/w'' ''lib/new/x.go'' = Inr ''/w/src/new/x.go'' \<and>
   prefix (splitOn slash ''/w'') (splitOn slash ''/w/src/new/x.go'') \<and>
   Resolve demo_fs ''/w'' ''out/passwd'' = Inl OutsideViaSymlink"
proof -
  have r: "Resolve demo_fs ''/w'' ''lib/new/x.go'' = Inr ''/w/src/new/x.go''"
    and o: "Resolve demo_fs ''/w'' ''out/passwd'' = Inl OutsideViaSymlink" by code_simp+
  have "isAbs ''/w''" and e: "evalSymlinks demo_fs ''/w'' = Inr ''/w''" by code_simp+
  with resolve_confined [OF demo_fs_documented this(1) r] r o show ?thesis by auto
qed

end
