(* ===== verification/Memory.thy ===== *)
theory Memory
  imports Worktree
begin

text \<open>
  The durable notes of a repository: \<^verbatim>\<open>memory.go\<close>, \<^verbatim>\<open>lessons.go\<close> and \<^verbatim>\<open>project.go\<close> under
  \<^verbatim>\<open>src/internal/memory\<close>.  Files are reached through the record \<open>MemFS\<close> over a world \<open>'w\<close>; the YAML library
  is its \<open>mf_marshal\<close> and \<open>mf_unmarshal\<close>.  Times are nanoseconds since the epoch.
\<close>

section \<open>Notes\<close>

definition KindIntent :: string where "KindIntent = ''intent''"
definition KindObservation :: string where "KindObservation = ''observation''"
definition KindAdvice :: string where "KindAdvice = ''advice''"

definition note_Kinds :: "string list" where
  "note_Kinds = [KindIntent, KindObservation, KindAdvice]"

definition kind_Valid :: "string \<Rightarrow> bool" where
  "kind_Valid k = list_ex (\<lambda>known. k = known) note_Kinds"

lemmas note_kinds = KindIntent_def KindObservation_def KindAdvice_def note_Kinds_def

record Provenance =
  pv_Source :: string
  pv_Evidence :: string
  pv_At :: int

record Note =
  nt_ID :: string
  nt_Kind :: string
  nt_Text :: string
  nt_Provenance :: Provenance
  nt_Tags :: "string list"

record Caps =
  PerKind :: int
  MaxTextBytes :: int

definition DefaultCaps :: Caps where
  "DefaultCaps = \<lparr>PerKind = 50, MaxTextBytes = 1000\<rparr>"

datatype mem_error =
    NotANoteKind string | NeedsText | TooLong int int | NoProvenance | MemFs fs_error | Unreadable_notes string | DuplicateID string
  | MarshalNotes | NotConfirmed | NoVersion | NewerVersion int | ImportFailed mem_error

definition note_Validate :: "Caps \<Rightarrow> Note \<Rightarrow> mem_error option" where
  "note_Validate caps n =
     (if \<not> kind_Valid (nt_Kind n) then Some (NotANoteKind (nt_Kind n))
      else if trimSpace (nt_Text n) = [] then Some NeedsText
      else if MaxTextBytes caps > 0 \<and> int (length (nt_Text n)) > MaxTextBytes caps then Some (TooLong (int (length (nt_Text n))) (MaxTextBytes caps))
      else if trimSpace (pv_Source (nt_Provenance n)) = [] then Some NoProvenance
      else None)"

section \<open>The store\<close>

record 'w MemFS =
  mf_read :: "'w \<Rightarrow> string \<Rightarrow> fs_error + string"
  mf_mkdirs :: "string \<Rightarrow> 'w \<Rightarrow> fs_error option \<times> 'w"
  mf_write :: "string \<Rightarrow> string \<Rightarrow> 'w \<Rightarrow> fs_error option \<times> 'w"
  mf_rename :: "string \<Rightarrow> string \<Rightarrow> 'w \<Rightarrow> fs_error option \<times> 'w"
  mf_marshal :: "Note list \<Rightarrow> string option"
  mf_unmarshal :: "string \<Rightarrow> Note list option"

record MemStore =
  ms_dir :: string
  ms_caps :: Caps

definition mem_Open :: "string \<Rightarrow> Caps \<Rightarrow> MemStore" where
  "mem_Open repoRoot caps =
     \<lparr>ms_dir = joinPath repoRoot ''.le/memory'',
      ms_caps = \<lparr>PerKind = (if PerKind caps \<le> 0 then PerKind DefaultCaps else PerKind caps),
                 MaxTextBytes = (if MaxTextBytes caps \<le> 0 then MaxTextBytes DefaultCaps else MaxTextBytes caps)\<rparr>\<rparr>"

definition mem_path :: "MemStore \<Rightarrow> string \<Rightarrow> string" where
  "mem_path s k = joinPath (ms_dir s) (k @ ''.yaml'')"

definition before :: "Note \<Rightarrow> Note \<Rightarrow> bool" where
  "before a b = (pv_At (nt_Provenance a) < pv_At (nt_Provenance b))"

definition mem_List :: "'w MemFS \<Rightarrow> MemStore \<Rightarrow> string \<Rightarrow> 'w \<Rightarrow> mem_error + Note list" where
  "mem_List f s k w =
     (if \<not> kind_Valid k then Inl (NotANoteKind k)
      else case mf_read f w (mem_path s k) of
             Inl e \<Rightarrow> if e = NotExist then Inr [] else Inl (MemFs e)
           | Inr body \<Rightarrow>
               (case mf_unmarshal f body of
                  None \<Rightarrow> Inl (Unreadable_notes (mem_path s k))
                | Some ns \<Rightarrow> Inr (stable_sort before (map (\<lambda>n. n\<lparr>nt_Kind := k\<rparr>) ns))))"

fun mem_collect :: "'w MemFS \<Rightarrow> MemStore \<Rightarrow> 'w \<Rightarrow> string list \<Rightarrow> mem_error + (string \<times> Note list) list" where
  "mem_collect f s w [] = Inr []"
| "mem_collect f s w (k # ks) =
     (case mem_List f s k w of
        Inl e \<Rightarrow> Inl e
      | Inr ns \<Rightarrow> (case mem_collect f s w ks of Inl e \<Rightarrow> Inl e | Inr rest \<Rightarrow> Inr ((k, ns) # rest)))"

definition mem_All :: "'w MemFS \<Rightarrow> MemStore \<Rightarrow> 'w \<Rightarrow> mem_error + (string \<times> Note list) list" where
  "mem_All f s w = mem_collect f s w note_Kinds"

definition notes_header :: "string \<Rightarrow> string" where
  "notes_header k =
     ''# '' @ k @ '' notes (design v3 '' @ [CHR 0xC2, CHR 0xA7] @ ''8.2).'' @ [newline] @
     ''# Kept in the repository so they travel with it. Every note records where'' @ [newline] @
     ''# it came from: a rule with no source cannot be judged.'' @ [newline]"

definition mem_write :: "'w MemFS \<Rightarrow> MemStore \<Rightarrow> string \<Rightarrow> Note list \<Rightarrow> 'w \<Rightarrow> mem_error option \<times> 'w" where
  "mem_write f s k ns w =
     (case mf_mkdirs f (ms_dir s) w of
        (Some e, w1) \<Rightarrow> (Some (MemFs e), w1)
      | (None, w1) \<Rightarrow>
          (case mf_marshal f ns of
             None \<Rightarrow> (Some MarshalNotes, w1)
           | Some body \<Rightarrow>
               (case mf_write f (mem_path s k @ ''.tmp'') (notes_header k @ body) w1 of
                  (Some e, w2) \<Rightarrow> (Some (MemFs e), w2)
                | (None, w2) \<Rightarrow>
                    (case mf_rename f (mem_path s k @ ''.tmp'') (mem_path s k) w2 of
                       (Some e, w3) \<Rightarrow> (Some (MemFs e), w3)
                     | (None, w3) \<Rightarrow> (None, w3)))))"

definition pad2 :: "nat \<Rightarrow> string" where
  "pad2 n = (if n < 10 then ''0'' else []) @ showNat n"

definition newID :: "string \<Rightarrow> int \<Rightarrow> nat \<Rightarrow> string" where
  "newID k at n = take 3 k @ ''-'' @ showInt (at div 1000000000) @ ''-'' @ pad2 (Suc n)"

definition zeroTime :: int where "zeroTime = - 62135596800000000000"

definition truncate_second :: "int \<Rightarrow> int" where
  "truncate_second t = t - (t - zeroTime) mod 1000000000"

definition dated :: "int \<Rightarrow> Note \<Rightarrow> Note" where
  "dated now n = (if pv_At (nt_Provenance n) = zeroTime then n\<lparr>nt_Provenance := (nt_Provenance n)\<lparr>pv_At := truncate_second now\<rparr>\<rparr> else n)"

definition trimmed :: "Caps \<Rightarrow> Note list \<Rightarrow> Note list" where
  "trimmed caps ns = (if PerKind caps > 0 \<and> int (length ns) > PerKind caps then drop (length ns - nat (PerKind caps)) ns else ns)"

definition mem_Add :: "'w MemFS \<Rightarrow> MemStore \<Rightarrow> int \<Rightarrow> Note \<Rightarrow> 'w \<Rightarrow> (mem_error + Note) \<times> 'w" where
  "mem_Add f s now n0 w =
     (let n1 = dated now n0 in
      case note_Validate (ms_caps s) n1 of
        Some e \<Rightarrow> (Inl e, w)
      | None \<Rightarrow>
          (case mem_List f s (nt_Kind n1) w of
             Inl e \<Rightarrow> (Inl e, w)
           | Inr ns \<Rightarrow>
               (let n = (if nt_ID n1 = [] then n1\<lparr>nt_ID := newID (nt_Kind n1) (pv_At (nt_Provenance n1)) (length ns)\<rparr> else n1) in
                if list_ex (\<lambda>x. nt_ID x = nt_ID n) ns then (Inl (DuplicateID (nt_ID n)), w)
                else (case mem_write f s (nt_Kind n) (trimmed (ms_caps s) (ns @ [n])) w of
                        (Some e, w') \<Rightarrow> (Inl e, w')
                      | (None, w') \<Rightarrow> (Inr n, w')))))"

definition mem_Remove :: "'w MemFS \<Rightarrow> MemStore \<Rightarrow> string \<Rightarrow> string \<Rightarrow> 'w \<Rightarrow> (mem_error + bool) \<times> 'w" where
  "mem_Remove f s k i w =
     (case mem_List f s k w of
        Inl e \<Rightarrow> (Inl e, w)
      | Inr ns \<Rightarrow>
          if \<not> list_ex (\<lambda>n. nt_ID n = i) ns then (Inr False, w)
          else (case mem_write f s k (filter (\<lambda>n. nt_ID n \<noteq> i) ns) w of
                  (Some e, w') \<Rightarrow> (Inl e, w')
                | (None, w') \<Rightarrow> (Inr True, w')))"

section \<open>Lessons from another project\<close>

record Bundle =
  bu_Version :: int
  bu_From :: string
  bu_ExportedAt :: int
  bu_Notes :: "Note list"

definition BundleVersion :: int where "BundleVersion = 1"

fun list_kinds :: "'w MemFS \<Rightarrow> MemStore \<Rightarrow> 'w \<Rightarrow> string list \<Rightarrow> mem_error + Note list" where
  "list_kinds f s w [] = Inr []"
| "list_kinds f s w (k # ks) =
     (case mem_List f s k w of
        Inl e \<Rightarrow> Inl e
      | Inr ns \<Rightarrow> (case list_kinds f s w ks of Inl e \<Rightarrow> Inl e | Inr rest \<Rightarrow> Inr (ns @ rest)))"

definition bundle_less :: "Note \<Rightarrow> Note \<Rightarrow> bool" where
  "bundle_less a b = (if nt_Kind a \<noteq> nt_Kind b then nt_Kind a < nt_Kind b else before a b)"

definition mem_Export :: "'w MemFS \<Rightarrow> MemStore \<Rightarrow> int \<Rightarrow> string \<Rightarrow> string list \<Rightarrow> 'w \<Rightarrow> mem_error + Bundle" where
  "mem_Export f s now from' kinds w =
     (case list_kinds f s w (if kinds = [] then [KindAdvice] else kinds) of
        Inl e \<Rightarrow> Inl e
      | Inr ns \<Rightarrow> Inr \<lparr>bu_Version = BundleVersion, bu_From = from', bu_ExportedAt = truncate_second now, bu_Notes = stable_sort bundle_less ns\<rparr>)"

text \<open>What \<^verbatim>\<open>ReadBundle\<close> does with the decoded file.\<close>

definition check_bundle :: "Bundle \<Rightarrow> mem_error + Bundle" where
  "check_bundle b =
     (if bu_Version b = 0 then Inl NoVersion
      else if bu_Version b > BundleVersion then Inl (NewerVersion (bu_Version b))
      else Inr b)"

definition imported_note :: "Bundle \<Rightarrow> int \<Rightarrow> Note \<Rightarrow> Note" where
  "imported_note b now n =
     \<lparr>nt_ID = [], nt_Kind = nt_Kind n, nt_Text = nt_Text n,
      nt_Provenance = \<lparr>pv_Source = ''imported from '' @ (if bu_From b = [] then ''an unnamed export'' else bu_From b) @
                          '' (originally: '' @ pv_Source (nt_Provenance n) @ '')'',
                       pv_Evidence = pv_Evidence (nt_Provenance n), pv_At = truncate_second now\<rparr>,
      nt_Tags = nt_Tags n @ [''imported'']\<rparr>"

text \<open>Each note has its own reading of the clock; \<open>clock i\<close> is the one for the \<open>i\<close>-th note of the bundle.\<close>

fun import_notes :: "'w MemFS \<Rightarrow> MemStore \<Rightarrow> Bundle \<Rightarrow> string list \<Rightarrow> (nat \<Rightarrow> int) \<Rightarrow> Note list \<Rightarrow> nat \<Rightarrow> Note list \<Rightarrow> 'w \<Rightarrow> (mem_error option \<times> Note list) \<times> 'w" where
  "import_notes f s b kinds clock [] i added w = ((None, added), w)"
| "import_notes f s b kinds clock (n # ns) i added w =
     (if kinds \<noteq> [] \<and> nt_Kind n \<notin> set kinds then import_notes f s b kinds clock ns (Suc i) added w
      else case mem_Add f s (clock i) (imported_note b (clock i) n) w of
             (Inl e, w') \<Rightarrow> ((Some (ImportFailed e), added), w')
           | (Inr stored, w') \<Rightarrow> import_notes f s b kinds clock ns (Suc i) (added @ [stored]) w')"

definition mem_Import :: "'w MemFS \<Rightarrow> MemStore \<Rightarrow> Bundle \<Rightarrow> bool \<Rightarrow> string list \<Rightarrow> (nat \<Rightarrow> int) \<Rightarrow> 'w \<Rightarrow> (mem_error option \<times> Note list) \<times> 'w" where
  "mem_Import f s b confirmed kinds clock w =
     (if \<not> confirmed then ((Some NotConfirmed, []), w) else import_notes f s b kinds clock (bu_Notes b) 0 [] w)"

definition truncate_line :: "string \<Rightarrow> nat \<Rightarrow> string" where
  "truncate_line s n =
     (let t = trimSpace (map (\<lambda>c. if c = newline then CHR '' '' else c) s) in
      if length t \<le> n then t else take (n - 1) t @ [CHR 0xE2, CHR 0x80, CHR 0xA6])"

definition note_orDefault :: "string \<Rightarrow> string \<Rightarrow> string" where
  "note_orDefault s d = (if trimSpace s = [] then d else s)"

definition preview_group :: "Bundle \<Rightarrow> string list \<Rightarrow> string \<Rightarrow> Note list" where
  "preview_group b kinds k = filter (\<lambda>n. nt_Kind n = k \<and> (kinds = [] \<or> k \<in> set kinds)) (bu_Notes b)"

definition preview_kind :: "Bundle \<Rightarrow> string list \<Rightarrow> string \<Rightarrow> string" where
  "preview_kind b kinds k =
     (let g = preview_group b kinds k in
      if g = [] then []
      else k @ '' ('' @ showNat (length g) @ '')'' @ [newline] @
           concat (map (\<lambda>n. ''  - '' @ truncate_line (nt_Text n) 100 @ [newline] @ ''    from '' @ note_orDefault (pv_Source (nt_Provenance n)) ''(no source)'' @ [newline]) g) @
           [newline])"

definition Preview :: "(int \<Rightarrow> string) \<Rightarrow> Bundle \<Rightarrow> string list \<Rightarrow> string" where
  "Preview rfc3339 b kinds =
     ''Bundle from '' @ note_orDefault (bu_From b) ''(unnamed)'' @ '', exported '' @ rfc3339 (bu_ExportedAt b) @ [newline, newline] @
     concat (map (preview_kind b kinds) note_Kinds) @
     (if list_all (\<lambda>k. preview_group b kinds k = []) note_Kinds then ''Nothing in this bundle matches the selected kinds.'' @ [newline]
      else ''These will be copied into this repository's memory, where they steer'' @ [newline] @
           ''future work. Every one will be marked as imported, with its original source kept.'' @ [newline])"

section \<open>Project cards\<close>

record ProjectHeader =
  ph_RepoID :: string
  ph_UpdatedAt :: int
  ph_Commit :: string
  ph_Source :: string
  ph_Symbols :: "string list"

record ProjectCard =
  pj_Header :: ProjectHeader
  pj_File :: string
  pj_Text :: string
  pj_Stale :: bool
  pj_Reason :: string

datatype card_error = CardOutside wt_error | CardFs fs_error | CardTooLarge string | CardNoFrontMatter string | CardYAML | CardResolve string | CardBadID

definition cardNames :: "string list" where
  "cardNames = [''project'', ''architecture'', ''conventions'', ''constraints'', ''decisions'', ''glossary'']"

text \<open>\<^verbatim>\<open>strings.SplitN(body, "---\<close> newline \<^verbatim>\<open>", 3)\<close> when there are three parts; the first has to be empty.\<close>

definition cutFirst :: "string \<Rightarrow> string \<Rightarrow> (string \<times> string) option" where
  "cutFirst s sep =
     map_option (\<lambda>i. (take i s, drop (i + length sep) s)) (find (\<lambda>i. hasPrefix (drop i s) sep) [0..<Suc (length s)])"

definition front_matter :: "string \<Rightarrow> (string \<times> string) option" where
  "front_matter body =
     (case cutFirst body (''---'' @ [newline]) of
        Some ([], rest) \<Rightarrow> cutFirst rest (''---'' @ [newline])
      | _ \<Rightarrow> None)"

fun unresolved :: "(string \<Rightarrow> string + bool) \<Rightarrow> string list \<Rightarrow> ProjectCard \<Rightarrow> card_error + ProjectCard" where
  "unresolved resolve [] c = Inr c"
| "unresolved resolve (x # xs) c =
     (case resolve x of
        Inl e \<Rightarrow> Inl (CardResolve e)
      | Inr found \<Rightarrow> unresolved resolve xs (if found then c else c\<lparr>pj_Stale := True, pj_Reason := ''unresolved symbol: '' @ x\<rparr>))"

definition judge_card :: "string \<Rightarrow> ProjectCard \<Rightarrow> ProjectCard" where
  "judge_card repoID c =
     (let h = pj_Header c;
          c1 = (if ph_RepoID h \<noteq> repoID \<or> ph_Commit h = [] \<or> ph_UpdatedAt h = zeroTime
                then c\<lparr>pj_Stale := True, pj_Reason := ''missing or mismatched provenance''\<rparr> else c)
      in if ph_Source h \<notin> {''user'', ''model_accepted'', ''tool''} then c1\<lparr>pj_Stale := True, pj_Reason := ''unreviewed source''\<rparr> else c1)"

definition load_card ::
  "FS \<Rightarrow> (string \<Rightarrow> fs_error + bool \<times> int) \<Rightarrow> (string \<Rightarrow> fs_error + string) \<Rightarrow> (string \<Rightarrow> ProjectHeader option) \<Rightarrow> string \<Rightarrow> string \<Rightarrow> (string \<Rightarrow> string + bool)
   \<Rightarrow> string \<Rightarrow> card_error + ProjectCard option" where
  "load_card fs stat readFile yaml root' repoID resolve name =
     (let fname = ''.agent/'' @ name @ ''.md'' in
      case Resolve fs root' fname of
        Inl e \<Rightarrow> Inl (CardOutside e)
      | Inr full \<Rightarrow>
          (case stat full of
             Inl e \<Rightarrow> if e = NotExist then Inr None else Inl (CardFs e)
           | Inr (regular, size') \<Rightarrow>
               if \<not> regular \<or> size' > 16000 then Inl (CardTooLarge fname)
               else (case readFile full of
                       Inl e \<Rightarrow> Inl (CardFs e)
                     | Inr body \<Rightarrow>
                         (case front_matter body of
                            None \<Rightarrow> Inl (CardNoFrontMatter fname)
                          | Some (front, rest) \<Rightarrow>
                              (case yaml front of
                                 None \<Rightarrow> Inl CardYAML
                               | Some h \<Rightarrow>
                                   map_sum id Some (unresolved resolve (ph_Symbols h)
                                     (judge_card repoID \<lparr>pj_Header = h, pj_File = fname, pj_Text = trimSpace rest, pj_Stale = False, pj_Reason = []\<rparr>)))))))"

fun load_cards :: "(string \<Rightarrow> card_error + ProjectCard option) \<Rightarrow> string list \<Rightarrow> card_error + ProjectCard list" where
  "load_cards load [] = Inr []"
| "load_cards load (x # xs) =
     (case load x of
        Inl e \<Rightarrow> Inl e
      | Inr oc \<Rightarrow> (case load_cards load xs of Inl e \<Rightarrow> Inl e | Inr cs \<Rightarrow> Inr (case oc of None \<Rightarrow> cs | Some c \<Rightarrow> c # cs)))"

definition LoadProject ::
  "FS \<Rightarrow> (string \<Rightarrow> fs_error + bool \<times> int) \<Rightarrow> (string \<Rightarrow> fs_error + string) \<Rightarrow> (string \<Rightarrow> ProjectHeader option) \<Rightarrow> string \<Rightarrow> string \<Rightarrow> (string \<Rightarrow> string + bool)
   \<Rightarrow> card_error + ProjectCard list" where
  "LoadProject fs stat readFile yaml root' repoID resolve = load_cards (load_card fs stat readFile yaml root' repoID resolve) cardNames"

definition idByte :: "bool \<Rightarrow> char \<Rightarrow> bool" where
  "idByte first c = (let b = (of_char c :: nat) in
     (48 \<le> b \<and> b \<le> 57) \<or> (65 \<le> b \<and> b \<le> 90) \<or> (97 \<le> b \<and> b \<le> 122) \<or> (\<not> first \<and> (b = 95 \<or> b = 45)))"

lemma idByte_code [code]:
  "idByte first c = (let b = byte_code c in (48 \<le> b \<and> b \<le> 57) \<or> (65 \<le> b \<and> b \<le> 90) \<or> (97 \<le> b \<and> b \<le> 122) \<or> (\<not> first \<and> (b = 95 \<or> b = 45)))"
  by (simp add: idByte_def byte_code_eq Let_def)

definition safeTaskID :: "string \<Rightarrow> bool" where
  "safeTaskID i = (case i of [] \<Rightarrow> False | c # cs \<Rightarrow> idByte True c \<and> list_all (idByte False) cs \<and> length cs \<le> 127)"

definition WriteTaskCard ::
  "FS \<Rightarrow> (string \<Rightarrow> 'w \<Rightarrow> fs_error option \<times> 'w) \<Rightarrow> (string \<Rightarrow> string \<Rightarrow> 'w \<Rightarrow> fs_error option \<times> 'w) \<Rightarrow> (ProjectHeader \<Rightarrow> string option)
   \<Rightarrow> string \<Rightarrow> string \<Rightarrow> ProjectHeader \<Rightarrow> string \<Rightarrow> 'w \<Rightarrow> (card_error + string) \<times> 'w" where
  "WriteTaskCard fs mkdirs writeFile yaml root' i header body w =
     (if \<not> safeTaskID i then (Inl CardBadID, w)
      else let fname = ''.agent/tasks/'' @ i @ ''.md'' in
        case yaml header of
          None \<Rightarrow> (Inl CardYAML, w)
        | Some front \<Rightarrow>
            (case WriteWithin fs mkdirs writeFile root' fname (''---'' @ [newline] @ front @ ''---'' @ [newline, newline] @ body @ [newline]) w of
               (Some e, w') \<Rightarrow> (Inl (CardOutside e), w')
             | (None, w') \<Rightarrow> (Inr fname, w')))"

section \<open>What was added is listed\<close>

text \<open>
  What the store relies on: creating the directory changes no file, a file renamed over another has the
  content written to it, and the YAML library reads back what it wrote (the header is a comment).
\<close>

definition memfs_ok :: "'w MemFS \<Rightarrow> bool" where
  "memfs_ok f \<longleftrightarrow>
     (\<forall>d w p. mf_read f (snd (mf_mkdirs f d w)) p = mf_read f w p) \<and>
     (\<forall>t p b w w1 w2. mf_write f t b w = (None, w1) \<longrightarrow> mf_rename f t p w1 = (None, w2) \<longrightarrow> mf_read f w2 p = Inr b) \<and>
     (\<forall>k ns b. mf_marshal f ns = Some b \<longrightarrow> mf_unmarshal f (notes_header k @ b) = Some ns)"

lemma mem_write_read:
  assumes "memfs_ok f" and "mem_write f s k ns w = (None, w')"
  shows "\<exists>b. mf_read f w' (mem_path s k) = Inr b \<and> mf_unmarshal f b = Some ns"
  using assms by (fastforce simp: mem_write_def memfs_ok_def split: prod.splits option.splits)

lemma mem_write_List:
  assumes "memfs_ok f" and "mem_write f s k ns w = (None, w')" and "kind_Valid k" and "\<And>n. n \<in> set ns \<Longrightarrow> nt_Kind n = k"
  shows "mem_List f s k w' = Inr (stable_sort before ns)"
proof -
  have "map (\<lambda>n. n\<lparr>nt_Kind := k\<rparr>) ns = ns" using assms(4) by (intro map_idI) (auto intro: Note.equality)
  with mem_write_read [OF assms(1,2)] assms(3) show ?thesis by (auto simp: mem_List_def)
qed

lemma mem_List_kind: "mem_List f s k w = Inr ns \<Longrightarrow> n \<in> set ns \<Longrightarrow> nt_Kind n = k"
  by (auto simp: mem_List_def split: if_splits sum.splits option.splits)

lemma dated_fields [simp]: "nt_Kind (dated now n) = nt_Kind n" "nt_ID (dated now n) = nt_ID n" "nt_Text (dated now n) = nt_Text n" "nt_Tags (dated now n) = nt_Tags n"
  "pv_Source (nt_Provenance (dated now n)) = pv_Source (nt_Provenance n)"
  by (simp_all add: dated_def)

lemma mem_AddD:
  assumes "mem_Add f s now n0 w = (Inr n, w')"
  shows "\<exists>ns. mem_List f s (nt_Kind n0) w = Inr ns \<and> note_Validate (ms_caps s) (dated now n0) = None \<and>
    n = (if nt_ID n0 = [] then (dated now n0)\<lparr>nt_ID := newID (nt_Kind n0) (pv_At (nt_Provenance (dated now n0))) (length ns)\<rparr> else dated now n0) \<and>
    nt_ID n \<notin> nt_ID ` set ns \<and> mem_write f s (nt_Kind n0) (trimmed (ms_caps s) (ns @ [n])) w = (None, w')"
  using assms by (auto simp: mem_Add_def Let_def list_ex_iff split: option.splits sum.splits prod.splits if_splits)

lemma trimmed_set: "set (trimmed caps ns) \<subseteq> set ns"
  by (auto simp: trimmed_def dest: in_set_dropD)

lemma trimmed_last: "n \<in> set (trimmed caps (ns @ [n]))"
proof -
  have "PerKind caps > 0 \<Longrightarrow> length (ns @ [n]) - nat (PerKind caps) \<le> length ns" by auto
  then show ?thesis by (auto simp: trimmed_def)
qed

lemma trimmed_length: "PerKind caps > 0 \<Longrightarrow> int (length (trimmed caps ns)) = min (PerKind caps) (int (length ns))"
  by (auto simp: trimmed_def)

lemma mem_Add_lists:
  assumes "memfs_ok f" and "mem_List f s (nt_Kind n0) w = Inr ns" and "mem_Add f s now n0 w = (Inr n, w')"
  shows "mem_List f s (nt_Kind n0) w' = Inr (stable_sort before (trimmed (ms_caps s) (ns @ [n])))"
proof -
  have kind: "nt_Kind n = nt_Kind n0" and wr: "mem_write f s (nt_Kind n0) (trimmed (ms_caps s) (ns @ [n])) w = (None, w')"
    using mem_AddD [OF assms(3)] assms(2) by auto
  have "nt_Kind x = nt_Kind n0" if "x \<in> set (trimmed (ms_caps s) (ns @ [n]))" for x
    using that trimmed_set [of "ms_caps s" "ns @ [n]"] mem_List_kind [OF assms(2)] kind by auto
  moreover have "kind_Valid (nt_Kind n0)" using assms(2) by (auto simp: mem_List_def split: if_splits)
  ultimately show ?thesis by (intro mem_write_List [OF assms(1) wr])
qed

text \<open>
  A note that was added is there, with its provenance, and the playbook stays within its cap.  On files that
  behave as documented, after a note was added the notes of its kind are those listed before and the new
  one, less the oldest ones beyond the cap, in order of time; the new note is among them, carries text
  within the length cap and a source, and its identifier is new.
\<close>

theorem added_note_listed:
  assumes "memfs_ok f" and "mem_List f s (nt_Kind n0) w = Inr ns" and "mem_Add f s now n0 w = (Inr n, w')" and "PerKind (ms_caps s) > 0"
  shows "\<exists>ns'. mem_List f s (nt_Kind n0) w' = Inr ns' \<and> n \<in> set ns' \<and> mset ns' = mset (trimmed (ms_caps s) (ns @ [n])) \<and>
    int (length ns') = min (PerKind (ms_caps s)) (int (Suc (length ns))) \<and> sorted_by before ns' \<and>
    nt_ID n \<notin> nt_ID ` set ns \<and> note_Validate (ms_caps s) n = None"
proof -
  have wo: "weak_order before" by (auto simp: weak_order_def before_def)
  obtain d where n: "nt_ID n \<notin> nt_ID ` set ns" and v: "note_Validate (ms_caps s) (dated now n0) = None" and eq: "n = (dated now n0)\<lparr>nt_ID := d\<rparr>"
    using mem_AddD [OF assms(3)] assms(2) by (auto split: if_splits simp: intro: that [of "nt_ID (dated now n0)"])
  have "note_Validate (ms_caps s) n = None" using v by (auto simp: note_Validate_def eq split: if_splits)
  then show ?thesis
    using mem_Add_lists [OF assms(1-3)] n trimmed_last [of n "ms_caps s" ns] trimmed_length [OF assms(4), of "ns @ [n]"]
    by (auto simp: sorted_by_stable_sort [OF wo])
qed

section \<open>A full playbook refuses the second note of a second\<close>

text \<open>
  Once a kind holds as many notes as its cap, the identifier given to a new note depends only on the
  second it is dated: of two notes without an identifier that are dated in the same second, the first is
  stored and the second is refused as a duplicate.  (An import dates all its notes when it runs, so it
  stops half way when a kind fills up.)
\<close>

theorem full_kind_refuses_second:
  assumes "memfs_ok f" and "mem_List f s k w = Inr ns" and "int (length ns) = PerKind (ms_caps s)" and "PerKind (ms_caps s) > 0"
    and "nt_Kind a = k" and "nt_Kind b = k" and "nt_ID a = []" and "nt_ID b = []"
    and "pv_At (nt_Provenance (dated now a)) div 1000000000 = pv_At (nt_Provenance (dated now' b)) div 1000000000"
    and "mem_Add f s now a w = (Inr n, w')" and "note_Validate (ms_caps s) (dated now' b) = None"
  shows "mem_Add f s now' b w' = (Inl (DuplicateID (nt_ID n)), w')"
proof -
  have ls: "mem_List f s k w' = Inr (stable_sort before (trimmed (ms_caps s) (ns @ [n])))" (is "_ = Inr ?ns'")
    using mem_Add_lists [OF assms(1) _ assms(10)] assms(2,5) by simp
  have len: "length ?ns' = length ns" using trimmed_length [OF assms(4), of "ns @ [n]"] assms(3) by simp
  have "nt_ID n = newID k (pv_At (nt_Provenance (dated now a))) (length ns)"
    using mem_AddD [OF assms(10)] assms(2,5,7) by auto
  also have "\<dots> = newID k (pv_At (nt_Provenance (dated now' b))) (length ?ns')" using assms(9) len by (simp add: newID_def)
  finally have i: "nt_ID n = newID k (pv_At (nt_Provenance (dated now' b))) (length ?ns')" .
  have "n \<in> set ?ns'" using trimmed_last [of n] by simp
  then have "list_ex (\<lambda>x. nt_ID x = nt_ID n) ?ns'" by (auto simp: list_ex_iff)
  with ls i assms(6,8,11) show ?thesis by (simp add: mem_Add_def Let_def del: length_stable_sort)
qed

section \<open>Imported notes say so\<close>

lemma import_notes_marked:
  "import_notes f s b kinds clock ns i added w = ((err, out), w') \<Longrightarrow>
   \<exists>new. out = added @ new \<and> list_all (\<lambda>n. ''imported'' \<in> set (nt_Tags n) \<and> hasPrefix (pv_Source (nt_Provenance n)) ''imported from '' \<and>
     (kinds = [] \<or> nt_Kind n \<in> set kinds) \<and> (\<exists>m \<in> set ns. nt_Text m = nt_Text n \<and> nt_Kind m = nt_Kind n)) new"
proof (induction ns arbitrary: i added w)
  case (Cons n ns)
  show ?case
  proof (cases "kinds \<noteq> [] \<and> nt_Kind n \<notin> set kinds")
    case True
    with Cons.prems have "import_notes f s b kinds clock ns (Suc i) added w = ((err, out), w')" by simp
    from Cons.IH [OF this] show ?thesis by (auto simp: list_all_iff)
  next
    case False
    obtain r w1 where a: "mem_Add f s (clock i) (imported_note b (clock i) n) w = (r, w1)" by force
    show ?thesis
    proof (cases r)
      case (Inl e)
      then show ?thesis using False a Cons.prems by auto
    next
      case (Inr m)
      then have m: "nt_Tags m = nt_Tags n @ [''imported'']" "nt_Kind m = nt_Kind n" "nt_Text m = nt_Text n" "hasPrefix (pv_Source (nt_Provenance m)) ''imported from ''"
        using mem_AddD a by (fastforce simp: imported_note_def)+
      from False a Inr Cons.prems have "import_notes f s b kinds clock ns (Suc i) (added @ [m]) w1 = ((err, out), w')" by (auto split: if_splits)
      from Cons.IH [OF this] obtain new where "out = (added @ [m]) @ new" and new: "list_all (\<lambda>n. ''imported'' \<in> set (nt_Tags n) \<and>
          hasPrefix (pv_Source (nt_Provenance n)) ''imported from '' \<and> (kinds = [] \<or> nt_Kind n \<in> set kinds) \<and>
          (\<exists>m \<in> set ns. nt_Text m = nt_Text n \<and> nt_Kind m = nt_Kind n)) new" by blast
      then have "out = added @ (m # new)" by simp
      moreover have "list_all (\<lambda>x. ''imported'' \<in> set (nt_Tags x) \<and>
          hasPrefix (pv_Source (nt_Provenance x)) ''imported from '' \<and> (kinds = [] \<or> nt_Kind x \<in> set kinds) \<and>
          (\<exists>m \<in> set (n # ns). nt_Text m = nt_Text x \<and> nt_Kind m = nt_Kind x)) (m # new)"
        using new m False by (auto simp: list_all_iff)
      ultimately show ?thesis by blast
    qed
  qed
qed simp

text \<open>
  There is no silent channel between projects.  Without confirmation an import copies nothing.  With it,
  every note that was stored carries the tag and a source saying it was imported, has the kind and the
  text of a note of the bundle, and is of a kind that was asked for; this also holds of the notes stored
  before an import that failed half way.
\<close>

theorem imports_are_marked:
  assumes "mem_Import f s b confirmed kinds clock w = ((err, stored), w')"
  shows "(\<not> confirmed \<longrightarrow> stored = [] \<and> w' = w \<and> err = Some NotConfirmed) \<and>
    (\<forall>n \<in> set stored. ''imported'' \<in> set (nt_Tags n) \<and> hasPrefix (pv_Source (nt_Provenance n)) ''imported from '' \<and>
       (kinds = [] \<or> nt_Kind n \<in> set kinds) \<and> (\<exists>m \<in> set (bu_Notes b). nt_Text m = nt_Text n \<and> nt_Kind m = nt_Kind n))"
proof (cases confirmed)
  case True
  with assms have "import_notes f s b kinds clock (bu_Notes b) 0 [] w = ((err, stored), w')" by (simp add: mem_Import_def)
  from import_notes_marked [OF this] True show ?thesis by (auto simp: list_all_iff)
next
  case False
  with assms show ?thesis by (auto simp: mem_Import_def)
qed

section \<open>Project cards are trusted only with their provenance\<close>

lemma unresolved_stale:
  "unresolved resolve xs c = Inr c' \<Longrightarrow> pj_Header c' = pj_Header c \<and> (pj_Stale c' \<longleftrightarrow> pj_Stale c \<or> (\<exists>x \<in> set xs. resolve x = Inr False))"
proof (induction xs arbitrary: c)
  case (Cons x xs)
  then show ?case by (cases "resolve x") (auto split: if_splits dest!: Cons.IH)
qed simp

lemma load_cards_from: "load_cards load xs = Inr cs \<Longrightarrow> c \<in> set cs \<Longrightarrow> \<exists>x \<in> set xs. load x = Inr (Some c)"
  by (induction xs arbitrary: cs) (auto split: sum.splits option.splits)

lemma map_sum_Some: "map_sum id Some x = Inr (Some c) \<longleftrightarrow> x = Inr c"
  by (cases x) auto

text \<open>
  A project card counts as fresh exactly when its header names this repository, a commit, a date and a
  reviewed source, and every symbol it speaks of is in the live index.
\<close>

theorem card_fresh_exact:
  assumes "LoadProject fs stat readFile yaml root' repoID resolve = Inr cards" and "c \<in> set cards"
  shows "\<not> pj_Stale c \<longleftrightarrow>
    ph_RepoID (pj_Header c) = repoID \<and> ph_Commit (pj_Header c) \<noteq> [] \<and> ph_UpdatedAt (pj_Header c) \<noteq> zeroTime \<and>
    ph_Source (pj_Header c) \<in> {''user'', ''model_accepted'', ''tool''} \<and> (\<forall>x \<in> set (ph_Symbols (pj_Header c)). resolve x \<noteq> Inr False)"
proof -
  from load_cards_from [OF assms [unfolded LoadProject_def]] obtain name where l: "load_card fs stat readFile yaml root' repoID resolve name = Inr (Some c)" by blast
  then obtain h fname body where u: "unresolved resolve (ph_Symbols h)
      (judge_card repoID \<lparr>pj_Header = h, pj_File = fname, pj_Text = body, pj_Stale = False, pj_Reason = []\<rparr>) = Inr c"
    by (auto simp: load_card_def Let_def map_sum_Some split: sum.splits option.splits if_splits)
  from unresolved_stale [OF u] show ?thesis by (auto simp: judge_card_def Let_def)
qed
section \<open>Instances\<close>

definition demo_note :: "string \<Rightarrow> int \<Rightarrow> string \<Rightarrow> Note" where
  "demo_note i at body = \<lparr>nt_ID = i, nt_Kind = ''advice'', nt_Text = body, nt_Provenance = \<lparr>pv_Source = ''operator'', pv_Evidence = [], pv_At = at\<rparr>, nt_Tags = []\<rparr>"

text \<open>Files in an association list, and a library that can write two lists of notes.\<close>

definition demo_memfs :: "(string \<times> string) list MemFS" where
  "demo_memfs = \<lparr>mf_read = (\<lambda>w p. case map_of w p of None \<Rightarrow> Inl NotExist | Some b \<Rightarrow> Inr b),
     mf_mkdirs = (\<lambda>d w. (None, w)), mf_write = (\<lambda>p b w. (None, (p, b) # w)),
     mf_rename = (\<lambda>t p w. case map_of w t of None \<Rightarrow> (Some NotExist, w) | Some b \<Rightarrow> (None, (p, b) # w)),
     mf_marshal = (\<lambda>ns. if ns = [demo_note ''old'' 0 ''x''] then Some ''0'' else if ns = [demo_note ''adv-5-02'' 5000000000 ''y''] then Some ''1'' else None),
     mf_unmarshal = (\<lambda>s. if s = [] then None else if last s = CHR ''0'' then Some [demo_note ''old'' 0 ''x''] else Some [demo_note ''adv-5-02'' 5000000000 ''y''])\<rparr>"

definition demo_mem :: MemStore where
  "demo_mem = mem_Open ''/r'' \<lparr>PerKind = 1, MaxTextBytes = 0\<rparr>"

definition demo_mem_files :: "(string \<times> string) list" where
  "demo_mem_files = [(''/r/.le/memory/advice.yaml'', ''0'')]"

lemma demo_memfs_ok: "memfs_ok demo_memfs"
  by (auto simp: memfs_ok_def demo_memfs_def notes_header_def split: option.splits if_splits)

lemma demo_mem_facts:
  "mem_List demo_memfs demo_mem ''advice'' demo_mem_files = Inr [demo_note ''old'' 0 ''x'']" "PerKind (ms_caps demo_mem) = 1"
  "fst (mem_Add demo_memfs demo_mem 7 (demo_note [] 5000000000 ''y'') demo_mem_files) = Inr (demo_note ''adv-5-02'' 5000000000 ''y'')"
  "note_Validate (ms_caps demo_mem) (dated 8 (demo_note [] 5000000000 ''z'')) = None"
  by code_simp+

theorem added_note_listed_witness:
  "\<exists>w'. mem_Add demo_memfs demo_mem 7 (demo_note [] 5000000000 ''y'') demo_mem_files = (Inr (demo_note ''adv-5-02'' 5000000000 ''y''), w') \<and>
     (\<exists>ns'. mem_List demo_memfs demo_mem ''advice'' w' = Inr ns' \<and> length ns' = 1 \<and> demo_note ''adv-5-02'' 5000000000 ''y'' \<in> set ns')"
proof -
  obtain w' where a: "mem_Add demo_memfs demo_mem 7 (demo_note [] 5000000000 ''y'') demo_mem_files = (Inr (demo_note ''adv-5-02'' 5000000000 ''y''), w')"
    using demo_mem_facts(3) by (metis prod.collapse)
  have k: "nt_Kind (demo_note [] 5000000000 ''y'') = ''advice''" by (simp add: demo_note_def)
  from added_note_listed [OF demo_memfs_ok _ a, unfolded k, OF demo_mem_facts(1)] a show ?thesis by (auto simp: demo_mem_facts(2))
qed

theorem full_kind_refuses_second_witness:
  "\<exists>w'. mem_Add demo_memfs demo_mem 7 (demo_note [] 5000000000 ''y'') demo_mem_files = (Inr (demo_note ''adv-5-02'' 5000000000 ''y''), w') \<and>
     mem_Add demo_memfs demo_mem 8 (demo_note [] 5000000000 ''z'') w' = (Inl (DuplicateID ''adv-5-02''), w')"
proof -
  obtain w' where a: "mem_Add demo_memfs demo_mem 7 (demo_note [] 5000000000 ''y'') demo_mem_files = (Inr (demo_note ''adv-5-02'' 5000000000 ''y''), w')"
    using demo_mem_facts(3) by (metis prod.collapse)
  have at: "pv_At (nt_Provenance (dated t (demo_note [] 5000000000 body))) = 5000000000" for t body by (simp add: dated_def demo_note_def zeroTime_def)
  have "mem_Add demo_memfs demo_mem 8 (demo_note [] 5000000000 ''z'') w' = (Inl (DuplicateID (nt_ID (demo_note ''adv-5-02'' 5000000000 ''y''))), w')"
    by (rule full_kind_refuses_second [OF demo_memfs_ok demo_mem_facts(1) _ _ _ _ _ _ _ a demo_mem_facts(4)])
      (simp_all add: demo_mem_facts(2) at, simp_all add: demo_note_def)
  with a show ?thesis by (auto simp: demo_note_def)
qed

definition demo_bundle :: Bundle where
  "demo_bundle = \<lparr>bu_Version = 1, bu_From = ''other'', bu_ExportedAt = 0, bu_Notes = [demo_note ''o'' 1 ''y'']\<rparr>"

theorem imports_are_marked_witness:
  "mem_Import demo_memfs demo_mem demo_bundle False [] (\<lambda>_. 7) demo_mem_files = ((Some NotConfirmed, []), demo_mem_files)"
proof -
  obtain err stored w' where i: "mem_Import demo_memfs demo_mem demo_bundle False [] (\<lambda>_. 7) demo_mem_files = ((err, stored), w')" by (metis prod.collapse)
  from imports_are_marked [OF this] i show ?thesis by simp
qed

definition demo_card_header :: ProjectHeader where
  "demo_card_header = \<lparr>ph_RepoID = ''r'', ph_UpdatedAt = 1, ph_Commit = ''abc'', ph_Source = ''user'', ph_Symbols = [''Gone'']\<rparr>"

definition demo_cards :: "card_error + ProjectCard list" where
  "demo_cards = LoadProject demo_fs (\<lambda>p. if p = ''/w/.agent/project.md'' then Inr (True, 10) else Inl NotExist)
     (\<lambda>_. Inr (''---'' @ [newline] @ ''h'' @ [newline] @ ''---'' @ [newline] @ '' facts'')) (\<lambda>_. Some demo_card_header) ''/w'' ''r'' (\<lambda>_. Inr False)"

theorem card_fresh_exact_witness:
  "\<exists>c. demo_cards = Inr [c] \<and> pj_Text c = ''facts'' \<and> pj_Stale c \<and> ph_Symbols (pj_Header c) = [''Gone'']"
proof -
  let ?c = "\<lparr>pj_Header = demo_card_header, pj_File = ''.agent/project.md'', pj_Text = ''facts'', pj_Stale = True, pj_Reason = ''unresolved symbol: Gone''\<rparr>"
  have n: "demo_cards = Inr [?c]" by code_simp
  have "pj_Stale ?c" using card_fresh_exact [OF n [unfolded demo_cards_def], of ?c] by (simp add: demo_card_header_def)
  with n show ?thesis by (intro exI [of _ ?c]) (simp add: demo_card_header_def)
qed

end
