(* ===== verification/Summarize.thy ===== *)
theory Summarize
  imports Worktree
begin

text \<open>
  How tool output becomes a verdict: \<^verbatim>\<open>src/internal/recipe/summarize.go\<close>, \<^verbatim>\<open>test_json.go\<close> and the
  result types of \<^verbatim>\<open>recipe.go\<close>.  The regular expressions are written as the scans they denote; a
  decoder of one JSON document is an argument where the source decodes JSON.  A Go map of counters
  is a total function with \<open>0\<close> for an absent key, which is what reading it gives.
\<close>

section \<open>Data\<close>

datatype Status = Pass | Fail | Error | Skipped

record Finding =
  File :: string
  Line :: int
  Column :: int
  Message :: string
  Test :: string
  FRule :: string

definition no_finding :: Finding where
  "no_finding = \<lparr>File = [], Line = 0, Column = 0, Message = [], Test = [], FRule = []\<rparr>"

record Summary =
  Tests :: "string \<Rightarrow> Status option"
  Headline :: string
  Findings :: "Finding list"
  Counts :: "string \<Rightarrow> int"
  Truncated :: bool

definition no_summary :: Summary where
  "no_summary = \<lparr>Tests = (\<lambda>_. None), Headline = [], Findings = [], Counts = (\<lambda>_. 0), Truncated = False\<rparr>"

type_synonym Summarizer = "int \<Rightarrow> string \<Rightarrow> string \<Rightarrow> Status \<times> Summary"

definition MaxFindings :: nat where
  "MaxFindings = 20"

definition trimFindings :: "Finding list \<Rightarrow> Finding list \<times> bool" where
  "trimFindings fs = (if length fs \<le> MaxFindings then (fs, False) else (take MaxFindings fs, True))"

text \<open>Setting some counters of the empty map, zeros left out.\<close>

definition countsOf :: "(string \<times> int) list \<Rightarrow> string \<Rightarrow> int" where
  "countsOf kvs k = (case map_of kvs k of None \<Rightarrow> 0 | Some v \<Rightarrow> v)"

definition finding_before :: "Finding \<Rightarrow> Finding \<Rightarrow> bool" where
  "finding_before a b =
     (if File a \<noteq> File b then File a < File b
      else if Line a \<noteq> Line b then Line a < Line b
      else Message a < Message b)"

definition sortFindings :: "Finding list \<Rightarrow> Finding list" where
  "sortFindings fs = stable_sort finding_before fs"

section \<open>Lines\<close>

definition ellipsis :: string where
  "ellipsis = [CHR 0xE2, CHR 0x80, CHR 0xA6]"

definition truncateLine :: "string \<Rightarrow> nat \<Rightarrow> string" where
  "truncateLine s n =
     (let t = trimSpace (map (\<lambda>c. if c = newline then CHR '' '' else c) s) in
      if length t \<le> n then t else take (n - 1) t @ ellipsis)"

definition trimRightByte :: "char \<Rightarrow> string \<Rightarrow> string" where
  "trimRightByte b s = rev (dropWhile (\<lambda>c. c = b) (rev s))"

definition lastLines :: "string \<Rightarrow> nat \<Rightarrow> string list" where
  "lastLines s n =
     (if isBlank s then []
      else let kept = map trimSpace (filter (\<lambda>l. \<not> isBlank l) (splitOn newline (trimRightByte newline s)))
           in drop (length kept - n) kept)"

text \<open>The white space of a regular expression's \<^verbatim>\<open>\s\<close>.\<close>

definition rxSpace :: "char \<Rightarrow> bool" where
  "rxSpace c = (c \<in> {CHR '' '', CHR 0x09, CHR 0x0A, CHR 0x0C, CHR 0x0D})"

text \<open>The non-empty run of non-space characters at the head of a line: \<^verbatim>\<open>(\S+)\<close>.\<close>

definition word_run :: "string \<Rightarrow> string option" where
  "word_run s = (let w = takeWhile (\<lambda>c. \<not> rxSpace c) s in if w = [] then None else Some w)"

text \<open>
  \<^verbatim>\<open>(\S+?\.go)\<close> is lazy: the shortest non-empty run of non-space characters ending in \<^verbatim>\<open>.go\<close> whose
  continuation matches.  \<open>acc\<close> is what has been read of the name, reversed.
\<close>

fun lazy_go_file :: "(string \<Rightarrow> 'a option) \<Rightarrow> string \<Rightarrow> string \<Rightarrow> (string \<times> 'a) option" where
  "lazy_go_file k acc s =
     (case (if acc \<noteq> [] \<and> hasPrefix s ''.go'' then k (drop 3 s) else None) of
        Some a \<Rightarrow> Some (rev acc @ ''.go'', a)
      | None \<Rightarrow> (case s of
                   [] \<Rightarrow> None
                 | c # t \<Rightarrow> if rxSpace c then None else lazy_go_file k (c # acc) t))"

definition digits_run :: "string \<Rightarrow> (string \<times> string) option" where
  "digits_run s = (let d = takeWhile isDigit s in if d = [] then None else Some (d, drop (length d) s))"

text \<open>\<^verbatim>\<open>:\s+(.*)$\<close> after the position.\<close>

definition after_position :: "string \<Rightarrow> string option" where
  "after_position s =
     (case s of
        c # t \<Rightarrow> if c = CHR '':'' \<and> t \<noteq> [] \<and> rxSpace (hd t) then Some (dropWhile rxSpace t) else None
      | [] \<Rightarrow> None)"

definition diag_tail :: "string \<Rightarrow> (string \<times> string \<times> string) option" where
  "diag_tail s =
     (case s of
        c # t \<Rightarrow>
          if c \<noteq> CHR '':'' then None
          else (case digits_run t of
                  None \<Rightarrow> None
                | Some (ln, r) \<Rightarrow>
                    (case (case r of
                             d # r' \<Rightarrow> if d = CHR '':'' then
                                         (case digits_run r' of
                                            None \<Rightarrow> None
                                          | Some (cl, r2) \<Rightarrow> map_option (\<lambda>m. (ln, cl, m)) (after_position r2))
                                       else None
                           | [] \<Rightarrow> None) of
                       Some x \<Rightarrow> Some x
                     | None \<Rightarrow> map_option (\<lambda>m. (ln, [], m)) (after_position r)))
      | [] \<Rightarrow> None)"

definition goDiagnostic :: "string \<Rightarrow> Finding option" where
  "goDiagnostic line =
     (case lazy_go_file diag_tail [] line of
        None \<Rightarrow> None
      | Some (f, ln, cl, m) \<Rightarrow>
          Some (no_finding\<lparr>File := f, Line := atoi ln, Column := atoi cl, Message := m\<rparr>))"

definition diag_key :: "Finding \<Rightarrow> string" where
  "diag_key f = File f @ '':'' @ showInt (Line f) @ '':'' @ showInt (Column f) @ '':'' @ Message f"

definition parseGoDiagnostics :: "string \<Rightarrow> Finding list" where
  "parseGoDiagnostics out =
     nub_key diag_key [] (List.map_filter (\<lambda>l. goDiagnostic (trimSpace l)) (splitOn newline out))"

section \<open>Build, vet and format\<close>

definition Generic :: Summarizer where
  "Generic exitCode out err =
     (if exitCode = 0 then (Pass, no_summary\<lparr>Headline := ''ok''\<rparr>)
      else let combined = (if isBlank err then trimSpace out else trimSpace err);
               ls = lastLines combined 5;
               head = ''exited '' @ showInt exitCode @ (if ls \<noteq> [] then '': '' @ truncateLine (hd ls) 200 else [])
           in (Fail, no_summary\<lparr>Headline := head,
                       Findings := map (\<lambda>l. no_finding\<lparr>Message := truncateLine l 200\<rparr>) ls\<rparr>))"

definition failing :: "(Finding list \<Rightarrow> string) \<Rightarrow> string \<Rightarrow> Finding list \<Rightarrow> Status \<times> Summary" where
  "failing headline key findings =
     (let shown = trimFindings (sortFindings findings) in
      (Fail, no_summary\<lparr>Headline := headline (fst shown), Findings := fst shown,
               Counts := countsOf [(key, int (length findings))], Truncated := snd shown\<rparr>))"

definition GoBuild :: Summarizer where
  "GoBuild exitCode out err =
     (let findings = parseGoDiagnostics (out @ [newline] @ err) in
      if exitCode = 0 then (Pass, no_summary\<lparr>Headline := ''compiles''\<rparr>)
      else if findings = [] then Generic exitCode out err
      else failing (\<lambda>shown. showInt (int (length findings)) @ '' compile error(s), first in '' @ File (hd shown))
             ''errors'' findings)"

definition GoVet :: Summarizer where
  "GoVet exitCode out err =
     (let findings = parseGoDiagnostics (out @ [newline] @ err) in
      if exitCode = 0 then (Pass, no_summary\<lparr>Headline := ''no vet findings''\<rparr>)
      else if findings = [] then Generic exitCode out err
      else failing (\<lambda>_. showInt (int (length findings)) @ '' vet finding(s)'') ''findings'' findings)"

definition Gofmt :: Summarizer where
  "Gofmt exitCode out err =
     (let findings = map (\<lambda>l. no_finding\<lparr>File := trimSpace l, Message := ''not gofmt'd''\<rparr>)
                       (filter (\<lambda>l. \<not> isBlank l) (splitOn newline out)) in
      if exitCode \<noteq> 0 \<and> findings = [] then Generic exitCode out err
      else if findings = [] then (Pass, no_summary\<lparr>Headline := ''formatting is clean''\<rparr>)
      else failing (\<lambda>_. showInt (int (length findings)) @ '' file(s) are not gofmt'd'') ''files'' findings)"

section \<open>Tests\<close>

record test_scan =
  ts_findings :: "Finding list"
  ts_failedTests :: int
  ts_okPkgs :: int
  ts_failedPkgs :: int
  ts_races :: int
  ts_current :: string

definition testFailLine :: "string \<Rightarrow> string option" where
  "testFailLine line =
     (let l = dropWhile rxSpace line in
      if hasPrefix l ''--- FAIL: '' then word_run (drop 10 l) else None)"

definition testPanic :: "string \<Rightarrow> string option" where
  "testPanic line = (if hasPrefix line ''panic: '' then Some (drop 7 line) else None)"

text \<open>\<^verbatim>\<open>^FAIL\s+(\S+)\<close> and \<^verbatim>\<open>^ok\s+(\S+)\<close>.\<close>

definition pkgLine :: "string \<Rightarrow> string \<Rightarrow> bool" where
  "pkgLine kw line =
     (hasPrefix line kw \<and>
      (let r = drop (length kw) line in
       r \<noteq> [] \<and> rxSpace (hd r) \<and> word_run (dropWhile rxSpace r) \<noteq> None))"

text \<open>\<^verbatim>\<open>^\s+(\S+?\.go):(\d+):\s*(.*)$\<close>.\<close>

definition location_tail :: "string \<Rightarrow> (string \<times> string) option" where
  "location_tail s =
     (case s of
        c # t \<Rightarrow>
          if c \<noteq> CHR '':'' then None
          else (case digits_run t of
                  None \<Rightarrow> None
                | Some (ln, r) \<Rightarrow>
                    (case r of
                       d # r' \<Rightarrow> if d = CHR '':'' then Some (ln, dropWhile rxSpace r') else None
                     | [] \<Rightarrow> None))
      | [] \<Rightarrow> None)"

definition testLocation :: "string \<Rightarrow> (string \<times> string \<times> string) option" where
  "testLocation line =
     (if line = [] \<or> \<not> rxSpace (hd line) then None
      else lazy_go_file location_tail [] (dropWhile rxSpace line))"

text \<open>The location goes to the last finding of the current test that has none.\<close>

fun attach_rev :: "string \<Rightarrow> string \<times> string \<times> string \<Rightarrow> Finding list \<Rightarrow> Finding list" where
  "attach_rev cur loc [] = []"
| "attach_rev cur loc (f # fs) =
     (if Test f = cur \<and> File f = [] then
        (case loc of (fl, ln, msg) \<Rightarrow>
           f\<lparr>File := fl, Line := atoi ln, Message := (if isBlank msg then Message f else trimSpace msg)\<rparr> # fs)
      else f # attach_rev cur loc fs)"

definition test_line :: "test_scan \<Rightarrow> string \<Rightarrow> test_scan" where
  "test_line st line =
     (if hasPrefix line ''WARNING: DATA RACE'' then
        st\<lparr>ts_races := ts_races st + 1,
           ts_findings := ts_findings st @ [no_finding\<lparr>Message := ''data race detected'', Test := ts_current st\<rparr>]\<rparr>
      else case testFailLine line of
        Some t \<Rightarrow> st\<lparr>ts_current := t, ts_failedTests := ts_failedTests st + 1,
                     ts_findings := ts_findings st @ [no_finding\<lparr>Test := t, Message := ''test failed''\<rparr>]\<rparr>
      | None \<Rightarrow>
          (case testPanic line of
             Some msg \<Rightarrow> st\<lparr>ts_findings := ts_findings st @
                              [no_finding\<lparr>Message := ''panic: '' @ msg, Test := ts_current st\<rparr>]\<rparr>
           | None \<Rightarrow>
               if pkgLine ''FAIL'' line then st\<lparr>ts_failedPkgs := ts_failedPkgs st + 1\<rparr>
               else if pkgLine ''ok'' line then st\<lparr>ts_okPkgs := ts_okPkgs st + 1\<rparr>
               else (case testLocation line of
                       Some loc \<Rightarrow>
                         if ts_current st \<noteq> [] then
                           st\<lparr>ts_findings := rev (attach_rev (ts_current st) loc (rev (ts_findings st)))\<rparr>
                         else st
                     | None \<Rightarrow> st)))"

definition test_counts :: "test_scan \<Rightarrow> string \<Rightarrow> int" where
  "test_counts st = countsOf [(''failed_tests'', ts_failedTests st), (''failed_packages'', ts_failedPkgs st),
                              (''passed_packages'', ts_okPkgs st), (''races'', ts_races st)]"

definition scan_tests :: "string \<Rightarrow> test_scan" where
  "scan_tests out =
     foldl test_line \<lparr>ts_findings = [], ts_failedTests = 0, ts_okPkgs = 0, ts_failedPkgs = 0, ts_races = 0,
                       ts_current = []\<rparr> (splitOn newline out)"

definition GoTest :: Summarizer where
  "GoTest exitCode out err =
     (let st = scan_tests (out @ [newline] @ err); counts = test_counts st in
      if exitCode = 0 then
        (Pass, no_summary\<lparr>Headline := (if ts_okPkgs st = 0 then ''no test packages ran''
                                      else showInt (ts_okPkgs st) @ '' package(s) passed''),
                          Counts := counts\<rparr>)
      else if ts_findings st = [] then
        (case Generic exitCode out err of (s, sm) \<Rightarrow> (s, sm\<lparr>Counts := counts\<rparr>))
      else let shown = trimFindings (sortFindings (ts_findings st));
               head = showInt (ts_failedTests st) @ '' test(s) failed in '' @ showInt (ts_failedPkgs st) @ '' package(s)''
           in (Fail, no_summary\<lparr>
                 Headline := (if ts_races st > 0 then showInt (ts_races st) @ '' data race(s) detected; '' @ head else head),
                 Findings := fst shown, Counts := counts, Truncated := snd shown\<rparr>))"

definition GoRace :: Summarizer where
  "GoRace exitCode out err =
     (case GoTest exitCode out err of
        (st, sm) \<Rightarrow>
          if Counts sm ''races'' > 0 \<and> st = Pass then
            (Fail, no_summary\<lparr>Headline := showInt (Counts sm ''races'') @ '' data race(s) detected'',
                              Findings := Findings sm, Counts := Counts sm\<rparr>)
          else (st, sm))"

text \<open>
  \<^verbatim>\<open>GoTestJSON\<close>: the lines of \<^verbatim>\<open>bufio.Scanner\<close> with its 8 MiB limit, each decoded as one event
  (action, package, test, output) by the argument \<open>event\<close>.
\<close>

definition scanLimit :: nat where
  "scanLimit = 8388608"

definition dropCR :: "string \<Rightarrow> string" where
  "dropCR l = (if l \<noteq> [] \<and> last l = CHR 0x0D then butlast l else l)"

definition scannerLines :: "string \<Rightarrow> string list" where
  "scannerLines s = (let ps = splitOn newline s in if last ps = [] then butlast ps else ps)"

definition json_line ::
  "(string \<Rightarrow> (string \<times> string \<times> string \<times> string) option) \<Rightarrow> string \<times> (string \<Rightarrow> Status option) \<Rightarrow> string
   \<Rightarrow> string \<times> (string \<Rightarrow> Status option)" where
  "json_line event acc line =
     (case event line of
        None \<Rightarrow> (fst acc @ line @ [newline], snd acc)
      | Some (action, pkg, test, output) \<Rightarrow>
          (fst acc @ output,
           if test = [] then snd acc
           else if action = ''pass'' then (snd acc)(pkg @ ''/'' @ test \<mapsto> Pass)
           else if action = ''fail'' then (snd acc)(pkg @ ''/'' @ test \<mapsto> Fail)
           else if action = ''skip'' then (snd acc)(pkg @ ''/'' @ test \<mapsto> Skipped)
           else snd acc))"

definition GoTestJSON :: "(string \<Rightarrow> (string \<times> string \<times> string \<times> string) option) \<Rightarrow> Summarizer" where
  "GoTestJSON event exitCode out err =
     (let ls = scannerLines out;
          acc = foldl (json_line event) ([], \<lambda>_. None) (map dropCR (takeWhile (\<lambda>l. length l < scanLimit) ls));
          tooLong = list_ex (\<lambda>l. scanLimit \<le> length l) ls
      in case GoTest exitCode (fst acc) err of
           (st, sm) \<Rightarrow>
             (if tooLong then (Error, sm\<lparr>Tests := snd acc, Headline := ''test JSON exceeded capture limits''\<rparr>)
              else (st, sm\<lparr>Tests := snd acc\<rparr>)))"

section \<open>Linters\<close>

record semgrep_result =
  sg_CheckID :: string
  sg_Path :: string
  sg_Line :: int
  sg_Col :: int
  sg_Message :: string
  sg_Severity :: string

record semgrepOutput =
  sg_Results :: "semgrep_result list"
  sg_Errors :: "string list"

definition tally :: "string list \<Rightarrow> string \<Rightarrow> int" where
  "tally ks k = int (length (filter (\<lambda>x. x = k) ks))"

text \<open>
  The keys of the severity tally are lowered (after being raised, which for the letters of a severity
  word changes nothing); \<open>lower\<close> is \<^verbatim>\<open>strings.ToLower(strings.ToUpper(s))\<close>.
\<close>

definition Semgrep :: "(string \<Rightarrow> semgrepOutput option) \<Rightarrow> (string \<Rightarrow> string) \<Rightarrow> Summarizer" where
  "Semgrep decode lower exitCode out err =
     (case decode out of
        None \<Rightarrow> Generic exitCode out err
      | Some o' \<Rightarrow>
          if sg_Results o' = [] \<and> sg_Errors o' = [] then (Pass, no_summary\<lparr>Headline := ''no semgrep findings''\<rparr>)
          else let findings = map (\<lambda>r. \<lparr>File = sg_Path r, Line = sg_Line r, Column = sg_Col r,
                                         Message = (if isBlank (sg_Message r) then sg_CheckID r else trimSpace (sg_Message r)),
                                         Test = [], FRule = sg_CheckID r\<rparr>) (sg_Results o');
                   bySeverity = tally (map (\<lambda>r. lower (sg_Severity r)) (sg_Results o'));
                   shown = trimFindings (sortFindings findings)
               in if sg_Errors o' \<noteq> [] then
                    (Error, no_summary\<lparr>Headline := ''semgrep could not complete: '' @ truncateLine (trimSpace (hd (sg_Errors o'))) 160,
                              Findings := findings,
                              Counts := countsOf [(''errors'', int (length (sg_Errors o'))),
                                                  (''findings'', int (length (sg_Results o')))]\<rparr>)
                  else if exitCode = 0 then
                    (Pass, no_summary\<lparr>Headline := showInt (int (length findings)) @ '' semgrep finding(s), none blocking'',
                             Findings := fst shown, Counts := bySeverity, Truncated := snd shown\<rparr>)
                  else
                    (Fail, no_summary\<lparr>Headline := showInt (int (length findings)) @ '' semgrep finding(s)'',
                             Findings := fst shown, Counts := bySeverity, Truncated := snd shown\<rparr>))"

record golangci_issue =
  gl_FromLinter :: string
  gl_Text :: string
  gl_Filename :: string
  gl_Line :: int
  gl_Column :: int

record golangciOutput =
  gl_Issues :: "golangci_issue list"
  gl_ReportError :: string

definition genericFindings :: "string \<Rightarrow> Finding list" where
  "genericFindings err = map (\<lambda>l. no_finding\<lparr>Message := l\<rparr>) (lastLines err 3)"

definition GolangciLint :: "(string \<Rightarrow> golangciOutput option) \<Rightarrow> Summarizer" where
  "GolangciLint decode exitCode out err =
     (case decode out of
        None \<Rightarrow> Generic exitCode out err
      | Some o' \<Rightarrow>
          if \<not> isBlank (gl_ReportError o') then
            (Error, no_summary\<lparr>Headline := ''golangci-lint could not complete: '' @ truncateLine (trimSpace (gl_ReportError o')) 160\<rparr>)
          else if gl_Issues o' = [] then
            (if exitCode \<noteq> 0 then
               (Error, no_summary\<lparr>Headline := ''golangci-lint exited '' @ showInt exitCode @ '' with no issues reported'',
                         Findings := genericFindings err\<rparr>)
             else (Pass, no_summary\<lparr>Headline := ''no golangci-lint issues''\<rparr>))
          else let findings = map (\<lambda>i. \<lparr>File = gl_Filename i, Line = gl_Line i, Column = gl_Column i,
                                         Message = (if isBlank (gl_Text i) then gl_FromLinter i else trimSpace (gl_Text i)),
                                         Test = [], FRule = gl_FromLinter i\<rparr>) (gl_Issues o');
                   shown = trimFindings (sortFindings findings)
               in (Fail, no_summary\<lparr>Headline := showInt (int (length findings)) @ '' golangci-lint issue(s)'',
                           Findings := fst shown, Counts := tally (map gl_FromLinter (gl_Issues o')),
                           Truncated := snd shown\<rparr>))"

section \<open>Verdicts\<close>

lemma finding_order: "weak_order finding_before"
  unfolding weak_order_def finding_before_def
  by (auto split: if_splits dest: less_trans)

lemma trimFindings_bound: "length (fst (trimFindings fs)) \<le> MaxFindings"
  by (simp add: trimFindings_def)

lemma trimFindings_flag: "snd (trimFindings fs) \<longleftrightarrow> length (fst (trimFindings fs)) < length fs"
  by (auto simp: trimFindings_def)

lemma lastLines_length: "length (lastLines s n) \<le> n"
  by (auto simp: lastLines_def Let_def)

lemma Generic_pass: "fst (Generic e out err) = Pass \<longleftrightarrow> e = 0"
  by (simp add: Generic_def Let_def)

lemma GoTest_pass: "fst (GoTest e out err) = Pass \<longleftrightarrow> e = 0"
  using Generic_pass [of e out err] by (auto simp: GoTest_def Let_def split: prod.splits)

definition race_line :: "string \<Rightarrow> bool" where
  "race_line l = hasPrefix l ''WARNING: DATA RACE''"

lemma test_line_races: "ts_races (test_line st l) = ts_races st + (if race_line l then 1 else 0)"
  by (auto simp: test_line_def race_line_def split: option.splits)

lemma foldl_test_races:
  "ts_races (foldl test_line st ls) = ts_races st + int (length (filter race_line ls))"
  by (induction ls arbitrary: st) (auto simp: test_line_races)

lemma scan_tests_races: "ts_races (scan_tests out) = int (length (filter race_line (splitOn newline out)))"
  by (simp add: scan_tests_def foldl_test_races)

lemma GoTest_races:
  "Counts (snd (GoTest e out err)) ''races'' = int (length (filter race_line (splitOn newline (out @ [newline] @ err))))"
proof -
  have "Counts (snd (GoTest e out err)) = test_counts (scan_tests (out @ [newline] @ err))"
    by (auto simp: GoTest_def Let_def split: prod.splits)
  then show ?thesis by (simp add: test_counts_def countsOf_def scan_tests_races)
qed

lemma splitOn_two: "splitOn newline (out @ [newline] @ err) = splitOn newline out @ splitOn newline err"
  by (simp add: splitOn_append)

lemma GoRace_pass:
  "fst (GoRace e out err) = Pass \<longleftrightarrow>
   e = 0 \<and> \<not> list_ex race_line (splitOn newline out @ splitOn newline err)"
proof -
  have "Counts (snd (GoTest e out err)) ''races'' > 0 \<longleftrightarrow>
      list_ex race_line (splitOn newline out @ splitOn newline err)"
    unfolding GoTest_races splitOn_two of_nat_0_less_iff length_greater_0_conv filter_empty_conv list_ex_iff by blast
  then show ?thesis
    using GoTest_pass [of e out err] by (cases "GoTest e out err") (auto simp: GoRace_def)
qed

lemma failing_not_pass [simp]: "fst (failing h k fs) = Fail"
  by (simp add: failing_def Let_def)

lemma GoBuild_pass: "fst (GoBuild e out err) = Pass \<longleftrightarrow> e = 0"
  by (simp add: GoBuild_def Let_def Generic_pass)

lemma GoVet_pass: "fst (GoVet e out err) = Pass \<longleftrightarrow> e = 0"
  by (simp add: GoVet_def Let_def Generic_pass)

lemma Gofmt_pass: "fst (Gofmt e out err) = Pass \<longleftrightarrow> e = 0 \<and> list_all isBlank (splitOn newline out)"
proof -
  have "filter (\<lambda>l. \<not> isBlank l) (splitOn newline out) = [] \<longleftrightarrow> list_all isBlank (splitOn newline out)"
    by (auto simp: filter_empty_conv list_all_iff)
  then show ?thesis by (simp add: Gofmt_def Let_def Generic_pass)
qed

lemma GoTestJSON_pass:
  "fst (GoTestJSON ev e out err) = Pass \<longleftrightarrow> e = 0 \<and> list_all (\<lambda>l. length l < scanLimit) (scannerLines out)"
proof -
  have "list_ex (\<lambda>l. scanLimit \<le> length l) ls \<longleftrightarrow> \<not> list_all (\<lambda>l. length l < scanLimit) ls" for ls :: "string list"
    by (auto simp: list_ex_iff list_all_iff not_less)
  then show ?thesis by (simp add: GoTestJSON_def Let_def case_prod_beta GoTest_pass)
qed

lemma GolangciLint_pass:
  "fst (GolangciLint dg e out err) = Pass \<longleftrightarrow>
   e = 0 \<and> (case dg out of None \<Rightarrow> True | Some r \<Rightarrow> isBlank (gl_ReportError r) \<and> gl_Issues r = [])"
  by (cases "dg out") (simp_all add: GolangciLint_def Let_def Generic_pass)

lemma Semgrep_pass:
  "fst (Semgrep ds low e out err) = Pass \<longleftrightarrow>
   (case ds out of None \<Rightarrow> e = 0 | Some r \<Rightarrow> sg_Errors r = [] \<and> (sg_Results r = [] \<or> e = 0))"
  by (cases "ds out") (simp_all add: Semgrep_def Let_def Generic_pass)

lemma Generic_bounded: "length (Findings (snd (Generic e out err))) \<le> MaxFindings"
  using lastLines_length [of _ 5]
  by (simp add: Generic_def Let_def no_summary_def MaxFindings_def) (meson le_trans numeral_le_iff semiring_norm)

lemma failing_bounded: "length (Findings (snd (failing h k fs))) \<le> MaxFindings"
  using trimFindings_bound by (simp add: failing_def Let_def)

lemma failing_flag: "Truncated (snd (failing h k fs)) \<longleftrightarrow> length (Findings (snd (failing h k fs))) < length fs"
  using trimFindings_flag [of "sortFindings fs"] by (simp add: failing_def Let_def sortFindings_def)

lemma GoTest_bounded: "length (Findings (snd (GoTest e out err))) \<le> MaxFindings"
  using Generic_bounded [of e out err] trimFindings_bound
  by (simp add: GoTest_def Let_def case_prod_beta) (simp add: no_summary_def)

lemma GoBuild_bounded: "length (Findings (snd (GoBuild e out err))) \<le> MaxFindings"
  using Generic_bounded [of e out err] failing_bounded
  by (simp add: GoBuild_def Let_def) (simp add: no_summary_def)

lemma GoVet_bounded: "length (Findings (snd (GoVet e out err))) \<le> MaxFindings"
  using Generic_bounded [of e out err] failing_bounded
  by (simp add: GoVet_def Let_def) (simp add: no_summary_def)

lemma Gofmt_bounded: "length (Findings (snd (Gofmt e out err))) \<le> MaxFindings"
  using Generic_bounded [of e out err] failing_bounded
  by (simp add: Gofmt_def Let_def) (simp add: no_summary_def)

lemma GoRace_bounded: "length (Findings (snd (GoRace e out err))) \<le> MaxFindings"
  using GoTest_bounded [of e out err] by (simp add: GoRace_def case_prod_beta)

lemma GolangciLint_bounded: "length (Findings (snd (GolangciLint dg e out err))) \<le> MaxFindings"
proof -
  have "length (genericFindings err) \<le> MaxFindings"
    using lastLines_length [of err 3] by (simp add: genericFindings_def MaxFindings_def)
  then show ?thesis
    using Generic_bounded [of e out err] trimFindings_bound
    by (cases "dg out") (simp_all add: GolangciLint_def Let_def, simp add: no_summary_def)
qed

lemma Semgrep_bounded:
  "fst (Semgrep ds low e out err) = Error \<or> length (Findings (snd (Semgrep ds low e out err))) \<le> MaxFindings"
  using Generic_bounded [of e out err] trimFindings_bound
  by (cases "ds out") (simp_all add: Semgrep_def Let_def, simp add: no_summary_def)

text \<open>
  C36. When a check is a pass.  The verdict of every summarizer, exactly: the command's exit status is
  zero and, where the tool reports problems while exiting zero, there are none: no race report on
  any line for the race run, no listed file for gofmt, no issue and no report error for
  golangci-lint, no over-long line for the JSON test run.  Semgrep alone passes without looking at
  the exit status when its report is empty.
\<close>

theorem pass_verdicts:
  "(fst (Generic e out err) = Pass \<longleftrightarrow> e = 0) \<and>
   (fst (GoBuild e out err) = Pass \<longleftrightarrow> e = 0) \<and>
   (fst (GoVet e out err) = Pass \<longleftrightarrow> e = 0) \<and>
   (fst (GoTest e out err) = Pass \<longleftrightarrow> e = 0) \<and>
   (fst (GoRace e out err) = Pass \<longleftrightarrow> e = 0 \<and> \<not> list_ex race_line (splitOn newline out @ splitOn newline err)) \<and>
   (fst (GoTestJSON ev e out err) = Pass \<longleftrightarrow> e = 0 \<and> list_all (\<lambda>l. length l < scanLimit) (scannerLines out)) \<and>
   (fst (Gofmt e out err) = Pass \<longleftrightarrow> e = 0 \<and> list_all isBlank (splitOn newline out)) \<and>
   (fst (GolangciLint dg e out err) = Pass \<longleftrightarrow>
      e = 0 \<and> (case dg out of None \<Rightarrow> True | Some r \<Rightarrow> isBlank (gl_ReportError r) \<and> gl_Issues r = [])) \<and>
   (fst (Semgrep ds low e out err) = Pass \<longleftrightarrow>
      (case ds out of None \<Rightarrow> e = 0 | Some r \<Rightarrow> sg_Errors r = [] \<and> (sg_Results r = [] \<or> e = 0)))"
  by (intro conjI) (rule Generic_pass GoBuild_pass GoVet_pass GoTest_pass GoRace_pass GoTestJSON_pass
    Gofmt_pass GolangciLint_pass Semgrep_pass)+

text \<open>
  A summary stays small: every built-in summarizer keeps at most twenty findings, and the
  truncation flag of a failing build, vet or format run is set exactly when findings were dropped.
  The one exception is semgrep's error report, which carries all of its findings.
\<close>

theorem findings_bounded:
  "length (Findings (snd (Generic e out err))) \<le> MaxFindings \<and>
   length (Findings (snd (GoBuild e out err))) \<le> MaxFindings \<and>
   length (Findings (snd (GoVet e out err))) \<le> MaxFindings \<and>
   length (Findings (snd (GoTest e out err))) \<le> MaxFindings \<and>
   length (Findings (snd (GoRace e out err))) \<le> MaxFindings \<and>
   length (Findings (snd (Gofmt e out err))) \<le> MaxFindings \<and>
   length (Findings (snd (GolangciLint dg e out err))) \<le> MaxFindings \<and>
   (fst (Semgrep ds low e out err) = Error \<or> length (Findings (snd (Semgrep ds low e out err))) \<le> MaxFindings) \<and>
   (Truncated (snd (failing h k fs)) \<longleftrightarrow> length (Findings (snd (failing h k fs))) < length fs)"
  by (intro conjI) (rule Generic_bounded GoBuild_bounded GoVet_bounded GoTest_bounded GoRace_bounded Gofmt_bounded
    GolangciLint_bounded Semgrep_bounded failing_flag)+

end
