(* ===== verification/Recipe.thy ===== *)
theory Recipe
  imports Summarize
begin

text \<open>
  The deterministic checks: \<^verbatim>\<open>src/internal/recipe/recipe.go\<close> (running recipes), \<^verbatim>\<open>builtin.go\<close>
  (verification levels and the Go recipes) and \<^verbatim>\<open>presets.go\<close> (supervisor-owned commands frozen for a
  task).  The sandbox is an argument: a function from the confined command to what running it
  produced, on an abstract world \<open>'w\<close> that a run may change (a refused command carries its message and the time it took); so are the artifact store and the
  rendering of a duration.
\<close>

section \<open>Kinds, recipes and results\<close>

datatype Kind =
    KindBuild | KindVet | KindTest | KindRace | KindLint | KindAnalyzer | KindFormat | KindGenerate
  | KindIntegration | KindCustom | KindOther string

record Recipe =
  rec_Name :: string
  rec_Kind :: Kind
  rec_Argv :: "string list"
  rec_Dir :: string
  rec_Timeout :: int
  rec_Env :: "string list"
  rec_Summarize :: "Summarizer option"
  rec_AppliesTo :: "(string \<Rightarrow> bool) option"

record Result =
  res_Recipe :: string
  res_Kind :: Kind
  res_Status :: Status
  res_Summary :: Summary
  res_ExitCode :: int
  res_Duration :: int
  res_Candidate :: string
  res_ArtifactHash :: string
  res_Err :: string

definition Passed :: "Result \<Rightarrow> bool" where
  "Passed r = (res_Status r = Pass)"

section \<open>Output capture\<close>

record cappedBuffer =
  cb_buf :: string
  cb_limit :: int
  cb_truncated :: bool

definition cb_Write :: "cappedBuffer \<Rightarrow> string \<Rightarrow> cappedBuffer" where
  "cb_Write c p =
     (let remaining = cb_limit c - int (length (cb_buf c)) in
      if remaining > 0 then
        (if int (length p) > remaining
         then c\<lparr>cb_buf := cb_buf c @ take (nat remaining) p, cb_truncated := True\<rparr>
         else c\<lparr>cb_buf := cb_buf c @ p\<rparr>)
      else if p \<noteq> [] then c\<lparr>cb_truncated := True\<rparr>
      else c)"

definition cb_String :: "cappedBuffer \<Rightarrow> string" where
  "cb_String c = (if cb_truncated c then cb_buf c @ [newline] @ ''[output truncated]'' else cb_buf c)"

section \<open>Running one recipe\<close>

text \<open>What the process did: its writes to both streams, how it ended, and whether its deadline had passed.\<close>

datatype run_end = ExitOk | ExitError int string | ExecError string | OtherError string

record run_report =
  rr_stdout :: "string list"
  rr_stderr :: "string list"
  rr_end :: run_end
  rr_timedOut :: bool
  rr_elapsed :: int

record Spec =
  spec_Dir :: string
  spec_Env :: "string list"

type_synonym 'w sandbox = "Spec \<Rightarrow> string list \<Rightarrow> int \<Rightarrow> 'w \<Rightarrow> (string \<times> int + run_report) \<times> 'w"

record 'w Runner =
  rn_Sandbox :: "'w sandbox option"
  rn_Spec :: Spec
  rn_Store :: "(string \<Rightarrow> string option) option"
  rn_MaxOutputBytes :: int
  rn_showDuration :: "int \<Rightarrow> string"
  rn_cancelled :: "'w \<Rightarrow> bool"

definition DefaultMaxOutput :: int where
  "DefaultMaxOutput = 8388608"

definition exitCodeOf :: "run_end \<Rightarrow> int" where
  "exitCodeOf e = (case e of ExitOk \<Rightarrow> 0 | ExitError n _ \<Rightarrow> n | ExecError _ \<Rightarrow> - 1 | OtherError _ \<Rightarrow> - 1)"

definition kind_name :: "Kind \<Rightarrow> string" where
  "kind_name k = (case k of
     KindBuild \<Rightarrow> ''build'' | KindVet \<Rightarrow> ''vet'' | KindTest \<Rightarrow> ''test'' | KindRace \<Rightarrow> ''race'' | KindLint \<Rightarrow> ''lint''
   | KindAnalyzer \<Rightarrow> ''analyzer'' | KindFormat \<Rightarrow> ''format'' | KindGenerate \<Rightarrow> ''generate''
   | KindIntegration \<Rightarrow> ''integration'' | KindCustom \<Rightarrow> ''custom'' | KindOther s \<Rightarrow> s)"

text \<open>Durations are in milliseconds; \<open>rn_showDuration\<close> renders one.\<close>

definition persist :: "'w Runner \<Rightarrow> Result \<Rightarrow> string \<Rightarrow> string \<Rightarrow> Result" where
  "persist r res out err =
     (case rn_Store r of
        None \<Rightarrow> res
      | Some put \<Rightarrow>
          (case put (''$ recipe '' @ res_Recipe res @ '' ('' @ kind_name (res_Kind res) @ '')'' @ [newline] @
                     ''exit '' @ showInt (res_ExitCode res) @ '' after '' @ rn_showDuration r (res_Duration res) @
                     [newline, newline] @ ''--- stdout ---'' @ [newline] @ out @ [newline] @
                     ''--- stderr ---'' @ [newline] @ err @ [newline]) of
             Some h \<Rightarrow> res\<lparr>res_ArtifactHash := h\<rparr>
           | None \<Rightarrow> res))"

definition capture :: "int \<Rightarrow> string list \<Rightarrow> string" where
  "capture limit writes =
     cb_String (foldl cb_Write \<lparr>cb_buf = [], cb_limit = limit, cb_truncated = False\<rparr> writes)"

definition blank_result :: "Recipe \<Rightarrow> string \<Rightarrow> Result" where
  "blank_result rec candidate =
     \<lparr>res_Recipe = rec_Name rec, res_Kind = rec_Kind rec, res_Status = Skipped, res_Summary = no_summary,
      res_ExitCode = 0, res_Duration = 0, res_Candidate = candidate, res_ArtifactHash = [], res_Err = []\<rparr>"

definition run_error :: "Result \<Rightarrow> string \<Rightarrow> Result" where
  "run_error res msg = res\<lparr>res_Status := Error, res_Err := msg, res_Summary := no_summary\<lparr>Headline := msg\<rparr>\<rparr>"

definition end_text :: "run_end \<Rightarrow> string" where
  "end_text e = (case e of ExitOk \<Rightarrow> [] | ExitError _ s \<Rightarrow> s | ExecError s \<Rightarrow> s | OtherError s \<Rightarrow> s)"

text \<open>The verdict on a process that was started (from \<^verbatim>\<open>cmd.Run()\<close> on).\<close>

definition judge_run :: "'w Runner \<Rightarrow> Recipe \<Rightarrow> int \<Rightarrow> run_report \<Rightarrow> Result \<Rightarrow> Result" where
  "judge_run r rec timeout rr res0 =
     (let limit = (if rn_MaxOutputBytes r \<le> 0 then DefaultMaxOutput else rn_MaxOutputBytes r);
          out = capture limit (rr_stdout rr); err = capture limit (rr_stderr rr);
          code = exitCodeOf (rr_end rr);
          res = res0\<lparr>res_Duration := rr_elapsed rr, res_ExitCode := code\<rparr>
      in if rr_timedOut rr then
           persist r (run_error res (rec_Name rec @ '' timed out after '' @ rn_showDuration r timeout)) out err
         else case rr_end rr of
           ExecError msg \<Rightarrow> run_error res (rec_Name rec @ '' could not run: '' @ msg)
         | _ \<Rightarrow>
             if code = 126 \<or> code = 127 then
               persist r (run_error res
                 (rec_Name rec @ '' could not run (exit '' @ showInt code @ ''): '' @
                  (if code = 126
                   then ''found but not executable inside the sandbox '' @ [CHR 0xE2, CHR 0x80, CHR 0x94] @
                        '' if it lives outside sandbox.read_only_paths, Landlock denies the exec''
                   else ''not found on PATH inside the sandbox'') @ '': '' @ truncateLine err 200)) out err
             else
               (let sm = (case rec_Summarize rec of None \<Rightarrow> Generic | Some f \<Rightarrow> f) code out err
                in persist r (res\<lparr>res_Status := fst sm, res_Summary := snd sm\<rparr>) out err))"

definition command_spec :: "'w Runner \<Rightarrow> Recipe \<Rightarrow> string \<Rightarrow> Spec" where
  "command_spec r rec wt =
     (rn_Spec r)\<lparr>spec_Dir := (if rec_Dir rec \<noteq> [] then wt @ ''/'' @ trimPrefix (rec_Dir rec) ''/'' else wt),
                 spec_Env := spec_Env (rn_Spec r) @ rec_Env rec\<rparr>"

definition effective_timeout :: "Recipe \<Rightarrow> int" where
  "effective_timeout rec = (if rec_Timeout rec \<le> 0 then 600000 else rec_Timeout rec)"

definition Run :: "'w Runner \<Rightarrow> Recipe \<Rightarrow> string \<Rightarrow> string \<Rightarrow> 'w \<Rightarrow> Result \<times> 'w" where
  "Run r rec worktreePath candidate w =
     (let res = blank_result rec candidate in
      if (case rec_AppliesTo rec of None \<Rightarrow> False | Some applies \<Rightarrow> \<not> applies worktreePath) then
        (res\<lparr>res_Status := Skipped,
             res_Summary := no_summary\<lparr>Headline := rec_Name rec @ '' does not apply to this worktree''\<rparr>\<rparr>, w)
      else if rec_Argv rec = [] then
        (res\<lparr>res_Status := Error, res_Err := ''recipe has no command''\<rparr>, w)
      else case rn_Sandbox r of
        None \<Rightarrow> (res\<lparr>res_Status := Error,
                    res_Err := ''no sandbox runner configured; verification must not run unconfined''\<rparr>, w)
      | Some sb \<Rightarrow>
          (case sb (command_spec r rec worktreePath) (rec_Argv rec) (effective_timeout rec) w of
             (Inl (msg, elapsed), w') \<Rightarrow> (res\<lparr>res_Status := Error, res_Err := msg, res_Duration := elapsed\<rparr>, w')
           | (Inr rr, w') \<Rightarrow> (judge_run r rec (effective_timeout rec) rr res, w')))"

section \<open>Running all of them\<close>

definition skipped_result :: "string \<Rightarrow> Recipe \<Rightarrow> Result" where
  "skipped_result candidate rec =
     (blank_result rec candidate)\<lparr>res_Status := Skipped,
        res_Summary := no_summary\<lparr>Headline := ''skipped: the code does not compile''\<rparr>\<rparr>"

fun RunAll :: "'w Runner \<Rightarrow> Recipe list \<Rightarrow> string \<Rightarrow> string \<Rightarrow> 'w \<Rightarrow> Result list \<times> 'w" where
  "RunAll r [] worktreePath candidate w = ([], w)"
| "RunAll r (rec # recs) worktreePath candidate w =
     (if rn_cancelled r w then ([], w)
      else case Run r rec worktreePath candidate w of
             (res, w1) \<Rightarrow>
               if rec_Kind rec = KindBuild \<and> res_Status res = Fail
               then (res # map (skipped_result candidate) recs, w1)
               else (case RunAll r recs worktreePath candidate w1 of (rest, w2) \<Rightarrow> (res # rest, w2)))"

section \<open>Verification levels and built-in recipes\<close>

datatype Level = Low | Standard | High | LevelOther string

definition ParseLevel :: "string \<Rightarrow> Level option" where
  "ParseLevel s =
     (if s = ''low'' then Some Low else if s = ''standard'' then Some Standard
      else if s = ''high'' then Some High else None)"

definition Includes :: "Level \<Rightarrow> Kind \<Rightarrow> bool" where
  "Includes l k =
     (case l of
        Low \<Rightarrow> k = KindBuild
      | Standard \<Rightarrow> k = KindBuild \<or> k = KindVet \<or> k = KindTest \<or> k = KindFormat
      | High \<Rightarrow> True
      | LevelOther _ \<Rightarrow> False)"

definition IncludesDeclared :: "Level \<Rightarrow> bool" where
  "IncludesDeclared l = (l = High)"

definition Required :: "Level \<Rightarrow> Kind list" where
  "Required l =
     (case l of
        Low \<Rightarrow> [KindBuild]
      | Standard \<Rightarrow> [KindBuild, KindVet, KindTest, KindFormat]
      | High \<Rightarrow> [KindBuild, KindVet, KindTest, KindRace, KindFormat]
      | LevelOther _ \<Rightarrow> [])"

definition ConditionalKinds :: "Kind list" where
  "ConditionalKinds = [KindLint, KindAnalyzer, KindGenerate, KindIntegration]"

text \<open>
  What the probes of the environment answer (a \<^verbatim>\<open>go.mod\<close>, a linter configuration, semgrep rules) and the
  JSON decoders are a record.
\<close>

record probes =
  pr_isFile :: "string \<Rightarrow> bool"
  pr_exists :: "string \<Rightarrow> bool"
  pr_readDir :: "string \<Rightarrow> (string \<times> bool) list option"
  pr_lookPath :: "string \<Rightarrow> bool"
  pr_golangci :: "string \<Rightarrow> golangciOutput option"
  pr_semgrep :: "string \<Rightarrow> semgrepOutput option"
  pr_testEvent :: "string \<Rightarrow> (string \<times> string \<times> string \<times> string) option"
  pr_lower :: "string \<Rightarrow> string"

definition GolangciConfigNames :: "string list" where
  "GolangciConfigNames = [''.golangci.yml'', ''.golangci.yaml'', ''.golangci.toml'', ''.golangci.json'']"

definition HasGolangciConfig :: "probes \<Rightarrow> string \<Rightarrow> bool" where
  "HasGolangciConfig pr wt =
     (if \<not> list_ex (\<lambda>n. pr_isFile pr (joinPath wt n)) GolangciConfigNames then False
      else pr_lookPath pr ''golangci-lint'')"

definition HasSemgrepRules :: "probes \<Rightarrow> string \<Rightarrow> bool" where
  "HasSemgrepRules pr wt =
     (case pr_readDir pr (joinPath wt ''semgrep'') of
        None \<Rightarrow> False
      | Some es \<Rightarrow>
          if \<not> list_ex (\<lambda>(n, isdir). \<not> isdir \<and> (fileExt n = ''.yaml'' \<or> fileExt n = ''.yml'')) es then False
          else pr_lookPath pr ''semgrep'')"

definition mk_recipe ::
  "string \<Rightarrow> Kind \<Rightarrow> (string \<Rightarrow> bool) \<Rightarrow> string list \<Rightarrow> int \<Rightarrow> Summarizer \<Rightarrow> Recipe" where
  "mk_recipe n k applies argv timeout sm =
     \<lparr>rec_Name = n, rec_Kind = k, rec_Argv = argv, rec_Dir = [], rec_Timeout = timeout, rec_Env = [],
      rec_Summarize = Some sm, rec_AppliesTo = Some applies\<rparr>"

definition minutes :: "int \<Rightarrow> int" where
  "minutes n = n * 60000"

definition GoRecipes :: "probes \<Rightarrow> Level \<Rightarrow> Recipe list" where
  "GoRecipes pr level =
     (let isGo = (\<lambda>wt. pr_exists pr (joinPath wt ''go.mod'')) in
      filter (\<lambda>r. Includes level (rec_Kind r))
        [mk_recipe ''go build'' KindBuild isGo [''go'', ''build'', ''./...''] (minutes 5) GoBuild,
         mk_recipe ''go vet'' KindVet isGo [''go'', ''vet'', ''./...''] (minutes 5) GoVet,
         mk_recipe ''go test'' KindTest isGo [''go'', ''test'', ''./...''] (minutes 15) GoTest,
         mk_recipe ''gofmt'' KindFormat isGo [''gofmt'', ''-l'', ''.''] (minutes 1) Gofmt,
         mk_recipe ''go test -race'' KindRace isGo [''go'', ''test'', ''-race'', ''./...''] (minutes 25) GoRace,
         mk_recipe ''golangci-lint'' KindLint (HasGolangciConfig pr)
           [''golangci-lint'', ''run'', ''--output.json.path'', ''stdout'', ''./...''] (minutes 10)
           (GolangciLint (pr_golangci pr)),
         mk_recipe ''semgrep'' KindAnalyzer (HasSemgrepRules pr)
           [''semgrep'', ''--config'', ''semgrep'', ''--json'', ''--quiet'', ''--error'', ''--disable-version-check'',
            ''--metrics'', ''off'', ''.''] (minutes 5) (Semgrep (pr_semgrep pr) (pr_lower pr))])"

definition GoEnv :: "string \<Rightarrow> string \<Rightarrow> string \<Rightarrow> string list" where
  "GoEnv goCacheDir goModCacheDir tmpDir =
     [''HOME='' @ tmpDir, ''GOCACHE='' @ goCacheDir, ''GOMODCACHE='' @ goModCacheDir, ''GOTMPDIR='' @ tmpDir,
      ''TMPDIR='' @ tmpDir, ''GOTELEMETRY=off'', ''GOTELEMETRYDIR='' @ tmpDir @ ''/telemetry'', ''NO_COLOR=1'',
      ''TERM=dumb'', ''GOFLAGS=-mod=mod'', ''GOPROXY=off'', ''GOTOOLCHAIN=local'',
      ''PATH=/usr/local/go/bin:/opt/le/gotools/bin:/usr/local/bin:/usr/bin:/bin'']"

definition GoSandboxPaths :: "string \<Rightarrow> string \<Rightarrow> string \<Rightarrow> string list \<times> string list" where
  "GoSandboxPaths goCacheDir goModCacheDir tmpDir =
     ([goCacheDir, tmpDir] @ (if goModCacheDir \<noteq> [] then [goModCacheDir] else []),
      [''/usr/local/go'', ''/usr/lib/go'', ''/usr/share/go'', ''/etc/ssl'', ''/etc/ca-certificates'', ''/etc/passwd'',
       ''/etc/group'', ''/etc/nsswitch.conf''])"

definition DeviceFiles :: "string list" where
  "DeviceFiles = [''/dev/null'', ''/dev/zero'', ''/dev/full'', ''/dev/random'', ''/dev/urandom'', ''/dev/tty'']"

section \<open>Capture is a bounded prefix\<close>

definition capped :: "int \<Rightarrow> string \<Rightarrow> cappedBuffer" where
  "capped limit s =
     \<lparr>cb_buf = take (nat limit) s, cb_limit = limit, cb_truncated = (limit < int (length s))\<rparr>"

lemma cb_Write_capped:
  assumes "0 \<le> limit"
  shows "cb_Write (capped limit s) p = capped limit (s @ p)"
proof (cases "int (length s) \<le> limit")
  case True
  then have t: "take (nat limit) s = s" by simp
  then show ?thesis using True assms by (auto simp: cb_Write_def capped_def Let_def nat_diff_distrib)
next
  case False
  then have "length (take (nat limit) s) = nat limit" by simp
  with False assms show ?thesis by (auto simp: cb_Write_def capped_def Let_def)
qed

lemma foldl_cb_Write: "0 \<le> limit \<Longrightarrow> foldl cb_Write (capped limit s) ws = capped limit (s @ concat ws)"
  by (induction ws arbitrary: s) (simp_all add: cb_Write_capped)

lemma capture_eq:
  "0 \<le> limit \<Longrightarrow> capture limit ws =
   (if int (length (concat ws)) \<le> limit then concat ws
    else take (nat limit) (concat ws) @ [newline] @ ''[output truncated]'')"
  using foldl_cb_Write [of limit "[]" ws] by (simp add: capture_def capped_def cb_String_def)

section \<open>What a result says\<close>

lemma persist_fields [simp]:
  "res_Recipe (persist r res out err) = res_Recipe res" "res_Kind (persist r res out err) = res_Kind res"
  "res_Status (persist r res out err) = res_Status res" "res_Candidate (persist r res out err) = res_Candidate res"
  "res_ExitCode (persist r res out err) = res_ExitCode res"
  by (auto simp: persist_def split: option.splits)

lemma run_error_fields [simp]:
  "res_Recipe (run_error res m) = res_Recipe res" "res_Kind (run_error res m) = res_Kind res"
  "res_Status (run_error res m) = Error" "res_Candidate (run_error res m) = res_Candidate res"
  by (simp_all add: run_error_def)

lemma blank_result_fields [simp]:
  "res_Recipe (blank_result rec c) = rec_Name rec" "res_Kind (blank_result rec c) = rec_Kind rec"
  "res_Candidate (blank_result rec c) = c" "res_Status (blank_result rec c) = Skipped"
  by (simp_all add: blank_result_def)

lemma judge_run_fields [simp]:
  "res_Recipe (judge_run r rec t rr res) = res_Recipe res" "res_Kind (judge_run r rec t rr res) = res_Kind res"
  "res_Candidate (judge_run r rec t rr res) = res_Candidate res"
  by (simp_all add: judge_run_def Let_def split: run_end.splits)

lemma Run_fields:
  assumes "Run r rec wt c w = (res, w')"
  shows "res_Recipe res = rec_Name rec" and "res_Kind res = rec_Kind rec" and "res_Candidate res = c"
proof -
  have "res = fst (Run r rec wt c w)" using assms by simp
  then show "res_Recipe res = rec_Name rec" and "res_Kind res = rec_Kind rec" and "res_Candidate res = c"
    by (simp_all add: Run_def Let_def split: option.splits prod.splits sum.splits)
qed

lemma judge_run_verdict:
  assumes "res_Status (judge_run r rec t rr res) \<in> {Pass, Fail}"
  shows "\<not> rr_timedOut rr \<and> (\<forall>m. rr_end rr \<noteq> ExecError m) \<and> exitCodeOf (rr_end rr) \<notin> {126, 127}"
  using assms by (auto simp: judge_run_def Let_def split: if_splits run_end.splits)


definition demo_recipe :: Recipe where
  "demo_recipe = \<lparr>rec_Name = ''go build'', rec_Kind = KindBuild, rec_Argv = [''go''], rec_Dir = ''/sub'', rec_Timeout = 0,
     rec_Env = [], rec_Summarize = Some GoBuild, rec_AppliesTo = None\<rparr>"

definition demo_runner :: "int \<Rightarrow> nat Runner" where
  "demo_runner code = \<lparr>rn_Sandbox = Some (\<lambda>_ _ _ w. (Inr \<lparr>rr_stdout = [''x''], rr_stderr = [],
       rr_end = (if code = 0 then ExitOk else ExitError code []), rr_timedOut = False, rr_elapsed = 1\<rparr>, Suc w)),
     rn_Spec = \<lparr>spec_Dir = [], spec_Env = []\<rparr>, rn_Store = None, rn_MaxOutputBytes = 0,
     rn_showDuration = showInt, rn_cancelled = (\<lambda>_. False)\<rparr>"

lemma demo_run:
  "\<exists>res. Run (demo_runner 0) demo_recipe ''/w'' ''c1'' 0 = (res, 1) \<and> res_Status res = Pass"
  by (simp add: Run_def Let_def demo_runner_def demo_recipe_def judge_run_def GoBuild_def exitCodeOf_def)


section \<open>The whole suite\<close>

lemma skipped_result_fields [simp]:
  "res_Recipe (skipped_result c rec) = rec_Name rec" "res_Status (skipped_result c rec) = Skipped"
  "res_Candidate (skipped_result c rec) = c" "res_Kind (skipped_result c rec) = rec_Kind rec"
  by (simp_all add: skipped_result_def)

lemma RunAll_names: "prefix (map res_Recipe (fst (RunAll r recs wt c w))) (map rec_Name recs)"
  by (induction r recs wt c w rule: RunAll.induct) (auto split: prod.splits simp: comp_def dest: Run_fields)

lemma RunAll_candidate: "res \<in> set (fst (RunAll r recs wt c w)) \<Longrightarrow> res_Candidate res = c"
  by (induction r recs wt c w rule: RunAll.induct) (auto split: prod.splits if_splits dest: Run_fields)

lemma RunAll_pairs:
  "(\<And>v. \<not> rn_cancelled r v) \<Longrightarrow>
   list_all2 (\<lambda>rec res. res_Recipe res = rec_Name rec \<and> res_Kind res = rec_Kind rec) recs (fst (RunAll r recs wt c w))"
  by (induction r recs wt c w rule: RunAll.induct)
     (auto split: prod.splits simp: list_all2_map2 list.rel_refl dest: Run_fields)

lemma RunAll_complete:
  assumes "\<And>v. \<not> rn_cancelled r v"
  shows "map res_Recipe (fst (RunAll r recs wt c w)) = map rec_Name recs"
  using RunAll_pairs [OF assms, of recs wt c w]
  by (auto simp: list_all2_conv_all_nth intro: nth_equalityI)

lemma RunAll_stops:
  "i < j \<Longrightarrow> j < length (fst (RunAll r recs wt c w)) \<Longrightarrow>
   rec_Kind (recs ! i) = KindBuild \<Longrightarrow> res_Status (fst (RunAll r recs wt c w) ! i) = Fail \<Longrightarrow>
   res_Status (fst (RunAll r recs wt c w) ! j) = Skipped"
proof (induction r recs wt c w arbitrary: i j rule: RunAll.induct)
  case (2 r rec recs wt c w)
  obtain res w1 where run: "Run r rec wt c w = (res, w1)" by fastforce
  have nc: "\<not> rn_cancelled r w" using "2.prems"(2) by auto
  show ?case
  proof (cases "rec_Kind rec = KindBuild \<and> res_Status res = Fail")
    case True
    have all: "fst (RunAll r (rec # recs) wt c w) = res # map (skipped_result c) recs"
      using nc run True by simp
    then show ?thesis using "2.prems"(1,2) unfolding all by (cases j) auto
  next
    case False
    have all: "fst (RunAll r (rec # recs) wt c w) = res # fst (RunAll r recs wt c w1)"
      using nc run False by (auto split: prod.splits)
    obtain i' where i: "i = Suc i'" using "2.prems"(3,4) False unfolding all by (cases i) auto
    obtain j' where j: "j = Suc j'" using "2.prems"(1) by (cases j) auto
    show ?thesis
      using "2.IH" [OF nc run [symmetric] False, of i' j'] "2.prems" unfolding all i j by simp
  qed
qed simp

text \<open>
  C27. The suite leaves nothing out.  Unless it is cancelled, running the recipes gives exactly one
  result per recipe, in order and all against the same candidate; and once a build recipe has
  failed, every later recipe is reported as skipped, never as passed.
\<close>

theorem run_all_complete:
  assumes "\<And>v. \<not> rn_cancelled r v" and "RunAll r recs wt candidate w = (results, w')"
  shows "map res_Recipe results = map rec_Name recs \<and>
    list_all (\<lambda>res. res_Candidate res = candidate) results \<and>
    (\<forall>i j. i < j \<and> j < length results \<and> rec_Kind (recs ! i) = KindBuild \<and> res_Status (results ! i) = Fail \<longrightarrow>
           res_Status (results ! j) = Skipped)"
proof -
  have rs: "results = fst (RunAll r recs wt candidate w)" using assms(2) by simp
  show ?thesis
    unfolding rs using RunAll_complete [OF assms(1)] RunAll_candidate RunAll_stops
    by (auto simp: list_all_iff)
qed

theorem run_all_complete_witness:
  "\<exists>a b w'. RunAll (demo_runner 1) [demo_recipe, demo_recipe] ''/w'' ''c1'' 0 = ([a, b], w') \<and> res_Status a = Fail \<and>
     res_Status b = Skipped \<and> w' = 1"
proof -
  have nc: "\<not> rn_cancelled (demo_runner 1) v" for v by (simp add: demo_runner_def)
  have st: "\<exists>a. Run (demo_runner 1) demo_recipe ''/w'' ''c1'' 0 = (a, 1) \<and> res_Status a = Fail"
  proof -
    have "fst (GoBuild 1 ''x'' []) = Fail" by code_simp
    then show ?thesis
      by (simp add: Run_def Let_def demo_runner_def demo_recipe_def judge_run_def exitCodeOf_def capture_def cb_Write_def
            cb_String_def DefaultMaxOutput_def)
  qed
  then obtain a where a: "Run (demo_runner 1) demo_recipe ''/w'' ''c1'' 0 = (a, 1)" "res_Status a = Fail" by blast
  have "RunAll (demo_runner 1) [demo_recipe, demo_recipe] ''/w'' ''c1'' 0 = ([a, skipped_result ''c1'' demo_recipe], 1)"
    using a nc by (simp add: demo_recipe_def)
  with run_all_complete [OF nc this] a(2) show ?thesis by auto
qed

section \<open>Levels\<close>

text \<open>
  The levels are consistent.  Every kind of evidence a level requires is produced by a built-in
  recipe of that level; a level's recipes start with the build; the required kinds grow with the
  level; and a kind that runs only where a repository configured it is never required.
\<close>

theorem levels_consistent:
  "set (Required l) \<subseteq> rec_Kind ` set (GoRecipes pr l) \<and>
   (Required l \<noteq> [] \<longleftrightarrow> GoRecipes pr l \<noteq> []) \<and>
   (GoRecipes pr l = [] \<or> rec_Kind (hd (GoRecipes pr l)) = KindBuild) \<and>
   set (Required Low) \<subseteq> set (Required Standard) \<and> set (Required Standard) \<subseteq> set (Required High) \<and>
   set ConditionalKinds \<inter> set (Required l) = {}"
  by (cases l) (simp_all add: Required_def GoRecipes_def Includes_def mk_recipe_def ConditionalKinds_def Let_def)

end
