(* ===== verification/Presets.thy ===== *)
theory Presets
  imports Recipe
begin

text \<open>
  Frozen verification commands: \<^verbatim>\<open>src/internal/recipe/presets.go\<close>.  The configuration file, its TOML
  decoder, the directory tree that \<^verbatim>\<open>filepath.WalkDir\<close> visits and the decoding of a
  \<^verbatim>\<open>package.json\<close> are arguments.  The tree is given in the order of the walk.
\<close>

section \<open>Presets\<close>

record Preset =
  pre_Name :: string
  pre_Kind :: Kind
  pre_Argv :: "string list"
  pre_Dir :: string
  pre_TimeoutSeconds :: int
  pre_Parser :: string

datatype preset_error =
    NeedsNameAndArgv | UnknownKind Kind | BadTimeout string | PresetPath wt_error | SensitiveDirectory
  | UnknownParser string | BadToml | BadVersion | DuplicatePreset string | ConfigUnreadable
  | WalkFailed | ManifestUnreadable string | ManifestInvalid string | TooManyPresets | NoPresets

definition preset_Validate :: "FS \<Rightarrow> string \<Rightarrow> Preset \<Rightarrow> preset_error option" where
  "preset_Validate fs root p =
     (if pre_Name p = [] \<or> pre_Argv p = [] \<or> hd (pre_Argv p) = [] then Some NeedsNameAndArgv
      else if (case pre_Kind p of KindOther _ \<Rightarrow> True | _ \<Rightarrow> False) then Some (UnknownKind (pre_Kind p))
      else if pre_TimeoutSeconds p < 1 \<or> pre_TimeoutSeconds p > 3600 then Some (BadTimeout (pre_Name p))
      else case (if pre_Dir p = [] then None
                 else case Resolve fs root (pre_Dir p) of
                        Inl e \<Rightarrow> Some (PresetPath e)
                      | Inr _ \<Rightarrow> if sensitive (pre_Dir p) then Some SensitiveDirectory else None) of
             Some e \<Rightarrow> Some e
           | None \<Rightarrow>
               if pre_Parser p \<in> {[], ''generic'', ''go_build'', ''go_vet'', ''go_test_json'', ''gofmt''} then None
               else Some (UnknownParser (pre_Parser p)))"

definition preset_Recipe :: "probes \<Rightarrow> Preset \<Rightarrow> Recipe" where
  "preset_Recipe pr p =
     \<lparr>rec_Name = pre_Name p, rec_Kind = pre_Kind p, rec_Argv = pre_Argv p, rec_Dir = pre_Dir p,
      rec_Timeout = pre_TimeoutSeconds p * 1000, rec_Env = [],
      rec_Summarize = Some (if pre_Parser p = ''go_build'' then GoBuild
                            else if pre_Parser p = ''go_vet'' then GoVet
                            else if pre_Parser p = ''go_test_json'' then GoTestJSON (pr_testEvent pr)
                            else if pre_Parser p = ''gofmt'' then Gofmt
                            else Generic),
      rec_AppliesTo = None\<rparr>"

definition selectPresets :: "Preset list \<Rightarrow> Level \<Rightarrow> Preset list" where
  "selectPresets all level =
     filter (\<lambda>p. Includes level (pre_Kind p) \<or> (level = Standard \<and> pre_Kind p = KindLint)) all"

section \<open>Discovery\<close>

datatype node = FileN string bool | DirN string "node list"

datatype manifest = Unreadable | Unparsable | Package string "string list" bool

record discovery =
  d_out :: "Preset list"
  d_nodeRoots :: "string list"
  d_cargoRoots :: "string list"

definition in_roots :: "string \<Rightarrow> string list \<Rightarrow> bool" where
  "in_roots dir roots = list_ex (\<lambda>parent. dir = parent \<or> hasPrefix dir (parent @ ''/'') \<or> parent = ''.'') roots"

definition skippedDir :: "string \<Rightarrow> bool" where
  "skippedDir n = (n \<in> {''.git'', ''.le'', ''.agent'', ''vendor'', ''node_modules'', ''target'', ''dist'', ''.nuxt'', ''.output''})"

definition discovered :: "string \<Rightarrow> string \<Rightarrow> Kind \<Rightarrow> string \<Rightarrow> string list \<Rightarrow> Preset" where
  "discovered dir name kind parser argv =
     \<lparr>pre_Name = dir @ '': '' @ name, pre_Kind = kind, pre_Argv = argv, pre_Dir = dir,
      pre_TimeoutSeconds = (if kind = KindTest \<or> kind = KindRace then 600 else 120), pre_Parser = parser\<rparr>"

definition go_presets :: "string \<Rightarrow> Preset list" where
  "go_presets dir =
     [discovered dir ''go build'' KindBuild ''go_build'' [''go'', ''build'', ''./...''],
      discovered dir ''go vet'' KindVet ''go_vet'' [''go'', ''vet'', ''./...''],
      discovered dir ''go test'' KindTest ''go_test_json'' [''go'', ''test'', ''-json'', ''./...''],
      discovered dir ''gofmt'' KindFormat ''gofmt'' [''gofmt'', ''-l'', ''.''],
      discovered dir ''go race'' KindRace ''go_test_json'' [''go'', ''test'', ''-race'', ''-json'', ''./...'']]"

definition cargo_presets :: "string \<Rightarrow> Preset list" where
  "cargo_presets dir =
     [discovered dir ''cargo check'' KindBuild [] [''cargo'', ''check'', ''--workspace'', ''--offline'', ''--jobs'', ''2''],
      discovered dir ''cargo clippy'' KindVet []
        [''cargo'', ''clippy'', ''--workspace'', ''--offline'', ''--jobs'', ''2'', ''--'', ''-D'', ''warnings''],
      discovered dir ''cargo test'' KindTest [] [''cargo'', ''test'', ''--workspace'', ''--offline'', ''--jobs'', ''2''],
      discovered dir ''cargo fmt'' KindFormat [] [''cargo'', ''fmt'', ''--all'', ''--'', ''--check'']]"

definition node_manager :: "string \<Rightarrow> string" where
  "node_manager pm =
     (if hasPrefix pm ''pnpm@'' then ''pnpm'' else if hasPrefix pm ''yarn@'' then ''yarn'' else ''npm'')"

text \<open>A script counts when the manifest gives it a non-empty command; \<open>scripts\<close> are those names.\<close>

definition node_presets :: "string \<Rightarrow> string \<Rightarrow> string list \<Rightarrow> Preset list" where
  "node_presets dir manager scripts =
     map (\<lambda>(script, kind). discovered dir (manager @ '' '' @ script) kind [] [manager, ''run'', script])
       (filter (\<lambda>(script, kind). script \<in> set scripts)
          [(''build'', KindBuild), (''typecheck'', KindVet), (''test'', KindTest), (''lint'', KindLint),
           (''format:check'', KindFormat)])"

definition cap_presets :: "discovery \<Rightarrow> preset_error + discovery" where
  "cap_presets d = (if length (d_out d) > 2000 then Inl TooManyPresets else Inr d)"

definition visit_file :: "(string \<Rightarrow> manifest) \<Rightarrow> string \<Rightarrow> string \<Rightarrow> bool \<Rightarrow> discovery \<Rightarrow> preset_error + discovery" where
  "visit_file readPkg dir name symlink d =
     (if symlink then Inr d
      else if name = ''go.mod'' then cap_presets (d\<lparr>d_out := d_out d @ go_presets dir\<rparr>)
      else if name = ''Cargo.toml'' then
        (if in_roots dir (d_cargoRoots d) then Inr d
         else cap_presets (d\<lparr>d_cargoRoots := d_cargoRoots d @ [dir], d_out := d_out d @ cargo_presets dir\<rparr>))
      else if name = ''package.json'' then
        (if in_roots dir (d_nodeRoots d) then Inr d
         else case readPkg dir of
                Unreadable \<Rightarrow> Inl (ManifestUnreadable dir)
              | Unparsable \<Rightarrow> Inl (ManifestInvalid dir)
              | Package pm scripts workspaces \<Rightarrow>
                  (let manager = node_manager pm in
                   cap_presets (d\<lparr>d_nodeRoots := d_nodeRoots d @ (if workspaces \<or> manager = ''pnpm'' then [dir] else []),
                                  d_out := d_out d @ node_presets dir manager scripts\<rparr>)))
      else cap_presets d)"

definition child_dir :: "string \<Rightarrow> string \<Rightarrow> string" where
  "child_dir dir name = (if dir = ''.'' then name else dir @ ''/'' @ name)"

fun walk_node :: "(string \<Rightarrow> manifest) \<Rightarrow> string \<Rightarrow> node \<Rightarrow> discovery \<Rightarrow> preset_error + discovery"
  and walk_nodes :: "(string \<Rightarrow> manifest) \<Rightarrow> string \<Rightarrow> node list \<Rightarrow> discovery \<Rightarrow> preset_error + discovery" where
  "walk_node readPkg dir (FileN name symlink) d = visit_file readPkg dir name symlink d"
| "walk_node readPkg dir (DirN name ns) d =
     (if skippedDir name then Inr d else walk_nodes readPkg (child_dir dir name) ns d)"
| "walk_nodes readPkg dir [] d = Inr d"
| "walk_nodes readPkg dir (n # ns) d =
     (case walk_node readPkg dir n d of Inl e \<Rightarrow> Inl e | Inr d' \<Rightarrow> walk_nodes readPkg dir ns d')"

definition nested_preset :: "discovery \<Rightarrow> Preset \<Rightarrow> bool" where
  "nested_preset d p =
     (let tool = hd (pre_Argv p);
          roots = (if tool = ''cargo'' then d_cargoRoots d else if tool = ''go'' \<or> tool = ''gofmt'' then [] else d_nodeRoots d)
      in list_ex (\<lambda>parent. pre_Dir p \<noteq> parent \<and> in_roots (pre_Dir p) [parent]) roots)"

text \<open>The walk starts at the root directory itself, whose entries are \<open>tree\<close>; \<open>rootName\<close> is its last element.\<close>

definition walk_presets :: "(string \<Rightarrow> manifest) \<Rightarrow> string \<Rightarrow> node list option \<Rightarrow> preset_error + Preset list" where
  "walk_presets readPkg rootName tree =
     (case tree of
        None \<Rightarrow> Inl WalkFailed
      | Some ns \<Rightarrow>
          (case (if skippedDir rootName then Inr \<lparr>d_out = [], d_nodeRoots = [], d_cargoRoots = []\<rparr>
                 else walk_nodes readPkg ''.'' ns \<lparr>d_out = [], d_nodeRoots = [], d_cargoRoots = []\<rparr>) of
             Inl e \<Rightarrow> Inl e
           | Inr d \<Rightarrow>
               (let out = filter (\<lambda>p. \<not> nested_preset d p) (d_out d) in
                if out = [] then Inl NoPresets else Inr out)))"

fun check_config :: "FS \<Rightarrow> string \<Rightarrow> string list \<Rightarrow> Preset list \<Rightarrow> preset_error option" where
  "check_config fs root seen [] = None"
| "check_config fs root seen (p # ps) =
     (case preset_Validate fs root p of
        Some e \<Rightarrow> Some e
      | None \<Rightarrow> if pre_Name p \<in> set seen then Some (DuplicatePreset (pre_Name p))
                else check_config fs root (pre_Name p # seen) ps)"

definition DiscoverPresets ::
  "FS \<Rightarrow> (string \<Rightarrow> fs_error + string) \<Rightarrow> (string \<Rightarrow> (int \<times> Preset list) option) \<Rightarrow> (string \<Rightarrow> manifest)
   \<Rightarrow> node list option \<Rightarrow> string \<Rightarrow> Level \<Rightarrow> preset_error + Preset list" where
  "DiscoverPresets fs readFile decode readPkg tree root level =
     (case Resolve fs root ''.agent/verify.toml'' of
        Inl e \<Rightarrow> Inl (PresetPath e)
      | Inr configPath \<Rightarrow>
          (case readFile configPath of
             Inr body \<Rightarrow>
               (case decode body of
                  None \<Rightarrow> Inl BadToml
                | Some (version, presets) \<Rightarrow>
                    if version \<noteq> 1 \<or> presets = [] then Inl BadVersion
                    else (case check_config fs root [] presets of
                            Some e \<Rightarrow> Inl e
                          | None \<Rightarrow> Inr (selectPresets presets level)))
           | Inl FsFailure \<Rightarrow> Inl ConfigUnreadable
           | Inl NotExist \<Rightarrow>
               (case walk_presets readPkg (basePath root) tree of
                  Inl e \<Rightarrow> Inl e
                | Inr out \<Rightarrow> Inr (selectPresets out level))))"

section \<open>Acceptance of the frozen set\<close>

definition last_named :: "Result list \<Rightarrow> string \<Rightarrow> Result option" where
  "last_named rs n = foldl (\<lambda>m r. m(res_Recipe r \<mapsto> r)) (\<lambda>_. None) rs n"

definition preset_met :: "Result list \<Rightarrow> string \<Rightarrow> Preset \<Rightarrow> bool" where
  "preset_met rs candidate p =
     (case last_named rs (pre_Name p) of
        None \<Rightarrow> False
      | Some r \<Rightarrow> res_Status r = Pass \<and> res_Candidate r = candidate)"

definition CheckPresets :: "Preset list \<Rightarrow> Result list \<Rightarrow> string \<Rightarrow> bool \<times> string list" where
  "CheckPresets presets rs candidate =
     (let reasons = map (\<lambda>p. ''required preset did not pass on this candidate: '' @ pre_Name p)
                      (filter (\<lambda>p. \<not> preset_met rs candidate p) presets)
                    @ (if presets = [] then [''no required verification presets''] else [])
      in (reasons = [], reasons))"

section \<open>Every frozen command needs its own evidence\<close>

lemma last_named_snoc: "last_named (rs @ [r]) n = (if n = res_Recipe r then Some r else last_named rs n)"
  by (simp add: last_named_def)

lemma last_named_iff:
  "last_named rs n = Some r \<longleftrightarrow> (\<exists>xs ys. rs = xs @ r # ys \<and> res_Recipe r = n \<and> n \<notin> res_Recipe ` set ys)"
proof (induction rs rule: rev_induct)
  case Nil
  then show ?case by (simp add: last_named_def)
next
  case (snoc q rs)
  show ?case
  proof (cases "n = res_Recipe q")
    case True
    have "(\<exists>xs ys. rs @ [q] = xs @ r # ys \<and> res_Recipe r = n \<and> n \<notin> res_Recipe ` set ys) \<longleftrightarrow> q = r"
    proof
      assume "\<exists>xs ys. rs @ [q] = xs @ r # ys \<and> res_Recipe r = n \<and> n \<notin> res_Recipe ` set ys"
      then obtain xs ys where *: "rs @ [q] = xs @ r # ys" "n \<notin> res_Recipe ` set ys" by blast
      have "ys = []"
      proof (rule ccontr)
        assume "ys \<noteq> []"
        then have "last ys = q" using *(1) by (metis last.simps last_append last_snoc list.distinct(1))
        then show False using *(2) True \<open>ys \<noteq> []\<close> by (metis image_eqI last_in_set)
      qed
      with * show "q = r" by simp
    qed (use True in \<open>auto intro: exI [of _ rs] exI [of _ "[]"]\<close>)
    then show ?thesis by (simp add: last_named_snoc True)
  next
    case False
    have "(\<exists>xs ys. rs @ [q] = xs @ r # ys \<and> res_Recipe r = n \<and> n \<notin> res_Recipe ` set ys) \<longleftrightarrow>
        (\<exists>xs ys. rs = xs @ r # ys \<and> res_Recipe r = n \<and> n \<notin> res_Recipe ` set ys)"
    proof
      assume "\<exists>xs ys. rs @ [q] = xs @ r # ys \<and> res_Recipe r = n \<and> n \<notin> res_Recipe ` set ys"
      then obtain xs ys where *: "rs @ [q] = xs @ r # ys" "res_Recipe r = n" "n \<notin> res_Recipe ` set ys" by blast
      with False obtain zs where "ys = zs @ [q]" by (cases ys rule: rev_cases) auto
      with * show "\<exists>xs ys. rs = xs @ r # ys \<and> res_Recipe r = n \<and> n \<notin> res_Recipe ` set ys" by auto
    next
      assume "\<exists>xs ys. rs = xs @ r # ys \<and> res_Recipe r = n \<and> n \<notin> res_Recipe ` set ys"
      then obtain xs ys where "rs @ [q] = xs @ r # (ys @ [q])" "res_Recipe r = n" "n \<notin> res_Recipe ` set (ys @ [q])"
        using False by auto
      then show "\<exists>xs ys. rs @ [q] = xs @ r # ys \<and> res_Recipe r = n \<and> n \<notin> res_Recipe ` set ys" by blast
    qed
    with snoc.IH False show ?thesis by (simp add: last_named_snoc)
  qed
qed

text \<open>
  C22. The frozen commands are accepted exactly when there is at least one and each of them, by name,
  has as its latest result a pass on the candidate in question; otherwise the reasons name every
  command that is missing it.
\<close>

theorem check_presets_exact:
  "(fst (CheckPresets presets rs candidate) \<longleftrightarrow>
      presets \<noteq> [] \<and>
      list_all (\<lambda>p. \<exists>xs r ys. rs = xs @ r # ys \<and> res_Recipe r = pre_Name p \<and>
                  pre_Name p \<notin> res_Recipe ` set ys \<and> res_Status r = Pass \<and> res_Candidate r = candidate) presets) \<and>
   (fst (CheckPresets presets rs candidate) \<longleftrightarrow> snd (CheckPresets presets rs candidate) = [])"
proof -
  have met: "preset_met rs candidate p \<longleftrightarrow>
      (\<exists>xs r ys. rs = xs @ r # ys \<and> res_Recipe r = pre_Name p \<and> pre_Name p \<notin> res_Recipe ` set ys \<and>
        res_Status r = Pass \<and> res_Candidate r = candidate)" for p
  proof -
    have "preset_met rs candidate p \<longleftrightarrow>
        (\<exists>r. last_named rs (pre_Name p) = Some r \<and> res_Status r = Pass \<and> res_Candidate r = candidate)"
      by (auto simp: preset_met_def split: option.splits)
    then show ?thesis unfolding last_named_iff by blast
  qed
  have "fst (CheckPresets presets rs candidate) \<longleftrightarrow> presets \<noteq> [] \<and> list_all (preset_met rs candidate) presets"
    by (auto simp: CheckPresets_def Let_def filter_empty_conv list_all_iff)
  moreover have "fst (CheckPresets presets rs candidate) \<longleftrightarrow> snd (CheckPresets presets rs candidate) = []"
    by (simp add: CheckPresets_def Let_def)
  ultimately show ?thesis unfolding list_all_iff met by simp
qed

section \<open>Discovered commands are well formed\<close>

definition preset_wf :: "Preset \<Rightarrow> bool" where
  "preset_wf p = (pre_Name p \<noteq> [] \<and> pre_Argv p \<noteq> [] \<and> hd (pre_Argv p) \<noteq> [] \<and>
     1 \<le> pre_TimeoutSeconds p \<and> pre_TimeoutSeconds p \<le> 3600 \<and> (\<forall>s. pre_Kind p \<noteq> KindOther s))"

lemma preset_Validate_wf: "preset_Validate fs root p = None \<Longrightarrow> preset_wf p"
  unfolding preset_Validate_def preset_wf_def
  by (cases "pre_Kind p") (auto simp: not_less split: if_splits)

lemma check_config_wf: "check_config fs root seen ps = None \<Longrightarrow> list_all preset_wf ps"
  by (induction ps arbitrary: seen) (auto dest: preset_Validate_wf split: option.splits if_splits)

lemma check_config_names:
  "check_config fs root seen ps = None \<Longrightarrow> distinct (map pre_Name ps) \<and> set (map pre_Name ps) \<inter> set seen = {}"
proof (induction ps arbitrary: seen)
  case (Cons p ps)
  then have "pre_Name p \<notin> set seen" "check_config fs root (pre_Name p # seen) ps = None"
    by (auto split: option.splits if_splits)
  with Cons.IH [of "pre_Name p # seen"] show ?case by auto
qed simp

lemma discovered_wf: "argv \<noteq> [] \<Longrightarrow> hd argv \<noteq> [] \<Longrightarrow> (\<And>s. k \<noteq> KindOther s) \<Longrightarrow> preset_wf (discovered dir n k pa argv)"
  by (simp add: discovered_def preset_wf_def)

lemma go_presets_wf: "list_all preset_wf (go_presets dir)"
  by (simp add: go_presets_def discovered_wf)

lemma cargo_presets_wf: "list_all preset_wf (cargo_presets dir)"
  by (simp add: cargo_presets_def discovered_wf)

lemma node_presets_wf: "list_all preset_wf (node_presets dir (node_manager pm) scripts)"
  by (auto simp: node_presets_def list_all_iff node_manager_def discovered_wf)

lemma cap_presets_Inr: "cap_presets d = Inr d' \<longleftrightarrow> d' = d \<and> length (d_out d) \<le> 2000"
  by (auto simp: cap_presets_def)

lemma visit_file_wf:
  "visit_file readPkg dir name sl d = Inr d' \<Longrightarrow> list_all preset_wf (d_out d) \<Longrightarrow> list_all preset_wf (d_out d')"
  using go_presets_wf [of dir] cargo_presets_wf [of dir]
  by (auto simp: visit_file_def cap_presets_Inr Let_def node_presets_wf split: if_splits manifest.splits)

lemma walk_wf:
  "walk_node readPkg dir n d = Inr d' \<Longrightarrow> list_all preset_wf (d_out d) \<Longrightarrow> list_all preset_wf (d_out d')"
  "walk_nodes readPkg dir ns d = Inr d' \<Longrightarrow> list_all preset_wf (d_out d) \<Longrightarrow> list_all preset_wf (d_out d')"
  by (induction readPkg dir n d and readPkg dir ns d arbitrary: d' and d' rule: walk_node_walk_nodes.induct)
     (auto dest: visit_file_wf split: if_splits sum.splits)

lemma walk_presets_wf: "walk_presets readPkg rootName tree = Inr out \<Longrightarrow> list_all preset_wf out"
proof -
  assume "walk_presets readPkg rootName tree = Inr out"
  then obtain d where "out = filter (\<lambda>p. \<not> nested_preset d p) (d_out d)" and "list_all preset_wf (d_out d)"
    by (auto simp: walk_presets_def Let_def split: option.splits sum.splits if_splits dest!: walk_wf(2))
  then show ?thesis by (auto simp: list_all_iff)
qed

text \<open>
  A model chooses among commands, it does not write them: every command that discovery freezes,
  from the repository's own file or from its manifests, has a name, a program to run, a timeout of
  between one second and one hour and a known kind that the verification level asks for; and when
  the file declares them, no two share a name.
\<close>

theorem discover_presets_sound:
  assumes "DiscoverPresets fs rf dec rp tree root level = Inr ps"
  shows "list_all (\<lambda>p. preset_wf p \<and> (Includes level (pre_Kind p) \<or> level = Standard \<and> pre_Kind p = KindLint)) ps \<and>
    (\<forall>cfg body. Resolve fs root ''.agent/verify.toml'' = Inr cfg \<and> rf cfg = Inr body \<longrightarrow> distinct (map pre_Name ps))"
proof -
  obtain cfg where r: "Resolve fs root ''.agent/verify.toml'' = Inr cfg"
    using assms by (auto simp: DiscoverPresets_def split: sum.splits)
  show ?thesis
  proof (cases "rf cfg")
    case (Inr body)
    with assms r obtain v all where d: "check_config fs root [] all = None" "ps = selectPresets all level"
      by (auto simp: DiscoverPresets_def split: option.splits if_splits)
    then have "list_all preset_wf all" "distinct (map pre_Name all)"
      using check_config_wf check_config_names by blast+
    then show ?thesis unfolding d(2) by (auto simp: selectPresets_def list_all_iff distinct_map_filter)
  next
    case (Inl e)
    with assms r obtain all where "walk_presets rp (basePath root) tree = Inr all" "ps = selectPresets all level"
      by (auto simp: DiscoverPresets_def split: fs_error.splits sum.splits)
    with walk_presets_wf [of rp "basePath root" tree all] Inl r show ?thesis
      by (auto simp: selectPresets_def list_all_iff)
  qed
qed

theorem discover_presets_sound_witness:
  "\<exists>ps. DiscoverPresets demo_fs (\<lambda>_. Inl NotExist) (\<lambda>_. None) (\<lambda>_. Unreadable) (Some [FileN ''go.mod'' False]) ''/w'' Low
     = Inr ps \<and> list_all preset_wf ps \<and> length ps = 1"
proof -
  have "DiscoverPresets demo_fs (\<lambda>_. Inl NotExist) (\<lambda>_. None) (\<lambda>_. Unreadable) (Some [FileN ''go.mod'' False]) ''/w'' Low
     = Inr [discovered ''.'' ''go build'' KindBuild ''go_build'' [''go'', ''build'', ''./...'']]" by code_simp
  with discover_presets_sound [OF this] show ?thesis by (auto simp: list_all_iff)
qed

end
