(* ===== verification/Accept.thy ===== *)
theory Accept
  imports Presets
begin

text \<open>
  The completion contract and the choice between candidates: \<^verbatim>\<open>Accept\<close>, \<^verbatim>\<open>worse\<close> and the result
  filters of \<^verbatim>\<open>src/internal/task/runner.go\<close>, and \<^verbatim>\<open>src/internal/task/candidates.go\<close>.  The sentences
  a person reads are values of the datatypes \<open>reason\<close> and \<open>rank_reason\<close>, one constructor per format.
\<close>

section \<open>The completion contract\<close>

record Effect =
  Made :: bool
  Expected :: bool

datatype reason =
    ChangedNothing
  | DidNotRun Level Kind
  | WasSkipped Kind string
  | CouldNotRun Kind string
  | FailedCheck Kind string
  | OlderCandidate Kind string
  | PassedCheck Kind string
  | OutOfScopeChanges nat "string list"

definition status_rank :: "Status \<Rightarrow> nat" where
  "status_rank s = (case s of Pass \<Rightarrow> 0 | Skipped \<Rightarrow> 1 | Error \<Rightarrow> 2 | Fail \<Rightarrow> 3)"

definition worse :: "Status \<Rightarrow> Status \<Rightarrow> bool" where
  "worse a b = (status_rank a > status_rank b)"

definition shortHash :: "string \<Rightarrow> string" where
  "shortHash h = (if length h > 12 then take 12 h else h)"

definition keep_worst :: "(Kind \<Rightarrow> Result option) \<Rightarrow> Result \<Rightarrow> Kind \<Rightarrow> Result option" where
  "keep_worst m r =
     (case m (res_Kind r) of
        None \<Rightarrow> m(res_Kind r \<mapsto> r)
      | Some prev \<Rightarrow> if worse (res_Status r) (res_Status prev) then m(res_Kind r \<mapsto> r) else m)"

definition by_kind :: "Result list \<Rightarrow> Kind \<Rightarrow> Result option" where
  "by_kind rs = foldl keep_worst (\<lambda>_. None) rs"

definition stale :: "string \<Rightarrow> Result \<Rightarrow> bool" where
  "stale candidate r = (candidate \<noteq> [] \<and> res_Candidate r \<noteq> [] \<and> res_Candidate r \<noteq> candidate)"

text \<open>The verdict on one required kind: whether it is met, and the sentence about it.\<close>

definition judge_kind :: "Level \<Rightarrow> (Kind \<Rightarrow> Result option) \<Rightarrow> string \<Rightarrow> Kind \<Rightarrow> bool \<times> reason" where
  "judge_kind level bk candidate kind =
     (case bk kind of
        None \<Rightarrow> (False, DidNotRun level kind)
      | Some res \<Rightarrow>
          (case res_Status res of
             Skipped \<Rightarrow> (False, WasSkipped kind (Headline (res_Summary res)))
           | Error \<Rightarrow> (False, CouldNotRun kind (res_Err res))
           | Fail \<Rightarrow> (False, FailedCheck kind (Headline (res_Summary res)))
           | Pass \<Rightarrow>
               if stale candidate res then (False, OlderCandidate kind (shortHash (res_Candidate res)))
               else (True, PassedCheck kind (Headline (res_Summary res)))))"

definition extra_kinds :: "Level \<Rightarrow> Result list \<Rightarrow> Kind list" where
  "extra_kinds level rs =
     stable_sort (\<lambda>a b. kind_name a < kind_name b)
       (filter (\<lambda>k. k \<notin> set (Required level)) (remdups (map res_Kind rs)))"

definition extra_failures :: "Level \<Rightarrow> Result list \<Rightarrow> string \<Rightarrow> reason list" where
  "extra_failures level rs candidate =
     List.map_filter
       (\<lambda>k. case by_kind rs k of
              None \<Rightarrow> None
            | Some res \<Rightarrow>
                if res_Status res \<noteq> Fail \<or> stale candidate res then None
                else Some (FailedCheck k (Headline (res_Summary res))))
       (extra_kinds level rs)"

definition Accept :: "Level \<Rightarrow> Result list \<Rightarrow> string \<Rightarrow> string list \<Rightarrow> Effect \<Rightarrow> bool \<times> reason list" where
  "Accept level results candidate outOfScope effect =
     (let noop = (Expected effect \<and> \<not> Made effect);
          req = map (judge_kind level (by_kind results) candidate) (Required level);
          extra = extra_failures level results candidate
      in (\<not> noop \<and> list_all fst req \<and> extra = [] \<and> outOfScope = [],
          (if noop then [ChangedNothing] else []) @ map snd req @ extra @
          (if outOfScope \<noteq> [] then [OutOfScopeChanges (length outOfScope) (take 5 (sortStrings outOfScope))] else [])))"

definition failedOnly :: "Result list \<Rightarrow> Result list" where
  "failedOnly rs = filter (\<lambda>r. res_Status r = Fail \<or> res_Status r = Error) rs"

section \<open>Candidates\<close>

record Candidate =
  cand_Label :: string
  cand_Manifest :: string
  cand_Results :: "Result list"
  cand_OutOfScope :: "string list"
  cand_Branch :: string
  cand_DiffBytes :: int

datatype rank_reason =
    NoCandidates
  | NoneAcceptable nat
  | Because string reason
  | Chosen string nat nat int
  | SameEvidence string
  | RankedLower string nat nat
  | NotContract string "reason option"

record Ranking =
  Best :: "Candidate option"
  Reasons :: "rank_reason list"
  Tied :: bool

definition passingKinds :: "Result list \<Rightarrow> nat" where
  "passingKinds rs = length (remdups (map res_Kind (filter (\<lambda>r. res_Status r = Pass) rs)))"

record scored =
  sc_c :: Candidate
  sc_acceptable :: bool
  sc_passing :: nat
  sc_why :: "reason list"

definition score :: "Level \<Rightarrow> Candidate \<Rightarrow> scored" where
  "score level c =
     (let v = Accept level (cand_Results c) (cand_Manifest c) (cand_OutOfScope c) \<lparr>Made = True, Expected = True\<rparr>
      in \<lparr>sc_c = c, sc_acceptable = fst v, sc_passing = passingKinds (cand_Results c), sc_why = snd v\<rparr>)"

definition better :: "scored \<Rightarrow> scored \<Rightarrow> bool" where
  "better a b =
     (if length (cand_OutOfScope (sc_c a)) \<noteq> length (cand_OutOfScope (sc_c b))
      then length (cand_OutOfScope (sc_c a)) < length (cand_OutOfScope (sc_c b))
      else if sc_passing a \<noteq> sc_passing b then sc_passing a > sc_passing b
      else cand_DiffBytes (sc_c a) < cand_DiffBytes (sc_c b))"

fun firstReason :: "reason list \<Rightarrow> reason option" where
  "firstReason [] = None"
| "firstReason (r # _) = Some r"

definition Rank :: "Level \<Rightarrow> Candidate list \<Rightarrow> Ranking" where
  "Rank level candidates =
     (if candidates = [] then \<lparr>Best = None, Reasons = [NoCandidates], Tied = False\<rparr>
      else let all = map (score level) candidates;
               viable = stable_sort better (filter sc_acceptable all)
           in case viable of
                [] \<Rightarrow> \<lparr>Best = None,
                       Reasons = NoneAcceptable (length all) #
                         concat (map (\<lambda>s. map (Because (cand_Label (sc_c s))) (sc_why s)) all),
                       Tied = False\<rparr>
              | best # rest \<Rightarrow>
                  (let chosen = [Chosen (cand_Label (sc_c best)) (sc_passing best)
                                   (length (cand_OutOfScope (sc_c best))) (cand_DiffBytes (sc_c best))];
                       tie = (case rest of
                                [] \<Rightarrow> (False, [])
                              | second # _ \<Rightarrow>
                                  if length (cand_OutOfScope (sc_c second)) = length (cand_OutOfScope (sc_c best)) \<and>
                                     sc_passing second = sc_passing best
                                  then (True, [SameEvidence (cand_Label (sc_c second))])
                                  else (False, [RankedLower (cand_Label (sc_c second)) (sc_passing second)
                                                  (length (cand_OutOfScope (sc_c second)))]));
                       others = map (\<lambda>s. NotContract (cand_Label (sc_c s)) (firstReason (sc_why s)))
                                  (filter (\<lambda>s. \<not> sc_acceptable s) all)
                   in \<lparr>Best = Some (sc_c best), Reasons = chosen @ snd tie @ others, Tied = fst tie\<rparr>))"

section \<open>The worst result per kind\<close>

lemma by_kind_snoc:
  "by_kind (rs @ [r]) = keep_worst (by_kind rs) r"
  by (simp add: by_kind_def)

lemma by_kind_None_iff: "by_kind rs k = None \<longleftrightarrow> k \<notin> res_Kind ` set rs"
proof (induction rs rule: rev_induct)
  case Nil
  then show ?case by (simp add: by_kind_def)
next
  case (snoc r rs)
  then show ?case by (auto simp: by_kind_snoc keep_worst_def split: option.splits)
qed

lemma by_kind_Some:
  "by_kind rs k = Some r \<Longrightarrow>
   r \<in> set rs \<and> res_Kind r = k \<and>
   (\<forall>q \<in> set rs. res_Kind q = k \<longrightarrow> status_rank (res_Status q) \<le> status_rank (res_Status r))"
proof (induction rs arbitrary: r rule: rev_induct)
  case Nil
  then show ?case by (simp add: by_kind_def)
next
  case (snoc x rs)
  show ?case
  proof (cases "k = res_Kind x")
    case False
    then have "by_kind rs k = Some r"
      using snoc.prems by (auto simp: by_kind_snoc keep_worst_def split: option.splits if_splits)
    with snoc.IH False show ?thesis by auto
  next
    case True
    show ?thesis
    proof (cases "by_kind rs k")
      case None
      then have "\<forall>q \<in> set rs. res_Kind q \<noteq> k" using by_kind_None_iff by (metis image_eqI)
      moreover have "r = x" using snoc.prems True None by (simp add: by_kind_snoc keep_worst_def)
      ultimately show ?thesis using True by auto
    next
      case (Some p)
      from snoc.IH [OF Some] snoc.prems True Some show ?thesis
        by (auto simp: by_kind_snoc keep_worst_def worse_def split: if_splits intro: order.trans)
    qed
  qed
qed

lemma status_rank_eq [simp]: "status_rank a = status_rank b \<longleftrightarrow> a = b"
  by (cases a; cases b) (simp_all add: status_rank_def)

lemma status_rank_max: "status_rank s \<le> 3 \<and> (status_rank s = 3 \<longleftrightarrow> s = Fail) \<and> (status_rank s = 0 \<longleftrightarrow> s = Pass)"
  by (cases s) (simp_all add: status_rank_def)

lemma by_kind_pass_iff:
  "(\<exists>r. by_kind rs k = Some r \<and> res_Status r = Pass) \<longleftrightarrow>
   k \<in> res_Kind ` set rs \<and> (\<forall>q \<in> set rs. res_Kind q = k \<longrightarrow> res_Status q = Pass)"
proof (cases "by_kind rs k")
  case None
  then show ?thesis using by_kind_None_iff [of rs k] by simp
next
  case (Some r)
  note * = by_kind_Some [OF Some]
  have "k \<in> res_Kind ` set rs" using * by force
  moreover have "res_Status r = Pass \<longleftrightarrow> (\<forall>q \<in> set rs. res_Kind q = k \<longrightarrow> res_Status q = Pass)"
    using * status_rank_max by (metis le_zero_eq)
  ultimately show ?thesis by (simp add: Some)
qed

lemma by_kind_fail_iff:
  "(\<exists>r. by_kind rs k = Some r \<and> res_Status r = Fail) \<longleftrightarrow> (\<exists>q \<in> set rs. res_Kind q = k \<and> res_Status q = Fail)"
proof (cases "by_kind rs k")
  case None
  then show ?thesis using by_kind_None_iff [of rs k] by auto
next
  case (Some r)
  note * = by_kind_Some [OF Some]
  then have "res_Status r = Fail \<longleftrightarrow> (\<exists>q \<in> set rs. res_Kind q = k \<and> res_Status q = Fail)"
    using status_rank_max by (metis order.antisym)
  then show ?thesis by (simp add: Some)
qed

section \<open>What acceptance means\<close>

lemma judge_kind_ok:
  "fst (judge_kind l bk c k) \<longleftrightarrow> (\<exists>r. bk k = Some r \<and> res_Status r = Pass \<and> \<not> stale c r)"
  by (auto simp: judge_kind_def split: option.splits Status.splits)

lemma extra_failures_Nil_iff:
  "extra_failures l rs c = [] \<longleftrightarrow>
   (\<forall>k r. k \<notin> set (Required l) \<longrightarrow> by_kind rs k = Some r \<longrightarrow> res_Status r = Fail \<longrightarrow> stale c r)"
proof -
  have nil: "List.map_filter f xs = [] \<longleftrightarrow> (\<forall>x \<in> set xs. f x = None)" for f :: "'x \<Rightarrow> 'y option" and xs
    by (induction xs) (auto simp: map_filter_simps split: option.splits)
  have ks: "k \<in> set (extra_kinds l rs) \<longleftrightarrow> k \<in> res_Kind ` set rs \<and> k \<notin> set (Required l)" for k
    by (auto simp: extra_kinds_def)
  have dom: "by_kind rs k = Some r \<Longrightarrow> k \<in> res_Kind ` set rs" for k r
    using by_kind_None_iff [of rs k] by auto
  have "extra_failures l rs c = [] \<longleftrightarrow>
      (\<forall>k. k \<in> res_Kind ` set rs \<and> k \<notin> set (Required l) \<longrightarrow>
           (\<forall>r. by_kind rs k = Some r \<longrightarrow> res_Status r = Fail \<longrightarrow> stale c r))"
    unfolding extra_failures_def nil Ball_def ks by (auto split: option.splits)
  with dom show ?thesis by blast
qed

lemma Accept_iff:
  "fst (Accept l rs c oos eff) \<longleftrightarrow>
   (Expected eff \<longrightarrow> Made eff) \<and> oos = [] \<and>
   (\<forall>k \<in> set (Required l). \<exists>r. by_kind rs k = Some r \<and> res_Status r = Pass \<and> \<not> stale c r) \<and>
   extra_failures l rs c = []"
  by (auto simp: Accept_def Let_def list_all_iff judge_kind_ok)

text \<open>
  C2. A task is accepted only on evidence.  Whatever the results are, acceptance implies that a task
  meant to change the worktree did change it, that nothing outside its scope changed, and that for
  every kind of check the level requires there is a passing result that is not about an older
  candidate, and no result of that kind that is anything but a pass.
\<close>

theorem accept_sound:
  assumes "fst (Accept level results candidate outOfScope effect)"
  shows "(Expected effect \<longrightarrow> Made effect) \<and> outOfScope = [] \<and>
    (\<forall>k \<in> set (Required level).
       (\<exists>r \<in> set results. res_Kind r = k \<and> res_Status r = Pass \<and> \<not> stale candidate r) \<and>
       (\<forall>r \<in> set results. res_Kind r = k \<longrightarrow> res_Status r = Pass))"
proof -
  have "\<exists>r \<in> set results. res_Kind r = k \<and> res_Status r = Pass \<and> \<not> stale candidate r"
    and "\<forall>r \<in> set results. res_Kind r = k \<longrightarrow> res_Status r = Pass" if "k \<in> set (Required level)" for k
  proof -
    from assms that obtain r where r: "by_kind results k = Some r" "res_Status r = Pass" "\<not> stale candidate r"
      by (auto simp: Accept_iff)
    then show "\<exists>r \<in> set results. res_Kind r = k \<and> res_Status r = Pass \<and> \<not> stale candidate r"
      using by_kind_Some [OF r(1)] by blast
    show "\<forall>r \<in> set results. res_Kind r = k \<longrightarrow> res_Status r = Pass"
      using by_kind_pass_iff [of results k] r by blast
  qed
  with assms show ?thesis by (auto simp: Accept_iff)
qed

definition demo_result :: "string \<Rightarrow> Kind \<Rightarrow> Status \<Rightarrow> Result" where
  "demo_result c k st = \<lparr>res_Recipe = kind_name k, res_Kind = k, res_Status = st, res_Summary = no_summary, res_ExitCode = 0,
     res_Duration = 0, res_Candidate = c, res_ArtifactHash = [], res_Err = []\<rparr>"

theorem accept_sound_witness:
  "fst (Accept Standard (map (\<lambda>k. demo_result ''c1'' k Pass) [KindBuild, KindVet, KindTest, KindFormat]) ''c1'' []
     \<lparr>Made = True, Expected = True\<rparr>) \<and>
   res_Status (demo_result ''c1'' KindTest Pass) = Pass"
proof -
  have a: "fst (Accept Standard (map (\<lambda>k. demo_result ''c1'' k Pass) [KindBuild, KindVet, KindTest, KindFormat]) ''c1'' []
     \<lparr>Made = True, Expected = True\<rparr>)" by code_simp
  have "KindTest \<in> set (Required Standard)" by (simp add: Required_def)
  with accept_sound [OF a] a show ?thesis by (auto simp: demo_result_def)
qed

text \<open>
  C1. The contract, exactly.  When every result describes the candidate being judged, which is what
  running the suite produces, a task is accepted if and only if: it changed the worktree when it was
  supposed to, nothing changed outside its scope, every required kind has a result, all results of
  required kinds pass, and no check of any kind, required or not, failed.  A check that could not
  run or was skipped does not count against a kind that is not required.
\<close>

theorem accept_exact:
  assumes "\<forall>r \<in> set results. res_Candidate r = candidate"
  shows "fst (Accept level results candidate outOfScope effect) \<longleftrightarrow>
    (\<not> Expected effect \<or> Made effect) \<and> outOfScope = [] \<and>
    set (Required level) \<subseteq> res_Kind ` set results \<and>
    (\<forall>r \<in> set results. res_Status r \<noteq> Fail \<and> (res_Kind r \<in> set (Required level) \<longrightarrow> res_Status r = Pass))"
proof -
  have fresh: "\<not> stale candidate r" if "r \<in> set results" for r
    using assms that by (simp add: stale_def)
  have inres: "by_kind results k = Some r \<Longrightarrow> r \<in> set results" for k r
    using by_kind_Some by blast
  have req: "(\<exists>r. by_kind results k = Some r \<and> res_Status r = Pass \<and> \<not> stale candidate r) \<longleftrightarrow>
      k \<in> res_Kind ` set results \<and> (\<forall>q \<in> set results. res_Kind q = k \<longrightarrow> res_Status q = Pass)" for k
    unfolding by_kind_pass_iff [symmetric] using fresh inres by blast
  have "extra_failures level results candidate = [] \<longleftrightarrow>
      (\<forall>k. k \<notin> set (Required level) \<longrightarrow> \<not> (\<exists>r. by_kind results k = Some r \<and> res_Status r = Fail))"
    unfolding extra_failures_Nil_iff using fresh inres by blast
  then have ext: "extra_failures level results candidate = [] \<longleftrightarrow>
      (\<forall>q \<in> set results. res_Kind q \<notin> set (Required level) \<longrightarrow> res_Status q \<noteq> Fail)"
    unfolding by_kind_fail_iff by blast
  show ?thesis unfolding Accept_iff req ext by (auto simp: subset_iff)
qed

theorem accept_exact_witness:
  "\<not> fst (Accept Low [demo_result ''c1'' KindBuild Pass, demo_result ''c1'' KindLint Fail] ''c1'' []
     \<lparr>Made = True, Expected = True\<rparr>)"
proof -
  let ?rs = "[demo_result ''c1'' KindBuild Pass, demo_result ''c1'' KindLint Fail]"
  have c: "\<forall>r \<in> set ?rs. res_Candidate r = ''c1''" by (auto simp: demo_result_def)
  have "res_Status (demo_result ''c1'' KindLint Fail) = Fail" by (simp add: demo_result_def)
  then show ?thesis unfolding accept_exact [OF c] by simp
qed

text \<open>
  C5. From running to accepting.  If the suite was run to its end against a candidate and its
  results were accepted for that candidate, then every recipe of the suite has a result that is not
  a failure, and every recipe of a required kind passed.
\<close>

theorem accepted_suite_passed:
  assumes "\<And>v. \<not> rn_cancelled r v" and "RunAll r recs wt candidate w = (results, w')"
    and "fst (Accept level results candidate outOfScope effect)"
  shows "list_all2 (\<lambda>rec res. res_Recipe res = rec_Name rec \<and> res_Kind res = rec_Kind rec \<and> res_Status res \<noteq> Fail \<and>
            (rec_Kind rec \<in> set (Required level) \<longrightarrow> res_Status res = Pass)) recs results"
proof -
  have rs: "results = fst (RunAll r recs wt candidate w)" using assms(2) by simp
  have cand: "\<forall>res \<in> set results. res_Candidate res = candidate"
    using RunAll_candidate [of _ r recs wt candidate w] by (simp add: rs)
  have kinds: "list_all2 (\<lambda>rec res. res_Recipe res = rec_Name rec \<and> res_Kind res = rec_Kind rec) recs results"
    using RunAll_pairs [OF assms(1), of recs wt candidate w] by (simp add: rs)
  have "\<forall>res \<in> set results. res_Status res \<noteq> Fail \<and> (res_Kind res \<in> set (Required level) \<longrightarrow> res_Status res = Pass)"
    using assms(3) accept_exact [OF cand, of level outOfScope effect] by blast
  with kinds show ?thesis by (auto simp: list_all2_conv_all_nth)
qed

theorem accepted_suite_passed_witness:
  "\<exists>res w'. RunAll (demo_runner 0) [demo_recipe] ''/w'' ''c1'' 0 = ([res], w') \<and> res_Status res = Pass"
proof -
  obtain res where res: "Run (demo_runner 0) demo_recipe ''/w'' ''c1'' 0 = (res, 1)" "res_Status res = Pass"
    using demo_run by blast
  have nc: "\<not> rn_cancelled (demo_runner 0) v" for v by (simp add: demo_runner_def)
  have run: "RunAll (demo_runner 0) [demo_recipe] ''/w'' ''c1'' 0 = ([res], 1)" using res nc by simp
  have k: "rec_Kind demo_recipe = KindBuild" by (simp add: demo_recipe_def)
  have "res_Kind res = KindBuild" "res_Candidate res = ''c1''" using Run_fields [OF res(1)] k by auto
  then have "\<not> stale ''c1'' res" "by_kind [res] = (\<lambda>_. None)(KindBuild \<mapsto> res)"
    by (simp_all add: stale_def by_kind_def keep_worst_def)
  then have "fst (Accept Low [res] ''c1'' [] \<lparr>Made = True, Expected = True\<rparr>)"
    using res(2) unfolding Accept_iff extra_failures_Nil_iff by (auto simp: Required_def)
  from accepted_suite_passed [OF nc run this] run k show ?thesis by (auto simp: Required_def)
qed

text \<open>
  One result can hide another.  The contract looks at a single worst result per kind and keeps
  the first of equals, so a failure against an older candidate that comes first hides a failure of
  the same optional kind against the candidate being judged, and the task is accepted.
\<close>

theorem stale_failure_hides_current:
  "fst (Accept Low [demo_result ''c1'' KindBuild Pass, demo_result ''c0'' KindLint Fail, demo_result ''c1'' KindLint Fail]
     ''c1'' [] \<lparr>Made = True, Expected = True\<rparr>)"
  by code_simp

section \<open>Ranking\<close>

lemma better_order: "weak_order better"
  unfolding weak_order_def better_def by (auto split: if_splits)

text \<open>The strict order a ranking sorts by, and what heads the sorted list.\<close>

locale ranking_order =
  fixes ranks :: "'a \<Rightarrow> 'a \<Rightarrow> bool"
  assumes ranks_weak: "weak_order ranks"
begin

lemma sorted_ranking: "sorted_by ranks (stable_sort ranks xs)"
  by (rule sorted_by_stable_sort [OF ranks_weak])

lemma winner_unbeaten: "stable_sort ranks xs = b # rest \<Longrightarrow> c \<in> set xs \<Longrightarrow> \<not> ranks c b"
  using sorted_ranking [of xs] weak_orderD(1) [OF ranks_weak]
  by (metis set_ConsD set_stable_sort sorted_by_hd)

lemma winner_member: "stable_sort ranks xs = b # rest \<Longrightarrow> b \<in> set xs"
  by (metis list.set_intros(1) set_stable_sort)

end

interpretation rk: ranking_order better
  by unfold_locales (rule better_order)

interpretation fo: ranking_order finding_before
  by unfold_locales (rule finding_order)

interpretation vo: ranking_order violation_before
  by unfold_locales (rule violation_order)

lemma score_simps [simp]:
  "sc_c (score l c) = c" "sc_passing (score l c) = passingKinds (cand_Results c)"
  "sc_acceptable (score l c) =
     fst (Accept l (cand_Results c) (cand_Manifest c) (cand_OutOfScope c) \<lparr>Made = True, Expected = True\<rparr>)"
  by (simp_all add: score_def Let_def)

text \<open>
  C21. Better never means less unacceptable.  A ranking chooses a candidate exactly when one of them
  satisfies the completion contract on its own manifest; the chosen one does, has no out-of-scope
  change, and no acceptable candidate passes more kinds of check, or as many with a smaller diff.
\<close>

theorem rank_best:
  "(Best (Rank level cs) = None \<longleftrightarrow> \<not> list_ex (\<lambda>c. sc_acceptable (score level c)) cs) \<and>
   (case Best (Rank level cs) of
      None \<Rightarrow> True
    | Some b \<Rightarrow> b \<in> set cs \<and> sc_acceptable (score level b) \<and> cand_OutOfScope b = [] \<and>
        list_all (\<lambda>c. \<not> sc_acceptable (score level c) \<or>
            passingKinds (cand_Results c) < passingKinds (cand_Results b) \<or>
            passingKinds (cand_Results c) = passingKinds (cand_Results b) \<and> cand_DiffBytes b \<le> cand_DiffBytes c) cs)"
proof -
  define viable where "viable = stable_sort better (filter sc_acceptable (map (score level) cs))"
  have best: "Best (Rank level cs) = (case viable of [] \<Rightarrow> None | s # _ \<Rightarrow> Some (sc_c s))"
    by (auto simp: Rank_def viable_def Let_def split: list.splits)
  have nil: "viable = [] \<longleftrightarrow> \<not> list_ex (\<lambda>c. sc_acceptable (score level c)) cs"
    by (auto simp: viable_def filter_empty_conv list_ex_iff)
  show ?thesis
  proof (cases viable)
    case Nil
    with nil best show ?thesis by simp
  next
    case (Cons s rest)
    have s: "s \<in> set (filter sc_acceptable (map (score level) cs))"
      using Cons unfolding viable_def by (rule rk.winner_member)
    then obtain b where b: "b \<in> set cs" "s = score level b" "sc_acceptable (score level b)" by auto
    have oos: "cand_OutOfScope c = []" if "sc_acceptable (score level c)" for c
      using that by (simp add: Accept_iff)
    have "passingKinds (cand_Results c) < passingKinds (cand_Results b) \<or>
        passingKinds (cand_Results c) = passingKinds (cand_Results b) \<and> cand_DiffBytes b \<le> cand_DiffBytes c"
      if "c \<in> set cs" "sc_acceptable (score level c)" for c
    proof -
      have "score level c \<in> set (filter sc_acceptable (map (score level) cs))" using that by simp
      with Cons have "\<not> better (score level c) (score level b)"
        unfolding viable_def b(2) by (rule rk.winner_unbeaten)
      with oos [OF that(2)] oos [OF b(3)] show ?thesis by (auto simp: better_def split: if_splits)
    qed
    then have "list_all (\<lambda>c. \<not> sc_acceptable (score level c) \<or>
            passingKinds (cand_Results c) < passingKinds (cand_Results b) \<or>
            passingKinds (cand_Results c) = passingKinds (cand_Results b) \<and> cand_DiffBytes b \<le> cand_DiffBytes c) cs"
      unfolding list_all_iff by blast
    with best nil Cons b oos show ?thesis by simp
  qed
qed

definition demo_candidate :: "string \<Rightarrow> Status \<Rightarrow> int \<Rightarrow> Candidate" where
  "demo_candidate l st n = \<lparr>cand_Label = l, cand_Manifest = ''c1'', cand_Results = [demo_result ''c1'' KindBuild st],
     cand_OutOfScope = [], cand_Branch = [], cand_DiffBytes = n\<rparr>"

theorem rank_best_witness:
  "\<exists>b. Best (Rank Low [demo_candidate ''a'' Fail 1, demo_candidate ''b'' Pass 9, demo_candidate ''c'' Pass 4]) = Some b \<and>
     cand_DiffBytes b \<le> 4"
proof -
  let ?cs = "[demo_candidate ''a'' Fail 1, demo_candidate ''b'' Pass 9, demo_candidate ''c'' Pass 4]"
  have ok: "sc_acceptable (score Low (demo_candidate ''c'' Pass 4))" by code_simp
  have pk: "passingKinds (cand_Results (demo_candidate ''c'' Pass 4)) = 1"
    "passingKinds (cand_Results (demo_candidate ''b'' Pass 9)) = 1"
    "\<not> sc_acceptable (score Low (demo_candidate ''a'' Fail 1))" by code_simp+
  from rank_best [of Low ?cs] ok obtain b where b: "Best (Rank Low ?cs) = Some b"
    by (cases "Best (Rank Low ?cs)") auto
  with rank_best [of Low ?cs] have "b \<in> set ?cs" "sc_acceptable (score Low b)"
    and "passingKinds (cand_Results (demo_candidate ''c'' Pass 4)) < passingKinds (cand_Results b) \<or>
      cand_DiffBytes b \<le> cand_DiffBytes (demo_candidate ''c'' Pass 4)"
    using ok by (auto simp del: score_simps)
  then have "cand_DiffBytes b \<le> cand_DiffBytes (demo_candidate ''c'' Pass 4)"
    using pk by (auto simp del: score_simps)
  with b show ?thesis by (auto simp: demo_candidate_def)
qed

end
