(* ===== verification/TaskStore.thy ===== *)
theory TaskStore
  imports Accept
begin

text \<open>
  Tasks, requirements and plans at rest: \<^verbatim>\<open>src/internal/task/task.go\<close> and the store half of
  \<^verbatim>\<open>src/internal/task/plan.go\<close>.  The ledger's tables are lists of rows; \<open>now\<close> is the clock, \<open>ok\<close> says
  whether the database transaction went through, and minted identifiers are an argument.  The
  constraints of the schema (the primary key and the checks on \<^verbatim>\<open>state\<close> and \<^verbatim>\<open>verification\<close>) are
  failures of the insert; foreign keys are declared there but the program never switches SQLite's
  enforcement on.  \<open>StateUnset\<close> and \<open>LevelOther []\<close> are Go's empty strings.
\<close>

section \<open>Data\<close>

datatype State =
    StatePending | StateRunning | StatePaused | StateBlocked | StateReview | StateAccepted | StateFailed
  | StateAbandoned | StateUnset

definition Terminal :: "State \<Rightarrow> bool" where
  "Terminal s = (s = StateAccepted \<or> s = StateFailed \<or> s = StateAbandoned)"

record Budget =
  MaxAttempts :: int
  MaxWallTime :: int
  MaxTokens :: int
  Scope :: "string list"

record Task =
  task_ID :: string
  task_WorkspaceID :: string
  task_RequirementID :: string
  task_ParentID :: string
  task_Title :: string
  task_Kind :: string
  task_WorktreeID :: string
  task_State :: State
  task_Verification :: Level
  task_Budget :: Budget
  task_CreatedAt :: int
  task_UpdatedAt :: int
  task_FinishedAt :: "int option"

definition DefaultBudget :: Budget where
  "DefaultBudget = \<lparr>MaxAttempts = 3, MaxWallTime = 1800000, MaxTokens = 0, Scope = []\<rparr>"

record Check =
  chk_Name :: string
  chk_Argv :: "string list"
  chk_Description :: string

definition Executable :: "Check \<Rightarrow> bool" where
  "Executable c = (chk_Argv c \<noteq> [])"

record Requirement =
  req_ID :: string
  req_Title :: string
  req_Body :: string
  req_Acceptance :: "Check list"
  req_State :: string
  req_CreatedAt :: int

record task_db =
  db_ws :: string
  db_tasks :: "Task list"
  db_reqs :: "Requirement list"
  db_deps :: "(string \<times> string) list"

datatype plan_error =
    NoSteps | TooManySteps nat | StepNoTitle nat | StepNoScope nat | ScopeEscapes nat string
  | StepBadLevel nat | DependsMissing nat int | DependsForward nat int

datatype task_error =
    NeedsId | NoSuchTask string | NoSuchRequirement string | DbFailed
  | NotRetryable State | InvalidPlan plan_error

definition orDefault :: "string \<Rightarrow> string \<Rightarrow> string" where
  "orDefault s d = (if s = [] then d else s)"

section \<open>Requirements\<close>

definition req_state_ok :: "string \<Rightarrow> bool" where
  "req_state_ok s = (s \<in> {''open'', ''in_progress'', ''accepted'', ''rejected'', ''abandoned''})"

text \<open>The upsert changes the title, body and acceptance of an existing row and nothing else of it that is read back.\<close>

definition CreateRequirement :: "bool \<Rightarrow> int \<Rightarrow> Requirement \<Rightarrow> task_db \<Rightarrow> (task_error + unit) \<times> task_db" where
  "CreateRequirement ok now r s =
     (if req_ID r = [] then (Inl NeedsId, s)
      else if \<not> ok \<or> \<not> req_state_ok (orDefault (req_State r) ''open'') then (Inl DbFailed, s)
      else if req_ID r \<in> set (map req_ID (db_reqs s)) then
        (Inr (), s\<lparr>db_reqs := map (\<lambda>q. if req_ID q = req_ID r
                                       then q\<lparr>req_Title := req_Title r, req_Body := req_Body r,
                                              req_Acceptance := req_Acceptance r\<rparr> else q) (db_reqs s)\<rparr>)
      else (Inr (), s\<lparr>db_reqs := db_reqs s @
                        [r\<lparr>req_State := orDefault (req_State r) ''open'', req_CreatedAt := now\<rparr>]\<rparr>))"

definition GetRequirement :: "task_db \<Rightarrow> string \<Rightarrow> task_error + Requirement" where
  "GetRequirement s i =
     (case find (\<lambda>q. req_ID q = i) (db_reqs s) of None \<Rightarrow> Inl (NoSuchRequirement i) | Some q \<Rightarrow> Inr q)"

section \<open>Tasks\<close>

definition task_defaults :: "Task \<Rightarrow> Task" where
  "task_defaults t =
     (let t1 = (if task_State t = StateUnset then t\<lparr>task_State := StatePending\<rparr> else t);
          t2 = (if task_Verification t1 = LevelOther [] then t1\<lparr>task_Verification := Standard\<rparr> else t1);
          b = task_Budget t2
      in if MaxAttempts b = 0 then
           t2\<lparr>task_Budget := b\<lparr>MaxAttempts := MaxAttempts DefaultBudget,
                               MaxWallTime := (if MaxWallTime b = 0 then MaxWallTime DefaultBudget else MaxWallTime b)\<rparr>\<rparr>
         else t2)"

definition level_ok :: "Level \<Rightarrow> bool" where
  "level_ok l = (case l of LevelOther _ \<Rightarrow> False | _ \<Rightarrow> True)"

definition task_Create :: "bool \<Rightarrow> int \<Rightarrow> Task \<Rightarrow> task_db \<Rightarrow> (task_error + unit) \<times> task_db" where
  "task_Create ok now t0 s =
     (if task_ID t0 = [] then (Inl NeedsId, s)
      else let t = task_defaults t0 in
        if \<not> ok \<or> task_ID t \<in> set (map task_ID (db_tasks s)) \<or> \<not> level_ok (task_Verification t)
        then (Inl DbFailed, s)
        else (Inr (), s\<lparr>db_tasks := db_tasks s @
                [t\<lparr>task_WorkspaceID := db_ws s, task_Kind := orDefault (task_Kind t) ''change'',
                   task_CreatedAt := now, task_UpdatedAt := now, task_FinishedAt := None\<rparr>]\<rparr>))"

definition task_Get :: "task_db \<Rightarrow> string \<Rightarrow> task_error + Task" where
  "task_Get s i = (case find (\<lambda>t. task_ID t = i) (db_tasks s) of None \<Rightarrow> Inl (NoSuchTask i) | Some t \<Rightarrow> Inr t)"

fun get_all :: "task_db \<Rightarrow> string list \<Rightarrow> task_error + Task list" where
  "get_all s [] = Inr []"
| "get_all s (i # is) =
     (case task_Get s i of
        Inl e \<Rightarrow> Inl e
      | Inr t \<Rightarrow> (case get_all s is of Inl e \<Rightarrow> Inl e | Inr ts \<Rightarrow> Inr (t # ts)))"

definition task_List :: "task_db \<Rightarrow> task_error + Task list" where
  "task_List s =
     get_all s (map task_ID (stable_sort (\<lambda>a b. task_CreatedAt a > task_CreatedAt b) (db_tasks s)))"

definition set_row :: "string \<Rightarrow> (Task \<Rightarrow> Task) \<Rightarrow> task_db \<Rightarrow> task_db" where
  "set_row i f s = s\<lparr>db_tasks := map (\<lambda>t. if task_ID t = i then f t else t) (db_tasks s)\<rparr>"

definition SetState :: "bool \<Rightarrow> int \<Rightarrow> string \<Rightarrow> State \<Rightarrow> task_db \<Rightarrow> (task_error + unit) \<times> task_db" where
  "SetState ok now i st s =
     (if \<not> ok \<or> (st = StateUnset \<and> i \<in> set (map task_ID (db_tasks s))) then (Inl DbFailed, s)
      else (Inr (), set_row i (\<lambda>t. t\<lparr>task_State := st, task_UpdatedAt := now,
                                    task_FinishedAt := (if Terminal st then Some now else None)\<rparr>) s))"

definition Reopen :: "bool \<Rightarrow> int \<Rightarrow> string \<Rightarrow> task_db \<Rightarrow> (task_error + Task) \<times> task_db" where
  "Reopen ok now i s =
     (case task_Get s i of
        Inl e \<Rightarrow> (Inl e, s)
      | Inr t \<Rightarrow>
          if task_State t = StateAccepted \<or> \<not> Terminal (task_State t) then (Inl (NotRetryable (task_State t)), s)
          else (case SetState ok now i StatePending s of
                  (Inl e, s') \<Rightarrow> (Inl e, s')
                | (Inr _, s') \<Rightarrow> (Inr (t\<lparr>task_State := StatePending\<rparr>), s')))"

definition SetWorktree :: "bool \<Rightarrow> int \<Rightarrow> string \<Rightarrow> string \<Rightarrow> task_db \<Rightarrow> (task_error + unit) \<times> task_db" where
  "SetWorktree ok now i wt s =
     (if \<not> ok then (Inl DbFailed, s)
      else (Inr (), set_row i (\<lambda>t. t\<lparr>task_WorktreeID := wt, task_UpdatedAt := now\<rparr>) s))"

definition state_name :: "State \<Rightarrow> string" where
  "state_name s = (case s of
     StatePending \<Rightarrow> ''pending'' | StateRunning \<Rightarrow> ''running'' | StatePaused \<Rightarrow> ''paused'' | StateBlocked \<Rightarrow> ''blocked''
   | StateReview \<Rightarrow> ''review'' | StateAccepted \<Rightarrow> ''accepted'' | StateFailed \<Rightarrow> ''failed''
   | StateAbandoned \<Rightarrow> ''abandoned'' | StateUnset \<Rightarrow> [])"

definition level_name :: "Level \<Rightarrow> string" where
  "level_name l = (case l of Low \<Rightarrow> ''low'' | Standard \<Rightarrow> ''standard'' | High \<Rightarrow> ''high'' | LevelOther s \<Rightarrow> s)"

definition task_Summary :: "Task \<Rightarrow> string" where
  "task_Summary t =
     task_ID t @ '' ['' @ state_name (task_State t) @ ''] '' @ task_Title t @
     (if level_name (task_Verification t) \<noteq> [] then '' (verify: '' @ level_name (task_Verification t) @ '')'' else [])"

text \<open>The display order; a state the table does not name ranks with the running ones, as a missing map key does.\<close>

definition state_rank :: "State \<Rightarrow> nat" where
  "state_rank s = (case s of
     StateRunning \<Rightarrow> 0 | StateReview \<Rightarrow> 1 | StateBlocked \<Rightarrow> 2 | StatePaused \<Rightarrow> 3 | StatePending \<Rightarrow> 4
   | StateAccepted \<Rightarrow> 5 | StateFailed \<Rightarrow> 6 | StateAbandoned \<Rightarrow> 7 | StateUnset \<Rightarrow> 0)"

definition display_before :: "Task \<Rightarrow> Task \<Rightarrow> bool" where
  "display_before a b =
     (if state_rank (task_State a) \<noteq> state_rank (task_State b) then state_rank (task_State a) < state_rank (task_State b)
      else task_CreatedAt a > task_CreatedAt b)"

definition SortTasks :: "Task list \<Rightarrow> Task list" where
  "SortTasks ts = stable_sort display_before ts"

section \<open>Plans\<close>

record PlanStep =
  step_Title :: string
  step_Scope :: "string list"
  step_Verification :: Level
  step_Acceptance :: "Check list"
  step_DependsOn :: "int list"

record StepPlan =
  splan_RequirementID :: string
  splan_Objective :: string
  splan_Steps :: "PlanStep list"

definition DefaultMaxPlanSteps :: int where
  "DefaultMaxPlanSteps = 8"

definition dep_error :: "nat \<Rightarrow> nat \<Rightarrow> int \<Rightarrow> plan_error option" where
  "dep_error n i dep =
     (if dep < 1 \<or> dep > int n then Some (DependsMissing (i + 1) dep)
      else if dep \<ge> int (i + 1) then Some (DependsForward (i + 1) dep) else None)"

definition step_error :: "nat \<Rightarrow> nat \<times> PlanStep \<Rightarrow> plan_error option" where
  "step_error n is =
     (case is of (i, s) \<Rightarrow>
        if isBlank (step_Title s) then Some (StepNoTitle (i + 1))
        else if step_Scope s = [] then Some (StepNoScope (i + 1))
        else case first_error (\<lambda>sc. if hasPrefix sc ''/'' \<or> containsStr sc ''..'' then Some (ScopeEscapes (i + 1) sc) else None)
                    (step_Scope s) of
               Some e \<Rightarrow> Some e
             | None \<Rightarrow>
                 if ParseLevel (level_name (step_Verification s)) = None then Some (StepBadLevel (i + 1))
                 else first_error (dep_error n i) (step_DependsOn s))"

definition steps_Validate :: "int \<Rightarrow> StepPlan \<Rightarrow> plan_error option" where
  "steps_Validate maxSteps p =
     (if splan_Steps p = [] then Some NoSteps
      else if maxSteps > 0 \<and> int (length (splan_Steps p)) > maxSteps then Some (TooManySteps (length (splan_Steps p)))
      else first_error (step_error (length (splan_Steps p))) (enumerate 0 (splan_Steps p)))"

definition AddDependency :: "bool \<Rightarrow> string \<Rightarrow> string \<Rightarrow> task_db \<Rightarrow> (task_error + unit) \<times> task_db" where
  "AddDependency ok taskID dependsOn s =
     (if \<not> ok then (Inl DbFailed, s)
      else if (taskID, dependsOn) \<in> set (db_deps s) then (Inr (), s)
      else (Inr (), s\<lparr>db_deps := db_deps s @ [(taskID, dependsOn)]\<rparr>))"

fun add_deps :: "bool \<Rightarrow> string \<Rightarrow> string list \<Rightarrow> int list \<Rightarrow> task_db \<Rightarrow> (task_error + unit) \<times> task_db" where
  "add_deps ok tid ids [] s = (Inr (), s)"
| "add_deps ok tid ids (d # ds) s =
     (case AddDependency ok tid (ids ! nat (d - 1)) s of
        (Inl e, s') \<Rightarrow> (Inl e, s')
      | (Inr _, s') \<Rightarrow> add_deps ok tid ids ds s')"

definition step_task :: "StepPlan \<Rightarrow> string \<Rightarrow> string \<Rightarrow> PlanStep \<Rightarrow> Task" where
  "step_task plan parentID tid step =
     \<lparr>task_ID = tid, task_WorkspaceID = [], task_RequirementID = splan_RequirementID plan, task_ParentID = parentID,
      task_Title = step_Title step, task_Kind = [], task_WorktreeID = [], task_State = StateUnset,
      task_Verification = step_Verification step,
      task_Budget = \<lparr>MaxAttempts = MaxAttempts DefaultBudget, MaxWallTime = MaxWallTime DefaultBudget, MaxTokens = 0,
                     Scope = step_Scope step\<rparr>,
      task_CreatedAt = 0, task_UpdatedAt = 0, task_FinishedAt = None\<rparr>"

text \<open>
  The loop of \<^verbatim>\<open>Materialise\<close>: \<open>ids\<close> are the identifiers of the steps done so far, \<open>newId i\<close> the one minted
  for the \<open>i\<close>-th step.
\<close>

fun materialise_steps ::
  "bool \<Rightarrow> (nat \<Rightarrow> int) \<Rightarrow> (nat \<Rightarrow> string) \<Rightarrow> StepPlan \<Rightarrow> string \<Rightarrow> string list \<Rightarrow> PlanStep list \<Rightarrow> task_db
   \<Rightarrow> (task_error + Task list) \<times> task_db" where
  "materialise_steps ok clock newId plan parentID ids [] s = (Inr [], s)"
| "materialise_steps ok clock newId plan parentID ids (step # steps) s =
     (let i = length ids; t = step_task plan parentID (newId i) step in
      case task_Create ok (clock i) t s of
        (Inl e, s1) \<Rightarrow> (Inl e, s1)
      | (Inr _, s1) \<Rightarrow>
          (case add_deps ok (task_ID t) (ids @ [newId i]) (step_DependsOn step) s1 of
             (Inl e, s2) \<Rightarrow> (Inl e, s2)
           | (Inr _, s2) \<Rightarrow>
               (case materialise_steps ok clock newId plan parentID (ids @ [newId i]) steps s2 of
                  (Inl e, s3) \<Rightarrow> (Inl e, s3)
                | (Inr ts, s3) \<Rightarrow> (Inr (t # ts), s3))))"

definition Materialise ::
  "bool \<Rightarrow> (nat \<Rightarrow> int) \<Rightarrow> (nat \<Rightarrow> string) \<Rightarrow> StepPlan \<Rightarrow> string \<Rightarrow> task_db \<Rightarrow> (task_error + Task list) \<times> task_db" where
  "Materialise ok clock newId plan parentID s =
     (case steps_Validate DefaultMaxPlanSteps plan of
        Some e \<Rightarrow> (Inl (InvalidPlan e), s)
      | None \<Rightarrow> materialise_steps ok clock newId plan parentID [] (splan_Steps plan) s)"

definition Blockers :: "task_db \<Rightarrow> string \<Rightarrow> task_error + Task list" where
  "Blockers s taskID =
     get_all s (map task_ID (stable_sort (\<lambda>a b. task_CreatedAt a < task_CreatedAt b)
       (concat (map (\<lambda>d. filter (\<lambda>t. task_ID t = d \<and> task_State t \<noteq> StateAccepted) (db_tasks s))
                  (map snd (filter (\<lambda>(a, d). a = taskID) (db_deps s)))))))"

section \<open>The invariant of the task table\<close>

definition task_ok :: "Task \<Rightarrow> bool" where
  "task_ok t = (task_State t \<noteq> StateUnset \<and> level_ok (task_Verification t) \<and> task_ID t \<noteq> [] \<and>
     (task_FinishedAt t \<noteq> None \<longleftrightarrow> Terminal (task_State t)))"

definition db_inv :: "task_db \<Rightarrow> bool" where
  "db_inv s = (distinct (map task_ID (db_tasks s)) \<and> list_all task_ok (db_tasks s))"

lemma map_if_ids: "(\<And>t. task_ID (f t) = task_ID t) \<Longrightarrow> map task_ID (map (\<lambda>t. if task_ID t = i then f t else t) ts) = map task_ID ts"
  by (induction ts) auto

lemma db_inv_set_row:
  assumes "db_inv s" and "\<And>t. task_ID (f t) = task_ID t" and "\<And>t. task_ok t \<Longrightarrow> task_ok (f t)"
  shows "db_inv (set_row i f s)"
proof -
  have "map task_ID (db_tasks (set_row i f s)) = map task_ID (db_tasks s)"
    unfolding set_row_def using map_if_ids [OF assms(2), of i "db_tasks s"] by simp
  moreover have "list_all task_ok (db_tasks (set_row i f s))"
    using assms(1,3) by (auto simp: db_inv_def set_row_def list_all_iff)
  ultimately show ?thesis using assms(1) by (simp add: db_inv_def)
qed

lemma task_defaults_ID [simp]: "task_ID (task_defaults t) = task_ID t"
  by (simp add: task_defaults_def Let_def)

lemma task_defaults_state: "task_State (task_defaults t) = (if task_State t = StateUnset then StatePending else task_State t)"
  by (simp add: task_defaults_def Let_def)

lemma db_inv_Create:
  "db_inv s \<Longrightarrow> \<not> Terminal (task_State t) \<Longrightarrow> db_inv (snd (task_Create ok now t s))"
  by (auto simp: task_Create_def db_inv_def Let_def task_ok_def task_defaults_state Terminal_def)

lemma task_ok_set_state: "st \<noteq> StateUnset \<Longrightarrow> task_ok t \<Longrightarrow>
   task_ok (t\<lparr>task_State := st, task_UpdatedAt := now, task_FinishedAt := (if Terminal st then Some now else None)\<rparr>)"
  by (simp add: task_ok_def)

lemma set_row_unknown: "i \<notin> set (map task_ID (db_tasks s)) \<Longrightarrow> set_row i f s = s"
proof -
  assume "i \<notin> set (map task_ID (db_tasks s))"
  then have "map (\<lambda>t. if task_ID t = i then f t else t) (db_tasks s) = db_tasks s"
    by (intro map_idI) auto
  then show ?thesis by (simp add: set_row_def)
qed

lemma db_inv_SetState: "db_inv s \<Longrightarrow> db_inv (snd (SetState ok now i st s))"
proof (cases "st = StateUnset")
  case False
  assume "db_inv s"
  then have "db_inv (set_row i (\<lambda>t. t\<lparr>task_State := st, task_UpdatedAt := now,
      task_FinishedAt := (if Terminal st then Some now else None)\<rparr>) s)"
    by (rule db_inv_set_row) (use task_ok_set_state [OF False] in simp_all)
  with \<open>db_inv s\<close> show ?thesis by (simp add: SetState_def)
qed (auto simp: SetState_def set_row_unknown)

lemma db_inv_SetWorktree: "db_inv s \<Longrightarrow> db_inv (snd (SetWorktree ok now i wt s))"
  by (auto simp: SetWorktree_def task_ok_def intro!: db_inv_set_row)

lemma db_inv_Reopen: "db_inv s \<Longrightarrow> db_inv (snd (Reopen ok now i s))"
  using db_inv_SetState [of s ok now i StatePending]
  by (auto simp: Reopen_def split: sum.splits prod.splits)

lemma db_tasks_AddDependency [simp]: "db_tasks (snd (AddDependency ok a b s)) = db_tasks s"
  by (simp add: AddDependency_def)

lemma db_tasks_CreateRequirement [simp]: "db_tasks (snd (CreateRequirement ok now r s)) = db_tasks s"
  by (simp add: CreateRequirement_def)

lemma db_tasks_add_deps [simp]: "db_tasks (snd (add_deps ok tid ids ds s)) = db_tasks s"
  by (induction ds arbitrary: s) (auto split: prod.splits sum.splits simp: AddDependency_def)

lemma db_inv_tasks: "db_tasks s' = db_tasks s \<Longrightarrow> db_inv s \<Longrightarrow> db_inv s'"
  by (simp add: db_inv_def)

lemma db_inv_materialise:
  "db_inv s \<Longrightarrow> db_inv (snd (materialise_steps ok clock newId plan parentID ids steps s))"
proof (induction steps arbitrary: ids s)
  case (Cons step steps)
  define t where "t = step_task plan parentID (newId (length ids)) step"
  obtain r1 s1 where c: "task_Create ok (clock (length ids)) t s = (r1, s1)" by fastforce
  have "\<not> Terminal (task_State t)" by (simp add: t_def step_task_def Terminal_def)
  with db_inv_Create [OF Cons.prems] c have i1: "db_inv s1" by (metis snd_conv)
  obtain r2 s2 where d: "add_deps ok (task_ID t) (ids @ [newId (length ids)]) (step_DependsOn step) s1 = (r2, s2)"
    by fastforce
  then have "db_inv s2" using i1 db_inv_tasks [of s2 s1] db_tasks_add_deps by (metis snd_conv)
  with Cons.IH i1 c d show ?case
    by (auto simp: Let_def t_def [symmetric] split: sum.splits prod.splits) (metis snd_conv)+
qed simp

text \<open>The operations of the store as steps of a transition system.\<close>

inductive db_step :: "task_db \<Rightarrow> task_db \<Rightarrow> bool" where
  create: "\<not> Terminal (task_State t) \<Longrightarrow> db_step s (snd (task_Create ok now t s))"
| set_state: "db_step s (snd (SetState ok now i st s))"
| set_worktree: "db_step s (snd (SetWorktree ok now i wt s))"
| reopen: "db_step s (snd (Reopen ok now i s))"
| requirement: "db_step s (snd (CreateRequirement ok now r s))"
| dependency: "db_step s (snd (AddDependency ok a b s))"
| materialise: "db_step s (snd (Materialise ok clock newId plan parentID s))"

inductive db_reachable :: "task_db \<Rightarrow> bool" where
  empty: "db_tasks s = [] \<Longrightarrow> db_reachable s"
| step: "db_reachable s \<Longrightarrow> db_step s s' \<Longrightarrow> db_reachable s'"

lemma db_inv_step: "db_step s s' \<Longrightarrow> db_inv s \<Longrightarrow> db_inv s'"
proof (induction rule: db_step.induct)
  case (materialise s ok clock newId plan parentID)
  then show ?case by (auto simp: Materialise_def db_inv_materialise split: option.splits)
qed (auto intro: db_inv_Create db_inv_SetState db_inv_SetWorktree db_inv_Reopen db_inv_tasks
       [OF db_tasks_CreateRequirement] db_inv_tasks [OF db_tasks_AddDependency])

lemma db_reachable_inv: "db_reachable s \<Longrightarrow> db_inv s"
proof (induction rule: db_reachable.induct)
  case (empty s)
  then show ?case by (simp add: db_inv_def)
qed (rule db_inv_step)

text \<open>
  The task table stays consistent.  However the store's operations are sequenced and whichever
  of their transactions fail, task identifiers stay unique and non-empty, every task has a
  verification level, and a task has a finish time exactly when it is accepted, failed or abandoned.
\<close>

theorem task_table_consistent:
  assumes "db_reachable s"
  shows "distinct (map task_ID (db_tasks s)) \<and>
    list_all (\<lambda>t. task_ID t \<noteq> [] \<and> level_ok (task_Verification t) \<and>
                  (task_FinishedAt t \<noteq> None \<longleftrightarrow> Terminal (task_State t))) (db_tasks s)"
  using db_reachable_inv [OF assms] by (auto simp: db_inv_def task_ok_def list_all_iff)

definition demo_task :: "string \<Rightarrow> Task" where
  "demo_task i = \<lparr>task_ID = i, task_WorkspaceID = [], task_RequirementID = [], task_ParentID = [], task_Title = ''t'',
     task_Kind = [], task_WorktreeID = [], task_State = StateUnset, task_Verification = Low, task_Budget = DefaultBudget,
     task_CreatedAt = 0, task_UpdatedAt = 0, task_FinishedAt = None\<rparr>"

definition demo_db :: task_db where
  "demo_db = \<lparr>db_ws = ''w'', db_tasks = [], db_reqs = [], db_deps = []\<rparr>"

theorem task_table_consistent_witness:
  "list_all (\<lambda>t. task_FinishedAt t = Some 7 \<and> Terminal (task_State t))
     (db_tasks (snd (SetState True 7 ''a'' StateFailed (snd (task_Create True 5 (demo_task ''a'') demo_db)))))"
proof -
  let ?s = "snd (SetState True 7 ''a'' StateFailed (snd (task_Create True 5 (demo_task ''a'') demo_db)))"
  have "db_reachable demo_db" by (rule db_reachable.empty) (simp add: demo_db_def)
  moreover have "\<not> Terminal (task_State (demo_task ''a''))" by code_simp
  ultimately have "db_reachable (snd (task_Create True 5 (demo_task ''a'') demo_db))"
    by (rule db_reachable.step [OF _ db_step.create])
  then have "db_reachable ?s" by (rule db_reachable.step [OF _ db_step.set_state])
  from task_table_consistent [OF this] have "list_all (\<lambda>t. task_FinishedAt t \<noteq> None \<longleftrightarrow> Terminal (task_State t)) (db_tasks ?s)"
    by (auto simp: list_all_iff)
  moreover have "db_tasks ?s = [(demo_task ''a'')\<lparr>task_WorkspaceID := ''w'', task_Kind := ''change'', task_State := StateFailed,
      task_CreatedAt := 5, task_UpdatedAt := 7, task_FinishedAt := Some 7\<rparr>]" by code_simp
  ultimately show ?thesis by simp
qed

section \<open>Reopening\<close>

lemma find_map_row:
  assumes "\<And>t. task_ID (f t) = task_ID t"
  shows "find (\<lambda>t. task_ID t = i) (map (\<lambda>t. if task_ID t = i then f t else t) ts) =
         map_option f (find (\<lambda>t. task_ID t = i) ts)"
  using assms by (induction ts) auto

lemma task_Get_set_row:
  assumes "\<And>t. task_ID (f t) = task_ID t" and "task_Get s i = Inr t"
  shows "task_Get (set_row i f s) i = Inr (f t)"
  using assms(2) find_map_row [OF assms(1), of i "db_tasks s"]
  by (auto simp: task_Get_def set_row_def split: option.splits)

lemma set_row_others: "filter (\<lambda>t. task_ID t \<noteq> i) (db_tasks (set_row i f s)) = filter (\<lambda>t. task_ID t \<noteq> i) (db_tasks s)"
  if "\<And>t. task_ID (f t) = task_ID t"
proof -
  have "filter (\<lambda>t. task_ID t \<noteq> i) (map (\<lambda>t. if task_ID t = i then f t else t) ts) = filter (\<lambda>t. task_ID t \<noteq> i) ts" for ts
    using that by (induction ts) auto
  then show ?thesis by (simp add: set_row_def)
qed

text \<open>
  Only unfinished business is reopened.  Reopening succeeds only for a task that failed or was
  abandoned, and then exactly that task is pending again with its finish time cleared; an accepted
  task, a task that is already runnable and an unknown task are refused and nothing changes.
\<close>

theorem reopen_only_failed:
  "case Reopen ok now i s of
     (Inl e, s') \<Rightarrow> s' = s
   | (Inr t, s') \<Rightarrow>
       \<exists>t0. task_Get s i = Inr t0 \<and> (task_State t0 = StateFailed \<or> task_State t0 = StateAbandoned) \<and>
            t = t0\<lparr>task_State := StatePending\<rparr> \<and>
            task_Get s' i = Inr (t0\<lparr>task_State := StatePending, task_UpdatedAt := now, task_FinishedAt := None\<rparr>) \<and>
            filter (\<lambda>u. task_ID u \<noteq> i) (db_tasks s') = filter (\<lambda>u. task_ID u \<noteq> i) (db_tasks s)"
proof (cases "task_Get s i")
  case (Inr t0)
  let ?f = "\<lambda>t. t\<lparr>task_State := StatePending, task_UpdatedAt := now, task_FinishedAt := None\<rparr>"
  have "task_Get (set_row i ?f s) i = Inr (?f t0)" by (rule task_Get_set_row [OF _ Inr]) simp
  moreover have "filter (\<lambda>u. task_ID u \<noteq> i) (db_tasks (set_row i ?f s)) = filter (\<lambda>u. task_ID u \<noteq> i) (db_tasks s)"
    by (rule set_row_others) simp
  ultimately show ?thesis using Inr by (simp add: Reopen_def SetState_def Terminal_def) blast
qed (simp add: Reopen_def)

section \<open>Plans never deadlock\<close>

lemma steps_Validate_deps:
  assumes "steps_Validate m plan = None" and "i < length (splan_Steps plan)"
    and "d \<in> set (step_DependsOn (splan_Steps plan ! i))"
  shows "1 \<le> d \<and> d \<le> int i"
proof -
  have "step_error (length (splan_Steps plan)) (i, splan_Steps plan ! i) = None"
    using assms(1,2) by (auto simp: steps_Validate_def first_error_None_iff in_set_enumerate_eq split: if_splits)
  then have "dep_error (length (splan_Steps plan)) i d = None"
    using assms(3) by (auto simp: step_error_def first_error_None_iff split: if_splits option.splits)
  then show ?thesis by (auto simp: dep_error_def split: if_splits)
qed

lemma add_deps_set:
  "add_deps ok tid ids ds s = (Inr u, s') \<Longrightarrow>
   set (db_deps s') = set (db_deps s) \<union> (\<lambda>d. (tid, ids ! nat (d - 1))) ` set ds"
proof (induction ds arbitrary: s)
  case (Cons d ds)
  then obtain s1 where a: "AddDependency ok tid (ids ! nat (d - 1)) s = (Inr (), s1)" "add_deps ok tid ids ds s1 = (Inr u, s')"
    by (auto split: prod.splits sum.splits)
  have "set (db_deps s1) = insert (tid, ids ! nat (d - 1)) (set (db_deps s))"
    using a(1) by (auto simp: AddDependency_def split: if_splits)
  with Cons.IH [OF a(2)] show ?case by auto
qed simp

text \<open>What the loop adds: one task per step, and only dependencies on earlier steps.\<close>

definition back_deps :: "(nat \<Rightarrow> string) \<Rightarrow> nat \<Rightarrow> (string \<times> string) set" where
  "back_deps newId n = {(newId a, newId b) | a b. b < a \<and> a < n}"

lemma task_Create_ok: "task_Create ok now t s = (Inr u, s1) \<Longrightarrow>
   map task_ID (db_tasks s1) = map task_ID (db_tasks s) @ [task_ID t] \<and> db_deps s1 = db_deps s"
  by (auto simp: task_Create_def Let_def split: if_splits)

lemma materialise_steps_Cons:
  assumes "materialise_steps ok clock newId plan parentID ids (step # steps) s = (Inr ts, s')"
  shows "\<exists>s1 s2 us. task_Create ok (clock (length ids)) (step_task plan parentID (newId (length ids)) step) s = (Inr (), s1) \<and>
    add_deps ok (newId (length ids)) (ids @ [newId (length ids)]) (step_DependsOn step) s1 = (Inr (), s2) \<and>
    materialise_steps ok clock newId plan parentID (ids @ [newId (length ids)]) steps s2 = (Inr us, s') \<and>
    ts = step_task plan parentID (newId (length ids)) step # us"
  using assms by (auto simp: Let_def step_task_def split: prod.splits sum.splits)

lemma materialise_steps_ids:
  "materialise_steps ok clock newId plan parentID (map newId [0..<n]) steps s = (Inr ts, s') \<Longrightarrow>
   map task_ID ts = map newId [n..<n + length steps] \<and>
   map task_ID (db_tasks s') = map task_ID (db_tasks s) @ map newId [n..<n + length steps]"
proof (induction steps arbitrary: n s ts)
  case (Cons step steps)
  let ?ids = "map newId [0..<n]"
  obtain s1 s2 us where c: "task_Create ok (clock n) (step_task plan parentID (newId n) step) s = (Inr (), s1)"
    "add_deps ok (newId n) (?ids @ [newId n]) (step_DependsOn step) s1 = (Inr (), s2)"
    "materialise_steps ok clock newId plan parentID (map newId [0..<Suc n]) steps s2 = (Inr us, s')"
    "ts = step_task plan parentID (newId n) step # us"
    using materialise_steps_Cons [OF Cons.prems] by auto
  have u: "[n..<n + length (step # steps)] = n # [Suc n..<Suc n + length steps]"
    using upt_conv_Cons [of n "Suc n + length steps"] by (simp del: upt_Suc)
  have tk: "db_tasks s2 = db_tasks s1" using c(2) db_tasks_add_deps by (metis snd_conv)
  have t1: "map task_ID (db_tasks s1) = map task_ID (db_tasks s) @ [newId n]"
    using task_Create_ok [OF c(1)] by (simp add: step_task_def)
  from Cons.IH [OF c(3)] show ?case
    unfolding u c(4) list.map tk t1 by (simp add: step_task_def)
qed simp

lemma materialise_steps_deps:
  assumes "\<And>j d. j < length steps \<Longrightarrow> d \<in> set (step_DependsOn (steps ! j)) \<Longrightarrow> 1 \<le> d \<and> d \<le> int (n + j)"
    and "materialise_steps ok clock newId plan parentID (map newId [0..<n]) steps s = (Inr ts, s')"
  shows "set (db_deps s') \<subseteq> set (db_deps s) \<union> back_deps newId (n + length steps)"
  using assms
proof (induction steps arbitrary: n s ts)
  case (Cons step steps)
  let ?ids = "map newId [0..<n]" and ?N = "n + length (step # steps)"
  obtain s1 s2 us where c: "task_Create ok (clock n) (step_task plan parentID (newId n) step) s = (Inr (), s1)"
    "add_deps ok (newId n) (?ids @ [newId n]) (step_DependsOn step) s1 = (Inr (), s2)"
    "materialise_steps ok clock newId plan parentID (map newId [0..<Suc n]) steps s2 = (Inr us, s')"
    using materialise_steps_Cons [OF Cons.prems(2)] by auto
  have hd: "1 \<le> d \<and> d \<le> int n" if "d \<in> set (step_DependsOn step)" for d
    using Cons.prems(1) [of 0 d] that by simp
  have "(newId n, (?ids @ [newId n]) ! nat (d - 1)) \<in> back_deps newId ?N" if "d \<in> set (step_DependsOn step)" for d
  proof -
    have "nat (d - 1) < n" using hd [OF that] by auto
    moreover from this have "(?ids @ [newId n]) ! nat (d - 1) = newId (nat (d - 1))" by (simp add: nth_append)
    ultimately show ?thesis unfolding back_deps_def by force
  qed
  then have "set (db_deps s2) \<subseteq> set (db_deps s1) \<union> back_deps newId ?N"
    unfolding add_deps_set [OF c(2)] by blast
  moreover have "set (db_deps s') \<subseteq> set (db_deps s2) \<union> back_deps newId (Suc n + length steps)"
  proof (rule Cons.IH [OF _ c(3)])
    fix j d assume "j < length steps" "d \<in> set (step_DependsOn (steps ! j))"
    with Cons.prems(1) [of "Suc j" d] show "1 \<le> d \<and> d \<le> int (Suc n + j)" by simp
  qed
  moreover have "db_deps s1 = db_deps s" using task_Create_ok [OF c(1)] by simp
  ultimately show ?case by simp blast
qed simp

lemma Blockers_none:
  assumes "\<And>d t. (i, d) \<in> set (db_deps s) \<Longrightarrow> t \<in> set (db_tasks s) \<Longrightarrow> task_ID t = d \<Longrightarrow> task_State t = StateAccepted"
  shows "Blockers s i = Inr []"
proof -
  have "concat (map (\<lambda>d. filter (\<lambda>t. task_ID t = d \<and> task_State t \<noteq> StateAccepted) (db_tasks s))
      (map snd (filter (\<lambda>(a, d). a = i) (db_deps s)))) = []"
    using assms by (auto simp: filter_empty_conv)
  then show ?thesis unfolding Blockers_def by (simp only: stable_sort.simps list.map get_all.simps)
qed

text \<open>
  A plan can always go on.  Take a validated plan that was turned into tasks, none of which had
  recorded dependencies before, and any later state of the tasks with the same dependencies: as
  long as one task of the plan is not accepted, there is one that is not accepted and is blocked by
  nothing.  A plan with a cycle or a forward dependency never gets that far.
\<close>

theorem plan_never_deadlocks:
  assumes "db_reachable s" and "Materialise ok clock newId plan parentID s = (Inr ts, s')"
    and "\<And>i. newId i \<notin> fst ` set (db_deps s)"
    and "db_deps later = db_deps s'"
    and "\<exists>t \<in> set ts. \<exists>u \<in> set (db_tasks later). task_ID u = task_ID t \<and> task_State u \<noteq> StateAccepted"
  shows "\<exists>t \<in> set ts. (\<exists>u \<in> set (db_tasks later). task_ID u = task_ID t \<and> task_State u \<noteq> StateAccepted) \<and>
    Blockers later (task_ID t) = Inr []"
proof -
  let ?n = "length (splan_Steps plan)"
  have v: "steps_Validate DefaultMaxPlanSteps plan = None"
    and m: "materialise_steps ok clock newId plan parentID (map newId [0..<0]) (splan_Steps plan) s = (Inr ts, s')"
    using assms(2) by (auto simp: Materialise_def split: option.splits)
  have ids: "map task_ID ts = map newId [0..<?n]"
    "map task_ID (db_tasks s') = map task_ID (db_tasks s) @ map newId [0..<?n]"
    using materialise_steps_ids [OF m] by simp_all
  have deps: "set (db_deps s') \<subseteq> set (db_deps s) \<union> back_deps newId ?n"
    using materialise_steps_deps [OF _ m] steps_Validate_deps [OF v] by simp
  have "db_reachable s'"
    using db_reachable.step [OF assms(1) db_step.materialise] assms(2) by (metis snd_conv)
  then have "distinct (map task_ID (db_tasks s'))" using db_reachable_inv unfolding db_inv_def by blast
  then have inj: "inj_on newId {0..<?n}" unfolding ids(2) by (simp add: distinct_map)
  define waiting where "waiting i \<longleftrightarrow> i < ?n \<and> (\<exists>u \<in> set (db_tasks later). task_ID u = newId i \<and> task_State u \<noteq> StateAccepted)" for i
  have tset: "task_ID ` set ts = newId ` {0..<?n}" using ids(1) by (metis list.set_map set_upt)
  with assms(5) have "\<exists>k. waiting k" unfolding waiting_def by (metis (no_types, lifting) atLeastLessThan_iff imageE image_eqI)
  then obtain i where i: "waiting i" "\<And>j. j < i \<Longrightarrow> \<not> waiting j" by (metis exists_least_iff)
  have "Blockers later (newId i) = Inr []"
  proof (rule Blockers_none)
    fix dep u assume dep: "(newId i, dep) \<in> set (db_deps later)" and u: "u \<in> set (db_tasks later)" "task_ID u = dep"
    have "(newId i, dep) \<notin> set (db_deps s)" using assms(3) [of i] by force
    with dep deps assms(4) obtain a b where ab: "newId i = newId a" "dep = newId b" "b < a" "a < ?n"
      unfolding back_deps_def by auto
    have "a = i" using inj_onD [OF inj ab(1)] ab(4) i(1) unfolding waiting_def by auto
    with i(2) [of b] ab u show "task_State u = StateAccepted" unfolding waiting_def by auto
  qed
  moreover obtain t where "t \<in> set ts" "task_ID t = newId i"
    using tset i(1) unfolding waiting_def by (metis atLeastLessThan_iff imageE imageI le0)
  ultimately show ?thesis using i(1) unfolding waiting_def by (intro bexI [of _ t]) simp_all
qed

definition demo_plan :: StepPlan where
  "demo_plan = \<lparr>splan_RequirementID = [], splan_Objective = [], splan_Steps =
     [\<lparr>step_Title = ''one'', step_Scope = [''a''], step_Verification = Low, step_Acceptance = [], step_DependsOn = []\<rparr>,
      \<lparr>step_Title = ''two'', step_Scope = [''b''], step_Verification = Low, step_Acceptance = [], step_DependsOn = [1]\<rparr>]\<rparr>"

definition demo_newId :: "nat \<Rightarrow> string" where
  "demo_newId n = ''t-'' @ showNat n"

theorem plan_never_deadlocks_witness:
  "\<exists>ts s'. Materialise True int demo_newId demo_plan [] demo_db = (Inr ts, s') \<and>
     (\<exists>t \<in> set ts. Blockers s' (task_ID t) = Inr [])"
proof -
  have r: "db_reachable demo_db" by (rule db_reachable.empty) (simp add: demo_db_def)
  have ok: "is_ok (fst (Materialise True int demo_newId demo_plan [] demo_db))" by code_simp
  then obtain ts s' where m: "Materialise True int demo_newId demo_plan [] demo_db = (Inr ts, s')"
    by (cases "Materialise True int demo_newId demo_plan [] demo_db"; cases "fst (Materialise True int demo_newId demo_plan [] demo_db)") auto
  have "(case Materialise True int demo_newId demo_plan [] demo_db of (Inr (t # _), s) \<Rightarrow>
          (\<exists>u \<in> set (db_tasks s). task_ID u = task_ID t \<and> task_State u \<noteq> StateAccepted) | _ \<Rightarrow> False)" by code_simp
  then have "\<exists>t \<in> set ts. \<exists>u \<in> set (db_tasks s'). task_ID u = task_ID t \<and> task_State u \<noteq> StateAccepted"
    unfolding m by (auto split: list.splits)
  with plan_never_deadlocks [OF r m _ refl] m show ?thesis by (auto simp: demo_db_def)
qed

end
