(* ===== verification/Ledger.thy ===== *)
theory Ledger
  imports TaskStore
begin

text \<open>
  The execution journal, worktree leases and recovery: \<^verbatim>\<open>src/internal/ledger/ledger.go\<close>,
  \<^verbatim>\<open>lease.go\<close> and \<^verbatim>\<open>recover.go\<close>.  Tables are lists of rows, \<open>now\<close> the clock, \<open>ok\<close> whether a
  transaction went through.  Intents, outcomes and handoffs are JSON text; marshalling answers
  \<open>None\<close> when it fails, and decoders are arguments.  Times are in milliseconds except for leases,
  which compare a nanosecond clock with a stored millisecond expiry.
\<close>

section \<open>Journal\<close>

datatype OpKind =
    KindInspectFile | KindSearch | KindRetrieval | KindDecision | KindEdit | KindRecipeRun | KindReview
  | KindCheckpoint | KindApproval | KindSessionStart | KindSessionEnd

definition AllKinds :: "OpKind list" where
  "AllKinds = [KindInspectFile, KindSearch, KindRetrieval, KindDecision, KindEdit, KindRecipeRun, KindReview,
     KindCheckpoint, KindApproval, KindSessionStart, KindSessionEnd]"

record Operation =
  op_ID :: int
  op_TaskID :: string
  op_Seq :: int
  op_Kind :: OpKind
  op_Intent :: string
  op_Outcome :: string
  op_CandidateBefore :: string
  op_CandidateAfter :: string
  op_EvidenceID :: string
  op_StartedAt :: int
  op_FinishedAt :: int
  op_Error :: string

definition Uncertain :: "Operation \<Rightarrow> bool" where
  "Uncertain o' = (op_Outcome o' = [])"

record Checkpoint_row =
  cp_TaskID :: string
  cp_Seq :: int
  cp_State :: string
  cp_Handoff :: string
  cp_Candidate :: string

record Evidence_row =
  ev_ID :: string
  ev_TaskID :: string
  ev_Kind :: string
  ev_Status :: string
  ev_Candidate :: string
  ev_ArtifactHash :: string
  ev_Summary :: string
  ev_Detail :: string
  ev_CreatedAt :: int

record Lease_row =
  ls_WorktreeID :: string
  ls_TaskID :: string
  ls_Holder :: string
  ls_ExpiresAt :: int

record ledger_db =
  lg_ops :: "Operation list"
  lg_checkpoints :: "Checkpoint_row list"
  lg_evidence :: "Evidence_row list"
  lg_leases :: "Lease_row list"

datatype ledger_error =
    MarshalFailed | LedgerDbFailed | AlreadyFinished int | LeaseHeld string | NotHolder | ManifestFailed

record Handle =
  h_id :: int
  h_seq :: int
  h_taskID :: string
  h_kind :: OpKind
  h_done :: bool

definition last_seq :: "ledger_db \<Rightarrow> string \<Rightarrow> int" where
  "last_seq db task = max_of (map op_Seq (filter (\<lambda>o'. op_TaskID o' = task) (lg_ops db)))"

definition next_id :: "ledger_db \<Rightarrow> int" where
  "next_id db = max_of (map op_ID (lg_ops db)) + 1"

definition Begin ::
  "bool \<Rightarrow> int \<Rightarrow> string \<Rightarrow> OpKind \<Rightarrow> string option \<Rightarrow> string \<Rightarrow> ledger_db \<Rightarrow> (ledger_error + Handle) \<times> ledger_db" where
  "Begin ok now task kind intent candidateBefore db =
     (case intent of
        None \<Rightarrow> (Inl MarshalFailed, db)
      | Some body \<Rightarrow>
          if \<not> ok then (Inl LedgerDbFailed, db)
          else let seq = last_seq db task + 1; i = next_id db in
            (Inr \<lparr>h_id = i, h_seq = seq, h_taskID = task, h_kind = kind, h_done = False\<rparr>,
             db\<lparr>lg_ops := lg_ops db @
                 [\<lparr>op_ID = i, op_TaskID = task, op_Seq = seq, op_Kind = kind, op_Intent = body, op_Outcome = [],
                   op_CandidateBefore = candidateBefore, op_CandidateAfter = [], op_EvidenceID = [],
                   op_StartedAt = now, op_FinishedAt = 0, op_Error = []\<rparr>]\<rparr>))"

definition update_op :: "int \<Rightarrow> (Operation \<Rightarrow> Operation) \<Rightarrow> ledger_db \<Rightarrow> ledger_db" where
  "update_op i f db = db\<lparr>lg_ops := map (\<lambda>o'. if op_ID o' = i then f o' else o') (lg_ops db)\<rparr>"

definition h_finish ::
  "bool \<Rightarrow> int \<Rightarrow> string option \<Rightarrow> string \<Rightarrow> string \<Rightarrow> Handle \<Rightarrow> ledger_db \<Rightarrow> ledger_error option \<times> Handle \<times> ledger_db" where
  "h_finish ok now outcome candidateAfter evidenceID h db =
     (if h_done h then (Some (AlreadyFinished (h_id h)), h, db)
      else case outcome of
             None \<Rightarrow> (Some MarshalFailed, h, db)
           | Some body \<Rightarrow>
               if \<not> ok then (Some LedgerDbFailed, h, db)
               else (None, h\<lparr>h_done := True\<rparr>,
                     update_op (h_id h) (\<lambda>o'. o'\<lparr>op_Outcome := body, op_CandidateAfter := candidateAfter,
                                                op_EvidenceID := evidenceID, op_FinishedAt := now\<rparr>) db))"

definition Complete ::
  "bool \<Rightarrow> int \<Rightarrow> string option \<Rightarrow> string \<Rightarrow> string \<Rightarrow> Handle \<Rightarrow> ledger_db \<Rightarrow> ledger_error option \<times> Handle \<times> ledger_db" where
  "Complete ok now outcome candidateAfter evidenceID h db = h_finish ok now outcome candidateAfter evidenceID h db"

text \<open>\<open>failed_json cause\<close> is the object \<^verbatim>\<open>{"error":cause,"status":"failed"}\<close>; its text is never empty.\<close>

definition h_Fail ::
  "bool \<Rightarrow> int \<Rightarrow> (string \<Rightarrow> string) \<Rightarrow> string \<Rightarrow> Handle \<Rightarrow> ledger_db \<Rightarrow> ledger_error option \<times> Handle \<times> ledger_db" where
  "h_Fail ok now failed_json cause h db = h_finish ok now (Some (failed_json cause)) [] [] h db"

definition Interrupted :: "bool \<Rightarrow> int \<Rightarrow> string option \<Rightarrow> Handle \<Rightarrow> ledger_db \<Rightarrow> ledger_error option \<times> Handle \<times> ledger_db" where
  "Interrupted ok now cause h db =
     (if h_done h then (Some (AlreadyFinished (h_id h)), h, db)
      else if \<not> ok then (Some LedgerDbFailed, h, db)
      else (None, h\<lparr>h_done := True\<rparr>,
            update_op (h_id h) (\<lambda>o'. o'\<lparr>op_Error := (case cause of None \<Rightarrow> ''interrupted'' | Some c \<Rightarrow> c),
                                       op_FinishedAt := now\<rparr>) db))"

definition Operations :: "ledger_db \<Rightarrow> string \<Rightarrow> Operation list" where
  "Operations db task = stable_sort (\<lambda>a b. op_Seq a < op_Seq b) (filter (\<lambda>o'. op_TaskID o' = task) (lg_ops db))"

definition Checkpoint ::
  "bool \<Rightarrow> string \<Rightarrow> string \<Rightarrow> string option \<Rightarrow> string \<Rightarrow> ledger_db \<Rightarrow> ledger_error option \<times> ledger_db" where
  "Checkpoint ok task state handoff candidate db =
     (case handoff of
        None \<Rightarrow> (Some MarshalFailed, db)
      | Some body \<Rightarrow>
          if \<not> ok then (Some LedgerDbFailed, db)
          else let seq = last_seq db task;
                   row = \<lparr>cp_TaskID = task, cp_Seq = seq, cp_State = state, cp_Handoff = body, cp_Candidate = candidate\<rparr>
               in (None, db\<lparr>lg_checkpoints :=
                     (if list_ex (\<lambda>c. cp_TaskID c = task \<and> cp_Seq c = seq) (lg_checkpoints db)
                      then map (\<lambda>c. if cp_TaskID c = task \<and> cp_Seq c = seq then row else c) (lg_checkpoints db)
                      else lg_checkpoints db @ [row])\<rparr>))"

definition LastCheckpoint :: "ledger_db \<Rightarrow> string \<Rightarrow> Checkpoint_row option" where
  "LastCheckpoint db task =
     (case stable_sort (\<lambda>a b. cp_Seq a > cp_Seq b) (filter (\<lambda>c. cp_TaskID c = task) (lg_checkpoints db)) of
        [] \<Rightarrow> None | c # _ \<Rightarrow> Some c)"

section \<open>Leases\<close>

definition DefaultLeaseTTL :: int where
  "DefaultLeaseTTL = 60000000000"

definition unixMilli :: "int \<Rightarrow> int" where
  "unixMilli t = t div 1000000"

definition lease_of :: "ledger_db \<Rightarrow> string \<Rightarrow> Lease_row option" where
  "lease_of db wt = find (\<lambda>r. ls_WorktreeID r = wt) (lg_leases db)"

definition lease_live :: "int \<Rightarrow> Lease_row \<Rightarrow> bool" where
  "lease_live now r = (ls_ExpiresAt r * 1000000 > now)"

text \<open>The row stores the expiry in milliseconds; the answer carries the row as stored.\<close>

definition AcquireLease ::
  "bool \<Rightarrow> int \<Rightarrow> string \<Rightarrow> string \<Rightarrow> string \<Rightarrow> int \<Rightarrow> ledger_db \<Rightarrow> (ledger_error + Lease_row) \<times> ledger_db" where
  "AcquireLease ok now wt task holder ttl0 db =
     (let ttl = (if ttl0 \<le> 0 then DefaultLeaseTTL else ttl0);
          row = \<lparr>ls_WorktreeID = wt, ls_TaskID = task, ls_Holder = holder, ls_ExpiresAt = unixMilli (now + ttl)\<rparr>
      in case lease_of db wt of
           None \<Rightarrow> if \<not> ok then (Inl LedgerDbFailed, db)
                   else (Inr row, db\<lparr>lg_leases := lg_leases db @ [row]\<rparr>)
         | Some cur \<Rightarrow>
             if lease_live now cur \<and> ls_Holder cur \<noteq> holder then (Inl (LeaseHeld (ls_Holder cur)), db)
             else if \<not> ok then (Inl LedgerDbFailed, db)
             else (Inr row, db\<lparr>lg_leases := map (\<lambda>r. if ls_WorktreeID r = wt then row else r) (lg_leases db)\<rparr>))"

definition RenewLease :: "bool \<Rightarrow> int \<Rightarrow> string \<Rightarrow> string \<Rightarrow> int \<Rightarrow> ledger_db \<Rightarrow> (ledger_error + Lease_row) \<times> ledger_db" where
  "RenewLease ok now wt holder ttl0 db =
     (let ttl = (if ttl0 \<le> 0 then DefaultLeaseTTL else ttl0); expires = unixMilli (now + ttl) in
      if \<not> ok then (Inl LedgerDbFailed, db)
      else if \<not> list_ex (\<lambda>r. ls_WorktreeID r = wt \<and> ls_Holder r = holder) (lg_leases db) then (Inl NotHolder, db)
      else (Inr \<lparr>ls_WorktreeID = wt, ls_TaskID = [], ls_Holder = holder, ls_ExpiresAt = expires\<rparr>,
            db\<lparr>lg_leases := map (\<lambda>r. if ls_WorktreeID r = wt \<and> ls_Holder r = holder
                                     then r\<lparr>ls_ExpiresAt := expires\<rparr> else r) (lg_leases db)\<rparr>))"

definition ReleaseLease :: "bool \<Rightarrow> string \<Rightarrow> string \<Rightarrow> ledger_db \<Rightarrow> ledger_error option \<times> ledger_db" where
  "ReleaseLease ok wt holder db =
     (if \<not> ok then (Some LedgerDbFailed, db)
      else (None, db\<lparr>lg_leases := filter (\<lambda>r. \<not> (ls_WorktreeID r = wt \<and> ls_Holder r = holder)) (lg_leases db)\<rparr>))"

definition Leases :: "ledger_db \<Rightarrow> Lease_row list" where
  "Leases db = stable_sort (\<lambda>a b. ls_WorktreeID a < ls_WorktreeID b) (lg_leases db)"

section \<open>Evidence\<close>

text \<open>The upsert leaves the row's task, kind, artifact and creation time as they were.\<close>

definition RecordEvidence :: "bool \<Rightarrow> Evidence_row \<Rightarrow> ledger_db \<Rightarrow> ledger_error option \<times> ledger_db" where
  "RecordEvidence ok e db =
     (if \<not> ok then (Some LedgerDbFailed, db)
      else if list_ex (\<lambda>r. ev_ID r = ev_ID e) (lg_evidence db) then
        (None, db\<lparr>lg_evidence := map (\<lambda>r. if ev_ID r = ev_ID e
                                         then r\<lparr>ev_Status := ev_Status e, ev_Summary := ev_Summary e,
                                                ev_Detail := ev_Detail e, ev_Candidate := ev_Candidate e\<rparr> else r)
                                      (lg_evidence db)\<rparr>)
      else (None, db\<lparr>lg_evidence := lg_evidence db @ [e]\<rparr>))"

record EvidenceStatus =
  es_ID :: string
  es_Kind :: string
  es_Status :: string
  es_Candidate :: string
  es_Stale :: bool

definition evidenceFor :: "ledger_db \<Rightarrow> string \<Rightarrow> string \<Rightarrow> EvidenceStatus list" where
  "evidenceFor db task candidate =
     map (\<lambda>e. \<lparr>es_ID = ev_ID e, es_Kind = ev_Kind e, es_Status = ev_Status e, es_Candidate = ev_Candidate e,
               es_Stale = (candidate \<noteq> [] \<and> ev_Candidate e \<noteq> [] \<and> ev_Candidate e \<noteq> candidate)\<rparr>)
       (stable_sort (\<lambda>a b. ev_CreatedAt a < ev_CreatedAt b) (filter (\<lambda>e. ev_TaskID e = task) (lg_evidence db)))"

section \<open>The candidate: a manifest of the checkout\<close>

text \<open>
  A checkout as \<^verbatim>\<open>filepath.WalkDir\<close> sees it: a regular file with its content (\<open>None\<close> when it cannot be
  read), anything else that is not a directory, or a directory.  \<open>sha\<close> is the hexadecimal SHA-256.
\<close>

datatype tnode = RegFile string "string option" | NonRegular string | SubDir string "tnode list"

definition manifest_skips :: "string \<Rightarrow> bool" where
  "manifest_skips n = (n \<in> {''.git'', ''.le'', ''node_modules'', ''vendor''})"

fun walk_entry :: "(string \<Rightarrow> string) \<Rightarrow> string \<Rightarrow> tnode \<Rightarrow> (string \<times> string) list option"
  and walk_entries :: "(string \<Rightarrow> string) \<Rightarrow> string \<Rightarrow> tnode list \<Rightarrow> (string \<times> string) list option" where
  "walk_entry sha dir (RegFile n body) =
     (case body of None \<Rightarrow> None | Some b \<Rightarrow> Some [(child_dir dir n, sha b)])"
| "walk_entry sha dir (NonRegular n) = Some []"
| "walk_entry sha dir (SubDir n ns) = (if manifest_skips n then Some [] else walk_entries sha (child_dir dir n) ns)"
| "walk_entries sha dir [] = Some []"
| "walk_entries sha dir (n # ns) =
     (case walk_entry sha dir n of
        None \<Rightarrow> None
      | Some es \<Rightarrow> (case walk_entries sha dir ns of None \<Rightarrow> None | Some fs \<Rightarrow> Some (es @ fs)))"

abbreviation nul :: char where "nul \<equiv> CHR 0x00"

definition encode_entry :: "string \<times> string \<Rightarrow> string" where
  "encode_entry e = fst e @ [nul] @ snd e @ [nul]"

definition manifest_bytes :: "(string \<times> string) list \<Rightarrow> string" where
  "manifest_bytes es = concat (map encode_entry (stable_sort (\<lambda>a b. fst a < fst b) es))"

text \<open>The root directory itself is never skipped, whatever its name.\<close>

definition ContentManifest :: "(string \<Rightarrow> string) \<Rightarrow> tnode list option \<Rightarrow> ledger_error + string" where
  "ContentManifest sha tree =
     (case tree of
        None \<Rightarrow> Inl ManifestFailed
      | Some ns \<Rightarrow> (case walk_entries sha ''.'' ns of
                      None \<Rightarrow> Inl ManifestFailed
                    | Some es \<Rightarrow> Inr (sha (manifest_bytes es))))"

section \<open>Recovery\<close>

datatype Applied = AppliedComplete | AppliedPartial | AppliedNotApplied | AppliedUnknown

record EditIntent =
  ei_Path :: string
  ei_AfterHash :: string
  ei_BeforeHash :: string

datatype recon_detail =
    RecipeNoOutcome | ReadOnlyRepeat | NoPathDeclared | NoWorktree | TargetAbsent | TargetUnreadable
  | MatchesAfter | MatchesBefore | MatchesNeither

record Reconciliation =
  rc_Operation :: Operation
  rc_Applied :: Applied
  rc_Detail :: recon_detail
  rc_Cause :: string

text \<open>\<open>hashFile\<close> answers the digest of a file or why it cannot be read; \<open>decodeEdit\<close> reads an edit's intent.\<close>

definition ledger_inspect ::
  "(string \<Rightarrow> EditIntent option) \<Rightarrow> (string \<Rightarrow> fs_error + string) \<Rightarrow> string \<Rightarrow> Operation \<Rightarrow> Reconciliation" where
  "ledger_inspect decodeEdit hashFile worktree o' =
     (let r = (\<lambda>a d. \<lparr>rc_Operation = o', rc_Applied = a, rc_Detail = d, rc_Cause = op_Error o'\<rparr>) in
      case op_Kind o' of
        KindEdit \<Rightarrow>
          (case decodeEdit (op_Intent o') of
             None \<Rightarrow> r AppliedUnknown NoPathDeclared
           | Some ei \<Rightarrow>
               if ei_Path ei = [] then r AppliedUnknown NoPathDeclared
               else if worktree = [] then r AppliedUnknown NoWorktree
               else (case hashFile (joinPath worktree (ei_Path ei)) of
                       Inl NotExist \<Rightarrow> r AppliedNotApplied TargetAbsent
                     | Inl FsFailure \<Rightarrow> r AppliedUnknown TargetUnreadable
                     | Inr got \<Rightarrow>
                         if got = ei_AfterHash ei then r AppliedComplete MatchesAfter
                         else if got = ei_BeforeHash ei then r AppliedNotApplied MatchesBefore
                         else r AppliedPartial MatchesNeither))
      | KindRecipeRun \<Rightarrow> r AppliedUnknown RecipeNoOutcome
      | _ \<Rightarrow> r AppliedUnknown ReadOnlyRepeat)"

datatype next_action =
    InspectPartial int | RevalidateDrift | RerunStale | PlannedAction string | Replan | HandoffAction string

record handoff =
  ho_Objective :: string
  ho_Remaining :: "string list"
  ho_NextAction :: string

record WorkingState =
  wks_TaskID :: string
  wks_Objective :: string
  wks_InvestigatedFiles :: "string list"
  wks_InvestigatedSymbols :: "string list"
  wks_Decisions :: "string list"
  wks_RejectedHypotheses :: "string list"
  wks_CompletedEdits :: "EditIntent list"
  wks_Validations :: "EvidenceStatus list"
  wks_RemainingPlan :: "string list"
  wks_NextAction :: next_action
  wks_CurrentCandidate :: string
  wks_LastCompleted :: string
  wks_Drifted :: bool
  wks_Uncertain :: "Reconciliation list"
  wks_CheckpointS :: int

definition SafeToResume :: "WorkingState \<Rightarrow> bool" where
  "SafeToResume w =
     (if list_ex (\<lambda>u. rc_Applied u = AppliedPartial) (wks_Uncertain w) then False else \<not> wks_Drifted w)"

fun first_partial :: "Reconciliation list \<Rightarrow> Reconciliation option" where
  "first_partial [] = None"
| "first_partial (u # us) = (if rc_Applied u = AppliedPartial then Some u else first_partial us)"

definition nextAction ::
  "Reconciliation list \<Rightarrow> bool \<Rightarrow> EvidenceStatus list \<Rightarrow> string list \<Rightarrow> next_action" where
  "nextAction uncertain drifted validations remaining =
     (case first_partial uncertain of
        Some u \<Rightarrow> InspectPartial (op_Seq (rc_Operation u))
      | None \<Rightarrow>
          if drifted then RevalidateDrift
          else if list_ex es_Stale validations then RerunStale
          else (case remaining of a # _ \<Rightarrow> PlannedAction a | [] \<Rightarrow> Replan))"

record decoders =
  dec_edit :: "string \<Rightarrow> EditIntent option"
  dec_path :: "string \<Rightarrow> string option"
  dec_symbols :: "string \<Rightarrow> string list option"
  dec_accepted :: "string \<Rightarrow> bool"
  dec_handoff :: "string \<Rightarrow> handoff option"

definition last_completed :: "Operation list \<Rightarrow> string" where
  "last_completed ops =
     foldl (\<lambda>c o'. if \<not> Uncertain o' \<and> op_CandidateAfter o' \<noteq> [] then op_CandidateAfter o' else c) [] ops"

definition sortedKeys :: "string list \<Rightarrow> string list" where
  "sortedKeys ks = sortStrings (remdups ks)"

definition RecoverTask ::
  "decoders \<Rightarrow> (string \<Rightarrow> fs_error + string) \<Rightarrow> (string \<Rightarrow> ledger_error + string) \<Rightarrow> ledger_db \<Rightarrow> string \<Rightarrow> string
   \<Rightarrow> ledger_error + WorkingState" where
  "RecoverTask dec hashFile manifest db task worktree =
     (case (if worktree \<noteq> [] then manifest worktree else Inr []) of
        Inl e \<Rightarrow> Inl e
      | Inr current \<Rightarrow>
          (let ops = Operations db task;
               lastc = last_completed ops;
               uncertain = map (ledger_inspect (dec_edit dec) hashFile worktree) (filter Uncertain ops);
               drifted = (lastc \<noteq> [] \<and> current \<noteq> [] \<and> lastc \<noteq> current);
               cp = LastCheckpoint db task;
               ho = (case cp of None \<Rightarrow> None
                              | Some c \<Rightarrow> if cp_Handoff c = [] then None else dec_handoff dec (cp_Handoff c));
               remaining = (case ho of None \<Rightarrow> [] | Some h \<Rightarrow> ho_Remaining h);
               files = List.map_filter (\<lambda>o'. if op_Kind o' = KindInspectFile then
                          (case dec_path dec (op_Intent o') of None \<Rightarrow> None | Some p \<Rightarrow> if p = [] then None else Some p)
                        else None) ops;
               symbols = concat (map (\<lambda>o'. if op_Kind o' = KindSearch \<or> op_Kind o' = KindRetrieval then
                          (case dec_symbols dec (op_Intent o') of None \<Rightarrow> [] | Some ss \<Rightarrow> ss) else []) ops);
               decisions = map op_Intent (filter (\<lambda>o'. op_Kind o' = KindDecision \<and> dec_accepted dec (op_Intent o')) ops);
               rejected = map op_Intent (filter (\<lambda>o'. op_Kind o' = KindDecision \<and> \<not> dec_accepted dec (op_Intent o')) ops);
               edits = List.map_filter (\<lambda>o'. if op_Kind o' = KindEdit \<and> \<not> Uncertain o' then
                          (case dec_edit dec (op_Intent o') of None \<Rightarrow> None | Some ei \<Rightarrow> if ei_Path ei = [] then None else Some ei)
                        else None) ops;
               validations = evidenceFor db task current
           in Inr \<lparr>wks_TaskID = task, wks_Objective = (case ho of None \<Rightarrow> [] | Some h \<Rightarrow> ho_Objective h),
                   wks_InvestigatedFiles = sortedKeys files, wks_InvestigatedSymbols = sortedKeys symbols,
                   wks_Decisions = decisions, wks_RejectedHypotheses = rejected, wks_CompletedEdits = edits,
                   wks_Validations = validations, wks_RemainingPlan = remaining,
                   wks_NextAction = (case ho of
                       Some h \<Rightarrow> if ho_NextAction h \<noteq> [] then HandoffAction (ho_NextAction h)
                                 else nextAction uncertain drifted validations remaining
                     | None \<Rightarrow> nextAction uncertain drifted validations remaining),
                   wks_CurrentCandidate = current, wks_LastCompleted = lastc, wks_Drifted = drifted,
                   wks_Uncertain = uncertain, wks_CheckpointS = (case cp of None \<Rightarrow> 0 | Some c \<Rightarrow> cp_Seq c)\<rparr>))"

fun recover_all ::
  "decoders \<Rightarrow> (string \<Rightarrow> fs_error + string) \<Rightarrow> (string \<Rightarrow> ledger_error + string) \<Rightarrow> (string \<Rightarrow> string) \<Rightarrow> ledger_db
   \<Rightarrow> Task list \<Rightarrow> ledger_error + WorkingState list" where
  "recover_all dec hashFile manifest path db [] = Inr []"
| "recover_all dec hashFile manifest path db (t # ts) =
     (case RecoverTask dec hashFile manifest db (task_ID t) (path (task_ID t)) of
        Inl e \<Rightarrow> Inl e
      | Inr w \<Rightarrow>
          (let w' = (if wks_Objective w = [] then w\<lparr>wks_Objective := task_Title t\<rparr> else w) in
           case recover_all dec hashFile manifest path db ts of Inl e \<Rightarrow> Inl e | Inr ws \<Rightarrow> Inr (w' # ws)))"

definition Recover ::
  "decoders \<Rightarrow> (string \<Rightarrow> fs_error + string) \<Rightarrow> (string \<Rightarrow> ledger_error + string) \<Rightarrow> (string \<Rightarrow> string) \<Rightarrow> task_db \<Rightarrow> ledger_db
   \<Rightarrow> ledger_error + WorkingState list" where
  "Recover dec hashFile manifest path tdb db =
     recover_all dec hashFile manifest path db
       (stable_sort (\<lambda>a b. task_CreatedAt a < task_CreatedAt b) (filter (\<lambda>t. \<not> Terminal (task_State t)) (db_tasks tdb)))"

section \<open>Journal invariant\<close>

definition task_seqs :: "ledger_db \<Rightarrow> string \<Rightarrow> int list" where
  "task_seqs db task = map op_Seq (filter (\<lambda>o'. op_TaskID o' = task) (lg_ops db))"

definition journal_inv :: "ledger_db \<Rightarrow> bool" where
  "journal_inv db \<longleftrightarrow>
     distinct (map op_ID (lg_ops db)) \<and>
     (\<forall>task. task_seqs db task = map (\<lambda>i. int (Suc i)) [0..<length (task_seqs db task)])"

lemma max_of_upto: "max_of (map (\<lambda>i. int (Suc i)) [0..<n]) = int n"
  by (induction n) (auto simp: max_of_snoc max_of_def)

lemma last_seq_inv: "journal_inv db \<Longrightarrow> last_seq db task = int (length (task_seqs db task))"
  by (metis journal_inv_def last_seq_def max_of_upto task_seqs_def)

lemma next_id_fresh: "next_id db \<notin> op_ID ` set (lg_ops db)"
  using max_of_upper [of _ "map op_ID (lg_ops db)"] by (force simp: next_id_def)

lemma journal_inv_append:
  assumes "journal_inv db" and "op_ID row = next_id db" and "op_Seq row = last_seq db (op_TaskID row) + 1"
  shows "journal_inv (db\<lparr>lg_ops := lg_ops db @ [row]\<rparr>)"
proof -
  let ?db = "db\<lparr>lg_ops := lg_ops db @ [row]\<rparr>"
  have "task_seqs ?db task = map (\<lambda>i. int (Suc i)) [0..<length (task_seqs ?db task)]" for task
  proof (cases "task = op_TaskID row")
    case True
    have "task_seqs ?db task = task_seqs db task @ [int (Suc (length (task_seqs db task)))]"
      using assms(3) last_seq_inv [OF assms(1)] True by (simp add: task_seqs_def)
    moreover have "task_seqs db task = map (\<lambda>i. int (Suc i)) [0..<length (task_seqs db task)]"
      using assms(1) unfolding journal_inv_def by blast
    ultimately show ?thesis by (metis (no_types, lifting) length_append_singleton list.simps(8,9) map_append upt_Suc_append zero_le)
  next
    case False
    then have "task_seqs ?db task = task_seqs db task" by (simp add: task_seqs_def)
    then show ?thesis using assms(1) unfolding journal_inv_def by metis
  qed
  moreover have "distinct (map op_ID (lg_ops ?db))"
    using assms(1,2) next_id_fresh [of db] by (auto simp: journal_inv_def)
  ultimately show ?thesis by (simp add: journal_inv_def)
qed

lemma update_op_keeps:
  assumes "\<And>o'. op_ID (f o') = op_ID o' \<and> op_TaskID (f o') = op_TaskID o' \<and> op_Seq (f o') = op_Seq o'"
  shows "map op_ID (lg_ops (update_op i f db)) = map op_ID (lg_ops db)"
    and "task_seqs (update_op i f db) task = task_seqs db task"
proof -
  have "map op_ID (map (\<lambda>o'. if op_ID o' = i then f o' else o') os) = map op_ID os" for os
    using assms by (induction os) auto
  then show "map op_ID (lg_ops (update_op i f db)) = map op_ID (lg_ops db)" by (simp add: update_op_def)
  have "map op_Seq (filter (\<lambda>o'. op_TaskID o' = task) (map (\<lambda>o'. if op_ID o' = i then f o' else o') os)) =
      map op_Seq (filter (\<lambda>o'. op_TaskID o' = task) os)" for os
    using assms by (induction os) auto
  then show "task_seqs (update_op i f db) task = task_seqs db task" by (simp add: update_op_def task_seqs_def)
qed

lemma journal_inv_update:
  assumes "\<And>o'. op_ID (f o') = op_ID o' \<and> op_TaskID (f o') = op_TaskID o' \<and> op_Seq (f o') = op_Seq o'" and "journal_inv db"
  shows "journal_inv (update_op i f db)"
  using assms(2) unfolding journal_inv_def update_op_keeps(1) [OF assms(1)] update_op_keeps(2) [OF assms(1)] .

lemma journal_inv_Begin: "journal_inv db \<Longrightarrow> journal_inv (snd (Begin ok now task kind intent cb db))"
  by (auto simp: Begin_def Let_def intro!: journal_inv_append split: option.splits)

lemma journal_inv_finish: "journal_inv db \<Longrightarrow> journal_inv (snd (snd (h_finish ok now out ca ev h db)))"
  by (auto simp: h_finish_def intro!: journal_inv_update split: option.splits)

lemma journal_inv_Interrupted: "journal_inv db \<Longrightarrow> journal_inv (snd (snd (Interrupted ok now c h db)))"
  by (auto simp: Interrupted_def intro!: journal_inv_update)

lemma journal_inv_ops: "lg_ops db' = lg_ops db \<Longrightarrow> journal_inv db \<Longrightarrow> journal_inv db'"
  by (simp add: journal_inv_def task_seqs_def)

section \<open>The journal as an interface\<close>

datatype jevent = Begun int | Completed int | Stopped int

text \<open>
  What a client of the journal relies on.  An operation that was begun is pending until an outcome is
  written for it; recording why it stopped does not settle it.
\<close>

locale journal =
  fixes valid :: "'s \<Rightarrow> bool"
    and known :: "'s \<Rightarrow> int set"
    and pending :: "'s \<Rightarrow> int set"
    and jstep :: "jevent \<Rightarrow> 's \<Rightarrow> 's \<Rightarrow> bool"
  assumes step_valid: "valid s \<Longrightarrow> jstep e s s' \<Longrightarrow> valid s'"
    and pending_known: "valid s \<Longrightarrow> pending s \<subseteq> known s"
    and begun: "valid s \<Longrightarrow> jstep (Begun i) s s' \<Longrightarrow> i \<notin> known s \<and> known s' = insert i (known s) \<and> pending s' = insert i (pending s)"
    and completed: "valid s \<Longrightarrow> jstep (Completed i) s s' \<Longrightarrow> known s' = known s \<and> pending s' = pending s - {i}"
    and stopped: "valid s \<Longrightarrow> jstep (Stopped i) s s' \<Longrightarrow> known s' = known s \<and> pending s' = pending s"
begin

fun jrun :: "jevent list \<Rightarrow> 's \<Rightarrow> 's \<Rightarrow> bool" where
  "jrun [] s s' = (s' = s)"
| "jrun (e # es) s s' = (\<exists>t. jstep e s t \<and> jrun es t s')"

lemma run_valid: "valid s \<Longrightarrow> jrun es s s' \<Longrightarrow> valid s'"
  by (induction es arbitrary: s) (auto dest: step_valid)

lemma step_pending:
  assumes "valid s" and "jstep e s s'" and "i \<in> known s" and "e \<noteq> Completed i"
  shows "i \<in> known s' \<and> (i \<in> pending s' \<longleftrightarrow> i \<in> pending s)"
  using assms begun [OF assms(1)] completed [OF assms(1)] stopped [OF assms(1)] by (cases e) auto

lemma run_pending:
  "valid s \<Longrightarrow> jrun es s s' \<Longrightarrow> i \<in> known s \<Longrightarrow> Completed i \<notin> set es \<Longrightarrow> (i \<in> pending s' \<longleftrightarrow> i \<in> pending s)"
proof (induction es arbitrary: s)
  case (Cons e es)
  then obtain t where t: "jstep e s t" "jrun es t s'" by auto
  with Cons step_pending [of s e t i] step_valid [of s e t] show ?case by auto
qed simp

lemma jrun_append: "jrun (xs @ ys) u v \<longleftrightarrow> (\<exists>t. jrun xs u t \<and> jrun ys t v)"
  by (induction xs arbitrary: u) (simp_all, blast)

lemma step_known: "valid a \<Longrightarrow> jstep e a c \<Longrightarrow> known a \<subseteq> known c"
  using begun [of a] completed [of a] stopped [of a] by (cases e) auto

lemma run_known: "valid a \<Longrightarrow> jrun es a b \<Longrightarrow> known a \<subseteq> known b"
proof (induction es arbitrary: a)
  case (Cons e es)
  then obtain c where c: "jstep e a c" "jrun es c b" by auto
  from Cons.IH [OF step_valid [OF Cons.prems(1) c(1)] c(2)] step_known [OF Cons.prems(1) c(1)] show ?case by auto
qed simp

text \<open>Exactly the operations begun and not completed are pending at the end of a run.\<close>

lemma pending_after_run:
  assumes "valid s" and "jrun (as @ Begun i # bs) s s'"
  shows "i \<in> pending s' \<longleftrightarrow> Completed i \<notin> set bs"
proof -
  from assms(2) obtain t1 t2 where t: "jrun as s t1" "jstep (Begun i) t1 t2" "jrun bs t2 s'"
    unfolding jrun_append jrun.simps by blast
  have v1: "valid t1" using assms(1) t(1) by (rule run_valid)
  have v2: "valid t2" using v1 t(2) by (rule step_valid)
  have i2: "i \<in> known t2" "i \<in> pending t2" using begun [OF v1 t(2)] by auto
  show ?thesis
  proof (cases "Completed i \<in> set bs")
    case False
    with run_pending [OF v2 t(3) i2(1)] i2(2) show ?thesis by simp
  next
    case True
    then obtain cs ds where bs: "bs = cs @ Completed i # ds" "Completed i \<notin> set ds" by (meson split_list_last)
    with t(3) obtain u1 u2 where u: "jrun cs t2 u1" "jstep (Completed i) u1 u2" "jrun ds u2 s'"
      unfolding bs(1) jrun_append jrun.simps by blast
    have vu1: "valid u1" using v2 u(1) by (rule run_valid)
    have "i \<in> known u1" using run_known [OF v2 u(1)] i2(1) by auto
    then have "i \<in> known u2" "i \<notin> pending u2" using completed [OF vu1 u(2)] by auto
    with run_pending [OF step_valid [OF vu1 u(2)] u(3)] bs(2) True show ?thesis by simp
  qed
qed

end

text \<open>The ledger's own operations, when they succeed, as events of the interface.\<close>

definition ledger_known :: "ledger_db \<Rightarrow> int set" where
  "ledger_known db = op_ID ` set (lg_ops db)"

definition ledger_pending :: "ledger_db \<Rightarrow> int set" where
  "ledger_pending db = op_ID ` set (filter Uncertain (lg_ops db))"

definition ledger_step :: "jevent \<Rightarrow> ledger_db \<Rightarrow> ledger_db \<Rightarrow> bool" where
  "ledger_step e db db' =
     (case e of
        Begun i \<Rightarrow> \<exists>now task kind body cb h. Begin True now task kind (Some body) cb db = (Inr h, db') \<and> h_id h = i
      | Completed i \<Rightarrow> \<exists>now body ca ev h h'. body \<noteq> [] \<and> h_id h = i \<and> Complete True now (Some body) ca ev h db = (None, h', db')
      | Stopped i \<Rightarrow> \<exists>now c h h'. h_id h = i \<and> Interrupted True now c h db = (None, h', db'))"

lemma update_op_ids:
  assumes "\<And>o'. op_ID (f o') = op_ID o'"
  shows "op_ID ` set (filter P (lg_ops (update_op i f db))) =
    {op_ID o' | o'. o' \<in> set (lg_ops db) \<and> (if op_ID o' = i then P (f o') else P o')}"
proof -
  have "op_ID ` set (filter P (map (\<lambda>o'. if op_ID o' = i then f o' else o') os)) =
    {op_ID o' | o'. o' \<in> set os \<and> (if op_ID o' = i then P (f o') else P o')}" for os
    using assms by (induction os) (auto split: if_splits)
  then show ?thesis by (simp add: update_op_def)
qed

lemma pending_append:
  "ledger_pending (db\<lparr>lg_ops := lg_ops db @ [r]\<rparr>) = (if Uncertain r then insert (op_ID r) (ledger_pending db) else ledger_pending db)"
  unfolding ledger_pending_def by simp

lemma known_append: "ledger_known (db\<lparr>lg_ops := lg_ops db @ [r]\<rparr>) = insert (op_ID r) (ledger_known db)"
  unfolding ledger_known_def by simp

lemma known_update: "(\<And>o'. op_ID (f o') = op_ID o') \<Longrightarrow> ledger_known (update_op i f db) = ledger_known db"
  using update_op_ids [of f "\<lambda>_. True" i db] by (auto simp: ledger_known_def)

interpretation lj: journal journal_inv ledger_known ledger_pending ledger_step
proof
  fix s e s' assume v: "journal_inv s" and st: "ledger_step e s s'"
  show "journal_inv s'"
  proof (cases e)
    case (Begun i)
    with st obtain now task kind body cb h where "Begin True now task kind (Some body) cb s = (Inr h, s')"
      by (auto simp: ledger_step_def)
    with journal_inv_Begin [OF v] show ?thesis by (metis snd_conv)
  next
    case (Completed i)
    with st obtain now body ca ev h h' where "h_finish True now (Some body) ca ev h s = (None, h', s')"
      by (auto simp: ledger_step_def Complete_def)
    with journal_inv_finish [OF v] show ?thesis by (metis snd_conv)
  next
    case (Stopped i)
    with st obtain now c h h' where "Interrupted True now c h s = (None, h', s')" by (auto simp: ledger_step_def)
    with journal_inv_Interrupted [OF v] show ?thesis by (metis snd_conv)
  qed
next
  fix s assume "journal_inv s"
  show "ledger_pending s \<subseteq> ledger_known s" by (auto simp: ledger_pending_def ledger_known_def)
next
  fix s i s' assume "journal_inv s" "ledger_step (Begun i) s s'"
  then show "i \<notin> ledger_known s \<and> ledger_known s' = insert i (ledger_known s) \<and> ledger_pending s' = insert i (ledger_pending s)"
    using next_id_fresh [of s]
    by (auto simp: ledger_step_def Begin_def Let_def known_append pending_append Uncertain_def ledger_known_def)
next
  fix s i s' assume v: "journal_inv s" "ledger_step (Completed i) s s'"
  then obtain now body ca ev where b: "body \<noteq> []" and s': "s' = update_op i (\<lambda>o'. o'\<lparr>op_Outcome := body, op_CandidateAfter := ca,
      op_EvidenceID := ev, op_FinishedAt := now\<rparr>) s"
    by (auto simp: ledger_step_def Complete_def h_finish_def split: if_splits)
  have "ledger_pending s' = ledger_pending s - {i}"
    unfolding ledger_pending_def s' using b by (subst update_op_ids) (auto simp: Uncertain_def)
  moreover have "ledger_known s' = ledger_known s"
    unfolding s' by (rule known_update) simp
  ultimately show "ledger_known s' = ledger_known s \<and> ledger_pending s' = ledger_pending s - {i}" by blast
next
  fix s i s' assume v: "journal_inv s" "ledger_step (Stopped i) s s'"
  then obtain now c where s': "s' = update_op i (\<lambda>o'. o'\<lparr>op_Error := c, op_FinishedAt := now\<rparr>) s"
    by (auto simp: ledger_step_def Interrupted_def split: if_splits)
  have "ledger_pending s' = ledger_pending s"
    unfolding ledger_pending_def s' by (subst update_op_ids) (auto simp: Uncertain_def)
  moreover have "ledger_known s' = ledger_known s"
    unfolding s' by (rule known_update) simp
  ultimately show "ledger_known s' = ledger_known s \<and> ledger_pending s' = ledger_pending s" by blast
qed

text \<open>
  C8. Uncertainty is never lost and never invented.  Along any run of the journal's operations, an
  operation that was begun is uncertain at the end exactly when no outcome was written for it after
  it began: neither a recorded interruption nor anything done to other operations settles it.
\<close>

theorem uncertain_until_completed:
  assumes "journal_inv db" and "lj.jrun (as @ Begun i # bs) db db'"
  shows "(\<exists>o' \<in> set (lg_ops db'). op_ID o' = i \<and> Uncertain o') \<longleftrightarrow> Completed i \<notin> set bs"
  using lj.pending_after_run [OF assms] by (auto simp: ledger_pending_def image_iff)

definition empty_ledger :: ledger_db where
  "empty_ledger = \<lparr>lg_ops = [], lg_checkpoints = [], lg_evidence = [], lg_leases = []\<rparr>"

lemma empty_ledger_inv: "journal_inv empty_ledger"
  by (simp add: journal_inv_def empty_ledger_def task_seqs_def)

theorem uncertain_until_completed_witness:
  "\<exists>db'. lj.jrun ([] @ Begun 1 # [Stopped 1]) empty_ledger db' \<and> (\<exists>o' \<in> set (lg_ops db'). op_ID o' = 1 \<and> Uncertain o')"
proof -
  obtain h db1 where b: "Begin True 5 ''t'' KindEdit (Some ''x'') ''c'' empty_ledger = (Inr h, db1)" "h_id h = 1" "\<not> h_done h"
    by (auto simp: Begin_def Let_def empty_ledger_def next_id_def max_of_def)
  obtain h' db2 where i: "Interrupted True 6 None h db1 = (None, h', db2)" using b(3) by (auto simp: Interrupted_def)
  have "ledger_step (Begun 1) empty_ledger db1" "ledger_step (Stopped 1) db1 db2"
    unfolding ledger_step_def using b(1,2) i by (simp_all, blast+)
  then have "lj.jrun ([] @ Begun 1 # [Stopped 1]) empty_ledger db2" by auto
  with uncertain_until_completed [OF empty_ledger_inv this] show ?thesis by auto
qed

text \<open>The database operations of the ledger as a transition system.\<close>

inductive ledger_reachable :: "ledger_db \<Rightarrow> bool" where
  lr_empty: "lg_ops db = [] \<Longrightarrow> ledger_reachable db"
| lr_begin: "ledger_reachable db \<Longrightarrow> ledger_reachable (snd (Begin ok now task kind intent cb db))"
| lr_finish: "ledger_reachable db \<Longrightarrow> ledger_reachable (snd (snd (h_finish ok now out ca ev h db)))"
| lr_interrupted: "ledger_reachable db \<Longrightarrow> ledger_reachable (snd (snd (Interrupted ok now c h db)))"
| lr_other: "ledger_reachable db \<Longrightarrow> lg_ops db' = lg_ops db \<Longrightarrow> ledger_reachable db'"

lemma ledger_reachable_inv: "ledger_reachable db \<Longrightarrow> journal_inv db"
proof (induction rule: ledger_reachable.induct)
  case (lr_empty db)
  then show ?case by (simp add: journal_inv_def task_seqs_def)
qed (auto intro: journal_inv_Begin journal_inv_finish journal_inv_Interrupted journal_inv_ops)

lemma sorted_wrt_map_upt: "map f xs = map (\<lambda>i. int (Suc i)) [0..<length xs] \<Longrightarrow> sorted_wrt (\<lambda>a b. f a < f b) xs"
proof -
  assume e: "map f xs = map (\<lambda>i. int (Suc i)) [0..<length xs]"
  then have "f (xs ! i) = int (Suc i)" if "i < length xs" for i
    using that by (metis (no_types, lifting) add_0 length_map map_nth nth_map nth_upt)
  then show ?thesis by (auto simp: sorted_wrt_iff_nth_less)
qed

lemma stable_sort_sorted: "sorted_wrt lt xs \<Longrightarrow> (\<And>a b. lt a b \<Longrightarrow> \<not> lt b a) \<Longrightarrow> stable_sort lt xs = xs"
proof (induction xs)
  case (Cons x xs)
  then have "stable_sort lt xs = xs" by simp
  then show ?case using Cons.prems by (cases xs) auto
qed simp

text \<open>
  The journal has no gaps.  In every reachable ledger a task's operations are numbered
  \<open>1, 2, 3, \<dots>\<close> without a gap or a repetition, row identifiers are unique, and reading a task's
  journal returns its operations in the order they were begun.
\<close>

theorem journal_sequence:
  assumes "ledger_reachable db"
  shows "map op_Seq (Operations db task) = map (\<lambda>i. int (Suc i)) [0..<length (Operations db task)] \<and>
    Operations db task = filter (\<lambda>o'. op_TaskID o' = task) (lg_ops db) \<and> distinct (map op_ID (lg_ops db))"
proof -
  let ?xs = "filter (\<lambda>o'. op_TaskID o' = task) (lg_ops db)"
  have inv: "journal_inv db" using assms by (rule ledger_reachable_inv)
  then have e: "map op_Seq ?xs = map (\<lambda>i. int (Suc i)) [0..<length ?xs]"
    unfolding journal_inv_def task_seqs_def by (metis length_map)
  have "sorted_wrt (\<lambda>a b. op_Seq a < op_Seq b) ?xs" by (rule sorted_wrt_map_upt [OF e])
  then have "Operations db task = ?xs" unfolding Operations_def by (rule stable_sort_sorted) simp
  with e inv show ?thesis by (simp add: journal_inv_def)
qed

theorem journal_sequence_witness:
  "map op_Seq (Operations (snd (Begin True 1 ''t'' KindEdit (Some ''a'') [] (snd (Begin True 0 ''t'' KindSearch (Some ''b'') [] empty_ledger)))) ''t'')
   = [1, 2]"
proof -
  let ?db = "snd (Begin True 1 ''t'' KindEdit (Some ''a'') [] (snd (Begin True 0 ''t'' KindSearch (Some ''b'') [] empty_ledger)))"
  have "ledger_reachable ?db" by (intro lr_begin lr_empty) (simp add: empty_ledger_def)
  from journal_sequence [OF this, of "''t''"]
  have "map op_Seq (Operations ?db ''t'') = map (\<lambda>i. int (Suc i)) [0..<length (Operations ?db ''t'')]" by blast
  moreover have "length (Operations ?db ''t'') = 2" by code_simp
  moreover have "map (\<lambda>i. int (Suc i)) [0..<2] = [1, 2]" by code_simp
  ultimately show ?thesis by simp
qed

section \<open>Leases exclude each other\<close>

datatype lease_op =
    Acquire bool int string string string int
  | Renew bool int string string int
  | Release bool string string

fun lease_holder_of :: "lease_op \<Rightarrow> string" where
  "lease_holder_of (Acquire ok now wt task holder ttl) = holder"
| "lease_holder_of (Renew ok now wt holder ttl) = holder"
| "lease_holder_of (Release ok wt holder) = holder"

fun lease_time_ok :: "int \<Rightarrow> lease_op \<Rightarrow> bool" where
  "lease_time_ok t (Acquire ok now wt task holder ttl) = (now < t)"
| "lease_time_ok t _ = True"

fun lease_apply :: "ledger_db \<Rightarrow> lease_op \<Rightarrow> ledger_db" where
  "lease_apply db (Acquire ok now wt task holder ttl) = snd (AcquireLease ok now wt task holder ttl db)"
| "lease_apply db (Renew ok now wt holder ttl) = snd (RenewLease ok now wt holder ttl db)"
| "lease_apply db (Release ok wt holder) = snd (ReleaseLease ok wt holder db)"

lemma find_map_other:
  "(\<And>r. key (f r) = key r) \<Longrightarrow> (\<And>r. key r = k \<Longrightarrow> f r = r) \<Longrightarrow> find (\<lambda>r. key r = k) (map f xs) = find (\<lambda>r. key r = k) xs"
  by (induction xs) auto

lemma find_map_key: "(\<And>r. key r = k \<Longrightarrow> key (f r) = k) \<Longrightarrow> (\<And>r. key r \<noteq> k \<Longrightarrow> key (f r) \<noteq> k) \<Longrightarrow>
   find (\<lambda>r. key r = k) (map f xs) = map_option f (find (\<lambda>r. key r = k) xs)"
  by (induction xs) auto

lemma find_append: "find P (xs @ ys) = (case find P xs of None \<Rightarrow> find P ys | Some x \<Rightarrow> Some x)"
  by (induction xs) auto

lemma find_filter_keep: "find P xs = Some r \<Longrightarrow> Q r \<Longrightarrow> find P (filter Q xs) = Some r"
  by (induction xs) (auto split: if_splits)

lemma lease_apply_keeps:
  assumes "lease_of db wt = Some r" and "lease_holder_of p \<noteq> ls_Holder r" and "lease_time_ok (ls_ExpiresAt r * 1000000) p"
  shows "lease_of (lease_apply db p) wt = Some r"
proof (cases p)
  case (Acquire ok now wt' task holder ttl)
  show ?thesis
  proof (cases "wt' = wt")
    case True
    then show ?thesis using assms Acquire by (auto simp: AcquireLease_def Let_def lease_live_def)
  next
    case False
    have rw: "ls_WorktreeID r = wt" using assms(1) by (auto simp: lease_of_def find_Some_iff)
    show ?thesis
      using assms(1) False rw Acquire
      by (auto simp: AcquireLease_def Let_def lease_of_def find_append find_map_key split: option.splits)
  qed
next
  case (Renew ok now wt' holder ttl)
  have m: "find (\<lambda>r. ls_WorktreeID r = wt) (map (\<lambda>r. if ls_WorktreeID r = wt' \<and> ls_Holder r = holder
      then r\<lparr>ls_ExpiresAt := e\<rparr> else r) (lg_leases db)) = Some r" for e
    using assms(1,2) Renew by (subst find_map_key) (auto simp: lease_of_def)
  then show ?thesis using assms(1) Renew by (auto simp: RenewLease_def Let_def lease_of_def)
next
  case (Release ok wt' holder)
  then show ?thesis
    using assms by (auto simp: ReleaseLease_def lease_of_def intro!: find_filter_keep)
qed

lemma lease_run_keeps:
  assumes "lease_of db wt = Some r"
    and "list_all (\<lambda>p. lease_holder_of p \<noteq> ls_Holder r \<and> lease_time_ok (ls_ExpiresAt r * 1000000) p) ps"
  shows "lease_of (foldl lease_apply db ps) wt = Some r"
  using assms by (induction ps arbitrary: db) (auto simp: lease_apply_keeps)

lemma AcquireLease_holds:
  "AcquireLease ok now wt task holder ttl db = (Inr row, db1) \<Longrightarrow>
   lease_of db1 wt = Some row \<and> ls_Holder row = holder \<and> ls_WorktreeID row = wt"
proof -
  assume a: "AcquireLease ok now wt task holder ttl db = (Inr row, db1)"
  have r: "ls_Holder row = holder" "ls_WorktreeID row = wt"
    using a by (auto simp: AcquireLease_def Let_def split: option.splits if_splits)
  have "lease_of db1 wt = Some row"
  proof (cases "lease_of db wt")
    case None
    then have "find (\<lambda>r. ls_WorktreeID r = wt) (lg_leases db @ [row]) = Some row"
      using r(2) by (simp add: lease_of_def find_append)
    with a None show ?thesis by (auto simp: AcquireLease_def Let_def lease_of_def split: if_splits)
  next
    case (Some cur)
    have "db1 = db\<lparr>lg_leases := map (\<lambda>r. if ls_WorktreeID r = wt then row else r) (lg_leases db)\<rparr>"
      using a Some by (auto simp: AcquireLease_def Let_def split: if_splits)
    moreover have "find (\<lambda>r. ls_WorktreeID r = wt) (map (\<lambda>r. if ls_WorktreeID r = wt then row else r) (lg_leases db))
        = map_option (\<lambda>r. if ls_WorktreeID r = wt then row else r) (lease_of db wt)"
      unfolding lease_of_def using r(2) by (intro find_map_key) auto
    moreover have "ls_WorktreeID cur = wt" using Some by (auto simp: lease_of_def find_Some_iff)
    ultimately show ?thesis using Some by (simp add: lease_of_def)
  qed
  with r show ?thesis by blast
qed

text \<open>
  C7. Two instances never hold one worktree.  Once a holder has acquired the lease, and until it
  expires, nothing that other holders do (acquiring, renewing or releasing, on any worktree, with
  any transaction failing) takes the lease away, and every attempt of theirs to acquire it is
  refused and leaves the ledger as it was.
\<close>

theorem lease_exclusive:
  assumes "AcquireLease ok now wt task holder ttl db = (Inr row, db1)"
    and "list_all (\<lambda>p. lease_holder_of p \<noteq> holder \<and> lease_time_ok (ls_ExpiresAt row * 1000000) p) ps"
    and "other \<noteq> holder" and "now' < ls_ExpiresAt row * 1000000"
  shows "lease_of (foldl lease_apply db1 ps) wt = Some row \<and>
    AcquireLease ok' now' wt task' other ttl' (foldl lease_apply db1 ps) = (Inl (LeaseHeld holder), foldl lease_apply db1 ps)"
proof -
  note h = AcquireLease_holds [OF assms(1)]
  then have k: "lease_of (foldl lease_apply db1 ps) wt = Some row"
    using assms(2) by (intro lease_run_keeps) auto
  with h assms(3,4) show ?thesis by (auto simp: AcquireLease_def Let_def lease_live_def)
qed

theorem lease_exclusive_witness:
  "\<exists>row db1. AcquireLease True 0 ''w'' ''t'' ''A'' 0 empty_ledger = (Inr row, db1) \<and>
     AcquireLease True 5 ''w'' ''u'' ''B'' 0 (foldl lease_apply db1 [Release True ''w'' ''B'', Acquire True 3 ''w'' ''u'' ''B'' 9])
       = (Inl (LeaseHeld ''A''), foldl lease_apply db1 [Release True ''w'' ''B'', Acquire True 3 ''w'' ''u'' ''B'' 9])"
proof -
  obtain row db1 where a: "AcquireLease True 0 ''w'' ''t'' ''A'' 0 empty_ledger = (Inr row, db1)" "ls_ExpiresAt row = 60000"
    by (auto simp: AcquireLease_def Let_def empty_ledger_def lease_of_def DefaultLeaseTTL_def unixMilli_def)
  have p: "list_all (\<lambda>p. lease_holder_of p \<noteq> ''A'' \<and> lease_time_ok (ls_ExpiresAt row * 1000000) p)
      [Release True ''w'' ''B'', Acquire True 3 ''w'' ''u'' ''B'' 9]" by (simp add: a(2))
  have "''B'' \<noteq> ''A''" "5 < ls_ExpiresAt row * 1000000" by (simp_all add: a(2))
  from lease_exclusive [OF a(1) p this] a(1) show ?thesis by blast
qed

section \<open>Resuming\<close>

lemma inspect_partial_iff:
  "rc_Applied (ledger_inspect decodeEdit hashFile wt o') = AppliedPartial \<longleftrightarrow>
   op_Kind o' = KindEdit \<and> wt \<noteq> [] \<and>
   (\<exists>ei got. decodeEdit (op_Intent o') = Some ei \<and> ei_Path ei \<noteq> [] \<and> hashFile (joinPath wt (ei_Path ei)) = Inr got \<and>
        got \<noteq> ei_AfterHash ei \<and> got \<noteq> ei_BeforeHash ei)"
  by (auto simp: ledger_inspect_def Let_def split: OpKind.splits option.splits sum.splits fs_error.splits)

lemma RecoverTask_fields:
  assumes "RecoverTask dec hashFile manifest db task wt = Inr w"
  shows "(if wt = [] then wks_CurrentCandidate w = [] else manifest wt = Inr (wks_CurrentCandidate w)) \<and>
    wks_LastCompleted w = last_completed (Operations db task) \<and>
    wks_Drifted w = (wks_LastCompleted w \<noteq> [] \<and> wks_CurrentCandidate w \<noteq> [] \<and> wks_LastCompleted w \<noteq> wks_CurrentCandidate w) \<and>
    wks_Uncertain w = map (ledger_inspect (dec_edit dec) hashFile wt) (filter Uncertain (Operations db task)) \<and>
    wks_Validations w = evidenceFor db task (wks_CurrentCandidate w)"
  using assms by (auto simp: RecoverTask_def Let_def split: sum.splits if_splits)

text \<open>
  C16. Resuming is allowed only on a checkout that was looked at.  If recovery says a task is safe to
  resume, then the checkout is the one the last completed operation left behind (when both are
  known), and no uncertain edit is half applied: every uncertain edit whose file can be read finds
  it exactly as it was before the edit or exactly as the edit was to leave it.
\<close>

theorem safe_to_resume_sound:
  assumes "RecoverTask dec hashFile manifest db task wt = Inr w" and "SafeToResume w"
    and "o' \<in> set (Operations db task)" and "Uncertain o'" and "op_Kind o' = KindEdit" and "wt \<noteq> []"
    and "dec_edit dec (op_Intent o') = Some ei" and "ei_Path ei \<noteq> []"
    and "hashFile (joinPath wt (ei_Path ei)) = Inr got"
  shows "(got = ei_AfterHash ei \<or> got = ei_BeforeHash ei) \<and>
    (\<exists>c. manifest wt = Inr c \<and>
       (c = [] \<or> last_completed (Operations db task) = [] \<or> last_completed (Operations db task) = c))"
proof -
  note f = RecoverTask_fields [OF assms(1)]
  have "ledger_inspect (dec_edit dec) hashFile wt o' \<in> set (wks_Uncertain w)" using f assms(3,4) by auto
  then have "rc_Applied (ledger_inspect (dec_edit dec) hashFile wt o') \<noteq> AppliedPartial"
    using assms(2) unfolding SafeToResume_def list_ex_iff by (auto split: if_splits)
  then have "got = ei_AfterHash ei \<or> got = ei_BeforeHash ei"
    unfolding inspect_partial_iff using assms(5-9) by blast
  moreover have "\<not> wks_Drifted w" using assms(2) by (auto simp: SafeToResume_def split: if_splits)
  ultimately show ?thesis using f assms(6) by auto
qed

definition demo_decoders :: decoders where
  "demo_decoders = \<lparr>dec_edit = (\<lambda>_. Some \<lparr>ei_Path = ''a.go'', ei_AfterHash = ''h1'', ei_BeforeHash = ''h0''\<rparr>),
     dec_path = (\<lambda>_. None), dec_symbols = (\<lambda>_. None), dec_accepted = (\<lambda>_. False), dec_handoff = (\<lambda>_. None)\<rparr>"

definition demo_ledger :: ledger_db where
  "demo_ledger = snd (Begin True 1 ''t'' KindEdit (Some ''x'') ''c0'' empty_ledger)"

theorem safe_to_resume_sound_witness:
  "\<exists>w. RecoverTask demo_decoders (\<lambda>_. Inr ''h1'') (\<lambda>_. Inr ''c1'') demo_ledger ''t'' ''/w'' = Inr w \<and> SafeToResume w"
proof -
  let ?r = "RecoverTask demo_decoders (\<lambda>_. Inr ''h1'') (\<lambda>_. Inr ''c1'') demo_ledger ''t'' ''/w''"
  have "case ?r of Inl _ \<Rightarrow> False | Inr w \<Rightarrow> SafeToResume w" by code_simp
  then obtain w where w: "?r = Inr w" "SafeToResume w" by (auto split: sum.splits)
  have "hd (Operations demo_ledger ''t'') \<in> set (Operations demo_ledger ''t'')" by code_simp
  moreover have "Uncertain (hd (Operations demo_ledger ''t''))" "op_Kind (hd (Operations demo_ledger ''t'')) = KindEdit" by code_simp+
  ultimately show ?thesis
    using safe_to_resume_sound [OF w, of "hd (Operations demo_ledger ''t'')"
        "\<lparr>ei_Path = ''a.go'', ei_AfterHash = ''h1'', ei_BeforeHash = ''h0''\<rparr>" "''h1''"] w
    by (auto simp: demo_decoders_def)
qed

text \<open>
  A re-run's evidence can point at the wrong output.  Recording a second result under the same
  evidence identifier, as every later attempt of a task does, replaces the status and the candidate
  but keeps the artifact of the first result.
\<close>

theorem evidence_keeps_first_artifact:
  "lg_evidence (snd (RecordEvidence True (e\<lparr>ev_Status := st, ev_Candidate := c, ev_ArtifactHash := newer\<rparr>)
     (snd (RecordEvidence True e (db\<lparr>lg_evidence := []\<rparr>))))) = [e\<lparr>ev_Status := st, ev_Candidate := c\<rparr>]"
  by (simp add: RecordEvidence_def)

section \<open>The candidate identifies the content\<close>

text \<open>The files a manifest covers, with their contents.\<close>

fun tracked :: "string \<Rightarrow> tnode \<Rightarrow> (string \<times> string) list" and tracked_list :: "string \<Rightarrow> tnode list \<Rightarrow> (string \<times> string) list" where
  "tracked dir (RegFile n body) = (case body of None \<Rightarrow> [] | Some b \<Rightarrow> [(child_dir dir n, b)])"
| "tracked dir (NonRegular n) = []"
| "tracked dir (SubDir n ns) = (if manifest_skips n then [] else tracked_list (child_dir dir n) ns)"
| "tracked_list dir [] = []"
| "tracked_list dir (n # ns) = tracked dir n @ tracked_list dir ns"

lemma walk_tracked:
  "walk_entry sha dir n = Some es \<Longrightarrow> es = map (apsnd sha) (tracked dir n)"
  "walk_entries sha dir ns = Some es \<Longrightarrow> es = map (apsnd sha) (tracked_list dir ns)"
  by (induction sha dir n and sha dir ns arbitrary: es and es rule: walk_entry_walk_entries.induct)
     (auto split: option.splits if_splits)

definition no_nul :: "string \<times> string \<Rightarrow> bool" where
  "no_nul e = (nul \<notin> set (fst e) \<and> nul \<notin> set (snd e))"

lemma split_at_sep: "c \<notin> set a \<Longrightarrow> c \<notin> set b \<Longrightarrow> a @ c # x = b @ c # y \<Longrightarrow> a = b \<and> x = y"
  by (induction a arbitrary: b; case_tac b) auto

lemma encode_entries_inj:
  "list_all no_nul xs \<Longrightarrow> list_all no_nul ys \<Longrightarrow> concat (map encode_entry xs) = concat (map encode_entry ys) \<Longrightarrow> xs = ys"
proof (induction xs arbitrary: ys)
  case Nil
  then show ?case by (cases ys) (auto simp: encode_entry_def)
next
  case (Cons x xs)
  then obtain y ys' where ys: "ys = y # ys'" by (cases ys) (auto simp: encode_entry_def)
  have n: "nul \<notin> set (fst x)" "nul \<notin> set (snd x)" "nul \<notin> set (fst y)" "nul \<notin> set (snd y)"
    using Cons.prems(1,2) ys by (auto simp: no_nul_def)
  have "fst x @ nul # (snd x @ nul # concat (map encode_entry xs)) = fst y @ nul # (snd y @ nul # concat (map encode_entry ys'))"
    using Cons.prems(3) ys by (simp add: encode_entry_def [of x] encode_entry_def [of y])
  from split_at_sep [OF n(1,3) this]
  have fst_eq: "fst x = fst y" and rest_eq: "snd x @ nul # concat (map encode_entry xs) = snd y @ nul # concat (map encode_entry ys')"
    by simp_all
  from split_at_sep [OF n(2,4) rest_eq] have snd_eq: "snd x = snd y" and "concat (map encode_entry xs) = concat (map encode_entry ys')"
    by simp_all
  then have "xs = ys'" using Cons.prems(1,2) ys by (intro Cons.IH) simp_all
  then show ?case using ys fst_eq snd_eq by (simp add: prod_eq_iff)
qed

text \<open>Every byte string that is hashed to make the manifest of a checkout.\<close>

definition hashed :: "(string \<Rightarrow> string) \<Rightarrow> tnode list \<Rightarrow> string set" where
  "hashed sha ns = insert (manifest_bytes (map (apsnd sha) (tracked_list ''.'' ns))) (snd ` set (tracked_list ''.'' ns))"

lemma image_mset_inj_on: "inj_on f (set_mset A \<union> set_mset B) \<Longrightarrow> image_mset f A = image_mset f B \<Longrightarrow> A = B"
proof -
  assume f: "inj_on f (set_mset A \<union> set_mset B)" and eq: "image_mset f A = image_mset f B"
  let ?g = "inv_into (set_mset A \<union> set_mset B) f"
  have "image_mset ?g (image_mset f M) = M" if "set_mset M \<subseteq> set_mset A \<union> set_mset B" for M
  proof -
    have "image_mset ?g (image_mset f M) = image_mset (\<lambda>x. x) M"
      unfolding multiset.map_comp by (rule image_mset_cong) (use f that in \<open>simp add: subset_iff inv_into_f_f\<close>)
    then show ?thesis by simp
  qed
  then have "image_mset ?g (image_mset f A) = A" "image_mset ?g (image_mset f B) = B" by blast+
  then show "A = B" unfolding eq by (rule trans [OF sym])
qed

text \<open>
  C28. A candidate names one content.  If two checkouts have the same manifest, then they hold the
  same tracked files with the same contents, unless two different ones of the byte strings hashed
  for the two manifests have the same SHA-256.  (Paths hold no NUL byte, and neither does a
  hexadecimal digest.)
\<close>

theorem manifest_identifies_content:
  assumes "ContentManifest sha (Some ns) = Inr c" and "ContentManifest sha (Some ms) = Inr c"
    and "list_all (\<lambda>e. nul \<notin> set (fst e)) (tracked_list ''.'' ns @ tracked_list ''.'' ms)"
    and "\<forall>b. nul \<notin> set (sha b)" and inj: "inj_on sha (hashed sha ns \<union> hashed sha ms)"
  shows "mset (tracked_list ''.'' ns) = mset (tracked_list ''.'' ms)"
proof -
  let ?A = "map (apsnd sha) (tracked_list ''.'' ns)" and ?B = "map (apsnd sha) (tracked_list ''.'' ms)"
  let ?lt = "\<lambda>(a::string \<times> string) b. fst a < fst b"
  have "sha (manifest_bytes ?A) = sha (manifest_bytes ?B)"
    using assms(1,2) by (auto simp: ContentManifest_def split: option.splits dest!: walk_tracked(2))
  then have "manifest_bytes ?A = manifest_bytes ?B" by (rule inj_onD [OF inj]) (simp_all add: hashed_def)
  moreover have "list_all no_nul (stable_sort ?lt ?A)" "list_all no_nul (stable_sort ?lt ?B)"
    using assms(3,4) by (auto simp: list_all_iff no_nul_def)
  ultimately have "stable_sort ?lt ?A = stable_sort ?lt ?B"
    unfolding manifest_bytes_def using encode_entries_inj by blast
  then have "image_mset (apsnd sha) (mset (tracked_list ''.'' ns)) = image_mset (apsnd sha) (mset (tracked_list ''.'' ms))"
    using mset_stable_sort [of ?lt ?A] mset_stable_sort [of ?lt ?B] by simp
  moreover have "inj_on (apsnd sha) (set_mset (mset (tracked_list ''.'' ns)) \<union> set_mset (mset (tracked_list ''.'' ms)))"
    unfolding set_mset_mset
  proof (rule inj_onI)
    fix x y :: "string \<times> string"
    assume xy: "x \<in> set (tracked_list ''.'' ns) \<union> set (tracked_list ''.'' ms)"
      "y \<in> set (tracked_list ''.'' ns) \<union> set (tracked_list ''.'' ms)" and eq: "apsnd sha x = apsnd sha y"
    have "snd x \<in> hashed sha ns \<union> hashed sha ms" "snd y \<in> hashed sha ns \<union> hashed sha ms"
      using xy by (auto simp: hashed_def)
    moreover have "fst x = fst y" "sha (snd x) = sha (snd y)" using eq by (auto simp: prod_eq_iff)
    ultimately show "x = y" using inj_onD [OF inj] by (simp add: prod_eq_iff)
  qed
  ultimately show ?thesis by (rule image_mset_inj_on [rotated])
qed

definition demo_sha :: "string \<Rightarrow> string" where
  "demo_sha s = map (\<lambda>c. if c = nul then CHR ''0'' else c) s"

definition demo_trees :: "tnode list \<times> tnode list" where
  "demo_trees = ([RegFile ''b'' (Some ''1''), RegFile ''a'' (Some ''2'')], [RegFile ''a'' (Some ''2''), RegFile ''b'' (Some ''1'')])"

theorem manifest_identifies_content_witness:
  "mset (tracked_list ''.'' (fst demo_trees)) = mset (tracked_list ''.'' (snd demo_trees))"
proof (rule manifest_identifies_content [where sha = demo_sha and c = "demo_sha (manifest_bytes (tracked_list ''.'' (fst demo_trees)))"])
  show "ContentManifest demo_sha (Some (fst demo_trees)) = Inr (demo_sha (manifest_bytes (tracked_list ''.'' (fst demo_trees))))"
    "ContentManifest demo_sha (Some (snd demo_trees)) = Inr (demo_sha (manifest_bytes (tracked_list ''.'' (fst demo_trees))))"
    "list_all (\<lambda>e. nul \<notin> set (fst e)) (tracked_list ''.'' (fst demo_trees) @ tracked_list ''.'' (snd demo_trees))" by code_simp+
  show "\<forall>b. nul \<notin> set (demo_sha b)" by (auto simp: demo_sha_def)
  have "hashed demo_sha (fst demo_trees) \<union> hashed demo_sha (snd demo_trees)
     = set [manifest_bytes (tracked_list ''.'' (fst demo_trees)), ''1'', ''2'']" by code_simp
  moreover have "distinct (map demo_sha [manifest_bytes (tracked_list ''.'' (fst demo_trees)), ''1'', ''2''])" by code_simp
  ultimately show "inj_on demo_sha (hashed demo_sha (fst demo_trees) \<union> hashed demo_sha (snd demo_trees))"
    by (simp only: distinct_map)
qed

text \<open>
  What the candidate does not see: replacing everything under a directory named \<open>vendor\<close> or
  \<open>node_modules\<close> leaves the manifest as it was, and so does a symbolic link or other special file.
\<close>

theorem manifest_ignores_vendor:
  "ContentManifest sha (Some (before @ SubDir ''vendor'' xs # after)) = ContentManifest sha (Some (before @ SubDir ''vendor'' ys # after)) \<and>
   ContentManifest sha (Some (before @ SubDir ''node_modules'' xs # after)) = ContentManifest sha (Some (before @ after)) \<and>
   ContentManifest sha (Some (before @ NonRegular n # after)) = ContentManifest sha (Some (before @ after))"
proof -
  have "walk_entries sha dir (before @ n # after) = walk_entries sha dir (before @ after)"
    if "walk_entry sha dir n = Some []" for dir n
    using that by (induction before) (auto split: option.splits)
  then show ?thesis by (simp add: ContentManifest_def manifest_skips_def)
qed

end
