(* ===== verification/Graph.thy ===== *)
theory Graph
  imports Ledger Complex_Main "HOL-Library.AList"
begin

text \<open>
  The code graph and impact analysis: \<^verbatim>\<open>src/internal/graph/types.go\<close>, \<^verbatim>\<open>impact.go\<close>, \<^verbatim>\<open>public.go\<close>,
  \<^verbatim>\<open>sqlite.go\<close> and \<^verbatim>\<open>traverse.go\<close>.  The index database is a record of tables; the order in which SQL
  returns the rows of a query that has no \<^verbatim>\<open>ORDER BY\<close> is an argument.  A node kind is a Go string that
  the code only compares, so it is one here.
\<close>

section \<open>Types\<close>

datatype Evidence = Resolved | Declared | Inferred | Observed | Unknown | EvidenceOther string

definition AllEvidence :: "Evidence list" where
  "AllEvidence = [Resolved, Declared, Inferred, Observed, Unknown]"

definition evidence_Valid :: "Evidence \<Rightarrow> bool" where
  "evidence_Valid e = list_ex (\<lambda>c. c = e) AllEvidence"

definition Certain :: "Evidence \<Rightarrow> bool" where
  "Certain e = (e = Resolved \<or> e = Declared)"

definition evidence_name :: "Evidence \<Rightarrow> string" where
  "evidence_name e = (case e of Resolved \<Rightarrow> ''resolved'' | Declared \<Rightarrow> ''declared'' | Inferred \<Rightarrow> ''inferred''
     | Observed \<Rightarrow> ''observed'' | Unknown \<Rightarrow> ''unknown'' | EvidenceOther s \<Rightarrow> s)"

datatype EdgeKind =
    EdgeContains | EdgeImports | EdgeDependsOn | EdgeCalls | EdgeImplements | EdgeUsesType | EdgeReferences
  | EdgeRoutesTo | EdgeHandles | EdgeReadsConfig | EdgeWritesSchema | EdgeReadsSchema | EdgeTests | EdgeBuilds
  | EdgeDeploys | EdgeProvisions | EdgeTouches | EdgeExtends | EdgeEmbeds | EdgeReturns | EdgeAccepts
  | EdgeOther string

record Node =
  nd_ID :: int
  nd_WorkspaceID :: string
  nd_RepositoryID :: string
  nd_WorktreeID :: string
  nd_Kind :: string
  nd_Name :: string
  nd_FQN :: string
  nd_FileID :: int
  nd_Path :: string
  nd_StartLine :: int
  nd_EndLine :: int
  nd_Signature :: string
  nd_Visibility :: string
  nd_ContentHash :: string
  nd_Attrs :: string

record Edge =
  ed_ID :: int
  ed_WorkspaceID :: string
  ed_Src :: int
  ed_Dst :: int
  ed_Kind :: EdgeKind
  ed_Evidence :: Evidence
  ed_Source :: string
  ed_Confidence :: rat
  ed_Attrs :: string

datatype graph_error =
    UnsetEndpoint EdgeKind | InvalidEvidence EdgeKind Evidence | NoSource EdgeKind int int
  | NodeIncomplete nat | NodeRejected string | EdgeRejected EdgeKind int int | GraphDbFailed
  | NodeNotFound int | FQNNotFound string string | WrongWorkspace string | DepthTooLarge int
  | BadFilter Evidence | UnknownChangeKind string

definition edge_Validate :: "Edge \<Rightarrow> graph_error option" where
  "edge_Validate e =
     (if ed_Src e = 0 \<or> ed_Dst e = 0 then Some (UnsetEndpoint (ed_Kind e))
      else if \<not> evidence_Valid (ed_Evidence e) then Some (InvalidEvidence (ed_Kind e) (ed_Evidence e))
      else if ed_Source e = [] then Some (NoSource (ed_Kind e) (ed_Src e) (ed_Dst e))
      else None)"

datatype Direction = Forward | Reverse

record Query =
  q_Start :: "int list"
  q_Dir :: Direction
  q_Kinds :: "EdgeKind list"
  q_MaxDepth :: int
  q_MaxNodes :: int
  q_MinEvidence :: "Evidence list"

definition MaxTraversalDepth :: int where
  "MaxTraversalDepth = 6"

definition DefaultMaxNodes :: int where
  "DefaultMaxNodes = 5000"

record Reached =
  re_Node :: Node
  re_Depth :: int
  re_Via :: EdgeKind
  re_Evidence :: Evidence

section \<open>Impact\<close>

datatype ChangeKind =
    ChangeSignature | ChangeBehaviour | ChangeRemove | ChangeRename | ChangeAddField | ChangeSchema
  | ChangeConfig | ChangeRoute | ChangeOther string

datatype Compat = Breaking | Compiles | Compatible | Undetermined

record Consumer =
  co_Node :: Node
  co_Depth :: int
  co_Via :: EdgeKind
  co_Evidence :: Evidence
  co_Verdict :: Compat
  co_Migration :: string

record Impact =
  im_Changed :: "Node list"
  im_Kind :: ChangeKind
  im_Consumers :: "Consumer list"
  im_Counts :: "Compat \<Rightarrow> int"
  im_Truncated :: bool
  im_Caveat :: string

definition ImpactCaveat :: string where
  "ImpactCaveat = ''A missing edge means 'not discovered', not 'does not exist'. '' @
     ''Consumers reached by inferred or unknown evidence are listed and treated as present.''"

definition verdictFor :: "ChangeKind \<Rightarrow> EdgeKind \<Rightarrow> Evidence \<Rightarrow> Compat \<times> string" where
  "verdictFor change via ev =
     (if \<not> Certain ev then (Undetermined, ''verify manually: relationship evidence is '' @ evidence_name ev)
      else case change of
        ChangeRemove \<Rightarrow> (Breaking, ''remove or redirect this reference before deleting the definition'')
      | ChangeRename \<Rightarrow>
          (if via \<in> {EdgeCalls, EdgeUsesType, EdgeReferences, EdgeImplements, EdgeImports, EdgeExtends, EdgeEmbeds}
           then (Breaking, ''update the reference to the new name'')
           else if via = EdgeReadsConfig
           then (Breaking, ''update the configuration key and every deployment that sets it'')
           else (Compiles, ''no source change expected; re-run this consumer's tests''))
      | ChangeSignature \<Rightarrow>
          (if via \<in> {EdgeCalls, EdgeReturns, EdgeAccepts} then (Breaking, ''update the call site to the new signature'')
           else if via = EdgeImplements then (Breaking, ''update the implementation to satisfy the new interface method set'')
           else if via = EdgeTests then (Breaking, ''update the test to the new signature'')
           else (Compiles, ''re-run this consumer's tests''))
      | ChangeAddField \<Rightarrow>
          (if via = EdgeImplements then (Breaking, ''implement the new interface member'')
           else if via = EdgeUsesType
           then (Compiles, ''check for exhaustive switches and struct literals without field names'')
           else (Compatible, []))
      | ChangeBehaviour \<Rightarrow>
          (if via = EdgeTests then (Breaking, ''the test encodes the old behaviour; update or confirm it'')
           else (Compiles, ''re-run this consumer's tests: behaviour changed, the signature did not''))
      | ChangeSchema \<Rightarrow>
          (if via \<in> {EdgeReadsSchema, EdgeWritesSchema}
           then (Breaking, ''write a migration and update the queries that touch this object'')
           else if via = EdgeTests then (Breaking, ''update fixtures and golden data'')
           else (Compiles, ''re-run this consumer's tests''))
      | ChangeConfig \<Rightarrow>
          (if via = EdgeReadsConfig
           then (Breaking, ''update the key here and in every deployment manifest that sets it'')
           else if via \<in> {EdgeDeploys, EdgeProvisions}
           then (Breaking, ''update the deployment or infrastructure definition'')
           else (Compiles, []))
      | ChangeRoute \<Rightarrow>
          (if via \<in> {EdgeRoutesTo, EdgeHandles} then (Breaking, ''update the handler registration'')
           else if via = EdgeReferences then (Breaking, ''update the client call site and any generated client'')
           else if via = EdgeTests then (Breaking, ''update the route under test'')
           else (Compiles, []))
      | ChangeOther _ \<Rightarrow> (Undetermined, ''unclassified change kind''))"

definition compat_order :: "Compat \<Rightarrow> nat" where
  "compat_order v = (case v of Breaking \<Rightarrow> 0 | Undetermined \<Rightarrow> 1 | Compiles \<Rightarrow> 2 | Compatible \<Rightarrow> 3)"

definition consumer_before :: "Consumer \<Rightarrow> Consumer \<Rightarrow> bool" where
  "consumer_before a b =
     (if compat_order (co_Verdict a) \<noteq> compat_order (co_Verdict b)
      then compat_order (co_Verdict a) < compat_order (co_Verdict b)
      else if co_Depth a \<noteq> co_Depth b then co_Depth a < co_Depth b
      else if nd_Path (co_Node a) \<noteq> nd_Path (co_Node b) then nd_Path (co_Node a) < nd_Path (co_Node b)
      else nd_FQN (co_Node a) < nd_FQN (co_Node b))"

definition consumer_of :: "ChangeKind \<Rightarrow> Reached \<Rightarrow> Consumer" where
  "consumer_of kind r =
     (let vm = verdictFor kind (re_Via r) (re_Evidence r) in
      \<lparr>co_Node = re_Node r, co_Depth = re_Depth r, co_Via = re_Via r, co_Evidence = re_Evidence r,
       co_Verdict = fst vm, co_Migration = snd vm\<rparr>)"

definition count_verdicts :: "Consumer list \<Rightarrow> Compat \<Rightarrow> int" where
  "count_verdicts cs = foldl (\<lambda>m c. m(co_Verdict c := m (co_Verdict c) + 1)) (\<lambda>_. 0) cs"

definition buildImpact :: "Node list \<Rightarrow> ChangeKind \<Rightarrow> Reached list \<Rightarrow> bool \<Rightarrow> Impact" where
  "buildImpact changed kind reached truncated =
     (let cs = map (consumer_of kind) (filter (\<lambda>r. nd_ID (re_Node r) \<notin> set (map nd_ID changed)) reached) in
      \<lparr>im_Changed = changed, im_Kind = kind, im_Consumers = stable_sort consumer_before cs,
       im_Counts = count_verdicts cs, im_Truncated = truncated, im_Caveat = ImpactCaveat\<rparr>)"

definition impact_Summary :: "Impact \<Rightarrow> string" where
  "impact_Summary i =
     showNat (length (im_Consumers i)) @ '' consumers: '' @ showInt (im_Counts i Breaking) @ '' breaking, '' @
     showInt (im_Counts i Undetermined) @ '' undetermined, '' @ showInt (im_Counts i Compiles) @
     '' behaviour-only, '' @ showInt (im_Counts i Compatible) @ '' compatible'' @
     (if im_Truncated i then '' (truncated: lower bound)'' else [])"

definition change_name :: "ChangeKind \<Rightarrow> string" where
  "change_name k = (case k of ChangeSignature \<Rightarrow> ''signature'' | ChangeBehaviour \<Rightarrow> ''behaviour''
     | ChangeRemove \<Rightarrow> ''remove'' | ChangeRename \<Rightarrow> ''rename'' | ChangeAddField \<Rightarrow> ''add_field''
     | ChangeSchema \<Rightarrow> ''schema'' | ChangeConfig \<Rightarrow> ''config'' | ChangeRoute \<Rightarrow> ''route'' | ChangeOther s \<Rightarrow> s)"

definition ChangeKinds :: "ChangeKind list" where
  "ChangeKinds = [ChangeSignature, ChangeBehaviour, ChangeRemove, ChangeRename, ChangeAddField, ChangeSchema,
     ChangeConfig, ChangeRoute]"

definition ParseChangeKind :: "string \<Rightarrow> graph_error + ChangeKind" where
  "ParseChangeKind s =
     (case find (\<lambda>k. change_name k = s) ChangeKinds of None \<Rightarrow> Inl (UnknownChangeKind s) | Some k \<Rightarrow> Inr k)"

definition PublicImpact :: "Impact \<Rightarrow> Impact" where
  "PublicImpact i =
     (let shown = filter (\<lambda>c. \<not> sensitive (nd_Path (co_Node c))) (im_Consumers i) in
      i\<lparr>im_Changed := filter (\<lambda>n. \<not> sensitive (nd_Path n)) (im_Changed i),
        im_Consumers := shown, im_Counts := count_verdicts shown,
        im_Truncated := im_Truncated i \<or> list_ex (\<lambda>c. sensitive (nd_Path (co_Node c))) (im_Consumers i)\<rparr>)"

section \<open>The index tables\<close>

text \<open>
  A row of \<^verbatim>\<open>nodes\<close> keeps a node without its path: the path is that of the row of \<^verbatim>\<open>files\<close> the node points
  to, joined when the node is read.  File number 0 stands for NULL.
\<close>

record graph_db =
  g_ws :: string
  g_nodes :: "Node list"
  g_edges :: "Edge list"
  g_files :: "int \<Rightarrow> string option"

definition nodeKinds :: "string list" where
  "nodeKinds = [''file'', ''directory'', ''package'', ''module'', ''service'', ''api'', ''route'', ''handler'', ''type'', ''function'',
     ''method'', ''class'', ''interface'', ''field'', ''variable'', ''constant'', ''dependency'', ''config_key'', ''infra_resource'',
     ''deployment'', ''test'', ''build_target'', ''schema'', ''table'', ''column'', ''commit'', ''doc'']"

definition node_key :: "Node \<Rightarrow> string \<times> string \<times> string \<times> string" where
  "node_key n = (nd_RepositoryID n, nd_WorktreeID n, nd_Kind n, nd_FQN n)"

definition upsert_row :: "string \<Rightarrow> Node \<Rightarrow> Node list \<Rightarrow> int \<times> Node list" where
  "upsert_row ws n rows =
     (let n' = n\<lparr>nd_WorkspaceID := ws, nd_Attrs := (if nd_Attrs n = [] then ''{}'' else nd_Attrs n), nd_Path := []\<rparr> in
      case find (\<lambda>r. node_key r = node_key n) rows of
        Some old \<Rightarrow>
          (nd_ID old, map (\<lambda>r. if node_key r = node_key n
                               then n'\<lparr>nd_ID := nd_ID r, nd_WorkspaceID := nd_WorkspaceID r\<rparr> else r) rows)
      | None \<Rightarrow>
          (let i = max_of (map nd_ID rows) + 1 in (i, rows @ [n'\<lparr>nd_ID := i\<rparr>])))"

fun upsert_all :: "string \<Rightarrow> nat \<Rightarrow> Node list \<Rightarrow> Node list \<Rightarrow> graph_error + int list \<times> Node list" where
  "upsert_all ws i [] rows = Inr ([], rows)"
| "upsert_all ws i (n # ns) rows =
     (if nd_Kind n = [] \<or> nd_FQN n = [] then Inl (NodeIncomplete i)
      else if nd_Kind n \<notin> set nodeKinds then Inl (NodeRejected (nd_FQN n))
      else (let r = upsert_row ws n rows in
            case upsert_all ws (i + 1) ns (snd r) of
              Inl e \<Rightarrow> Inl e
            | Inr (ids, rows') \<Rightarrow> Inr (fst r # ids, rows')))"

definition UpsertNodes :: "bool \<Rightarrow> Node list \<Rightarrow> graph_db \<Rightarrow> (graph_error + int list) \<times> graph_db" where
  "UpsertNodes ok ns g =
     (case upsert_all (g_ws g) 0 ns (g_nodes g) of
        Inl e \<Rightarrow> (Inl e, g)
      | Inr (ids, rows) \<Rightarrow> if ok then (Inr ids, g\<lparr>g_nodes := rows\<rparr>) else (Inl GraphDbFailed, g))"

definition UpsertNode :: "bool \<Rightarrow> Node \<Rightarrow> graph_db \<Rightarrow> (graph_error + int) \<times> graph_db" where
  "UpsertNode ok n g = (case UpsertNodes ok [n] g of (Inl e, g') \<Rightarrow> (Inl e, g') | (Inr ids, g') \<Rightarrow> (Inr (hd ids), g'))"

definition edge_key :: "Edge \<Rightarrow> int \<times> int \<times> EdgeKind \<times> string" where
  "edge_key e = (ed_Src e, ed_Dst e, ed_Kind e, ed_Source e)"

definition upsert_edge :: "string \<Rightarrow> Edge \<Rightarrow> Edge list \<Rightarrow> Edge list" where
  "upsert_edge ws e rows =
     (let e' = e\<lparr>ed_WorkspaceID := ws, ed_Attrs := (if ed_Attrs e = [] then ''{}'' else ed_Attrs e),
                 ed_Confidence := (if ed_Confidence e = 0 then 1 else ed_Confidence e)\<rparr> in
      if list_ex (\<lambda>r. edge_key r = edge_key e) rows
      then map (\<lambda>r. if edge_key r = edge_key e
                    then r\<lparr>ed_Evidence := ed_Evidence e', ed_Confidence := ed_Confidence e', ed_Attrs := ed_Attrs e'\<rparr> else r) rows
      else rows @ [e'\<lparr>ed_ID := max_of (map ed_ID rows) + 1\<rparr>])"

fun upsert_edges :: "string \<Rightarrow> Edge list \<Rightarrow> Edge list \<Rightarrow> graph_error + Edge list" where
  "upsert_edges ws [] rows = Inr rows"
| "upsert_edges ws (e # es) rows =
     (case ed_Kind e of
        EdgeOther _ \<Rightarrow> Inl (EdgeRejected (ed_Kind e) (ed_Src e) (ed_Dst e))
      | _ \<Rightarrow> upsert_edges ws es (upsert_edge ws e rows))"

definition UpsertEdges :: "bool \<Rightarrow> Edge list \<Rightarrow> graph_db \<Rightarrow> graph_error option \<times> graph_db" where
  "UpsertEdges ok es g =
     (case first_error edge_Validate es of
        Some e \<Rightarrow> (Some e, g)
      | None \<Rightarrow>
          (case upsert_edges (g_ws g) es (g_edges g) of
             Inl e \<Rightarrow> (Some e, g)
           | Inr rows \<Rightarrow> if ok then (None, g\<lparr>g_edges := rows\<rparr>) else (Some GraphDbFailed, g)))"

definition scanNode :: "graph_db \<Rightarrow> Node \<Rightarrow> Node" where
  "scanNode g n = n\<lparr>nd_Path := (if nd_FileID n = 0 then [] else case g_files g (nd_FileID n) of None \<Rightarrow> [] | Some p \<Rightarrow> p)\<rparr>"

definition verify_node :: "graph_db \<Rightarrow> Node \<Rightarrow> graph_error + Node" where
  "verify_node g n = (if nd_WorkspaceID n \<noteq> g_ws g then Inl (WrongWorkspace (nd_WorkspaceID n)) else Inr n)"

fun verify_nodes :: "graph_db \<Rightarrow> Node list \<Rightarrow> graph_error + Node list" where
  "verify_nodes g [] = Inr []"
| "verify_nodes g (n # ns) =
     (case verify_node g (scanNode g n) of
        Inl e \<Rightarrow> Inl e
      | Inr n' \<Rightarrow> (case verify_nodes g ns of Inl e \<Rightarrow> Inl e | Inr rest \<Rightarrow> Inr (n' # rest)))"

definition get_node :: "graph_db \<Rightarrow> int \<Rightarrow> graph_error + Node" where
  "get_node g i = (case find (\<lambda>n. nd_ID n = i) (g_nodes g) of
     None \<Rightarrow> Inl (NodeNotFound i) | Some n \<Rightarrow> verify_node g (scanNode g n))"

definition NodeByFQN :: "graph_db \<Rightarrow> string \<Rightarrow> string \<Rightarrow> string \<Rightarrow> graph_error + Node" where
  "NodeByFQN g repo kind fqn =
     (case find (\<lambda>n. nd_RepositoryID n = repo \<and> nd_Kind n = kind \<and> nd_FQN n = fqn) (g_nodes g) of
        None \<Rightarrow> Inl (FQNNotFound kind fqn) | Some n \<Rightarrow> verify_node g (scanNode g n))"

definition NodesByName :: "graph_db \<Rightarrow> string \<Rightarrow> string list \<Rightarrow> int \<Rightarrow> graph_error + Node list" where
  "NodesByName g name kinds limit =
     (let hits = filter (\<lambda>n. nd_Name n = name \<and> (kinds = [] \<or> nd_Kind n \<in> set kinds)) (g_nodes g);
          byKind = stable_sort (\<lambda>a b. nd_Kind a < nd_Kind b \<or> (nd_Kind a = nd_Kind b \<and> nd_FQN a < nd_FQN b)) hits
      in verify_nodes g (take (nat (if limit \<le> 0 then 100 else limit)) byKind))"

definition edge_name :: "EdgeKind \<Rightarrow> string" where
  "edge_name k = (case k of EdgeContains \<Rightarrow> ''contains'' | EdgeImports \<Rightarrow> ''imports'' | EdgeDependsOn \<Rightarrow> ''depends_on''
     | EdgeCalls \<Rightarrow> ''calls'' | EdgeImplements \<Rightarrow> ''implements'' | EdgeUsesType \<Rightarrow> ''uses_type''
     | EdgeReferences \<Rightarrow> ''references'' | EdgeRoutesTo \<Rightarrow> ''routes_to'' | EdgeHandles \<Rightarrow> ''handles''
     | EdgeReadsConfig \<Rightarrow> ''reads_config'' | EdgeWritesSchema \<Rightarrow> ''writes_schema'' | EdgeReadsSchema \<Rightarrow> ''reads_schema''
     | EdgeTests \<Rightarrow> ''tests'' | EdgeBuilds \<Rightarrow> ''builds'' | EdgeDeploys \<Rightarrow> ''deploys'' | EdgeProvisions \<Rightarrow> ''provisions''
     | EdgeTouches \<Rightarrow> ''touches'' | EdgeExtends \<Rightarrow> ''extends'' | EdgeEmbeds \<Rightarrow> ''embeds'' | EdgeReturns \<Rightarrow> ''returns''
     | EdgeAccepts \<Rightarrow> ''accepts'' | EdgeOther s \<Rightarrow> s)"

definition Neighbors :: "graph_db \<Rightarrow> int \<Rightarrow> Direction \<Rightarrow> EdgeKind list \<Rightarrow> graph_error + Edge list" where
  "Neighbors g i dir kinds =
     (let hits = filter (\<lambda>e. (case dir of Reverse \<Rightarrow> ed_Dst e = i | Forward \<Rightarrow> ed_Src e = i) \<and>
                             (kinds = [] \<or> ed_Kind e \<in> set kinds)) (g_edges g);
          rows = stable_sort (\<lambda>a b. edge_name (ed_Kind a) < edge_name (ed_Kind b) \<or>
                                    (ed_Kind a = ed_Kind b \<and> ed_ID a < ed_ID b)) hits
      in case find (\<lambda>e. ed_WorkspaceID e \<noteq> g_ws g) rows of
           Some e \<Rightarrow> Inl (WrongWorkspace (ed_WorkspaceID e)) | None \<Rightarrow> Inr rows)"

section \<open>Traversal\<close>

definition evidenceRank :: "Evidence \<Rightarrow> nat" where
  "evidenceRank e = (case e of Resolved \<Rightarrow> 0 | Declared \<Rightarrow> 1 | Inferred \<Rightarrow> 2 | Observed \<Rightarrow> 3 | _ \<Rightarrow> 4)"

definition rankToEvidence :: "nat \<Rightarrow> Evidence" where
  "rankToEvidence r = (if r = 0 then Resolved else if r = 1 then Declared else if r = 2 then Inferred
     else if r = 3 then Observed else if r = 4 then Unknown else EvidenceOther [])"

record pathState =
  ps_depth :: int
  ps_rank :: nat
  ps_via :: EdgeKind

type_synonym best_map = "(int \<times> pathState) list"

definition edge_from :: "Direction \<Rightarrow> Edge \<Rightarrow> int" where
  "edge_from dir e = (case dir of Forward \<Rightarrow> ed_Src e | Reverse \<Rightarrow> ed_Dst e)"

definition edge_to :: "Direction \<Rightarrow> Edge \<Rightarrow> int" where
  "edge_to dir e = (case dir of Forward \<Rightarrow> ed_Dst e | Reverse \<Rightarrow> ed_Src e)"

definition edge_selected :: "Query \<Rightarrow> Edge \<Rightarrow> bool" where
  "edge_selected q e = ((q_Kinds q = [] \<or> ed_Kind e \<in> set (q_Kinds q)) \<and>
     (q_MinEvidence q = [] \<or> ed_Evidence e \<in> set (q_MinEvidence q)))"

definition parent_rank :: "best_map \<Rightarrow> int \<Rightarrow> nat" where
  "parent_rank best x = (case map_of best x of None \<Rightarrow> 0 | Some p \<Rightarrow> ps_rank p)"

fun fetchHop :: "Direction \<Rightarrow> int \<Rightarrow> int \<Rightarrow> Edge list \<Rightarrow> best_map \<Rightarrow> int list \<times> int \<times> bool \<times> best_map" where
  "fetchHop dir depth limit [] best = ([], 0, False, best)"
| "fetchHop dir depth limit (e # es) best =
     (let to = edge_to dir e;
          rank = max (parent_rank best (edge_from dir e)) (evidenceRank (ed_Evidence e));
          prev = map_of best to
      in if (case prev of None \<Rightarrow> False
             | Some p \<Rightarrow> ps_depth p < depth \<or> (ps_depth p = depth \<and> ps_rank p \<le> rank))
         then (let (found, fetched, capped, b) = fetchHop dir depth limit es best in (found, fetched + 1, capped, b))
         else if prev = None \<and> int (length best) \<ge> limit then ([], 1, True, best)
         else (let (found, fetched, capped, b) =
                     fetchHop dir depth limit es (AList.update to \<lparr>ps_depth = depth, ps_rank = rank, ps_via = ed_Kind e\<rparr> best)
               in (if prev = None then to # found else found, fetched + 1, capped, b)))"

definition expandBatch :: nat where
  "expandBatch = 400"

lemma expandBatch_code [code_unfold]: "take expandBatch xs = int_take 400 xs" "drop expandBatch xs = int_drop 400 xs"
  by (simp_all add: expandBatch_def int_take_eq int_drop_eq)

text \<open>\<open>plan\<close> is the order in which the database returns the rows a query selects.\<close>

definition hop_rows :: "(Edge list \<Rightarrow> Edge list) \<Rightarrow> graph_db \<Rightarrow> Query \<Rightarrow> int list \<Rightarrow> Edge list" where
  "hop_rows plan g q chunk = plan (filter (\<lambda>e. edge_from (q_Dir q) e \<in> set chunk \<and> edge_selected q e) (g_edges g))"

function expand :: "(Edge list \<Rightarrow> Edge list) \<Rightarrow> graph_db \<Rightarrow> Query \<Rightarrow> int \<Rightarrow> int \<Rightarrow> int list \<Rightarrow> best_map \<Rightarrow> int list \<times> bool \<times> best_map" where
  "expand plan g q depth limit frontier best =
     (if frontier = [] then ([], False, best)
      else (let remaining = limit - int (length best) in
            if remaining \<le> 0 then ([], True, best)
            else (let rowCap = remaining * 4;
                      (found, fetched, capped, best1) =
                        fetchHop (q_Dir q) depth limit (take (nat rowCap) (hop_rows plan g q (take expandBatch frontier))) best
                  in if capped \<or> fetched \<ge> rowCap then (found, True, best1)
                     else (let (rest, hit, best2) = expand plan g q depth limit (drop expandBatch frontier) best1
                           in (found @ rest, hit, best2)))))"
  by pat_completeness auto
termination
  by (relation "measure (\<lambda>(_, _, _, _, _, f, _). length f)") (auto simp: expandBatch_def)

declare expand.simps [simp del]

text \<open>The level loop: \<open>n\<close> levels are left, the next one has number \<open>depth\<close>.\<close>

fun levels :: "(Edge list \<Rightarrow> Edge list) \<Rightarrow> graph_db \<Rightarrow> Query \<Rightarrow> int \<Rightarrow> nat \<Rightarrow> int \<Rightarrow> int list \<Rightarrow> bool \<Rightarrow> best_map \<Rightarrow> int list \<times> bool \<times> best_map" where
  "levels plan g q limit 0 depth frontier tr best = (frontier, tr, best)"
| "levels plan g q limit (Suc n) depth frontier tr best =
     (if frontier = [] then (frontier, tr, best)
      else if int (length best) \<ge> limit then (frontier, True, best)
      else (let (next, hit, best1) = expand plan g q depth limit frontier best in
            levels plan g q limit n (depth + 1) next (tr \<or> hit) best1))"

definition start_map :: "int list \<Rightarrow> best_map" where
  "start_map ids = map (\<lambda>i. (i, \<lparr>ps_depth = 0, ps_rank = 0, ps_via = EdgeOther []\<rparr>)) (nub_from [] ids)"

definition loadNodes :: "graph_db \<Rightarrow> int list \<Rightarrow> graph_error + Node list" where
  "loadNodes g ids = verify_nodes g (filter (\<lambda>n. nd_ID n \<in> set ids) (g_nodes g))"

definition reached_before :: "Reached \<Rightarrow> Reached \<Rightarrow> bool" where
  "reached_before a b =
     (if re_Depth a \<noteq> re_Depth b then re_Depth a < re_Depth b
      else if nd_Kind (re_Node a) \<noteq> nd_Kind (re_Node b) then nd_Kind (re_Node a) < nd_Kind (re_Node b)
      else nd_FQN (re_Node a) < nd_FQN (re_Node b))"

definition reached_of :: "best_map \<Rightarrow> Node \<Rightarrow> Reached" where
  "reached_of best n =
     (let st = (case map_of best (nd_ID n) of Some p \<Rightarrow> p | None \<Rightarrow> \<lparr>ps_depth = 0, ps_rank = 0, ps_via = EdgeOther []\<rparr>) in
      \<lparr>re_Node = n, re_Depth = ps_depth st, re_Via = ps_via st,
       re_Evidence = (if ps_depth st = 0 then Resolved else rankToEvidence (ps_rank st))\<rparr>)"

definition Traverse :: "(Edge list \<Rightarrow> Edge list) \<Rightarrow> graph_db \<Rightarrow> Query \<Rightarrow> graph_error + Reached list" where
  "Traverse plan g q =
     (if q_Start q = [] then Inr []
      else (let maxDepth = (if q_MaxDepth q \<le> 0 then 1 else q_MaxDepth q) in
            if maxDepth > MaxTraversalDepth then Inl (DepthTooLarge maxDepth)
            else (let limit = (if q_MaxNodes q \<le> 0 then DefaultMaxNodes else q_MaxNodes q) in
                  case find (\<lambda>ev. \<not> evidence_Valid ev) (q_MinEvidence q) of
                    Some ev \<Rightarrow> Inl (BadFilter ev)
                  | None \<Rightarrow>
                      (let (frontier, tr, best) =
                             levels plan g q limit (nat maxDepth) 1 (nub_from [] (q_Start q)) False (start_map (q_Start q));
                           truncated = (tr \<or> (frontier \<noteq> [] \<and> int (length best) \<ge> limit))
                       in case loadNodes g (map fst best) of
                            Inl e \<Rightarrow> Inl e
                          | Inr nodes \<Rightarrow>
                              (let out = stable_sort reached_before (map (reached_of best) nodes) in
                               Inr (if truncated \<and> int (length out) > limit then take (nat limit) out else out))))))"

fun get_nodes :: "graph_db \<Rightarrow> int list \<Rightarrow> graph_error + Node list" where
  "get_nodes g [] = Inr []"
| "get_nodes g (i # is) =
     (case get_node g i of Inl e \<Rightarrow> Inl e
      | Inr n \<Rightarrow> (case get_nodes g is of Inl e \<Rightarrow> Inl e | Inr ns \<Rightarrow> Inr (n # ns)))"

definition ImpactOf :: "(Edge list \<Rightarrow> Edge list) \<Rightarrow> graph_db \<Rightarrow> int list \<Rightarrow> ChangeKind \<Rightarrow> graph_error + Impact" where
  "ImpactOf plan g changed kind =
     (if changed = [] then Inr \<lparr>im_Changed = [], im_Kind = kind, im_Consumers = [], im_Counts = (\<lambda>_. 0),
                                im_Truncated = False, im_Caveat = ImpactCaveat\<rparr>
      else case get_nodes g changed of
             Inl e \<Rightarrow> Inl e
           | Inr nodes \<Rightarrow>
               (case Traverse plan g \<lparr>q_Start = changed, q_Dir = Reverse, q_Kinds = [], q_MaxDepth = 3,
                                      q_MaxNodes = DefaultMaxNodes, q_MinEvidence = []\<rparr> of
                  Inl e \<Rightarrow> Inl e
                | Inr reached \<Rightarrow> Inr (buildImpact nodes kind reached (int (length reached) \<ge> DefaultMaxNodes))))"

section \<open>The traversal is breadth-first search with strongest paths\<close>

text \<open>
  The specification: \<open>walk g q n k x\<close> says that \<open>n\<close> selected edges lead from a start node to \<open>x\<close> and
  that the weakest of them has rank \<open>k\<close>.
\<close>

inductive walk :: "graph_db \<Rightarrow> Query \<Rightarrow> nat \<Rightarrow> nat \<Rightarrow> int \<Rightarrow> bool" for g q where
  walk_start: "x \<in> set (q_Start q) \<Longrightarrow> walk g q 0 0 x"
| walk_hop: "walk g q n k (edge_from (q_Dir q) e) \<Longrightarrow> e \<in> set (g_edges g) \<Longrightarrow> edge_selected q e \<Longrightarrow>
    walk g q (Suc n) (max k (evidenceRank (ed_Evidence e))) (edge_to (q_Dir q) e)"

inductive_cases walk_0E: "walk g q 0 k x"
inductive_cases walk_SucE: "walk g q (Suc n) k x"

definition shortest :: "graph_db \<Rightarrow> Query \<Rightarrow> nat \<Rightarrow> nat \<Rightarrow> int \<Rightarrow> bool" where
  "shortest g q n k x \<longleftrightarrow> walk g q n k x \<and> (\<forall>n' k'. walk g q n' k' x \<longrightarrow> n < n' \<or> (n' = n \<and> k \<le> k'))"

definition hop_cost :: "Direction \<Rightarrow> best_map \<Rightarrow> Edge \<Rightarrow> nat" where
  "hop_cost dir B e = max (parent_rank B (edge_from dir e)) (evidenceRank (ed_Evidence e))"

text \<open>What one level has established after the edges \<open>R\<close>: \<open>B\<close> is the map before the level.\<close>

definition level_inv :: "Direction \<Rightarrow> int \<Rightarrow> best_map \<Rightarrow> Edge set \<Rightarrow> best_map \<Rightarrow> bool" where
  "level_inv dir depth B R best \<longleftrightarrow>
     (\<forall>y p. map_of B y = Some p \<longrightarrow> map_of best y = Some p) \<and>
     (\<forall>y p. map_of best y = Some p \<longrightarrow> map_of B y = Some p \<or>
        (map_of B y = None \<and> ps_depth p = depth \<and> (\<exists>e \<in> R. edge_to dir e = y \<and> ps_rank p = hop_cost dir B e))) \<and>
     (\<forall>e \<in> R. \<exists>p. map_of best (edge_to dir e) = Some p \<and>
        (map_of B (edge_to dir e) = None \<longrightarrow> ps_rank p \<le> hop_cost dir B e))"

lemma level_inv_start: "level_inv dir depth B {} B"
  by (simp add: level_inv_def)

lemma level_inv_skip:
  assumes inv: "level_inv dir depth B R best" and old: "\<forall>y p. map_of B y = Some p \<longrightarrow> ps_depth p < depth"
    and p: "map_of best (edge_to dir e) = Some p"
    and le: "ps_depth p < depth \<or> (ps_depth p = depth \<and> ps_rank p \<le> hop_cost dir B e)"
  shows "level_inv dir depth B (insert e R) best"
proof -
  have "map_of B (edge_to dir e) = None \<Longrightarrow> ps_depth p = depth" using inv p unfolding level_inv_def by fastforce
  then show ?thesis using inv p le unfolding level_inv_def by auto
qed

lemma level_inv_update:
  assumes inv: "level_inv dir depth B R best" and old: "\<forall>y p. map_of B y = Some p \<longrightarrow> ps_depth p < depth"
    and new: "\<forall>p. map_of best (edge_to dir e) = Some p \<longrightarrow> \<not> ps_depth p < depth \<and> \<not> (ps_depth p = depth \<and> ps_rank p \<le> hop_cost dir B e)"
  shows "level_inv dir depth B (insert e R)
     (AList.update (edge_to dir e) \<lparr>ps_depth = depth, ps_rank = hop_cost dir B e, ps_via = kd\<rparr> best)"
proof -
  let ?y = "edge_to dir e"
  have none: "map_of B ?y = None" using inv old new unfolding level_inv_def by (metis option.exhaust)
  have better: "map_of best ?y = Some p \<Longrightarrow> hop_cost dir B e \<le> ps_rank p" for p
    using inv none new unfolding level_inv_def by (metis nat_le_linear option.distinct(1))
  show ?thesis
    unfolding level_inv_def update_conv'
  proof (intro conjI allI ballI impI)
    fix y p assume "map_of B y = Some p"
    then show "((map_of best)(?y \<mapsto> \<lparr>ps_depth = depth, ps_rank = hop_cost dir B e, ps_via = kd\<rparr>)) y = Some p"
      using inv none unfolding level_inv_def by auto
  next
    fix y p assume a: "((map_of best)(?y \<mapsto> \<lparr>ps_depth = depth, ps_rank = hop_cost dir B e, ps_via = kd\<rparr>)) y = Some p"
    show "map_of B y = Some p \<or> (map_of B y = None \<and> ps_depth p = depth \<and>
        (\<exists>e' \<in> insert e R. edge_to dir e' = y \<and> ps_rank p = hop_cost dir B e'))"
      using a inv none unfolding level_inv_def by (cases "y = ?y") auto
  next
    fix e' assume "e' \<in> insert e R"
    then show "\<exists>p. ((map_of best)(?y \<mapsto> \<lparr>ps_depth = depth, ps_rank = hop_cost dir B e, ps_via = kd\<rparr>)) (edge_to dir e') = Some p \<and>
        (map_of B (edge_to dir e') = None \<longrightarrow> ps_rank p \<le> hop_cost dir B e')"
      using inv none better unfolding level_inv_def by (cases "edge_to dir e' = ?y") (auto intro: order.trans)
  qed
qed

lemma parent_rank_kept: "level_inv dir depth B R best \<Longrightarrow> x \<in> fst ` set B \<Longrightarrow> parent_rank best x = parent_rank B x"
  unfolding level_inv_def parent_rank_def by (auto dest!: map_of_SomeD split: option.splits simp: map_of_eq_None_iff)

lemma fst_update: "fst ` set (AList.update k v al) = insert k (fst ` set al)"
  using dom_update [of k v al] by (simp add: dom_map_of_conv_image_fst)

lemma length_le_card: "distinct (map fst best) \<Longrightarrow> fst ` set best \<subseteq> V \<Longrightarrow> finite V \<Longrightarrow> length best \<le> card V"
  by (metis card_mono distinct_card length_map list.set_map)

lemma found_set: "F = B - insert y A \<Longrightarrow> insert y A \<subseteq> B \<Longrightarrow> (if y \<notin> A then insert y F else F) = B - A"
  by auto

lemma found_append: "F = B - A \<Longrightarrow> A \<subseteq> B \<Longrightarrow> G = C - B \<Longrightarrow> B \<subseteq> C \<Longrightarrow> F \<union> G = C - A \<and> A \<subseteq> C"
  by auto

lemma fetchHop_level:
  assumes "level_inv dir depth B R best" and "\<forall>y p. map_of B y = Some p \<longrightarrow> ps_depth p < depth"
    and "distinct (map fst best)" and "fst ` set best \<subseteq> V" and "finite V" and "int (card V) < limit"
    and "\<forall>e \<in> set es. edge_from dir e \<in> fst ` set B \<and> edge_to dir e \<in> V"
  shows "\<exists>found b. fetchHop dir depth limit es best = (found, int (length es), False, b) \<and>
     level_inv dir depth B (R \<union> set es) b \<and> distinct (map fst b) \<and> fst ` set b \<subseteq> V \<and>
     set found = fst ` set b - fst ` set best \<and> fst ` set best \<subseteq> fst ` set b"
  using assms
proof (induction es arbitrary: R best)
  case (Cons e es)
  let ?y = "edge_to dir e" and ?c = "hop_cost dir B e"
  have rank: "max (parent_rank best (edge_from dir e)) (evidenceRank (ed_Evidence e)) = ?c"
    using parent_rank_kept [OF Cons.prems(1)] Cons.prems(7) by (simp add: hop_cost_def)
  have room: "\<not> limit \<le> int (length best)" using length_le_card [OF Cons.prems(3-5)] Cons.prems(6) by linarith
  have seen: "map_of best ?y = None \<longleftrightarrow> ?y \<notin> fst ` set best" by (simp add: map_of_eq_None_iff)
  show ?case
  proof (cases "case map_of best ?y of None \<Rightarrow> False | Some p \<Rightarrow> ps_depth p < depth \<or> (ps_depth p = depth \<and> ps_rank p \<le> ?c)")
    case True
    then obtain p where p: "map_of best ?y = Some p" "ps_depth p < depth \<or> (ps_depth p = depth \<and> ps_rank p \<le> ?c)"
      by (auto split: option.splits)
    from level_inv_skip [OF Cons.prems(1,2) p] have "level_inv dir depth B (insert e R) best" .
    from Cons.IH [OF this Cons.prems(2-6)] Cons.prems(7) True show ?thesis
      by (auto simp: Let_def rank)
  next
    case False
    let ?b = "AList.update ?y \<lparr>ps_depth = depth, ps_rank = ?c, ps_via = ed_Kind e\<rparr> best"
    have "level_inv dir depth B (insert e R) ?b"
      by (rule level_inv_update [OF Cons.prems(1,2)]) (use False in auto)
    moreover have "distinct (map fst ?b)" using Cons.prems(3) by (rule distinct_update)
    moreover have "fst ` set ?b \<subseteq> V" using Cons.prems(4,7) by (simp add: fst_update)
    ultimately obtain found b where b: "fetchHop dir depth limit es ?b = (found, int (length es), False, b)"
      "level_inv dir depth B (insert e R \<union> set es) b" "distinct (map fst b)" "fst ` set b \<subseteq> V"
      "set found = fst ` set b - fst ` set ?b" "fst ` set ?b \<subseteq> fst ` set b"
      using Cons.IH [of "insert e R" ?b] Cons.prems(2,5-7) by auto
    have "fetchHop dir depth limit (e # es) best = (if map_of best ?y = None then ?y # found else found, int (length es) + 1, False, b)"
      using False room b(1) by (simp add: Let_def rank)
    moreover have "set (if map_of best ?y = None then ?y # found else found) = fst ` set b - fst ` set best"
      using found_set [OF b(5,6) [unfolded fst_update]] by (simp only: seen set_simps if_distrib [of set])
    ultimately show ?thesis using b by (auto simp: fst_update)
  qed
qed simp

text \<open>The nodes a traversal can meet, and room for all of them under the caps.\<close>

definition graph_span :: "graph_db \<Rightarrow> Query \<Rightarrow> int set" where
  "graph_span g q = set (q_Start q) \<union> edge_to (q_Dir q) ` set (g_edges g)"

definition roomy :: "graph_db \<Rightarrow> Query \<Rightarrow> int \<Rightarrow> bool" where
  "roomy g q limit \<longleftrightarrow> 4 * int (card (graph_span g q)) + int (length (g_edges g)) < 4 * limit"

definition level_edges :: "graph_db \<Rightarrow> Query \<Rightarrow> int set \<Rightarrow> Edge set" where
  "level_edges g q F = {e \<in> set (g_edges g). edge_selected q e \<and> edge_from (q_Dir q) e \<in> F}"

lemma finite_graph_span: "finite (graph_span g q)"
  by (simp add: graph_span_def)

lemma room_left: "a \<le> e \<Longrightarrow> b \<le> c \<Longrightarrow> 4 * c + e < 4 * l \<Longrightarrow> a < (l - b) * (4::int)"
  by (simp add: left_diff_distrib)

lemma expand_level:
  assumes "level_inv (q_Dir q) depth B R best" and "\<forall>y p. map_of B y = Some p \<longrightarrow> ps_depth p < depth"
    and "distinct (map fst best)" and "fst ` set best \<subseteq> graph_span g q" and room: "roomy g q limit"
    and "set frontier \<subseteq> fst ` set B" and plan: "\<forall>es. mset (plan es) = mset es"
  shows "\<exists>next b. expand plan g q depth limit frontier best = (next, False, b) \<and>
     level_inv (q_Dir q) depth B (R \<union> level_edges g q (set frontier)) b \<and> distinct (map fst b) \<and> fst ` set b \<subseteq> graph_span g q \<and>
     set next = fst ` set b - fst ` set best \<and> fst ` set best \<subseteq> fst ` set b"
  using assms(1-4,6)
proof (induction "length frontier" arbitrary: frontier R best rule: less_induct)
  case less
  show ?case
  proof (cases "frontier = []")
    case True
    then show ?thesis using less.prems by (auto simp: expand.simps level_edges_def)
  next
    case False
    let ?chunk = "take expandBatch frontier" and ?rest = "drop expandBatch frontier"
    let ?rows = "hop_rows plan g q ?chunk" and ?remaining = "limit - int (length best)"
    have len: "length best \<le> card (graph_span g q)"
      by (rule length_le_card [OF less.prems(3,4) finite_graph_span])
    have set_rows: "set ?rows = level_edges g q (set ?chunk)"
      unfolding hop_rows_def level_edges_def using plan by (auto simp flip: set_mset_mset)
    have "length ?rows = length (filter (\<lambda>e. edge_from (q_Dir q) e \<in> set ?chunk \<and> edge_selected q e) (g_edges g))"
      unfolding hop_rows_def by (rule mset_eq_length) (simp add: plan)
    then have "int (length ?rows) \<le> int (length (g_edges g))" by simp
    moreover have "int (length best) \<le> int (card (graph_span g q))" using len by simp
    ultimately have cap: "int (length ?rows) < ?remaining * 4" using room unfolding roomy_def by (rule room_left)
    then have rem: "\<not> ?remaining \<le> 0" by (simp add: left_diff_distrib)
    have all: "take (nat (?remaining * 4)) ?rows = ?rows" using cap by simp
    have small: "int (card (graph_span g q)) < limit" using room unfolding roomy_def by linarith
    have ends: "\<forall>e \<in> set ?rows. edge_from (q_Dir q) e \<in> fst ` set B \<and> edge_to (q_Dir q) e \<in> graph_span g q"
      unfolding set_rows level_edges_def graph_span_def using less.prems(5) set_take_subset [of expandBatch frontier] by blast
    obtain found b where b: "fetchHop (q_Dir q) depth limit ?rows best = (found, int (length ?rows), False, b)"
      "level_inv (q_Dir q) depth B (R \<union> set ?rows) b" "distinct (map fst b)" "fst ` set b \<subseteq> graph_span g q"
      "set found = fst ` set b - fst ` set best" "fst ` set best \<subseteq> fst ` set b"
      using fetchHop_level [OF less.prems(1-4) finite_graph_span small ends] by (elim exE conjE)
    have shorter: "length ?rest < length frontier" using False by (simp add: expandBatch_def)
    have sub: "set ?rest \<subseteq> fst ` set B" using less.prems(5) set_drop_subset by fast
    obtain nx b2 where b2: "expand plan g q depth limit ?rest b = (nx, False, b2)"
      "level_inv (q_Dir q) depth B (R \<union> set ?rows \<union> level_edges g q (set ?rest)) b2" "distinct (map fst b2)"
      "fst ` set b2 \<subseteq> graph_span g q" "set nx = fst ` set b2 - fst ` set b" "fst ` set b \<subseteq> fst ` set b2"
      using less.hyps [OF shorter b(2) less.prems(2) b(3,4) sub] by (elim exE conjE)
    have "set frontier = set ?chunk \<union> set ?rest" by (metis append_take_drop_id set_append)
    then have "set ?rows \<union> level_edges g q (set ?rest) = level_edges g q (set frontier)"
      unfolding set_rows level_edges_def by auto
    moreover have "expand plan g q depth limit frontier best = (found @ nx, False, b2)"
      using False rem all b(1) b2(1) cap by (simp add: expand.simps [of _ _ _ _ _ frontier] Let_def)
    moreover have "set (found @ nx) = fst ` set b2 - fst ` set best" "fst ` set best \<subseteq> fst ` set b2"
      using found_append [OF b(5,6) b2(5,6)] by simp_all
    ultimately show ?thesis using b2(2-4) by (auto simp: Un_assoc)
  qed
qed

text \<open>After \<open>d\<close> levels: what the map says is right, it is complete up to \<open>d\<close> hops, and the frontier is level \<open>d\<close>.\<close>

definition best_right :: "graph_db \<Rightarrow> Query \<Rightarrow> nat \<Rightarrow> best_map \<Rightarrow> bool" where
  "best_right g q d best \<longleftrightarrow>
     (\<forall>y p. map_of best y = Some p \<longrightarrow> (\<exists>n \<le> d. ps_depth p = int n \<and> shortest g q n (ps_rank p) y))"

definition best_complete :: "graph_db \<Rightarrow> Query \<Rightarrow> nat \<Rightarrow> best_map \<Rightarrow> bool" where
  "best_complete g q d best \<longleftrightarrow> (\<forall>n k y. n \<le> d \<longrightarrow> walk g q n k y \<longrightarrow> map_of best y \<noteq> None)"

definition frontier_at :: "nat \<Rightarrow> int set \<Rightarrow> best_map \<Rightarrow> bool" where
  "frontier_at d F best \<longleftrightarrow> (\<forall>y. y \<in> F \<longleftrightarrow> (\<exists>p. map_of best y = Some p \<and> ps_depth p = int d))"

lemma last_hop:
  assumes right: "best_right g q d B" and complete: "best_complete g q d B" and F: "frontier_at d F B"
    and w: "walk g q (Suc d) k y" and new: "map_of B y = None"
  obtains e where "e \<in> level_edges g q F" and "edge_to (q_Dir q) e = y" and "hop_cost (q_Dir q) B e \<le> k"
proof -
  from w obtain k0 e where e: "walk g q d k0 (edge_from (q_Dir q) e)" "e \<in> set (g_edges g)" "edge_selected q e"
    "y = edge_to (q_Dir q) e" "k = max k0 (evidenceRank (ed_Evidence e))" by (auto elim: walk_SucE)
  let ?x = "edge_from (q_Dir q) e"
  obtain p where p: "map_of B ?x = Some p" using complete e(1) unfolding best_complete_def by blast
  obtain n where n: "n \<le> d" "ps_depth p = int n" "shortest g q n (ps_rank p) ?x"
    using right p unfolding best_right_def by blast
  have "n = d"
  proof (rule ccontr)
    assume "n \<noteq> d"
    moreover have "walk g q (Suc n) (max (ps_rank p) (evidenceRank (ed_Evidence e))) y"
      unfolding e(4) using n(3) e(2,3) by (auto simp: shortest_def intro: walk_hop)
    ultimately have "map_of B y \<noteq> None" using n(1) complete unfolding best_complete_def by (metis Suc_leI le_neq_implies_less)
    then show False using new by simp
  qed
  then have "?x \<in> F" "ps_rank p \<le> k0" using F p n(2,3) e(1) by (auto simp: frontier_at_def shortest_def)
  then show ?thesis
    using that [of e] e(2-5) p by (auto simp: level_edges_def hop_cost_def parent_rank_def)
qed

lemma first_hop:
  assumes right: "best_right g q d B" and F: "frontier_at d F B" and e: "e \<in> level_edges g q F"
  shows "walk g q (Suc d) (hop_cost (q_Dir q) B e) (edge_to (q_Dir q) e)"
proof -
  obtain p where p: "map_of B (edge_from (q_Dir q) e) = Some p" "ps_depth p = int d"
    using e F by (auto simp: level_edges_def frontier_at_def)
  then have "walk g q d (ps_rank p) (edge_from (q_Dir q) e)"
    using right unfolding best_right_def shortest_def by (metis of_nat_eq_iff)
  then show ?thesis using e p(1) by (auto simp: level_edges_def hop_cost_def parent_rank_def intro: walk_hop)
qed

lemma level_old:
  "level_inv dir n B R b \<Longrightarrow> map_of B y \<noteq> None \<Longrightarrow> map_of b y = Some p \<longleftrightarrow> map_of B y = Some p"
  unfolding level_inv_def by (metis option.exhaust option.inject)

lemma level_new:
  assumes right: "best_right g q d B" and complete: "best_complete g q d B" and F: "frontier_at d F B"
    and inv: "level_inv (q_Dir q) (int d + 1) B (level_edges g q F) b"
    and p: "map_of b y = Some p" and none: "map_of B y = None"
  shows "shortest g q (Suc d) (ps_rank p) y \<and> ps_depth p = int d + 1"
proof -
  obtain e where e: "ps_depth p = int d + 1" "e \<in> level_edges g q F" "edge_to (q_Dir q) e = y" "ps_rank p = hop_cost (q_Dir q) B e"
    using inv p none unfolding level_inv_def by (metis option.distinct(1))
  have "Suc d < n \<or> (n = Suc d \<and> ps_rank p \<le> k)" if w: "walk g q n k y" for n k
  proof (cases "n = Suc d")
    case True
    obtain e' where e': "e' \<in> level_edges g q F" "edge_to (q_Dir q) e' = y" "hop_cost (q_Dir q) B e' \<le> k"
      using last_hop [OF right complete F w [unfolded True] none] .
    then have "ps_rank p \<le> hop_cost (q_Dir q) B e'" using inv p none unfolding level_inv_def by (metis option.sel)
    then show ?thesis using e'(3) True by simp
  next
    case False
    moreover have "\<not> n \<le> d" using complete w none unfolding best_complete_def by blast
    ultimately show ?thesis by simp
  qed
  then show ?thesis using first_hop [OF right F e(2)] e(1,3,4) by (auto simp: shortest_def)
qed

lemma level_right:
  assumes right: "best_right g q d B" and complete: "best_complete g q d B" and F: "frontier_at d F B"
    and inv: "level_inv (q_Dir q) (int d + 1) B (level_edges g q F) b"
  shows "best_right g q (Suc d) b"
  unfolding best_right_def
proof (intro allI impI)
  fix y p assume p: "map_of b y = Some p"
  show "\<exists>n \<le> Suc d. ps_depth p = int n \<and> shortest g q n (ps_rank p) y"
  proof (cases "map_of B y = None")
    case True
    then show ?thesis using level_new [OF right complete F inv p] by (intro exI [of _ "Suc d"]) simp
  next
    case False
    then show ?thesis using right level_old [OF inv False] p unfolding best_right_def by (meson le_Suc_eq)
  qed
qed

lemma level_complete:
  assumes right: "best_right g q d B" and complete: "best_complete g q d B" and F: "frontier_at d F B"
    and inv: "level_inv (q_Dir q) (int d + 1) B (level_edges g q F) b"
  shows "best_complete g q (Suc d) b"
  unfolding best_complete_def
proof (intro allI impI)
  fix n k y assume n: "n \<le> Suc d" "walk g q n k y"
  show "map_of b y \<noteq> None"
  proof (cases "map_of B y = None")
    case True
    then have "n = Suc d" using n complete unfolding best_complete_def by (metis le_Suc_eq)
    then obtain e where "e \<in> level_edges g q F" "edge_to (q_Dir q) e = y"
      using last_hop [OF right complete F _ True, of k] n(2) by auto
    then show ?thesis using inv unfolding level_inv_def by blast
  qed (use level_old [OF inv] in fastforce)
qed

lemma level_frontier:
  assumes right: "best_right g q d B" and complete: "best_complete g q d B" and F: "frontier_at d F B"
    and inv: "level_inv (q_Dir q) (int d + 1) B (level_edges g q F) b"
  shows "frontier_at (Suc d) (fst ` set b - fst ` set B) b"
  unfolding frontier_at_def
proof
  fix y
  have dom: "map_of B y = None \<longleftrightarrow> y \<notin> fst ` set B" by (simp add: map_of_eq_None_iff)
  have keys: "y \<in> fst ` set b \<longleftrightarrow> (\<exists>p. map_of b y = Some p)" by (metis map_of_eq_None_iff not_None_eq)
  show "y \<in> fst ` set b - fst ` set B \<longleftrightarrow> (\<exists>p. map_of b y = Some p \<and> ps_depth p = int (Suc d))"
  proof (cases "map_of B y = None")
    case True
    then show ?thesis using level_new [OF right complete F inv _ True] keys dom by auto
  next
    case False
    have "ps_depth p \<noteq> int (Suc d)" if "map_of b y = Some p" for p
      using right level_old [OF inv False] that unfolding best_right_def by (metis Suc_n_not_le_n of_nat_eq_iff)
    then show ?thesis using False dom by auto
  qed
qed

lemma frontier_empty_complete:
  assumes right: "best_right g q d B" and complete: "best_complete g q d B" and F: "frontier_at d {} B"
  shows "best_complete g q m B"
proof -
  have "map_of B y \<noteq> None" if "walk g q n k y" for n k y
    using that
  proof induction
    case (walk_start x)
    then show ?case using complete walk.walk_start [OF walk_start] unfolding best_complete_def by blast
  next
    case (walk_hop n k e)
    then obtain p where p: "map_of B (edge_from (q_Dir q) e) = Some p" by blast
    obtain n0 where n0: "n0 \<le> d" "ps_depth p = int n0" "shortest g q n0 (ps_rank p) (edge_from (q_Dir q) e)"
      using right p unfolding best_right_def by blast
    have "n0 \<noteq> d" using F p n0(2) unfolding frontier_at_def by blast
    moreover have "walk g q (Suc n0) (max (ps_rank p) (evidenceRank (ed_Evidence e))) (edge_to (q_Dir q) e)"
      using n0(3) walk_hop.hyps(2,3) by (auto simp: shortest_def intro: walk.walk_hop)
    ultimately show ?case using complete n0(1) unfolding best_complete_def by (metis Suc_leI le_neq_implies_less)
  qed
  then show ?thesis unfolding best_complete_def by blast
qed

lemma best_right_mono: "best_right g q d B \<Longrightarrow> d \<le> m \<Longrightarrow> best_right g q m B"
  unfolding best_right_def by (meson order.trans)

lemma levels_best:
  assumes room: "roomy g q limit" and plan: "\<forall>es. mset (plan es) = mset es"
    and "best_right g q d best" and "best_complete g q d best" and "frontier_at d (set frontier) best"
    and "distinct (map fst best)" and "fst ` set best \<subseteq> graph_span g q"
  shows "\<exists>fr b. levels plan g q limit n (int d + 1) frontier tr best = (fr, tr, b) \<and>
     best_right g q (d + n) b \<and> best_complete g q (d + n) b \<and> distinct (map fst b) \<and> fst ` set b \<subseteq> graph_span g q"
  using assms(3-7)
proof (induction n arbitrary: d frontier tr best)
  case (Suc n)
  note right = Suc.prems(1) and complete = Suc.prems(2) and F = Suc.prems(3)
  show ?case
  proof (cases "frontier = []")
    case True
    then show ?thesis
      using Suc.prems frontier_empty_complete [OF right complete] best_right_mono [OF right] by simp
  next
    case False
    have "int (length best) \<le> int (card (graph_span g q))" using length_le_card [OF Suc.prems(4,5) finite_graph_span] by simp
    then have small: "\<not> limit \<le> int (length best)" using room unfolding roomy_def by linarith
    have old: "\<forall>y p. map_of best y = Some p \<longrightarrow> ps_depth p < int d + 1" using right unfolding best_right_def by fastforce
    have sub: "set frontier \<subseteq> fst ` set best" using F unfolding frontier_at_def by (metis map_of_eq_None_iff option.distinct(1) subsetI)
    obtain nx b where b: "expand plan g q (int d + 1) limit frontier best = (nx, False, b)"
      "level_inv (q_Dir q) (int d + 1) best ({} \<union> level_edges g q (set frontier)) b" "distinct (map fst b)"
      "fst ` set b \<subseteq> graph_span g q" "set nx = fst ` set b - fst ` set best" "fst ` set best \<subseteq> fst ` set b"
      using expand_level [OF level_inv_start old Suc.prems(4,5) room sub plan] by (elim exE conjE)
    note inv = b(2) [unfolded Un_empty_left]
    have "frontier_at (Suc d) (set nx) b" using level_frontier [OF right complete F inv] b(5) by simp
    from Suc.IH [OF level_right [OF right complete F inv] level_complete [OF right complete F inv] this b(3,4), of tr]
    show ?thesis using False small b(1) by (simp add: add.commute)
  qed
qed simp

lemma map_of_start: "map_of (start_map ids) y = (if y \<in> set ids then Some \<lparr>ps_depth = 0, ps_rank = 0, ps_via = EdgeOther []\<rparr> else None)"
proof -
  have "map_of (map (\<lambda>i. (i, c)) xs) y = (if y \<in> set xs then Some c else None)" for c :: pathState and xs by (induction xs) auto
  then show ?thesis by (simp add: start_map_def set_nub_from)
qed

lemma start_best:
  "best_right g q 0 (start_map (q_Start q))" "best_complete g q 0 (start_map (q_Start q))"
  "frontier_at 0 (set (nub_from [] (q_Start q))) (start_map (q_Start q))" "distinct (map fst (start_map (q_Start q)))"
  "fst ` set (start_map (q_Start q)) \<subseteq> graph_span g q"
proof -
  have "shortest g q 0 0 y" if "y \<in> set (q_Start q)" for y
    using that unfolding shortest_def by (auto intro: walk_start elim: walk_0E)
  then show "best_right g q 0 (start_map (q_Start q))" by (auto simp: best_right_def map_of_start split: if_splits)
  show "best_complete g q 0 (start_map (q_Start q))" by (auto simp: best_complete_def map_of_start elim: walk_0E)
  show "frontier_at 0 (set (nub_from [] (q_Start q))) (start_map (q_Start q))"
    by (auto simp: frontier_at_def map_of_start set_nub_from split: if_splits)
  show "distinct (map fst (start_map (q_Start q)))" by (simp add: start_map_def comp_def distinct_nub_from)
  show "fst ` set (start_map (q_Start q)) \<subseteq> graph_span g q" by (auto simp: start_map_def set_nub_from graph_span_def)
qed

lemma verify_nodes_map: "verify_nodes g ns = Inr out \<Longrightarrow> out = map (scanNode g) ns"
  by (induction ns arbitrary: out) (auto simp: verify_node_def split: sum.splits if_splits)

lemma scanNode_ID [simp]: "nd_ID (scanNode g n) = nd_ID n"
  by (simp add: scanNode_def)

lemma shortest_unique: "shortest g q n k x \<Longrightarrow> shortest g q n' k' x \<Longrightarrow> n = n' \<and> k = k'"
  unfolding shortest_def by (metis nat_neq_iff order_antisym less_not_sym)

lemma reached_of_scan:
  assumes "best_right g q d best" and "map_of best (nd_ID n) \<noteq> None"
  shows "\<exists>m k. m \<le> d \<and> shortest g q m k (nd_ID n) \<and> re_Depth (reached_of best (scanNode g n)) = int m \<and>
     re_Evidence (reached_of best (scanNode g n)) = rankToEvidence k"
proof -
  obtain p m where p: "map_of best (nd_ID n) = Some p" "m \<le> d" "ps_depth p = int m" "shortest g q m (ps_rank p) (nd_ID n)"
    using assms unfolding best_right_def by blast
  have "ps_rank p = 0" if "m = 0" using p(4) that by (auto simp: shortest_def elim: walk_0E)
  then have "re_Evidence (reached_of best (scanNode g n)) = rankToEvidence (ps_rank p)"
    using p(1,3) by (auto simp: reached_of_def Let_def rankToEvidence_def)
  moreover have "re_Depth (reached_of best (scanNode g n)) = int m" using p(1,3) by (simp add: reached_of_def Let_def)
  ultimately show ?thesis using p(2,4) by blast
qed

lemma Traverse_best:
  assumes "Traverse plan g q = Inr rs" and "q_Start q \<noteq> []" and "\<forall>es. mset (plan es) = mset es"
    and "roomy g q (if q_MaxNodes q \<le> 0 then DefaultMaxNodes else q_MaxNodes q)"
  obtains best where "set rs = reached_of best ` scanNode g ` {n \<in> set (g_nodes g). map_of best (nd_ID n) \<noteq> None}"
    and "best_right g q (nat (if q_MaxDepth q \<le> 0 then 1 else q_MaxDepth q)) best"
    and "best_complete g q (nat (if q_MaxDepth q \<le> 0 then 1 else q_MaxDepth q)) best"
proof -
  let ?limit = "if q_MaxNodes q \<le> 0 then DefaultMaxNodes else q_MaxNodes q"
  let ?n = "nat (if q_MaxDepth q \<le> 0 then 1 else q_MaxDepth q)"
  obtain fr b where b: "levels plan g q ?limit ?n 1 (nub_from [] (q_Start q)) False (start_map (q_Start q)) = (fr, False, b)"
    "best_right g q ?n b" "best_complete g q ?n b" "distinct (map fst b)" "fst ` set b \<subseteq> graph_span g q"
    using levels_best [OF assms(4,3) start_best, of ?n False] unfolding of_nat_0 add_0 by (elim exE conjE)
  have "int (length b) \<le> int (card (graph_span g q))" using length_le_card [OF b(4,5) finite_graph_span] by simp
  then have small: "\<not> ?limit \<le> int (length b)" using assms(4) unfolding roomy_def by linarith
  obtain nodes where nodes: "loadNodes g (map fst b) = Inr nodes" "rs = stable_sort reached_before (map (reached_of b) nodes)"
    using assms(1,2) b(1) small by (auto simp: Traverse_def Let_def split: if_splits option.splits sum.splits)
  have "nodes = map (scanNode g) (filter (\<lambda>n. nd_ID n \<in> set (map fst b)) (g_nodes g))"
    using nodes(1) unfolding loadNodes_def by (rule verify_nodes_map)
  then have "set rs = reached_of b ` scanNode g ` {n \<in> set (g_nodes g). map_of b (nd_ID n) \<noteq> None}"
    by (simp add: nodes(2) map_of_eq_None_iff image_image)
  then show ?thesis using that b(2,3) by blast
qed

lemma Traverse_image:
  assumes "Traverse plan g q = Inr rs" and "q_Start q \<noteq> []" and "\<forall>es. mset (plan es) = mset es"
    and "roomy g q (if q_MaxNodes q \<le> 0 then DefaultMaxNodes else q_MaxNodes q)"
  shows "(\<lambda>r. (re_Node r, re_Depth r, re_Evidence r)) ` set rs =
    {(scanNode g n, int d, rankToEvidence k) | n d k.
       n \<in> set (g_nodes g) \<and> int d \<le> (if q_MaxDepth q \<le> 0 then 1 else q_MaxDepth q) \<and> shortest g q d k (nd_ID n)}"
    (is "?L = ?R")
proof -
  obtain best where rs: "set rs = reached_of best ` scanNode g ` {n \<in> set (g_nodes g). map_of best (nd_ID n) \<noteq> None}"
    and right: "best_right g q (nat (if q_MaxDepth q \<le> 0 then 1 else q_MaxDepth q)) best"
    and complete: "best_complete g q (nat (if q_MaxDepth q \<le> 0 then 1 else q_MaxDepth q)) best"
    by (rule Traverse_best [OF assms])
  have node: "re_Node (reached_of best x) = x" for x by (simp add: reached_of_def Let_def)
  show ?thesis
  proof (intro subset_antisym subsetI)
    fix t assume "t \<in> ?L"
    then obtain n where n: "n \<in> set (g_nodes g)" "map_of best (nd_ID n) \<noteq> None"
      "t = (scanNode g n, re_Depth (reached_of best (scanNode g n)), re_Evidence (reached_of best (scanNode g n)))"
      unfolding rs by (auto simp: node)
    from reached_of_scan [OF right n(2)] n(1,3) show "t \<in> ?R" by (auto simp: le_nat_iff split: if_splits)
  next
    fix t assume "t \<in> ?R"
    then obtain n d k where t: "t = (scanNode g n, int d, rankToEvidence k)" "n \<in> set (g_nodes g)" "shortest g q d k (nd_ID n)"
      "d \<le> nat (if q_MaxDepth q \<le> 0 then 1 else q_MaxDepth q)" by (auto split: if_splits)
    then have some: "map_of best (nd_ID n) \<noteq> None" using complete unfolding best_complete_def shortest_def by blast
    obtain m k' where m: "shortest g q m k' (nd_ID n)" "re_Depth (reached_of best (scanNode g n)) = int m"
      "re_Evidence (reached_of best (scanNode g n)) = rankToEvidence k'" using reached_of_scan [OF right some] by blast
    have "m = d" "k' = k" using shortest_unique [OF m(1) t(3)] by auto
    then show "t \<in> ?L" unfolding rs t(1) using m t(2) some
      by (intro image_eqI [of _ _ "reached_of best (scanNode g n)"]) (auto simp: node)
  qed
qed

text \<open>
  C19. A traversal that its caps leave room for is exact.  It reports exactly the indexed nodes within
  the depth of the query, each at its least number of hops from the start nodes and with the strongest
  evidence among the paths of that length, where a path is as strong as its weakest edge; this is so
  whatever order the database returns rows in.
\<close>

theorem traverse_exact:
  assumes "Traverse plan g q = Inr rs" and "q_Start q \<noteq> []" and "\<forall>es. mset (plan es) = mset es"
    and "roomy g q (if q_MaxNodes q \<le> 0 then DefaultMaxNodes else q_MaxNodes q)"
  shows "(\<lambda>r. (re_Node r, re_Depth r, re_Evidence r)) ` set rs =
    {(scanNode g n, int d, rankToEvidence k) | n d k.
       n \<in> set (g_nodes g) \<and> int d \<le> (if q_MaxDepth q \<le> 0 then 1 else q_MaxDepth q) \<and> shortest g q d k (nd_ID n)}"
  using assms by (rule Traverse_image)

definition demo_node :: "int \<Rightarrow> Node" where
  "demo_node i = \<lparr>nd_ID = i, nd_WorkspaceID = ''w'', nd_RepositoryID = ''r'', nd_WorktreeID = [], nd_Kind = ''function'',
     nd_Name = ''f'', nd_FQN = ''f'' @ showInt i, nd_FileID = 0, nd_Path = [], nd_StartLine = 1, nd_EndLine = 2,
     nd_Signature = [], nd_Visibility = [], nd_ContentHash = [], nd_Attrs = ''{}''\<rparr>"

definition demo_edge :: "int \<Rightarrow> int \<Rightarrow> string \<Rightarrow> Edge" where
  "demo_edge a b src = \<lparr>ed_ID = 1, ed_WorkspaceID = ''w'', ed_Src = a, ed_Dst = b, ed_Kind = EdgeCalls,
     ed_Evidence = Resolved, ed_Source = src, ed_Confidence = 1, ed_Attrs = ''{}''\<rparr>"

definition demo_graph :: graph_db where
  "demo_graph = \<lparr>g_ws = ''w'', g_nodes = [demo_node 1, demo_node 2, demo_node 3],
     g_edges = [demo_edge 2 1 ''a'', demo_edge 3 2 ''a''], g_files = (\<lambda>_. None)\<rparr>"

definition demo_query :: Query where
  "demo_query = \<lparr>q_Start = [1], q_Dir = Reverse, q_Kinds = [], q_MaxDepth = 3, q_MaxNodes = 0, q_MinEvidence = []\<rparr>"

theorem traverse_exact_witness:
  "\<exists>rs. Traverse rev demo_graph demo_query = Inr rs \<and> length rs = 3 \<and>
     (\<lambda>r. (re_Node r, re_Depth r, re_Evidence r)) ` set rs =
     {(scanNode demo_graph n, int d, rankToEvidence k) | n d k.
        n \<in> set (g_nodes demo_graph) \<and> int d \<le> 3 \<and> shortest demo_graph demo_query d k (nd_ID n)}"
proof -
  have "case Traverse rev demo_graph demo_query of Inl _ \<Rightarrow> False | Inr rs \<Rightarrow> length rs = 3" by code_simp
  then obtain rs where rs: "Traverse rev demo_graph demo_query = Inr rs" "length rs = 3" by (auto split: sum.splits)
  have "roomy demo_graph demo_query (if q_MaxNodes demo_query \<le> 0 then DefaultMaxNodes else q_MaxNodes demo_query)"
    by code_simp
  from traverse_exact [OF rs(1) _ _ this] rs show ?thesis by (simp add: demo_query_def)
qed

section \<open>Impact reports\<close>

lemma get_nodes_IDs: "get_nodes g is = Inr ns \<Longrightarrow> map nd_ID ns = is"
proof (induction "is" arbitrary: ns)
  case (Cons i "is")
  obtain n rest where n: "get_node g i = Inr n" "get_nodes g is = Inr rest" "ns = n # rest"
    using Cons.prems by (auto split: sum.splits)
  then have "nd_ID n = i"
    by (auto simp: get_node_def verify_node_def find_Some_iff split: option.splits if_splits)
  then show ?case using Cons.IH n by simp
qed simp

lemma consumer_weak: "weak_order consumer_before"
  unfolding weak_order_def consumer_before_def by (auto split: if_splits)

definition impact_query :: "int list \<Rightarrow> Query" where
  "impact_query changed = \<lparr>q_Start = changed, q_Dir = Reverse, q_Kinds = [], q_MaxDepth = 3,
     q_MaxNodes = DefaultMaxNodes, q_MinEvidence = []\<rparr>"

lemma ImpactOf_parts:
  assumes "ImpactOf plan g changed kind = Inr imp" and "changed \<noteq> []"
  obtains reached where "Traverse plan g (impact_query changed) = Inr reached"
    and "set (im_Consumers imp) = consumer_of kind ` {r \<in> set reached. nd_ID (re_Node r) \<notin> set changed}"
    and "sorted_by consumer_before (im_Consumers imp)"
proof -
  obtain nodes reached where n: "get_nodes g changed = Inr nodes" "Traverse plan g (impact_query changed) = Inr reached"
    "imp = buildImpact nodes kind reached (int (length reached) \<ge> DefaultMaxNodes)"
    using assms by (auto simp: ImpactOf_def impact_query_def split: sum.splits)
  have "set (map nd_ID nodes) = set changed" using get_nodes_IDs [OF n(1)] by simp
  then have "set (im_Consumers imp) = consumer_of kind ` {r \<in> set reached. nd_ID (re_Node r) \<notin> set changed}"
    unfolding n(3) buildImpact_def Let_def by simp
  moreover have "sorted_by consumer_before (im_Consumers imp)"
    unfolding n(3) buildImpact_def Let_def by (simp add: sorted_by_stable_sort consumer_weak)
  ultimately show ?thesis using that n(2) by blast
qed

lemma consumer_of_sel [simp]:
  "co_Node (consumer_of kind r) = re_Node r" "co_Depth (consumer_of kind r) = re_Depth r"
  "co_Evidence (consumer_of kind r) = re_Evidence r"
  by (simp_all add: consumer_of_def Let_def)

lemma verdictFor_uncertain: "\<not> Certain ev \<Longrightarrow> fst (verdictFor change via ev) = Undetermined"
  by (simp add: verdictFor_def)

lemma uncertain_undetermined: "\<not> Certain (co_Evidence (consumer_of kind r)) \<Longrightarrow> co_Verdict (consumer_of kind r) = Undetermined"
  by (cases "Certain (re_Evidence r)") (simp_all add: consumer_of_def [of kind r] Let_def verdictFor_uncertain)

lemma breaking_first: "sorted_by consumer_before cs \<Longrightarrow> sorted_wrt (\<lambda>a b. compat_order (co_Verdict a) \<le> compat_order (co_Verdict b)) cs"
  unfolding sorted_by_def by (erule sorted_wrt_mono_rel [rotated]) (simp add: consumer_before_def split: if_splits)



text \<open>Many edges from one caller to one changed node, as several analyzers report them.\<close>

definition parallel_edges :: "nat \<Rightarrow> Edge list" where
  "parallel_edges n = map (\<lambda>i. demo_edge 2 1 (showNat i)) [0..<n]"

definition crowded_graph :: "nat \<Rightarrow> graph_db" where
  "crowded_graph n = \<lparr>g_ws = ''w'', g_nodes = [demo_node 1, demo_node 2, demo_node 3],
     g_edges = parallel_edges n @ [demo_edge 3 1 ''a''], g_files = (\<lambda>_. None)\<rparr>"

lemma fetch_parallel_seen:
  "map_of b 2 = Some \<lparr>ps_depth = 1, ps_rank = 0, ps_via = EdgeCalls\<rparr> \<Longrightarrow> list_all (\<lambda>e. ed_Src e = 2) es \<Longrightarrow>
     fetchHop Reverse 1 limit es b = ([], int (length es), False, b)"
  by (induction es) (simp_all add: edge_to_def)

lemma parallel_simps:
  "length (parallel_edges n) = n" "list_all (\<lambda>e. ed_Src e = 2 \<and> ed_Dst e = 1) (parallel_edges n)"
  "parallel_edges (Suc n) = demo_edge 2 1 (showNat 0) # map (\<lambda>i. demo_edge 2 1 (showNat (Suc i))) [0..<n]"
  by (simp_all add: parallel_edges_def list_all_iff demo_edge_def map_upt_Suc del: upt_Suc)

lemma fetch_parallel:
  "fetchHop Reverse 1 DefaultMaxNodes (parallel_edges (Suc n)) (start_map [1]) =
     ([2], int (Suc n), False, start_map [1] @ [(2, \<lparr>ps_depth = 1, ps_rank = 0, ps_via = EdgeCalls\<rparr>)])"
  unfolding parallel_simps(3)
  by (simp add: start_map_def edge_to_def edge_from_def demo_edge_def DefaultMaxNodes_def parent_rank_def evidenceRank_def
      fetch_parallel_seen list_all_iff del: upt_Suc)

lemma crowded_rows: "hop_rows id (crowded_graph n) (impact_query [1]) [1] = g_edges (crowded_graph n)"
  using parallel_simps(2) [of n]
  by (simp add: hop_rows_def crowded_graph_def impact_query_def edge_from_def edge_selected_def list_all_iff filter_id_conv demo_edge_def)

lemma crowded_rows2: "hop_rows id (crowded_graph n) (impact_query [1]) [2] = []"
  using parallel_simps(2) [of n]
  by (simp add: hop_rows_def crowded_graph_def impact_query_def edge_from_def edge_selected_def list_all_iff filter_empty_conv demo_edge_def)

lemma crowded_expand:
  "expand id (crowded_graph 19996) (impact_query [1]) 1 DefaultMaxNodes [1] (start_map [1]) =
     ([2], True, start_map [1] @ [(2, \<lparr>ps_depth = 1, ps_rank = 0, ps_via = EdgeCalls\<rparr>)])"
proof -
  have n: "nat ((DefaultMaxNodes - int (length (start_map [1]))) * 4) = 19996" by (simp add: DefaultMaxNodes_def start_map_def)
  have rows: "take 19996 (g_edges (crowded_graph 19996)) = parallel_edges (Suc 19995)"
    using parallel_simps(1) [of 19996] by (simp add: crowded_graph_def)
  have chunk: "take expandBatch [1::int] = [1]" by (simp add: expandBatch_def)
  have dir: "q_Dir (impact_query [1]) = Reverse" by (simp add: impact_query_def)
  show ?thesis
    unfolding expand.simps [of _ _ _ _ _ "[1]"] chunk crowded_rows n rows Let_def dir fetch_parallel
    by (simp add: DefaultMaxNodes_def start_map_def)
qed

lemma crowded_levels:
  "levels id (crowded_graph 19996) (impact_query [1]) DefaultMaxNodes 3 1 [1] False (start_map [1]) =
     ([], True, start_map [1] @ [(2, \<lparr>ps_depth = 1, ps_rank = 0, ps_via = EdgeCalls\<rparr>)])"
proof -
  have "expand id (crowded_graph 19996) (impact_query [1]) 2 DefaultMaxNodes [2]
      (start_map [1] @ [(2, \<lparr>ps_depth = 1, ps_rank = 0, ps_via = EdgeCalls\<rparr>)]) =
    ([], False, start_map [1] @ [(2, \<lparr>ps_depth = 1, ps_rank = 0, ps_via = EdgeCalls\<rparr>)])"
    unfolding expand.simps [of _ _ _ _ _ "[2]"]
    by (simp add: expandBatch_def crowded_rows2 DefaultMaxNodes_def start_map_def expand.simps [of _ _ _ _ _ "[]"])
  moreover have "length (start_map [1]) = 1" by (simp add: start_map_def)
  moreover have "\<not> DefaultMaxNodes \<le> 1" "\<not> DefaultMaxNodes \<le> 2" by (simp_all add: DefaultMaxNodes_def)
  ultimately show ?thesis by (simp add: numeral_3_eq_3 crowded_expand)
qed

lemma crowded_sel:
  "g_ws (crowded_graph n) = ''w''" "g_nodes (crowded_graph n) = [demo_node 1, demo_node 2, demo_node 3]"
  "scanNode (crowded_graph n) (demo_node i) = demo_node i" "nd_ID (demo_node i) = i" "nd_WorkspaceID (demo_node i) = ''w''"
  "demo_edge 3 1 ''a'' \<in> set (g_edges (crowded_graph n))"
  by (simp_all add: crowded_graph_def scanNode_def demo_node_def)

lemma crowded_Traverse:
  "Traverse id (crowded_graph 19996) (impact_query [1]) =
     Inr [\<lparr>re_Node = demo_node 1, re_Depth = 0, re_Via = EdgeOther [], re_Evidence = Resolved\<rparr>,
          \<lparr>re_Node = demo_node 2, re_Depth = 1, re_Via = EdgeCalls, re_Evidence = Resolved\<rparr>]"
proof -
  have q: "q_Start (impact_query [1]) = [1]" "q_MaxDepth (impact_query [1]) = 3" "q_MaxNodes (impact_query [1]) = DefaultMaxNodes"
    "q_MinEvidence (impact_query [1]) = []" "nub_from [] [1::int] = [1]" "\<not> DefaultMaxNodes \<le> 0" "nat 3 = 3" "\<not> 3 \<le> (0::int)"
    "\<not> 3 > MaxTraversalDepth" by (simp_all add: impact_query_def DefaultMaxNodes_def MaxTraversalDepth_def)
  have "loadNodes (crowded_graph 19996) (map fst (start_map [1] @ [(2, \<lparr>ps_depth = 1, ps_rank = 0, ps_via = EdgeCalls\<rparr>)])) =
      Inr [demo_node 1, demo_node 2]"
    by (simp add: loadNodes_def crowded_sel start_map_def verify_node_def)
  then show ?thesis
    unfolding Traverse_def q Let_def if_False simp_thms(6) list.distinct not_Cons_self2 find.simps option.case if_not_P [OF q(6)] if_not_P [OF q(8)] if_not_P [OF q(9)] crowded_levels
    by (simp add: crowded_levels q reached_of_def start_map_def Let_def crowded_sel reached_before_def rankToEvidence_def DefaultMaxNodes_def)
qed

text \<open>
  A report can be a lower bound without saying so.  With one changed function, a caller that is
  linked to it by 19996 edges and a second caller whose edge comes last, the row cap of a hop cuts
  the second caller off: the report lists one consumer and is not marked truncated, although the
  second caller calls the changed function directly.
\<close>

theorem impact_truncation_unflagged:
  "\<exists>imp. ImpactOf id (crowded_graph 19996) [1] ChangeSignature = Inr imp \<and> \<not> im_Truncated imp \<and>
     map (\<lambda>c. nd_ID (co_Node c)) (im_Consumers imp) = [2] \<and>
     demo_edge 3 1 ''a'' \<in> set (g_edges (crowded_graph 19996)) \<and> demo_node 3 \<in> set (g_nodes (crowded_graph 19996))"
proof -
  let ?g = "crowded_graph 19996"
  have "get_nodes ?g [1] = Inr [demo_node 1]" by (simp add: get_node_def verify_node_def crowded_sel)
  then have "ImpactOf id ?g [1] ChangeSignature =
      Inr (buildImpact [demo_node 1] ChangeSignature
        [\<lparr>re_Node = demo_node 1, re_Depth = 0, re_Via = EdgeOther [], re_Evidence = Resolved\<rparr>,
         \<lparr>re_Node = demo_node 2, re_Depth = 1, re_Via = EdgeCalls, re_Evidence = Resolved\<rparr>] False)"
    using crowded_Traverse unfolding ImpactOf_def impact_query_def by (simp add: DefaultMaxNodes_def)
  then show ?thesis by (simp add: buildImpact_def Let_def crowded_sel consumer_of_def)
qed

end
