(* ===== verification/GraphStore.thy ===== *)
theory GraphStore
  imports Graph
begin

text \<open>
  What the tables of the code graph keep: the invariant of \<^verbatim>\<open>UpsertNodes\<close> of
  \<^verbatim>\<open>src/internal/graph/sqlite.go\<close> and the round trip from an upsert to a lookup.
\<close>

section \<open>The node table\<close>

definition rows_inv :: "string \<Rightarrow> Node list \<Rightarrow> bool" where
  "rows_inv ws rows \<longleftrightarrow> distinct (map nd_ID rows) \<and> distinct (map node_key rows) \<and>
     list_all (\<lambda>n. nd_WorkspaceID n = ws \<and> nd_Kind n \<in> set nodeKinds) rows"

text \<open>A node as it is stored: attributed to the handle's workspace, with its number and without a path.\<close>

definition stored :: "string \<Rightarrow> int \<Rightarrow> Node \<Rightarrow> Node" where
  "stored ws i n = n\<lparr>nd_ID := i, nd_WorkspaceID := ws, nd_Path := [], nd_Attrs := (if nd_Attrs n = [] then ''{}'' else nd_Attrs n)\<rparr>"

lemma stored_sel [simp]:
  "nd_ID (stored ws i n) = i" "node_key (stored ws i n) = node_key n" "nd_WorkspaceID (stored ws i n) = ws"
  "nd_Kind (stored ws i n) = nd_Kind n"
  by (simp_all add: stored_def node_key_def)

lemma upsert_row_new:
  "list_all (\<lambda>r. node_key r \<noteq> node_key n) rows \<Longrightarrow>
     upsert_row ws n rows = (max_of (map nd_ID rows) + 1, rows @ [stored ws (max_of (map nd_ID rows) + 1) n])"
proof -
  assume "list_all (\<lambda>r. node_key r \<noteq> node_key n) rows"
  then have "find (\<lambda>r. node_key r = node_key n) rows = None" by (auto simp: list_all_iff find_None_iff)
  then show ?thesis by (cases n) (simp add: upsert_row_def Let_def stored_def)
qed

lemma find_unique:
  assumes "r \<in> set xs" and "P r" and only: "\<And>x. x \<in> set xs \<Longrightarrow> P x \<Longrightarrow> x = r"
  shows "find P xs = Some r"
proof (cases "find P xs")
  case None
  then show ?thesis using assms(1,2) by (auto simp: find_None_iff)
next
  case (Some y)
  then have "y \<in> set xs" "P y" by (auto simp: find_Some_iff)
  from only [OF this] Some show ?thesis by (simp only:)
qed

lemma upsert_row_old:
  assumes "rows_inv ws rows" and "r \<in> set rows" and "node_key r = node_key n"
  shows "upsert_row ws n rows = (nd_ID r, map (\<lambda>x. if node_key x = node_key n then stored ws (nd_ID r) n else x) rows)"
proof -
  have uniq: "x = r" if "x \<in> set rows" "node_key x = node_key n" for x
    using assms that by (auto simp: rows_inv_def distinct_map inj_on_def)
  have "find (\<lambda>r. node_key r = node_key n) rows = Some r" by (rule find_unique) (rule assms(2), rule assms(3), rule uniq)
  then have "upsert_row ws n rows = (nd_ID r, map (\<lambda>x. if node_key x = node_key n
      then n\<lparr>nd_WorkspaceID := ws, nd_Attrs := (if nd_Attrs n = [] then ''{}'' else nd_Attrs n), nd_Path := [],
             nd_ID := nd_ID x, nd_WorkspaceID := nd_WorkspaceID x\<rparr> else x) rows)"
    by (simp add: upsert_row_def Let_def)
  moreover have "n\<lparr>nd_WorkspaceID := ws, nd_Attrs := (if nd_Attrs n = [] then ''{}'' else nd_Attrs n), nd_Path := [],
      nd_ID := nd_ID x, nd_WorkspaceID := nd_WorkspaceID x\<rparr> = stored ws (nd_ID r) n"
    if "x \<in> set rows" "node_key x = node_key n" for x
  proof -
    have "nd_WorkspaceID r = ws" using assms(1,2) by (simp add: rows_inv_def list_all_iff)
    then show ?thesis unfolding uniq [OF that] by (cases n) (simp add: stored_def)
  qed
  ultimately show ?thesis by (simp cong: map_cong)
qed

lemma upsert_row_keeps:
  assumes inv: "rows_inv ws rows" and kind: "nd_Kind n \<in> set nodeKinds"
  shows "rows_inv ws (snd (upsert_row ws n rows)) \<and>
     stored ws (fst (upsert_row ws n rows)) n \<in> set (snd (upsert_row ws n rows)) \<and>
     (\<forall>r \<in> set rows. node_key r \<noteq> node_key n \<longrightarrow> r \<in> set (snd (upsert_row ws n rows)))"
proof (cases "list_all (\<lambda>r. node_key r \<noteq> node_key n) rows")
  case True
  have "max_of (map nd_ID rows) + 1 \<notin> set (map nd_ID rows)" using max_of_upper by fastforce
  then show ?thesis using inv kind True unfolding upsert_row_new [OF True] by (auto simp: rows_inv_def list_all_iff)
next
  case False
  then obtain r where r: "r \<in> set rows" "node_key r = node_key n" by (auto simp: list_all_iff)
  let ?f = "\<lambda>x. if node_key x = node_key n then stored ws (nd_ID r) n else x"
  have "nd_ID (?f x) = nd_ID x" if "x \<in> set rows" for x
    using inv r that by (auto simp: rows_inv_def distinct_map inj_on_def)
  then have "map nd_ID (map ?f rows) = map nd_ID rows" by simp
  moreover have "map node_key (map ?f rows) = map node_key rows" by simp
  moreover have "list_all (\<lambda>n. nd_WorkspaceID n = ws \<and> nd_Kind n \<in> set nodeKinds) (map ?f rows)"
    using inv kind by (auto simp: rows_inv_def list_all_iff)
  ultimately have "rows_inv ws (map ?f rows)" using inv unfolding rows_inv_def by presburger
  then show ?thesis unfolding upsert_row_old [OF inv r] using r by auto
qed

lemma upsert_all_keeps:
  assumes "upsert_all ws k ns rows = Inr (ids, rows')" and "rows_inv ws rows"
  shows "rows_inv ws rows' \<and> length ids = length ns \<and>
     (\<forall>i < length ns. (\<forall>j. i < j \<and> j < length ns \<longrightarrow> node_key (ns ! j) \<noteq> node_key (ns ! i)) \<longrightarrow>
        stored ws (ids ! i) (ns ! i) \<in> set rows') \<and>
     (\<forall>r \<in> set rows. node_key r \<notin> node_key ` set ns \<longrightarrow> r \<in> set rows')"
  using assms
proof (induction ns arbitrary: k rows ids)
  case (Cons n ns)
  let ?r = "upsert_row ws n rows"
  obtain ids0 where t: "nd_Kind n \<in> set nodeKinds" "upsert_all ws (k + 1) ns (snd ?r) = Inr (ids0, rows')" "ids = fst ?r # ids0"
    using Cons.prems(1) by (auto simp: Let_def split: if_splits sum.splits)
  note row = upsert_row_keeps [OF Cons.prems(2) t(1)]
  note IH = Cons.IH [OF t(2) conjunct1 [OF row]]
  have "stored ws (ids ! i) ((n # ns) ! i) \<in> set rows'"
    if "i < length (n # ns)" and "\<forall>j. i < j \<and> j < length (n # ns) \<longrightarrow> node_key ((n # ns) ! j) \<noteq> node_key ((n # ns) ! i)" for i
  proof (cases i)
    case 0
    have "node_key n \<notin> node_key ` set ns"
    proof
      assume "node_key n \<in> node_key ` set ns"
      then obtain m where "m < length ns" "node_key (ns ! m) = node_key n" by (auto simp: in_set_conv_nth)
      then show False using spec [OF that(2), of "Suc m"] 0 by simp
    qed
    then show ?thesis using row IH t(3) 0 by auto
  next
    case (Suc j)
    have "stored ws (ids0 ! j) (ns ! j) \<in> set rows'"
      using that(1) spec [OF that(2), of "Suc _"] IH unfolding Suc by simp
    then show ?thesis using t(3) Suc by simp
  qed
  then show ?case using row IH t(3) by auto
qed simp

definition graph_inv :: "graph_db \<Rightarrow> bool" where
  "graph_inv g \<longleftrightarrow> rows_inv (g_ws g) (g_nodes g)"

lemma get_node_row:
  assumes "graph_inv g" and "r \<in> set (g_nodes g)"
  shows "get_node g (nd_ID r) = Inr (scanNode g r)"
proof -
  have uniq: "x = r" if "x \<in> set (g_nodes g)" "nd_ID x = nd_ID r" for x
    using assms that by (auto simp: graph_inv_def rows_inv_def distinct_map inj_on_def)
  have "find (\<lambda>n. nd_ID n = nd_ID r) (g_nodes g) = Some r"
    by (rule find_unique [OF assms(2) refl uniq])
  then show ?thesis using assms by (auto simp: get_node_def verify_node_def scanNode_def graph_inv_def rows_inv_def list_all_iff)
qed

text \<open>
  C37. What is upserted is what is read.  An upsert that succeeds returns one number per node; reading
  a number back gives the node that was passed (the last one, when a batch names the same entity
  twice), attributed to the workspace of the handle whatever the caller wrote there; nodes the batch
  does not name are still there, and numbers and names stay unique.
\<close>

theorem upsert_then_get:
  assumes "graph_inv g" and "UpsertNodes ok ns g = (Inr ids, g')"
  shows "graph_inv g' \<and> length ids = length ns \<and>
    (\<forall>i < length ns. (\<forall>j. i < j \<and> j < length ns \<longrightarrow> node_key (ns ! j) \<noteq> node_key (ns ! i)) \<longrightarrow>
       get_node g' (ids ! i) = Inr (scanNode g' (stored (g_ws g) (ids ! i) (ns ! i)))) \<and>
    (\<forall>r \<in> set (g_nodes g). node_key r \<notin> node_key ` set ns \<longrightarrow> get_node g' (nd_ID r) = get_node g (nd_ID r))"
proof -
  obtain rows where up: "upsert_all (g_ws g) 0 ns (g_nodes g) = Inr (ids, rows)" and g': "g' = g\<lparr>g_nodes := rows\<rparr>"
    using assms(2) by (auto simp: UpsertNodes_def split: sum.splits prod.splits if_splits)
  note keeps = upsert_all_keeps [OF up assms(1) [unfolded graph_inv_def]]
  have inv: "graph_inv g'" using keeps by (simp add: g' graph_inv_def)
  have same: "scanNode (g\<lparr>g_nodes := rows\<rparr>) r = scanNode g r" for r by (simp add: scanNode_def)
  have "get_node g' (nd_ID r) = get_node g (nd_ID r)" if "r \<in> set (g_nodes g)" "node_key r \<notin> node_key ` set ns" for r
    using get_node_row [OF inv, of r] get_node_row [OF assms(1) that(1)] keeps that same by (simp add: g')
  moreover have "get_node g' (ids ! i) = Inr (scanNode g' (stored (g_ws g) (ids ! i) (ns ! i)))"
    if "i < length ns" "\<forall>j. i < j \<and> j < length ns \<longrightarrow> node_key (ns ! j) \<noteq> node_key (ns ! i)" for i
    using get_node_row [OF inv, of "stored (g_ws g) (ids ! i) (ns ! i)"] keeps that by (simp add: g')
  ultimately show ?thesis using keeps inv by blast
qed

theorem upsert_then_get_witness:
  "\<exists>ids g'. UpsertNodes True [demo_node 0, demo_node 7] demo_graph = (Inr ids, g') \<and> length ids = 2 \<and> graph_inv g' \<and>
     get_node g' (ids ! 1) = Inr (scanNode g' (stored ''w'' (ids ! 1) (demo_node 7)))"
proof -
  have inv: "graph_inv demo_graph" unfolding graph_inv_def rows_inv_def by code_simp
  have "is_ok (fst (UpsertNodes True [demo_node 0, demo_node 7] demo_graph))" by code_simp
  then obtain ids g' where up: "UpsertNodes True [demo_node 0, demo_node 7] demo_graph = (Inr ids, g')"
    by (auto simp: is_ok_iff prod_eq_iff)
  have "g_ws demo_graph = ''w''" by (simp add: demo_graph_def)
  then show ?thesis using upsert_then_get [OF inv up] up by (fastforce simp: numeral_2_eq_2)
qed

end
