(* ===== verification/Retrieval.thy ===== *)
theory Retrieval
  imports Memory GraphStore
begin

text \<open>
  Context retrieval: \<^verbatim>\<open>slice.go\<close>, \<^verbatim>\<open>retriever.go\<close> and \<^verbatim>\<open>ripgrep.go\<close> under \<^verbatim>\<open>src/internal/retrieval\<close>.  The full-text query of
  SQLite and the \<^verbatim>\<open>rg\<close> process are arguments; the code graph, the project cards and the notes are the models of
  their own theories.
\<close>

section \<open>Slices\<close>

datatype Origin = OriginAnchor | OriginGraph | OriginImpact | OriginExplicit | OriginUnset

record RSlice =
  sx_WorkspaceID :: string
  sx_RepositoryID :: string
  sx_WorktreeID :: string
  sx_Path :: string
  sx_Symbol :: string
  sx_ContentHash :: string
  sx_IndexVersion :: int
  sx_NodeID :: int
  sx_Kind :: string
  sx_StartLine :: int
  sx_EndLine :: int
  sx_Signature :: string
  sx_Body :: string
  sx_Origin :: Origin
  sx_Score :: rat
  sx_Depth :: int
  sx_Via :: "EdgeKind option"
  sx_Evidence :: "Evidence option"

definition TokenEstimate :: "RSlice \<Rightarrow> int" where
  "TokenEstimate s = int ((length (sx_Signature s) + length (sx_Body s) + length (sx_Path s) + length (sx_Symbol s)) div 4 + 8)"

datatype slice_error =
    NoWorkspaceID string | NoRepositoryID string | NoPath string | NoContentHash string | NoIndexVersion string | NoOrigin string
  | ForeignSlice string string string

definition slice_Validate :: "RSlice \<Rightarrow> slice_error option" where
  "slice_Validate s =
     (if sx_WorkspaceID s = [] then Some (NoWorkspaceID (sx_Path s))
      else if sx_RepositoryID s = [] then Some (NoRepositoryID (sx_Path s))
      else if sx_Path s = [] then Some (NoPath (sx_Symbol s))
      else if sx_ContentHash s = [] then Some (NoContentHash (sx_Path s))
      else if sx_IndexVersion s = 0 then Some (NoIndexVersion (sx_Path s))
      else if sx_Origin s = OriginUnset then Some (NoOrigin (sx_Path s))
      else None)"

definition slice_verdict :: "string \<Rightarrow> RSlice \<Rightarrow> slice_error option" where
  "slice_verdict active s =
     (if sx_WorkspaceID s \<noteq> active then Some (ForeignSlice active (sx_WorkspaceID s) (sx_Path s)) else slice_Validate s)"

definition Guard :: "string \<Rightarrow> RSlice list \<Rightarrow> RSlice list \<times> slice_error list" where
  "Guard active ss = (filter (\<lambda>s. slice_verdict active s = None) ss, List.map_filter (slice_verdict active) ss)"

section \<open>Budget shares\<close>

text \<open>
  \<^verbatim>\<open>int(float64(budget) * 0.15)\<close>: the constant is the nearest binary fraction, the product is rounded to 53 bits,
  ties to even, and the result is cut.
\<close>

function bits :: "int \<Rightarrow> nat" where
  "bits n = (if n \<le> 0 then 0 else Suc (bits (n div 2)))"
  by pat_completeness auto

termination
  by (relation "measure nat") auto

declare bits.simps [simp del]

definition round_bits :: "nat \<Rightarrow> int \<Rightarrow> int" where
  "round_bits k m =
     (let q = m div 2 ^ k; r = m mod 2 ^ k in
      (if 2 * r > 2 ^ k \<or> (2 * r = 2 ^ k \<and> odd q) then q + 1 else q) * 2 ^ k)"

definition float_share :: "int \<Rightarrow> nat \<Rightarrow> int \<Rightarrow> int" where
  "float_share mant sh n = (let m = mant * n in round_bits (bits m - 53) m div 2 ^ sh)"

definition MemoryBudget :: "int \<Rightarrow> int" where "MemoryBudget = float_share 5404319552844595 55"
definition GraphBudget :: "int \<Rightarrow> int" where "GraphBudget = float_share 5944751508129055 54"

section \<open>The retriever\<close>

record RRequest =
  rx_Root :: string
  rx_Query :: string
  rx_Symbols :: "string list"
  rx_MaxAnchors :: int
  rx_ExpandDepth :: int
  rx_ExpandKinds :: "EdgeKind list"
  rx_ImpactOf :: "string list"
  rx_ImpactChange :: "ChangeKind option"
  rx_TokenBudget :: int

definition DefaultTokenBudget :: int where "DefaultTokenBudget = 6000"

record RPacket =
  rp_ProjectNotes :: "ProjectCard list"
  rp_WorkspaceID :: string
  rp_Slices :: "RSlice list"
  rp_Tokens :: int
  rp_Budget :: int
  rp_Rejected :: "slice_error list"
  rp_Dropped :: int
  rp_Impact :: "Impact option"
  rp_Notes :: "Note list"
  rp_NotesDropped :: int

datatype build_error = BGraph graph_error | BSearch string | BRepository | BCard card_error

record Retriever =
  rv_graph :: graph_db
  rv_rowOrder :: "Edge list \<Rightarrow> Edge list"
  rv_fts :: "string \<Rightarrow> int \<Rightarrow> string + RSlice list"
  rv_repository :: "string option option"
  rv_cards :: "string \<Rightarrow> string \<Rightarrow> (string \<Rightarrow> string + bool) \<Rightarrow> card_error + ProjectCard list"
  rv_memory :: "(mem_error + (string \<times> Note list) list) option"

definition termByte :: "char \<Rightarrow> bool" where
  "termByte c = (let b = (of_char c :: nat) in
     c \<in> set ''_./-'' \<or> (97 \<le> b \<and> b \<le> 122) \<or> (65 \<le> b \<and> b \<le> 90) \<or> (48 \<le> b \<and> b \<le> 57))"

lemma termByte_code [code]: "termByte c = (let b = byte_code c in c \<in> set ''_./-'' \<or> (97 \<le> b \<and> b \<le> 122) \<or> (65 \<le> b \<and> b \<le> 90) \<or> (48 \<le> b \<and> b \<le> 57))"
  by (simp add: termByte_def byte_code_eq Let_def)

text \<open>\<^verbatim>\<open>strings.FieldsFunc\<close> for a separator given by its complement; bytes above 127 separate.\<close>

fun fieldsOf :: "(char \<Rightarrow> bool) \<Rightarrow> string \<Rightarrow> string \<Rightarrow> string list" where
  "fieldsOf P cur [] = (if cur = [] then [] else [rev cur])"
| "fieldsOf P cur (c # s) = (if P c then fieldsOf P (c # cur) s else (if cur = [] then [] else [rev cur]) @ fieldsOf P [] s)"

definition dquote :: char where "dquote = CHR 0x22"

definition quoted :: "string \<Rightarrow> string" where
  "quoted t = [dquote] @ concat (map (\<lambda>c. if c = dquote then [dquote, dquote] else [c]) t) @ [dquote]"

definition ftsQuery :: "string \<Rightarrow> string" where
  "ftsQuery q = joinWith '' OR '' (map quoted (filter (\<lambda>t. length t \<ge> 2) (fieldsOf termByte [] q)))"

text \<open>The rows of the full-text query carry the columns it selects; the rest is set here.\<close>

definition anchors :: "Retriever \<Rightarrow> string \<Rightarrow> int \<Rightarrow> build_error + RSlice list" where
  "anchors r query limit =
     (let match = ftsQuery query in
      if match = [] then Inr []
      else case rv_fts r match limit of
             Inl e \<Rightarrow> Inl (BSearch e)
           | Inr rows \<Rightarrow> Inr (map (\<lambda>s. s\<lparr>sx_WorkspaceID := g_ws (rv_graph r), sx_Origin := OriginAnchor, sx_Symbol := sx_Path s\<rparr>) rows))"

definition IndexerVersion :: int where "IndexerVersion = 1"

definition sliceFromNode :: "Node \<Rightarrow> Origin \<Rightarrow> rat \<Rightarrow> int \<Rightarrow> EdgeKind option \<Rightarrow> Evidence option \<Rightarrow> RSlice" where
  "sliceFromNode n origin sc depth via ev =
     \<lparr>sx_WorkspaceID = nd_WorkspaceID n, sx_RepositoryID = nd_RepositoryID n, sx_WorktreeID = nd_WorktreeID n,
      sx_Path = (if nd_Path n = [] then nd_FQN n else nd_Path n), sx_Symbol = nd_Name n,
      sx_ContentHash = (if nd_ContentHash n = [] then ''fqn:'' @ nd_FQN n else nd_ContentHash n), sx_IndexVersion = IndexerVersion,
      sx_NodeID = nd_ID n, sx_Kind = nd_Kind n, sx_StartLine = nd_StartLine n, sx_EndLine = nd_EndLine n, sx_Signature = nd_Signature n, sx_Body = [],
      sx_Origin = origin, sx_Score = sc, sx_Depth = depth, sx_Via = via, sx_Evidence = ev\<rparr>"

fun symbol_slices :: "Retriever \<Rightarrow> string list \<Rightarrow> build_error + RSlice list" where
  "symbol_slices r [] = Inr []"
| "symbol_slices r (x # xs) =
     (case NodesByName (rv_graph r) x [] 10 of
        Inl e \<Rightarrow> Inl (BGraph e)
      | Inr ns \<Rightarrow> (case symbol_slices r xs of Inl e \<Rightarrow> Inl e
                  | Inr rest \<Rightarrow> Inr (map (\<lambda>n. sliceFromNode n OriginExplicit 1 0 None None) ns @ rest)))"

definition nodeIDs :: "RSlice list \<Rightarrow> int list" where
  "nodeIDs ss = nub_from [] (filter (\<lambda>i. i \<noteq> 0) (map sx_NodeID ss))"

definition expansion :: "Retriever \<Rightarrow> RRequest \<Rightarrow> RSlice list \<Rightarrow> build_error + RSlice list" where
  "expansion r req seeds =
     (if rx_ExpandDepth req \<le> 0 \<or> nodeIDs seeds = [] then Inr []
      else case Traverse (rv_rowOrder r) (rv_graph r) \<lparr>q_Start = nodeIDs seeds, q_Dir = Forward, q_Kinds = rx_ExpandKinds req,
                  q_MaxDepth = rx_ExpandDepth req, q_MaxNodes = 500, q_MinEvidence = []\<rparr> of
             Inl e \<Rightarrow> Inl (BGraph e)
           | Inr reached \<Rightarrow>
               Inr (map (\<lambda>rc. sliceFromNode (re_Node rc) OriginGraph (1 / (2 * rat_of_int (re_Depth rc))) (re_Depth rc) (Some (re_Via rc)) (Some (re_Evidence rc)))
                        (filter (\<lambda>rc. re_Depth rc \<noteq> 0) reached)))"

fun named_ids :: "Retriever \<Rightarrow> string list \<Rightarrow> build_error + int list" where
  "named_ids r [] = Inr []"
| "named_ids r (x # xs) =
     (case NodesByName (rv_graph r) x [] 10 of
        Inl e \<Rightarrow> Inl (BGraph e)
      | Inr ns \<Rightarrow> (case named_ids r xs of Inl e \<Rightarrow> Inl e | Inr rest \<Rightarrow> Inr (map nd_ID ns @ rest)))"

definition retriever_impact :: "Retriever \<Rightarrow> string list \<Rightarrow> ChangeKind option \<Rightarrow> build_error + Impact" where
  "retriever_impact r symbols kind =
     (case named_ids r symbols of
        Inl e \<Rightarrow> Inl e
      | Inr ids \<Rightarrow> (case ImpactOf (rv_rowOrder r) (rv_graph r) ids (case kind of None \<Rightarrow> ChangeBehaviour | Some k \<Rightarrow> k) of
                      Inl e \<Rightarrow> Inl (BGraph e)
                    | Inr imp \<Rightarrow> Inr (PublicImpact imp)))"

definition by_score :: "RSlice \<Rightarrow> RSlice \<Rightarrow> bool" where
  "by_score a b = (sx_Origin a = sx_Origin b \<and> sx_Score a > sx_Score b)"

definition sortByScore :: "RSlice list \<Rightarrow> RSlice list" where
  "sortByScore = stable_sort by_score"

section \<open>Building a packet\<close>

text \<open>A project card is kept while it is fresh and the cards' share is not used up.\<close>

definition card_cost :: "ProjectCard \<Rightarrow> int" where
  "card_cost c = int (length (pj_Text c) div 3 + 100)"

fun add_cards :: "int \<Rightarrow> ProjectCard list \<Rightarrow> int \<Rightarrow> RPacket \<Rightarrow> int \<times> RPacket" where
  "add_cards share [] spent pkt = (spent, pkt)"
| "add_cards share (c # cs) spent pkt =
     (if pj_Stale c \<or> spent + card_cost c > share then add_cards share cs spent (pkt\<lparr>rp_NotesDropped := rp_NotesDropped pkt + 1\<rparr>)
      else add_cards share cs (spent + card_cost c) (pkt\<lparr>rp_ProjectNotes := rp_ProjectNotes pkt @ [c]\<rparr>))"

definition symbol_known :: "Retriever \<Rightarrow> string \<Rightarrow> string + bool" where
  "symbol_known r name = (case NodesByName (rv_graph r) name [] 1 of Inl _ \<Rightarrow> Inl ''graph'' | Inr ns \<Rightarrow> Inr (ns \<noteq> []))"

definition with_cards :: "Retriever \<Rightarrow> RRequest \<Rightarrow> int \<Rightarrow> RPacket \<Rightarrow> build_error + RPacket" where
  "with_cards r req budget pkt =
     (if rx_Root req = [] then Inr pkt
      else case rv_repository r of
             None \<Rightarrow> Inl BRepository
           | Some repo \<Rightarrow>
               (case rv_cards r (rx_Root req) (case repo of None \<Rightarrow> [] | Some i \<Rightarrow> i) (symbol_known r) of
                  Inl e \<Rightarrow> Inl (BCard e)
                | Inr cards \<Rightarrow> (case add_cards (MemoryBudget budget) cards 0 pkt of
                                 (spent, pkt') \<Rightarrow> Inr (pkt'\<lparr>rp_Tokens := rp_Tokens pkt' + spent\<rparr>))))"

definition noteTokens :: "Note \<Rightarrow> int" where
  "noteTokens n = int ((length (nt_Text n) + length (pv_Source (nt_Provenance n)) + length (nt_Kind n)) div 4 + 8)"

fun add_notes :: "int \<Rightarrow> Note list \<Rightarrow> int \<Rightarrow> RPacket \<Rightarrow> int \<times> RPacket" where
  "add_notes share [] spent pkt = (spent, pkt)"
| "add_notes share (n # ns) spent pkt =
     (if spent + noteTokens n > share then add_notes share ns spent (pkt\<lparr>rp_NotesDropped := rp_NotesDropped pkt + 1\<rparr>)
      else add_notes share ns (spent + noteTokens n) (pkt\<lparr>rp_Notes := rp_Notes pkt @ [n], rp_Tokens := rp_Tokens pkt + noteTokens n\<rparr>))"

definition notes_in_order :: "(string \<times> Note list) list \<Rightarrow> Note list" where
  "notes_in_order all = concat (map (\<lambda>k. rev (case map_of all k of None \<Rightarrow> [] | Some ns \<Rightarrow> ns)) note_Kinds)"

definition addNotes :: "Retriever \<Rightarrow> int \<Rightarrow> RPacket \<Rightarrow> RPacket" where
  "addNotes r share pkt =
     (case rv_memory r of
        None \<Rightarrow> pkt
      | Some answer \<Rightarrow>
          if share \<le> 0 then pkt
          else case answer of Inl _ \<Rightarrow> pkt | Inr all \<Rightarrow> snd (add_notes share (notes_in_order all) 0 pkt))"

fun fill :: "int \<Rightarrow> int \<Rightarrow> RSlice list \<Rightarrow> int list \<Rightarrow> int \<Rightarrow> RPacket \<Rightarrow> RPacket" where
  "fill budget graphBudget [] seen graphTokens pkt = pkt"
| "fill budget graphBudget (s # ss) seen graphTokens pkt =
     (let drop' = pkt\<lparr>rp_Dropped := rp_Dropped pkt + 1\<rparr>; cost = TokenEstimate s;
          seen' = (if sx_NodeID s \<noteq> 0 then sx_NodeID s # seen else seen) in
      if sensitive (sx_Path s) then fill budget graphBudget ss seen graphTokens drop'
      else if sx_NodeID s \<noteq> 0 \<and> sx_NodeID s \<in> set seen then fill budget graphBudget ss seen graphTokens pkt
      else if sx_Origin s = OriginGraph \<and> graphTokens + cost > graphBudget then fill budget graphBudget ss seen' graphTokens drop'
      else if sx_Origin s \<noteq> OriginImpact \<and> rp_Tokens pkt + cost > budget then fill budget graphBudget ss seen' graphTokens drop'
      else fill budget graphBudget ss seen' (if sx_Origin s = OriginGraph then graphTokens + cost else graphTokens)
             (pkt\<lparr>rp_Slices := rp_Slices pkt @ [s], rp_Tokens := rp_Tokens pkt + cost\<rparr>))"

definition candidates :: "Retriever \<Rightarrow> RRequest \<Rightarrow> build_error + RSlice list" where
  "candidates r req =
     (case (if rx_Query req = [] then Inr [] else anchors r (rx_Query req) (if rx_MaxAnchors req \<le> 0 then 20 else rx_MaxAnchors req)) of
        Inl e \<Rightarrow> Inl e
      | Inr as \<Rightarrow>
          (case symbol_slices r (rx_Symbols req) of
             Inl e \<Rightarrow> Inl e
           | Inr xs \<Rightarrow> map_sum id (\<lambda>ex. (as @ xs) @ ex) (expansion r req (as @ xs))))"

definition mandatory_slices :: "Impact option \<Rightarrow> RSlice list" where
  "mandatory_slices imp =
     (case imp of None \<Rightarrow> []
      | Some i \<Rightarrow> map (\<lambda>c. sliceFromNode (co_Node c) OriginImpact 1 (co_Depth c) (Some (co_Via c)) (Some (co_Evidence c))) (im_Consumers i))"

definition planned_impact :: "Retriever \<Rightarrow> RRequest \<Rightarrow> build_error + Impact option" where
  "planned_impact r req =
     (if rx_ImpactOf req = [] then Inr None else map_sum id Some (retriever_impact r (rx_ImpactOf req) (rx_ImpactChange req)))"

definition Build :: "Retriever \<Rightarrow> RRequest \<Rightarrow> build_error + RPacket" where
  "Build r req =
     (let budget = (if rx_TokenBudget req \<le> 0 then DefaultTokenBudget else rx_TokenBudget req);
          pkt0 = \<lparr>rp_ProjectNotes = [], rp_WorkspaceID = g_ws (rv_graph r), rp_Slices = [], rp_Tokens = 0, rp_Budget = budget, rp_Rejected = [],
                  rp_Dropped = 0, rp_Impact = None, rp_Notes = [], rp_NotesDropped = 0\<rparr> in
      case candidates r req of
        Inl e \<Rightarrow> Inl e
      | Inr cands \<Rightarrow>
          (case with_cards r req budget pkt0 of
             Inl e \<Rightarrow> Inl e
           | Inr pkt1 \<Rightarrow>
               (case planned_impact r req of
                  Inl e \<Rightarrow> Inl e
                | Inr imp \<Rightarrow>
                    (let (kept, rejected) = Guard (g_ws (rv_graph r)) (mandatory_slices imp @ sortByScore cands);
                         pkt2 = addNotes r (MemoryBudget budget) (pkt1\<lparr>rp_Impact := imp, rp_Rejected := rejected\<rparr>)
                     in Inr (fill budget (GraphBudget budget) kept [] 0 pkt2)))))"

section \<open>Live search\<close>

definition GrepFileCap :: nat where "GrepFileCap = 40"
definition GrepMatchCap :: nat where "GrepMatchCap = 200"

record GrepHit =
  gh_Path :: string
  gh_Line :: int
  gh_Text :: string

datatype grep_stop = Complete_search | FileCap | MatchCap | TimeUp

record GrepResult =
  gr_Hits :: "GrepHit list"
  gr_Truncated :: bool
  gr_Reason :: grep_stop

definition colon :: char where "colon = CHR '':''"

text \<open>\<^verbatim>\<open>^(.*?):(\d+):(.*)$\<close>: the first colon that digits and a colon follow.\<close>

fun split_hit :: "string \<Rightarrow> string \<Rightarrow> (string \<times> string \<times> string) option" where
  "split_hit pre [] = None"
| "split_hit pre (c # s) =
     (let ds = takeWhile isDigit s; rest = dropWhile isDigit s in
      if c = colon \<and> ds \<noteq> [] \<and> rest \<noteq> [] \<and> hd rest = colon then Some (rev pre, ds, tl rest)
      else split_hit (c # pre) s)"

definition parseGrepLine :: "string \<Rightarrow> GrepHit option" where
  "parseGrepLine line =
     (case split_hit [] line of
        None \<Rightarrow> None
      | Some (p, ds, body) \<Rightarrow>
          if int (digits_nat ds) > 9223372036854775807 then None
          else Some \<lparr>gh_Path = trimPrefix p ''./'', gh_Line = int (digits_nat ds),
                     gh_Text = (if length body > 300 then take 300 body @ [CHR 0xE2, CHR 0x80, CHR 0xA6] else body)\<rparr>)"

fun scan_hits :: "string list \<Rightarrow> string list \<Rightarrow> GrepHit list \<Rightarrow> GrepResult" where
  "scan_hits [] files hits = \<lparr>gr_Hits = hits, gr_Truncated = False, gr_Reason = Complete_search\<rparr>"
| "scan_hits (l # ls) files hits =
     (case parseGrepLine l of
        None \<Rightarrow> scan_hits ls files hits
      | Some h \<Rightarrow>
          if sensitive (gh_Path h) then scan_hits ls files hits
          else if gh_Path h \<notin> set files \<and> length files \<ge> GrepFileCap then \<lparr>gr_Hits = hits, gr_Truncated = True, gr_Reason = FileCap\<rparr>
          else (let files' = (if gh_Path h \<in> set files then files else gh_Path h # files); hits' = hits @ [h] in
                if length hits' \<ge> GrepMatchCap then \<lparr>gr_Hits = hits', gr_Truncated = True, gr_Reason = MatchCap\<rparr>
                else scan_hits ls files' hits'))"

datatype rg_end = RgOk | RgExit int | RgFailed

text \<open>What running \<^verbatim>\<open>rg\<close> gave: not installed, not started, or its output lines, whether the time was up, and its status.\<close>

datatype rg_run = RgMissing | RgNotStarted | RgRan "string list" bool rg_end

datatype grep_failure = Missing_rg | Start_failed | Wait_failed | Rg_exited int

definition hit_less :: "GrepHit \<Rightarrow> GrepHit \<Rightarrow> bool" where
  "hit_less a b = (if gh_Path a \<noteq> gh_Path b then gh_Path a < gh_Path b else gh_Line a < gh_Line b)"

definition Grep :: "(string \<Rightarrow> bool \<Rightarrow> rg_run) \<Rightarrow> string \<Rightarrow> bool \<Rightarrow> grep_failure + GrepResult" where
  "Grep rg pattern word =
     (let empty = \<lparr>gr_Hits = [], gr_Truncated = False, gr_Reason = Complete_search\<rparr> in
      if trimSpace pattern = [] then Inr empty
      else case rg pattern word of
             RgMissing \<Rightarrow> Inl Missing_rg
           | RgNotStarted \<Rightarrow> Inl Start_failed
           | RgRan ls timeUp status \<Rightarrow>
               (let res = scan_hits ls [] []; sorted = res\<lparr>gr_Hits := stable_sort hit_less (gr_Hits res)\<rparr> in
                if timeUp then Inr (sorted\<lparr>gr_Truncated := True, gr_Reason := TimeUp\<rparr>)
                else if gr_Truncated res then Inr sorted
                else (case status of
                        RgOk \<Rightarrow> Inr sorted
                      | RgExit code \<Rightarrow> if code \<noteq> 1 then Inl (Rg_exited code) else Inr sorted
                      | RgFailed \<Rightarrow> Inl Wait_failed)))"

definition identByte :: "char \<Rightarrow> bool" where
  "identByte c = (let b = (of_char c :: nat) in b = 95 \<or> (97 \<le> b \<and> b \<le> 122) \<or> (65 \<le> b \<and> b \<le> 90) \<or> (48 \<le> b \<and> b \<le> 57))"

lemma identByte_code [code]: "identByte c = (let b = byte_code c in b = 95 \<or> (97 \<le> b \<and> b \<le> 122) \<or> (65 \<le> b \<and> b \<le> 90) \<or> (48 \<le> b \<and> b \<le> 57))"
  by (simp add: identByte_def byte_code_eq Let_def)

definition upper_byte :: "char \<Rightarrow> char" where
  "upper_byte c = (let b = (of_char c :: nat) in if 97 \<le> b \<and> b \<le> 122 then char_of (b - 32) else c)"

definition titled :: "string \<Rightarrow> string" where
  "titled s = (case s of [] \<Rightarrow> [] | c # r \<Rightarrow> upper_byte c # r)"

fun spellings :: "string list \<Rightarrow> string list" where
  "spellings (a # b # rest) =
     (if length a < 2 \<or> length b < 2 then []
      else let la = map ascii_lower a; lb = map ascii_lower b in [la @ titled lb, la @ ''_'' @ lb, titled la @ titled lb]) @ spellings (b # rest)"
| "spellings _ = []"

definition ExpandTerms :: "string \<Rightarrow> string list" where
  "ExpandTerms query =
     (let fs = fieldsOf identByte [] query in take 12 (nub_from [] (filter (\<lambda>t. length t \<ge> 3) (fs @ spellings fs))))"

section \<open>The shares of a budget\<close>

lemma round_bits_le:
  assumes "m \<ge> 0"
  shows "0 \<le> round_bits k m \<and> round_bits k m \<le> 2 * m"
proof -
  define q r where "q = m div 2 ^ k" and "r = m mod 2 ^ k"
  define x where "x = q * 2 ^ k"
  have m: "m = x + r" unfolding x_def q_def r_def by (simp only: div_mult_mod_eq)
  have q: "q \<ge> 0" and r: "r \<ge> 0" using assms by (simp_all add: q_def r_def pos_imp_zdiv_nonneg_iff)
  then have x: "x \<ge> 0" by (simp add: x_def)
  have round: "round_bits k m = (if 2 * r > 2 ^ k \<or> (2 * r = 2 ^ k \<and> odd q) then x + 2 ^ k else x)"
    by (simp add: round_bits_def Let_def q_def r_def x_def algebra_simps)
  show ?thesis
  proof (cases "q = 0")
    case True
    then show ?thesis unfolding round using m r by (auto simp: x_def)
  next
    case False
    then have "1 * 2 ^ k \<le> x" unfolding x_def using q by (intro mult_right_mono) auto
    then show ?thesis unfolding round using m r x by auto
  qed
qed

lemma share_bounds:
  assumes "0 \<le> mant" and "4 * mant \<le> 2 ^ sh" and "n \<ge> 0"
  shows "0 \<le> float_share mant sh n \<and> 2 * float_share mant sh n \<le> n"
proof -
  define x where "x = round_bits (bits (mant * n) - 53) (mant * n)"
  have x: "0 \<le> x" "x \<le> 2 * (mant * n)" using round_bits_le [of "mant * n"] assms by (auto simp: x_def)
  have "0 \<le> x mod 2 ^ sh" by simp
  then have "2 ^ sh * (x div 2 ^ sh) \<le> x" using mult_div_mod_eq [of "2 ^ sh" x] by linarith
  then have "2 * (x div 2 ^ sh) * 2 ^ sh \<le> 2 * x" by (simp add: mult.commute)
  also have "\<dots> \<le> 4 * mant * n" using x by simp
  also have "\<dots> \<le> n * 2 ^ sh" using mult_right_mono [OF assms(2,3)] by (simp add: mult.commute)
  finally have "2 * (x div 2 ^ sh) \<le> n" by simp
  then show ?thesis using x by (simp add: float_share_def Let_def x_def [symmetric] pos_imp_zdiv_nonneg_iff)
qed

lemma MemoryBudget_bounds: "b \<ge> 0 \<Longrightarrow> 0 \<le> MemoryBudget b \<and> 2 * MemoryBudget b \<le> b"
  unfolding MemoryBudget_def by (rule share_bounds) simp_all

lemma GraphBudget_nonneg: "b \<ge> 0 \<Longrightarrow> 0 \<le> GraphBudget b"
proof -
  assume "b \<ge> 0"
  then have "0 \<le> round_bits (bits (5944751508129055 * b) - 53) (5944751508129055 * b)" using round_bits_le by simp
  then show ?thesis by (simp add: GraphBudget_def float_share_def Let_def pos_imp_zdiv_nonneg_iff)
qed

section \<open>A packet holds only this workspace's public content\<close>

lemma fill_Cons:
  obtains seen1 gt1 pkt1 where "fill b gb (s # ss) seen gt pkt = fill b gb ss seen1 gt1 pkt1"
    and "(gt1 = gt \<and> (pkt1 = pkt \<or> pkt1 = pkt\<lparr>rp_Dropped := rp_Dropped pkt + 1\<rparr>)) \<or>
         (\<not> sensitive (sx_Path s) \<and> pkt1 = pkt\<lparr>rp_Slices := rp_Slices pkt @ [s], rp_Tokens := rp_Tokens pkt + TokenEstimate s\<rparr> \<and>
          gt1 = (if sx_Origin s = OriginGraph then gt + TokenEstimate s else gt) \<and>
          (sx_Origin s = OriginGraph \<longrightarrow> gt1 \<le> gb) \<and> (sx_Origin s \<noteq> OriginImpact \<longrightarrow> rp_Tokens pkt1 \<le> b))"
proof (cases "sensitive (sx_Path s)")
  case True
  then show ?thesis by (intro that [of seen gt "pkt\<lparr>rp_Dropped := rp_Dropped pkt + 1\<rparr>"]) simp_all
next
  case False
  let ?seen = "if sx_NodeID s \<noteq> 0 then sx_NodeID s # seen else seen"
  show ?thesis
  proof (cases "sx_NodeID s \<noteq> 0 \<and> sx_NodeID s \<in> set seen")
    case True
    then show ?thesis using False by (intro that [of seen gt pkt]) simp_all
  next
    case new: False
    show ?thesis
    proof (cases "(sx_Origin s = OriginGraph \<and> gt + TokenEstimate s > gb) \<or> (sx_Origin s \<noteq> OriginImpact \<and> rp_Tokens pkt + TokenEstimate s > b)")
      case True
      then show ?thesis using False new by (intro that [of ?seen gt "pkt\<lparr>rp_Dropped := rp_Dropped pkt + 1\<rparr>"]) (auto simp: Let_def)
    next
      case fits: False
      then show ?thesis using False new
        by (intro that [of ?seen "if sx_Origin s = OriginGraph then gt + TokenEstimate s else gt"
              "pkt\<lparr>rp_Slices := rp_Slices pkt @ [s], rp_Tokens := rp_Tokens pkt + TokenEstimate s\<rparr>"]) (auto simp: Let_def)
    qed
  qed
qed

lemma fill_slices:
  "set (rp_Slices (fill b gb ss seen gt pkt)) \<subseteq> set (rp_Slices pkt) \<union> {s \<in> set ss. \<not> sensitive (sx_Path s)} \<and>
   set (rp_Slices pkt) \<subseteq> set (rp_Slices (fill b gb ss seen gt pkt)) \<and> rp_Rejected (fill b gb ss seen gt pkt) = rp_Rejected pkt \<and>
   rp_Impact (fill b gb ss seen gt pkt) = rp_Impact pkt \<and> rp_Budget (fill b gb ss seen gt pkt) = rp_Budget pkt \<and>
   rp_Notes (fill b gb ss seen gt pkt) = rp_Notes pkt \<and> rp_ProjectNotes (fill b gb ss seen gt pkt) = rp_ProjectNotes pkt"
proof (induction ss arbitrary: seen gt pkt)
  case (Cons s ss)
  obtain seen1 gt1 pkt1 where f: "fill b gb (s # ss) seen gt pkt = fill b gb ss seen1 gt1 pkt1"
    and p: "pkt1 = pkt \<or> pkt1 = pkt\<lparr>rp_Dropped := rp_Dropped pkt + 1\<rparr> \<or>
         (\<not> sensitive (sx_Path s) \<and> pkt1 = pkt\<lparr>rp_Slices := rp_Slices pkt @ [s], rp_Tokens := rp_Tokens pkt + TokenEstimate s\<rparr>)"
    by (rule fill_Cons) blast
  from p Cons.IH [of seen1 gt1 pkt1] show ?case unfolding f by auto
qed simp

definition cards_cost :: "ProjectCard list \<Rightarrow> int" where "cards_cost cs = sum_list (map card_cost cs)"
definition notes_cost :: "Note list \<Rightarrow> int" where "notes_cost ns = sum_list (map noteTokens ns)"
definition slices_cost :: "RSlice list \<Rightarrow> int" where "slices_cost ss = sum_list (map TokenEstimate ss)"

lemmas cost_defs = cards_cost_def notes_cost_def slices_cost_def

lemma add_cards_keeps:
  "add_cards share cs spent pkt = (sp, p) \<Longrightarrow>
   rp_Slices p = rp_Slices pkt \<and> rp_Tokens p = rp_Tokens pkt \<and> rp_Rejected p = rp_Rejected pkt \<and> rp_Impact p = rp_Impact pkt \<and> rp_Budget p = rp_Budget pkt \<and>
   rp_Notes p = rp_Notes pkt \<and> (spent \<le> share \<longrightarrow> sp \<le> share) \<and> cards_cost (rp_ProjectNotes p) = cards_cost (rp_ProjectNotes pkt) + (sp - spent)"
proof (induction cs arbitrary: spent pkt)
  case (Cons c cs)
  then show ?case by (auto simp: cost_defs split: if_splits dest!: Cons.IH)
qed simp

lemma add_notes_keeps:
  "add_notes share ns spent pkt = (sp, p) \<Longrightarrow>
   rp_Slices p = rp_Slices pkt \<and> rp_Tokens p = rp_Tokens pkt + (sp - spent) \<and> rp_Rejected p = rp_Rejected pkt \<and> rp_Impact p = rp_Impact pkt \<and> rp_Budget p = rp_Budget pkt \<and>
   rp_ProjectNotes p = rp_ProjectNotes pkt \<and> (spent \<le> share \<longrightarrow> sp \<le> share) \<and> notes_cost (rp_Notes p) = notes_cost (rp_Notes pkt) + (sp - spent)"
proof (induction ns arbitrary: spent pkt)
  case (Cons n ns)
  then show ?case by (auto simp: cost_defs split: if_splits dest!: Cons.IH)
qed simp

lemma addNotes_keeps:
  "rp_Slices (addNotes r share p) = rp_Slices p \<and> rp_Rejected (addNotes r share p) = rp_Rejected p \<and> rp_Impact (addNotes r share p) = rp_Impact p \<and>
   rp_Budget (addNotes r share p) = rp_Budget p \<and> rp_ProjectNotes (addNotes r share p) = rp_ProjectNotes p \<and>
   (rp_Notes p = [] \<longrightarrow> rp_Tokens (addNotes r share p) = rp_Tokens p + notes_cost (rp_Notes (addNotes r share p)) \<and>
      notes_cost (rp_Notes (addNotes r share p)) \<le> max 0 share)"
proof (cases "rv_memory r")
  case (Some a)
  show ?thesis
  proof (cases a)
    case (Inr al)
    obtain sp q where q: "add_notes share (notes_in_order al) 0 p = (sp, q)" by force
    from add_notes_keeps [OF q] show ?thesis by (auto simp: addNotes_def Some Inr q cost_defs)
  qed (auto simp: addNotes_def Some cost_defs)
qed (simp add: addNotes_def cost_defs)

lemma with_cards_keeps:
  assumes "with_cards r req b pkt = Inr p" and "rp_ProjectNotes pkt = []" and "MemoryBudget b \<ge> 0"
  shows "rp_Slices p = rp_Slices pkt \<and> rp_Rejected p = rp_Rejected pkt \<and> rp_Impact p = rp_Impact pkt \<and> rp_Budget p = rp_Budget pkt \<and> rp_Notes p = rp_Notes pkt \<and>
    rp_Tokens p = rp_Tokens pkt + cards_cost (rp_ProjectNotes p) \<and> cards_cost (rp_ProjectNotes p) \<le> MemoryBudget b"
proof (cases "rx_Root req = []")
  case True
  then show ?thesis using assms by (simp add: with_cards_def cost_defs)
next
  case False
  with assms(1) obtain repo cards sp q where "rv_repository r = Some repo" and q: "add_cards (MemoryBudget b) cards 0 pkt = (sp, q)"
    and p: "p = q\<lparr>rp_Tokens := rp_Tokens q + sp\<rparr>"
    by (auto simp: with_cards_def split: option.splits sum.splits prod.splits)
  from add_cards_keeps [OF q] assms(2,3) show ?thesis by (auto simp: p cost_defs)
qed

text \<open>What \<^verbatim>\<open>Build\<close> puts together, when it succeeds.\<close>

lemma Build_cases:
  assumes "Build r req = Inr pkt" and "b = (if rx_TokenBudget req \<le> 0 then DefaultTokenBudget else rx_TokenBudget req)"
  obtains cands pkt1 imp where "candidates r req = Inr cands" and "planned_impact r req = Inr imp"
    and "with_cards r req b \<lparr>rp_ProjectNotes = [], rp_WorkspaceID = g_ws (rv_graph r), rp_Slices = [], rp_Tokens = 0, rp_Budget = b, rp_Rejected = [],
                  rp_Dropped = 0, rp_Impact = None, rp_Notes = [], rp_NotesDropped = 0\<rparr> = Inr pkt1"
    and "pkt = fill b (GraphBudget b) (fst (Guard (g_ws (rv_graph r)) (mandatory_slices imp @ sortByScore cands))) [] 0
           (addNotes r (MemoryBudget b) (pkt1\<lparr>rp_Impact := imp, rp_Rejected := snd (Guard (g_ws (rv_graph r)) (mandatory_slices imp @ sortByScore cands))\<rparr>))"
  using assms by (auto simp: Build_def Let_def split: sum.splits prod.splits intro: that)

lemma build_budget: "b = (if rx_TokenBudget req \<le> 0 then DefaultTokenBudget else rx_TokenBudget req) \<Longrightarrow> b \<ge> 0"
  by (simp add: DefaultTokenBudget_def)


section \<open>A packet stays within its budget\<close>

lemma slices_cost_simps [simp]: "slices_cost [] = 0" "slices_cost (xs @ ys) = slices_cost xs + slices_cost ys" "slices_cost [s] = TokenEstimate s"
  by (simp_all add: slices_cost_def)

lemma TokenEstimate_nonneg [simp]: "TokenEstimate s \<ge> 0"
  by (simp add: TokenEstimate_def)

abbreviation from_graph :: "RSlice list \<Rightarrow> RSlice list" where "from_graph \<equiv> filter (\<lambda>s. sx_Origin s = OriginGraph)"
abbreviation from_impact :: "RSlice list \<Rightarrow> RSlice list" where "from_impact \<equiv> filter (\<lambda>s. sx_Origin s = OriginImpact)"

lemma fill_budget:
  assumes "rp_Tokens pkt = base + slices_cost (rp_Slices pkt)" and "rp_Tokens pkt \<le> b + slices_cost (from_impact (rp_Slices pkt))"
    and "gt = slices_cost (from_graph (rp_Slices pkt))" and "gt \<le> gb"
  shows "rp_Tokens (fill b gb ss seen gt pkt) = base + slices_cost (rp_Slices (fill b gb ss seen gt pkt)) \<and>
    rp_Tokens (fill b gb ss seen gt pkt) \<le> b + slices_cost (from_impact (rp_Slices (fill b gb ss seen gt pkt))) \<and>
    slices_cost (from_graph (rp_Slices (fill b gb ss seen gt pkt))) \<le> gb"
  using assms
proof (induction ss arbitrary: seen gt pkt)
  case (Cons s ss)
  obtain seen1 gt1 pkt1 where f: "fill b gb (s # ss) seen gt pkt = fill b gb ss seen1 gt1 pkt1"
    and p: "(gt1 = gt \<and> (pkt1 = pkt \<or> pkt1 = pkt\<lparr>rp_Dropped := rp_Dropped pkt + 1\<rparr>)) \<or>
         (\<not> sensitive (sx_Path s) \<and> pkt1 = pkt\<lparr>rp_Slices := rp_Slices pkt @ [s], rp_Tokens := rp_Tokens pkt + TokenEstimate s\<rparr> \<and>
          gt1 = (if sx_Origin s = OriginGraph then gt + TokenEstimate s else gt) \<and>
          (sx_Origin s = OriginGraph \<longrightarrow> gt1 \<le> gb) \<and> (sx_Origin s \<noteq> OriginImpact \<longrightarrow> rp_Tokens pkt1 \<le> b))"
    by (rule fill_Cons)
  have cost: "slices_cost (from_impact (rp_Slices pkt)) \<ge> 0"
    by (auto simp: slices_cost_def intro!: sum_list_nonneg)
  show ?case unfolding f
  proof (rule Cons.IH)
    show "rp_Tokens pkt1 = base + slices_cost (rp_Slices pkt1)" using p Cons.prems by auto
    show "rp_Tokens pkt1 \<le> b + slices_cost (from_impact (rp_Slices pkt1))" using p Cons.prems cost by auto
    show "gt1 = slices_cost (from_graph (rp_Slices pkt1))" using p Cons.prems by auto
    show "gt1 \<le> gb" using p Cons.prems by auto
  qed
qed simp

text \<open>
  The packet cap.  The tokens a packet reports are exactly those of its project cards, its notes and its
  slices.  They stay within the budget but for the mandatory impact slices; cards and notes each stay
  within the memory share, and the slices from graph expansion within the graph share.
\<close>

theorem packet_within_budget:
  assumes "Build r req = Inr pkt" and "b = (if rx_TokenBudget req \<le> 0 then DefaultTokenBudget else rx_TokenBudget req)"
  shows "rp_Tokens pkt = cards_cost (rp_ProjectNotes pkt) + notes_cost (rp_Notes pkt) + slices_cost (rp_Slices pkt) \<and>
    rp_Tokens pkt \<le> b + slices_cost (from_impact (rp_Slices pkt)) \<and>
    cards_cost (rp_ProjectNotes pkt) \<le> MemoryBudget b \<and> notes_cost (rp_Notes pkt) \<le> MemoryBudget b \<and>
    slices_cost (from_graph (rp_Slices pkt)) \<le> GraphBudget b"
proof -
  from Build_cases [OF assms] obtain cands pkt1 imp where
    w: "with_cards r req b \<lparr>rp_ProjectNotes = [], rp_WorkspaceID = g_ws (rv_graph r), rp_Slices = [], rp_Tokens = 0, rp_Budget = b, rp_Rejected = [],
                  rp_Dropped = 0, rp_Impact = None, rp_Notes = [], rp_NotesDropped = 0\<rparr> = Inr pkt1"
    and p: "pkt = fill b (GraphBudget b) (fst (Guard (g_ws (rv_graph r)) (mandatory_slices imp @ sortByScore cands))) [] 0
           (addNotes r (MemoryBudget b) (pkt1\<lparr>rp_Impact := imp, rp_Rejected := snd (Guard (g_ws (rv_graph r)) (mandatory_slices imp @ sortByScore cands))\<rparr>))" .
  define g where "g = Guard (g_ws (rv_graph r)) (mandatory_slices imp @ sortByScore cands)"
  define pk where "pk = addNotes r (MemoryBudget b) (pkt1\<lparr>rp_Impact := imp, rp_Rejected := snd g\<rparr>)"
  have pkt: "pkt = fill b (GraphBudget b) (fst g) [] 0 pk" unfolding p g_def pk_def ..
  have b: "b \<ge> 0" "GraphBudget b \<ge> 0" using build_budget [OF assms(2)] GraphBudget_nonneg by auto
  have w1: "rp_Slices pkt1 = []" "rp_Notes pkt1 = []" "rp_Tokens pkt1 = cards_cost (rp_ProjectNotes pkt1)" "cards_cost (rp_ProjectNotes pkt1) \<le> MemoryBudget b"
    using with_cards_keeps [OF w] MemoryBudget_bounds [OF b(1)] by simp_all
  have pk: "rp_Slices pk = []" "rp_ProjectNotes pk = rp_ProjectNotes pkt1" "rp_Tokens pk = rp_Tokens pkt1 + notes_cost (rp_Notes pk)" "notes_cost (rp_Notes pk) \<le> MemoryBudget b"
    using addNotes_keeps [of r "MemoryBudget b" "pkt1\<lparr>rp_Impact := imp, rp_Rejected := snd g\<rparr>"] w1 MemoryBudget_bounds [OF b(1)] by (simp_all add: pk_def)
  have "rp_Tokens pk \<le> b" using w1 pk MemoryBudget_bounds [OF b(1)] by linarith
  then have "rp_Tokens pkt = (cards_cost (rp_ProjectNotes pk) + notes_cost (rp_Notes pk)) + slices_cost (rp_Slices pkt) \<and>
      rp_Tokens pkt \<le> b + slices_cost (from_impact (rp_Slices pkt)) \<and> slices_cost (from_graph (rp_Slices pkt)) \<le> GraphBudget b"
    unfolding pkt by (intro fill_budget) (simp_all add: pk w1 b)
  moreover have "rp_ProjectNotes pkt = rp_ProjectNotes pk" "rp_Notes pkt = rp_Notes pk" unfolding pkt using fill_slices by simp_all
  ultimately show ?thesis using pk w1 by simp
qed

section \<open>Consumers are never dropped\<close>

lemma fill_impact:
  assumes "\<forall>s \<in> set xs. sx_Origin s = OriginImpact" and "\<forall>i \<in> set seen. \<exists>t \<in> set (rp_Slices pkt). sx_NodeID t = i"
    and "s \<in> set xs" and "\<not> sensitive (sx_Path s)"
  shows "\<exists>t \<in> set (rp_Slices (fill b gb (xs @ ys) seen gt pkt)). sx_NodeID t = sx_NodeID s"
  using assms
proof (induction xs arbitrary: seen pkt)
  case (Cons x xs)
  have keep: "\<exists>t \<in> set (rp_Slices (fill b gb zs seen' gt pk)). sx_NodeID t = i" if "\<exists>t \<in> set (rp_Slices pk). sx_NodeID t = i" for zs seen' pk i
    using that fill_slices [of b gb zs seen' gt pk] by blast
  let ?seen = "if sx_NodeID x \<noteq> 0 then sx_NodeID x # seen else seen"
  let ?pkt = "pkt\<lparr>rp_Slices := rp_Slices pkt @ [x], rp_Tokens := rp_Tokens pkt + TokenEstimate x\<rparr>"
  have x: "sx_Origin x = OriginImpact" using Cons.prems(1) by simp
  consider "sensitive (sx_Path x)" | "\<not> sensitive (sx_Path x)" "sx_NodeID x \<noteq> 0 \<and> sx_NodeID x \<in> set seen"
    | "\<not> sensitive (sx_Path x)" "\<not> (sx_NodeID x \<noteq> 0 \<and> sx_NodeID x \<in> set seen)" by blast
  then show ?case
  proof cases
    case 1
    then have "fill b gb ((x # xs) @ ys) seen gt pkt = fill b gb (xs @ ys) seen gt (pkt\<lparr>rp_Dropped := rp_Dropped pkt + 1\<rparr>)" by simp
    moreover have "s \<in> set xs" using 1 Cons.prems(3,4) by auto
    ultimately show ?thesis using Cons.IH [of seen "pkt\<lparr>rp_Dropped := rp_Dropped pkt + 1\<rparr>"] Cons.prems by simp
  next
    case 2
    then have f: "fill b gb ((x # xs) @ ys) seen gt pkt = fill b gb (xs @ ys) seen gt pkt" by simp
    show ?thesis
    proof (cases "s = x")
      case True
      then show ?thesis unfolding f using keep [of pkt "sx_NodeID x"] 2 Cons.prems(2) by auto
    next
      case False
      then show ?thesis unfolding f using Cons.IH [of seen pkt] Cons.prems by simp
    qed
  next
    case 3
    then have f: "fill b gb ((x # xs) @ ys) seen gt pkt = fill b gb (xs @ ys) ?seen gt ?pkt" using x by (auto simp: Let_def)
    show ?thesis
    proof (cases "s = x")
      case True
      then show ?thesis unfolding f using keep [of ?pkt "sx_NodeID x"] by auto
    next
      case False
      then show ?thesis unfolding f using Cons.IH [of ?seen ?pkt] Cons.prems by (auto split: if_splits)
    qed
  qed
qed simp

text \<open>
  C26. A planned change is never shown without its consumers.  When a packet was built for a planned change, every
  consumer in its impact report that has its provenance and a public path is among the slices, whatever
  the budget.
\<close>

theorem impact_slices_kept:
  assumes "Build r req = Inr pkt" and "rp_Impact pkt = Some imp" and "c \<in> set (im_Consumers imp)"
    and "slice_verdict (g_ws (rv_graph r)) s = None" and "\<not> sensitive (sx_Path s)"
    and "s = sliceFromNode (co_Node c) OriginImpact 1 (co_Depth c) (Some (co_Via c)) (Some (co_Evidence c))"
  shows "\<exists>t \<in> set (rp_Slices pkt). sx_NodeID t = nd_ID (co_Node c)"
proof -
  define b where "b = (if rx_TokenBudget req \<le> 0 then DefaultTokenBudget else rx_TokenBudget req)"
  from Build_cases [OF assms(1) b_def] obtain cands pkt1 imp' where p: "pkt = fill b (GraphBudget b) (fst (Guard (g_ws (rv_graph r)) (mandatory_slices imp' @ sortByScore cands))) [] 0
           (addNotes r (MemoryBudget b) (pkt1\<lparr>rp_Impact := imp', rp_Rejected := snd (Guard (g_ws (rv_graph r)) (mandatory_slices imp' @ sortByScore cands))\<rparr>))" .
  let ?pk = "addNotes r (MemoryBudget b) (pkt1\<lparr>rp_Impact := imp', rp_Rejected := snd (Guard (g_ws (rv_graph r)) (mandatory_slices imp' @ sortByScore cands))\<rparr>)"
  let ?keep = "filter (\<lambda>s. slice_verdict (g_ws (rv_graph r)) s = None)"
  have "rp_Impact pkt = imp'" unfolding p using fill_slices addNotes_keeps by simp
  then have i: "imp' = Some imp" using assms(2) by simp
  have in': "s \<in> set (?keep (mandatory_slices imp'))" using assms(3,4,6) by (auto simp: i mandatory_slices_def)
  have "\<forall>s \<in> set (?keep (mandatory_slices imp')). sx_Origin s = OriginImpact" by (auto simp: i mandatory_slices_def sliceFromNode_def)
  from fill_impact [OF this _ in' assms(5), of "[]" ?pk b "GraphBudget b" "?keep (sortByScore cands)" 0]
  have "\<exists>t \<in> set (rp_Slices pkt). sx_NodeID t = sx_NodeID s" unfolding p by (simp add: Guard_def)
  then show ?thesis using assms(6) by (simp add: sliceFromNode_def)
qed

section \<open>A query cannot become syntax\<close>

lemma fieldsOf_chars: "list_all P cur \<Longrightarrow> t \<in> set (fieldsOf P cur s) \<Longrightarrow> t \<noteq> [] \<and> list_all P t"
proof (induction s arbitrary: cur)
  case Nil
  then show ?case by (auto split: if_splits simp: list_all_iff)
next
  case (Cons c s)
  show ?case
  proof (cases "P c")
    case True
    then show ?thesis using Cons.IH [of "c # cur"] Cons.prems by simp
  next
    case False
    have "t \<in> set (fieldsOf P [] s) \<or> (cur \<noteq> [] \<and> t = rev cur)" using Cons.prems(2) False by (auto split: if_splits)
    then show ?thesis using Cons.IH [of "[]"] Cons.prems(1) by (auto simp: list_all_iff)
  qed
qed

lemma quoted_plain: "dquote \<notin> set t \<Longrightarrow> quoted t = [dquote] @ t @ [dquote]"
proof -
  assume "dquote \<notin> set t"
  then have "concat (map (\<lambda>c. if c = dquote then [dquote, dquote] else [c]) t) = t" by (induction t) auto
  then show ?thesis by (simp add: quoted_def)
qed

text \<open>
  Whatever the user typed, the full-text expression is a disjunction of quoted terms made of identifier
  characters only: no quote, operator or parenthesis of the input reaches the query language.
\<close>

theorem query_is_quoted_terms:
  "\<exists>ts. ftsQuery q = joinWith '' OR '' (map (\<lambda>t. [dquote] @ t @ [dquote]) ts) \<and>
     list_all (\<lambda>t. length t \<ge> 2 \<and> list_all termByte t \<and> dquote \<notin> set t) ts \<and> set ts \<subseteq> set (fieldsOf termByte [] q)"
proof -
  let ?ts = "filter (\<lambda>t. length t \<ge> 2) (fieldsOf termByte [] q)"
  have no: "\<not> termByte dquote" by (simp add: termByte_def dquote_def)
  have all: "list_all (\<lambda>t. length t \<ge> 2 \<and> list_all termByte t \<and> dquote \<notin> set t) ?ts"
    using fieldsOf_chars [of termByte "[]" _ q] no by (auto simp: list_all_iff)
  then have e: "map quoted ?ts = map (\<lambda>t. [dquote] @ t @ [dquote]) ?ts" by (intro map_cong refl quoted_plain) (auto simp: list_all_iff)
  show ?thesis unfolding ftsQuery_def e by (intro exI [of _ ?ts] conjI refl all) auto
qed

section \<open>Live search is bounded and honest\<close>

lemma scan_hits_bounds:
  assumes "distinct files" and "set files = gh_Path ` set hits" and "length files \<le> GrepFileCap" and "length hits < GrepMatchCap"
    and "\<forall>h \<in> set hits. \<not> sensitive (gh_Path h)"
  shows "length (gr_Hits (scan_hits ls files hits)) \<le> GrepMatchCap \<and> card (gh_Path ` set (gr_Hits (scan_hits ls files hits))) \<le> GrepFileCap \<and>
    (\<forall>h \<in> set (gr_Hits (scan_hits ls files hits)). \<not> sensitive (gh_Path h)) \<and>
    (\<not> gr_Truncated (scan_hits ls files hits) \<longrightarrow>
       gr_Hits (scan_hits ls files hits) = hits @ filter (\<lambda>h. \<not> sensitive (gh_Path h)) (List.map_filter parseGrepLine ls))"
  using assms
proof (induction ls arbitrary: files hits)
  case Nil
  have "card (gh_Path ` set hits) = length files" using Nil(1,2) by (metis distinct_card)
  then show ?case using Nil by (simp add: List.map_filter_simps)
next
  case (Cons l ls)
  have card: "card (gh_Path ` set hits) = length files" using Cons.prems(1,2) by (metis distinct_card)
  show ?case
  proof (cases "parseGrepLine l")
    case None
    then have "scan_hits (l # ls) files hits = scan_hits ls files hits" "List.map_filter parseGrepLine (l # ls) = List.map_filter parseGrepLine ls"
      by (simp_all add: List.map_filter_simps)
    then show ?thesis using Cons.IH [OF Cons.prems] by presburger
  next
    case (Some h)
    let ?files = "if gh_Path h \<in> set files then files else gh_Path h # files"
    consider "sensitive (gh_Path h)" | "\<not> sensitive (gh_Path h)" "gh_Path h \<notin> set files" "length files \<ge> GrepFileCap"
      | "\<not> sensitive (gh_Path h)" "gh_Path h \<in> set files \<or> length files < GrepFileCap" by force
    then show ?thesis
    proof cases
      case 1
      then have "scan_hits (l # ls) files hits = scan_hits ls files hits"
        "filter (\<lambda>h. \<not> sensitive (gh_Path h)) (List.map_filter parseGrepLine (l # ls)) = filter (\<lambda>h. \<not> sensitive (gh_Path h)) (List.map_filter parseGrepLine ls)"
        using Some by (simp_all add: List.map_filter_simps)
      then show ?thesis using Cons.IH [OF Cons.prems] by presburger
    next
      case 2
      then show ?thesis using Some Cons.prems card by simp
    next
      case 3
      have inv: "distinct ?files" "set ?files = gh_Path ` set (hits @ [h])" "length ?files \<le> GrepFileCap" "\<forall>x \<in> set (hits @ [h]). \<not> sensitive (gh_Path x)"
        using 3 Cons.prems by auto
      show ?thesis
      proof (cases "length (hits @ [h]) \<ge> GrepMatchCap")
        case True
        have "card (gh_Path ` set (hits @ [h])) \<le> GrepFileCap" using inv(1-3) by (metis distinct_card)
        then show ?thesis using Some 3 True inv(4) Cons.prems(4) by (auto simp: Let_def)
      next
        case False
        then have s: "scan_hits (l # ls) files hits = scan_hits ls ?files (hits @ [h])" using Some 3 by (auto simp: Let_def)
        have app: "hits @ filter (\<lambda>h. \<not> sensitive (gh_Path h)) (List.map_filter parseGrepLine (l # ls)) =
            (hits @ [h]) @ filter (\<lambda>h. \<not> sensitive (gh_Path h)) (List.map_filter parseGrepLine ls)"
          using Some 3(1) by (simp add: List.map_filter_simps)
        from False have "length (hits @ [h]) < GrepMatchCap" by linarith
        from Cons.IH [OF inv(1-3) this inv(4)] show ?thesis unfolding s app .
      qed
    qed
  qed
qed

text \<open>
  A live search returns at most 200 hits in at most 40 files, none of them on a sensitive path, sorted by path
  and line.  If it does not say it was cut short, it found everything: the hits are exactly the lines of
  the output that parse and lie on a public path.
\<close>

theorem grep_bounded_honest:
  assumes "Grep rg pat word = Inr res" and "trimSpace pat \<noteq> []"
  shows "\<exists>ls up st. rg pat word = RgRan ls up st \<and> length (gr_Hits res) \<le> 200 \<and> card (gh_Path ` set (gr_Hits res)) \<le> 40 \<and>
    (\<forall>h \<in> set (gr_Hits res). \<not> sensitive (gh_Path h)) \<and> sorted_by hit_less (gr_Hits res) \<and>
    (\<not> gr_Truncated res \<longrightarrow> mset (gr_Hits res) = mset (filter (\<lambda>h. \<not> sensitive (gh_Path h)) (List.map_filter parseGrepLine ls)))"
proof -
  from assms obtain ls up st where rg: "rg pat word = RgRan ls up st" by (auto simp: Grep_def Let_def split: rg_run.splits)
  define sc where "sc = scan_hits ls [] []"
  have res: "gr_Hits res = stable_sort hit_less (gr_Hits sc)" "\<not> gr_Truncated res \<longrightarrow> \<not> gr_Truncated sc"
    using assms rg by (auto simp: Grep_def Let_def sc_def split: if_splits rg_end.splits)
  have wo: "weak_order hit_less" by (auto simp: weak_order_def hit_less_def)
  have "length (gr_Hits sc) \<le> GrepMatchCap \<and> card (gh_Path ` set (gr_Hits sc)) \<le> GrepFileCap \<and> (\<forall>h \<in> set (gr_Hits sc). \<not> sensitive (gh_Path h)) \<and>
      (\<not> gr_Truncated sc \<longrightarrow> gr_Hits sc = [] @ filter (\<lambda>h. \<not> sensitive (gh_Path h)) (List.map_filter parseGrepLine ls))"
    unfolding sc_def by (rule scan_hits_bounds) (simp_all add: GrepMatchCap_def)
  then have sc: "length (gr_Hits sc) \<le> 200" "card (gh_Path ` set (gr_Hits sc)) \<le> 40" "\<forall>h \<in> set (gr_Hits sc). \<not> sensitive (gh_Path h)"
    "\<not> gr_Truncated sc \<longrightarrow> gr_Hits sc = filter (\<lambda>h. \<not> sensitive (gh_Path h)) (List.map_filter parseGrepLine ls)"
    unfolding GrepFileCap_def GrepMatchCap_def append_Nil by blast+
  have "length (gr_Hits res) \<le> 200" "card (gh_Path ` set (gr_Hits res)) \<le> 40" "\<forall>h \<in> set (gr_Hits res). \<not> sensitive (gh_Path h)"
    unfolding res(1) length_stable_sort set_stable_sort using sc by blast+
  moreover have "\<not> gr_Truncated res \<longrightarrow> mset (gr_Hits res) = mset (filter (\<lambda>h. \<not> sensitive (gh_Path h)) (List.map_filter parseGrepLine ls))"
    unfolding res(1) mset_stable_sort using sc(4) res(2) by metis
  moreover have "sorted_by hit_less (gr_Hits res)" unfolding res(1) by (rule sorted_by_stable_sort [OF wo])
  ultimately show ?thesis using rg by blast
qed

section \<open>Instances\<close>

definition demo_retriever :: Retriever where
  "demo_retriever = \<lparr>rv_graph = demo_graph\<lparr>g_nodes := [demo_node 1, (demo_node 2)\<lparr>nd_Name := ''g''\<rparr>, (demo_node 3)\<lparr>nd_Name := ''h''\<rparr>]\<rparr>, rv_rowOrder = rev,
     rv_fts = (\<lambda>_ _. Inr []), rv_repository = Some None, rv_cards = (\<lambda>_ _ _. Inr []), rv_memory = None\<rparr>"

definition demo_rrequest :: RRequest where
  "demo_rrequest = \<lparr>rx_Root = [], rx_Query = [], rx_Symbols = [''h''], rx_MaxAnchors = 0, rx_ExpandDepth = 1, rx_ExpandKinds = [], rx_ImpactOf = [''f''],
     rx_ImpactChange = None, rx_TokenBudget = 10\<rparr>"

definition impact_slice :: "Consumer \<Rightarrow> RSlice" where
  "impact_slice c = sliceFromNode (co_Node c) OriginImpact 1 (co_Depth c) (Some (co_Via c)) (Some (co_Evidence c))"

lemma demo_build:
  obtains pkt imp c where "Build demo_retriever demo_rrequest = Inr pkt" and "rp_Impact pkt = Some imp" and "map sx_NodeID (rp_Slices pkt) = [2, 3]"
    and "rp_Tokens pkt = 16" and "c \<in> set (im_Consumers imp)" and "nd_ID (co_Node c) = 3" and "slice_verdict ''w'' (impact_slice c) = None" and "\<not> sensitive (sx_Path (impact_slice c))"
proof -
  have "case Build demo_retriever demo_rrequest of Inl _ \<Rightarrow> False
     | Inr p \<Rightarrow> map sx_NodeID (rp_Slices p) = [2, 3] \<and> rp_Tokens p = 16 \<and>
         (case rp_Impact p of None \<Rightarrow> False
          | Some i \<Rightarrow> list_ex (\<lambda>c. nd_ID (co_Node c) = 3 \<and> slice_verdict ''w'' (impact_slice c) = None \<and> \<not> sensitive (sx_Path (impact_slice c))) (im_Consumers i))" by code_simp
  then show ?thesis by (auto simp: list_ex_iff split: sum.splits option.splits intro: that)
qed


theorem packet_within_budget_witness:
  "\<exists>pkt. Build demo_retriever demo_rrequest = Inr pkt \<and> rp_Tokens pkt = 16 \<and> 16 \<le> 10 + slices_cost (from_impact (rp_Slices pkt))"
proof -
  obtain pkt imp where p: "Build demo_retriever demo_rrequest = Inr pkt" "rp_Tokens pkt = 16" by (rule demo_build)
  have "10 = (if rx_TokenBudget demo_rrequest \<le> 0 then DefaultTokenBudget else rx_TokenBudget demo_rrequest)" by (simp add: demo_rrequest_def)
  from packet_within_budget [OF p(1) this] p show ?thesis by auto
qed

theorem impact_slices_kept_witness:
  "\<exists>pkt imp c. Build demo_retriever demo_rrequest = Inr pkt \<and> rp_Impact pkt = Some imp \<and> c \<in> set (im_Consumers imp) \<and> nd_ID (co_Node c) = 3 \<and>
     (\<exists>t \<in> set (rp_Slices pkt). sx_NodeID t = 3)"
proof -
  obtain pkt imp c where p: "Build demo_retriever demo_rrequest = Inr pkt" "rp_Impact pkt = Some imp" "c \<in> set (im_Consumers imp)" "nd_ID (co_Node c) = 3"
    and v: "slice_verdict ''w'' (impact_slice c) = None" "\<not> sensitive (sx_Path (impact_slice c))" by (rule demo_build)
  have w: "g_ws (rv_graph demo_retriever) = ''w''" by (simp add: demo_retriever_def demo_graph_def)
  from impact_slices_kept [OF p(1-3) v(1) [folded w] v(2) impact_slice_def] p show ?thesis by auto
qed

definition demo_rg :: "string \<Rightarrow> bool \<Rightarrow> rg_run" where
  "demo_rg pat word = RgRan [''./b.go:3:x := 1'', ''./a.go:7:x'', ''.env:1:x''] False RgOk"

theorem grep_bounded_honest_witness:
  "\<exists>res. Grep demo_rg ''x'' False = Inr res \<and> map gh_Path (gr_Hits res) = [''a.go'', ''b.go''] \<and> length (gr_Hits res) \<le> 200"
proof -
  have "case Grep demo_rg ''x'' False of Inl _ \<Rightarrow> False | Inr res \<Rightarrow> map gh_Path (gr_Hits res) = [''a.go'', ''b.go'']" by code_simp
  then obtain res where g: "Grep demo_rg ''x'' False = Inr res" "map gh_Path (gr_Hits res) = [''a.go'', ''b.go'']" by (auto split: sum.splits)
  have "trimSpace ''x'' \<noteq> []" by code_simp
  from grep_bounded_honest [OF g(1) this] g show ?thesis by auto
qed

end
