(* ===== verification/Workflow.thy ===== *)
theory Workflow
  imports Firewall GraphStore
begin

text \<open>
  The phase contract of a task: \<^verbatim>\<open>src/internal/workflow/state.go\<close>, \<^verbatim>\<open>failure.go\<close> and \<^verbatim>\<open>signatures.go\<close>,
  and its persistence in \<^verbatim>\<open>src/internal/task/workflow_store.go\<close>.  The JSON encoder and decoder, SHA-256,
  the Go parser and the tree-sitter grammars are arguments.  A model's message is a type variable.
\<close>

section \<open>Phases\<close>

datatype Phase = Intake | Localize | ImpactPhase | Planning | Edit | Verify | Review | Finalize | PhaseOther string

definition allowed_next :: "Phase \<Rightarrow> Phase list" where
  "allowed_next p = (case p of
       Intake \<Rightarrow> [Localize] | Localize \<Rightarrow> [ImpactPhase] | ImpactPhase \<Rightarrow> [Planning] | Planning \<Rightarrow> [Edit]
     | Edit \<Rightarrow> [Verify, Planning, Localize] | Verify \<Rightarrow> [Edit, Review, Localize, Planning]
     | Review \<Rightarrow> [Edit, Localize, Finalize] | Finalize \<Rightarrow> [] | PhaseOther _ \<Rightarrow> [])"

datatype workflow_error =
    ForbiddenTransition Phase Phase | NotAPreset string | NotAGenerator string Kind | PlanIncomplete
  | BadGrant string | GrantsGenerated string | ExceedsScope string | UndeclaredGrant string
  | UnresolvedObligation string string | MustStartAtIntake | WorkflowDbFailed | WorkflowUndecodable
  | SignatureParse

definition Transition :: "Phase \<Rightarrow> Phase \<Rightarrow> workflow_error option" where
  "Transition src to = (if list_ex (\<lambda>n. n = to) (allowed_next src) then None else Some (ForbiddenTransition src to))"

section \<open>Plans\<close>

record Obligation =
  ob_Symbol :: string
  ob_Path :: string
  ob_Reason :: string
  ob_Resolution :: string

record Plan =
  plan_RootCause :: string
  plan_Files :: "string list"
  plan_Symbols :: "string list"
  plan_Tests :: "string list"
  plan_Contracts :: "string list"
  plan_WriteAllowlist :: "string list"
  plan_Risks :: "string list"
  plan_Obligations :: "Obligation list"
  plan_Regenerate :: "string list"

definition RegeneratesGenerated :: "Plan \<Rightarrow> bool" where
  "RegeneratesGenerated p = (plan_Regenerate p \<noteq> [])"

definition ValidateRegeneration :: "Plan \<Rightarrow> Preset list \<Rightarrow> workflow_error option" where
  "ValidateRegeneration p presets =
     first_error (\<lambda>name.
       case find (\<lambda>pr. pre_Name pr = name) presets of
         None \<Rightarrow> Some (NotAPreset name)
       | Some pr \<Rightarrow> if pre_Kind pr \<noteq> KindGenerate then Some (NotAGenerator name (pre_Kind pr)) else None)
     (plan_Regenerate p)"

definition grant_error :: "string list \<Rightarrow> string \<Rightarrow> workflow_error option" where
  "grant_error operatorScope f =
     (if f = ''.'' \<or> isAbs f \<or> cleanPath f \<noteq> f \<or> containsAny f [CHR ''*'', CHR ''?'', CHR ''['', backslash] \<or>
         f = ''..'' \<or> hasPrefix f ''../'' \<or> sensitive f \<or> hasPrefix f ''.git/'' then Some (BadGrant f)
      else if Generated f then Some (GrantsGenerated f)
      else if operatorScope \<noteq> [] \<and> \<not> covers operatorScope f then Some (ExceedsScope f)
      else None)"

definition plan_Validate :: "Plan \<Rightarrow> string list \<Rightarrow> workflow_error option" where
  "plan_Validate p operatorScope =
     (if isBlank (plan_RootCause p) \<or> plan_Files p = [] \<or> plan_WriteAllowlist p = [] \<or> plan_Tests p = [] then Some PlanIncomplete
      else case first_error (grant_error operatorScope) (plan_Files p @ plan_WriteAllowlist p) of
             Some e \<Rightarrow> Some e
           | None \<Rightarrow> first_error (\<lambda>f. if f \<in> set (plan_Files p) then None else Some (UndeclaredGrant f)) (plan_WriteAllowlist p))"

section \<open>The persisted state\<close>

record 'm Transcript =
  tr_Closed :: bool
  tr_Summary :: string
  tr_ClaimsDone :: bool
  tr_BudgetExhausted :: bool
  tr_Truncated :: bool
  tr_FenceToken :: string
  tr_Messages :: "'m list"
  tr_Tokens :: int
  tr_Steps :: int
  tr_Tools :: int
  tr_VerifyRuns :: int
  tr_InvalidCalls :: int
  tr_Pending :: bool
  tr_Candidate :: string

definition no_transcript :: "'m Transcript" where
  "no_transcript = \<lparr>tr_Closed = False, tr_Summary = [], tr_ClaimsDone = False, tr_BudgetExhausted = False,
     tr_Truncated = False, tr_FenceToken = [], tr_Messages = [], tr_Tokens = 0, tr_Steps = 0, tr_Tools = 0,
     tr_VerifyRuns = 0, tr_InvalidCalls = 0, tr_Pending = False, tr_Candidate = []\<rparr>"

record Verdict =
  vd_Accept :: bool
  vd_Findings :: "string list"

datatype FailureClass = New | Same | Regressed | Environment | Flaky

record FailureRecord =
  fr_Fingerprint :: string
  fr_Class :: FailureClass
  fr_Recipe :: string
  fr_Candidate :: string
  fr_Symbols :: "string list"

record Prefix =
  px_Policy :: string
  px_RepoCard :: string
  px_RepoMap :: string
  px_TaskCard :: string

record 'm WState =
  w_Prefix :: Prefix
  w_FenceToken :: string
  w_Bodies :: "(string \<times> string) list"
  w_FinalizationCandidate :: string
  w_Presets :: "Preset list"
  w_Phase :: Phase
  w_Base :: string
  w_Candidate :: string
  w_StartedAt :: int
  w_Tokens :: int
  w_Attempts :: int
  w_Replans :: int
  w_VerifyLoops :: int
  w_Regressions :: int
  w_Files :: "string list"
  w_Symbols :: "string list"
  w_Hypothesis :: string
  w_Plan :: Plan
  w_Impact :: "Impact option"
  w_Baseline :: "Result list"
  w_Results :: "Result list"
  w_Feedback :: "Result list"
  w_Failures :: "(string \<times> int) list"
  w_FailureHistory :: "FailureRecord list"
  w_Edit :: "'m Transcript"
  w_Verdict :: "Verdict option"

section \<open>Failures\<close>

text \<open>
  The five patterns of \<^verbatim>\<open>noise\<close>.  Each is a function from the byte before the position and the text
  there to the length of the match, 0 for none; none of the patterns matches the empty string, and
  in none of them can a shorter repetition let the rest match, so greedy repetition is the match
  Go's engine finds.
\<close>

definition hexDigit :: "char \<Rightarrow> bool" where
  "hexDigit c = (let b = (of_char c :: nat) in (48 \<le> b \<and> b \<le> 57) \<or> (97 \<le> b \<and> b \<le> 102) \<or> (65 \<le> b \<and> b \<le> 70))"

lemma hexDigit_code [code]: "hexDigit c = (let b = byte_code c in (48 \<le> b \<and> b \<le> 57) \<or> (97 \<le> b \<and> b \<le> 102) \<or> (65 \<le> b \<and> b \<le> 70))"
  by (simp add: hexDigit_def byte_code_eq Let_def)

definition run_of :: "(char \<Rightarrow> bool) \<Rightarrow> string \<Rightarrow> nat" where
  "run_of p s = length (takeWhile p s)"

definition noise_hex :: "char option \<Rightarrow> string \<Rightarrow> nat" where
  "noise_hex prev s = (let n = run_of hexDigit (drop 2 s) in if hasPrefix s ''0x'' \<and> n > 0 then 2 + n else 0)"

definition time_unit :: "string \<Rightarrow> nat" where
  "time_unit s =
     (if hasPrefix s ''ms'' then 2
      else if hasPrefix s [CHR 0xC2, CHR 0xB5, CHR ''s''] then 3
      else if hasPrefix s ''ns'' then 2
      else if hasPrefix s ''s'' then 1 else 0)"

definition noise_duration :: "char option \<Rightarrow> string \<Rightarrow> nat" where
  "noise_duration prev s =
     (let d = run_of isDigit s;
          f = run_of isDigit (drop (d + 1) s);
          n = (if hasPrefix (drop d s) ''.'' \<and> f > 0 then d + 1 + f else d);
          u = time_unit (drop n s)
      in if \<not> word_at prev \<and> d > 0 \<and> u > 0 \<and> \<not> word_at (head_opt (drop (n + u) s)) then n + u else 0)"

definition noise_date :: "char option \<Rightarrow> string \<Rightarrow> nat" where
  "noise_date prev s =
     (let n = run_of (\<lambda>c. isDigit c \<or> c \<in> {CHR '':'', CHR ''.'', CHR ''+'', CHR ''Z'', CHR ''-''}) (drop 11 s)
      in if \<not> word_at prev \<and> length s \<ge> 11 \<and> list_all isDigit (take 4 s) \<and> s ! 4 = CHR ''-'' \<and> isDigit (s ! 5) \<and> isDigit (s ! 6) \<and>
            s ! 7 = CHR ''-'' \<and> isDigit (s ! 8) \<and> isDigit (s ! 9) \<and> (s ! 10 = CHR ''T'' \<or> s ! 10 = CHR '' '') \<and> n > 0
         then 11 + n else 0)"

definition noise_goroutine :: "char option \<Rightarrow> string \<Rightarrow> nat" where
  "noise_goroutine prev s = (let n = run_of isDigit (drop 10 s) in if hasPrefix s ''goroutine '' \<and> n > 0 then 10 + n else 0)"

definition noise_tmp :: "char option \<Rightarrow> string \<Rightarrow> nat" where
  "noise_tmp prev s =
     (let n = run_of (\<lambda>c. c \<noteq> slash \<and> c \<notin> {CHR 0x09, CHR 0x0A, CHR 0x0C, CHR 0x0D, CHR '' ''}) (drop 5 s)
      in if hasPrefix s ''/tmp/'' \<and> n > 0 then 5 + n else 0)"

definition noise :: "(char option \<Rightarrow> string \<Rightarrow> nat) list" where
  "noise = [noise_hex, noise_duration, noise_date, noise_goroutine, noise_tmp]"

function replace_noise :: "(char option \<Rightarrow> string \<Rightarrow> nat) \<Rightarrow> char option \<Rightarrow> string \<Rightarrow> string" where
  "replace_noise m prev s =
     (if s = [] then []
      else if m prev s = 0 then hd s # replace_noise m (Some (hd s)) (tl s)
      else ''<volatile>'' @ replace_noise m (head_opt (rev (take (m prev s) s))) (drop (m prev s) s))"
  by pat_completeness auto
termination
  by (relation "measure (\<lambda>(_, _, s). length s)") auto

declare replace_noise.simps [simp del]

function goFields :: "string \<Rightarrow> string \<Rightarrow> string list" where
  "goFields word s =
     (if s = [] then (if word = [] then [] else [rev word])
      else if spaceLen s > 0 then (if word = [] then [] else [rev word]) @ goFields [] (drop (spaceLen s) s)
      else goFields (hd s # word) (tl s))"
  by pat_completeness auto
termination
  by (relation "measure (\<lambda>(_, s). length s)") auto

declare goFields.simps [simp del]

definition Normalize :: "string \<Rightarrow> string \<Rightarrow> string" where
  "Normalize txt rootDir =
     (let t = (if rootDir \<noteq> [] then replaceAll (rootDir @ ''/'') [] txt else txt)
      in joinWith '' '' (goFields [] (foldl (\<lambda>s re. replace_noise re None s) t noise)))"

text \<open>What a fingerprint is taken of, and the code it is computed with.\<close>

record fp_body =
  fp_Tool :: string
  fp_Status :: Status
  fp_Exit :: int
  fp_Summary :: string
  fp_Error :: string
  fp_Findings :: "Finding list"
  fp_PrimarySymbols :: "string list"

record fp_env =
  fe_marshalFinding :: "Finding \<Rightarrow> string"
  fe_marshalBody :: "fp_body \<Rightarrow> string"
  fe_sha256 :: "string \<Rightarrow> string"
  fe_supports :: "string \<Rightarrow> bool"
  fe_readWithin :: "string \<Rightarrow> string \<Rightarrow> string option"
  fe_enclosing :: "string \<Rightarrow> string \<Rightarrow> int \<Rightarrow> string option"

definition enclosingSymbol :: "fp_env \<Rightarrow> string \<Rightarrow> Finding \<Rightarrow> string option" where
  "enclosingSymbol env rootDir f =
     (if File f = [] \<or> Line f \<le> 0 \<or> \<not> fe_supports env (File f) then None
      else case fe_readWithin env rootDir (File f) of
             None \<Rightarrow> None
           | Some body \<Rightarrow> map_option (\<lambda>n. File f @ '':'' @ n) (fe_enclosing env (File f) body (Line f)))"

definition fingerprint_findings :: "fp_env \<Rightarrow> Result \<Rightarrow> string \<Rightarrow> Finding list" where
  "fingerprint_findings env r rootDir =
     stable_sort (\<lambda>a b. fe_marshalFinding env a < fe_marshalFinding env b)
       (map (\<lambda>f. f\<lparr>File := Normalize (File f) rootDir, Message := Normalize (Message f) rootDir\<rparr>) (Findings (res_Summary r)))"

definition fingerprint_symbols :: "fp_env \<Rightarrow> Result \<Rightarrow> string \<Rightarrow> string list" where
  "fingerprint_symbols env r rootDir =
     sortStrings (nub_from [] (List.map_filter (enclosingSymbol env rootDir) (fingerprint_findings env r rootDir)))"

definition fingerprint_body :: "fp_env \<Rightarrow> Result \<Rightarrow> string \<Rightarrow> fp_body" where
  "fingerprint_body env r rootDir =
     \<lparr>fp_Tool = res_Recipe r, fp_Status = res_Status r, fp_Exit = res_ExitCode r,
      fp_Summary = Normalize (Headline (res_Summary r)) rootDir, fp_Error = Normalize (res_Err r) rootDir,
      fp_Findings = fingerprint_findings env r rootDir, fp_PrimarySymbols = fingerprint_symbols env r rootDir\<rparr>"

definition FingerprintWithSymbols :: "fp_env \<Rightarrow> Result \<Rightarrow> string \<Rightarrow> string \<times> string list" where
  "FingerprintWithSymbols env r rootDir =
     (fe_sha256 env (fe_marshalBody env (fingerprint_body env r rootDir)), fingerprint_symbols env r rootDir)"

definition Fingerprint :: "fp_env \<Rightarrow> Result \<Rightarrow> string \<Rightarrow> string" where
  "Fingerprint env r rootDir = fst (FingerprintWithSymbols env r rootDir)"

definition environmental_patterns :: "string list" where
  "environmental_patterns = [''no space left'', ''network unreachable'', ''network is unreachable'', ''address already in use'',
     ''module lookup disabled'', ''module not found in cache'', ''executable file not found'', ''permission denied'']"

definition Environmental :: "Result \<Rightarrow> bool" where
  "Environmental r =
     (let txt = toLower (res_Err r @ '' '' @ Headline (res_Summary r)) @
                concat (map (\<lambda>f. '' '' @ toLower (Message f)) (Findings (res_Summary r)))
      in list_ex (containsStr txt) environmental_patterns \<or> res_Status r = Error)"

definition Regression :: "Result \<Rightarrow> Result list \<Rightarrow> bool" where
  "Regression r baseline =
     (res_Status r = Fail \<and>
      list_ex (\<lambda>old. res_Recipe old = res_Recipe r \<and>
        ((\<exists>i. Tests (res_Summary r) i = Some Fail \<and> Tests (res_Summary old) i = Some Pass) \<or> res_Status old = Pass)) baseline)"

definition Classify :: "fp_env \<Rightarrow> Result \<Rightarrow> Result list \<Rightarrow> (string \<Rightarrow> int) \<Rightarrow> string \<Rightarrow> FailureRecord" where
  "Classify env r baseline seen rootDir =
     (let (fp, symbols) = FingerprintWithSymbols env r rootDir;
          c1 = (if Regression r baseline then Regressed else New);
          c2 = (if seen fp > 0 then Same else c1);
          c3 = (if Environmental r then Environment else c2)
      in \<lparr>fr_Fingerprint = fp, fr_Class = c3, fr_Recipe = res_Recipe r, fr_Candidate = res_Candidate r, fr_Symbols = symbols\<rparr>)"

section \<open>Signatures and obligations\<close>

text \<open>
  The parts of a parsed Go file that are read.  A field is the number of its names and its type; the
  type \<open>'e\<close> of expressions, the parser, the formatter and \<^verbatim>\<open>ast.IsExported\<close> are arguments.
\<close>

record 'e FuncType =
  ft_TypeParams :: "(nat \<times> 'e) list"
  ft_Params :: "(nat \<times> 'e) list"
  ft_Results :: "(nat \<times> 'e) list"

datatype 'e Decl = FuncDecl string "'e option" "'e FuncType" | GenDecl "(string \<times> 'e) option list" | BadDecl

record 'e go_syntax =
  gs_parse :: "string \<Rightarrow> 'e Decl list option"
  gs_formatFunc :: "'e FuncType \<Rightarrow> string"
  gs_formatExpr :: "'e \<Rightarrow> string"
  gs_exported :: "string \<Rightarrow> bool"

definition clearNames :: "(nat \<times> 'e) list \<Rightarrow> (nat \<times> 'e) list" where
  "clearNames fl = concat (map (\<lambda>(k, ty). replicate (max 1 k) (0, ty)) fl)"

definition decl_signatures :: "'e go_syntax \<Rightarrow> 'e Decl \<Rightarrow> (string \<times> string) list" where
  "decl_signatures gs d =
     (case d of
        FuncDecl name recv ty \<Rightarrow>
          if \<not> gs_exported gs name then []
          else [(case recv of None \<Rightarrow> name | Some e \<Rightarrow> gs_formatExpr gs e @ ''.'' @ name,
                 gs_formatFunc gs (ty\<lparr>ft_Params := clearNames (ft_Params ty), ft_Results := clearNames (ft_Results ty)\<rparr>))]
      | GenDecl specs \<Rightarrow>
          List.map_filter (\<lambda>sp. case sp of None \<Rightarrow> None
            | Some (name, e) \<Rightarrow> if gs_exported gs name then Some (name, gs_formatExpr gs e) else None) specs
      | BadDecl \<Rightarrow> [])"

definition goSignatures :: "'e go_syntax \<Rightarrow> string \<Rightarrow> (string \<times> string) list option" where
  "goSignatures gs body =
     (if body = [] then Some []
      else map_option (\<lambda>ds. foldl (\<lambda>m (n, s). AList.update n s m) [] (concat (map (decl_signatures gs) ds))) (gs_parse gs body))"

definition after_dot :: "string \<Rightarrow> string" where
  "after_dot name = rev (takeWhile (\<lambda>c. c \<noteq> CHR ''.'') (rev name))"

definition ChangedGoSignatures :: "'e go_syntax \<Rightarrow> string \<Rightarrow> string \<Rightarrow> workflow_error + string list" where
  "ChangedGoSignatures gs before after =
     (case goSignatures gs before of
        None \<Rightarrow> Inl SignatureParse
      | Some old \<Rightarrow>
          (case goSignatures gs after of
             None \<Rightarrow> Inl SignatureParse
           | Some nxt \<Rightarrow>
               Inr (sortStrings (nub_from [] (map (\<lambda>(n, s). after_dot n)
                 (filter (\<lambda>(n, s). (case map_of nxt n of None \<Rightarrow> [] | Some s' \<Rightarrow> s') \<noteq> s) old))))))"

datatype ts_error = TsUnsupported | TsFailed

definition ChangedSignatures ::
  "'e go_syntax \<Rightarrow> (string \<Rightarrow> string \<Rightarrow> string \<Rightarrow> ts_error + string list) \<Rightarrow> string \<Rightarrow> string \<Rightarrow> string \<Rightarrow> workflow_error + string list" where
  "ChangedSignatures gs ts f before after =
     (if hasSuffix f ''.go'' then ChangedGoSignatures gs before after
      else case ts f before after of
             Inl TsUnsupported \<Rightarrow> Inr [] | Inl TsFailed \<Rightarrow> Inl SignatureParse | Inr names \<Rightarrow> Inr names)"

definition SignaturesSupported :: "(string \<Rightarrow> bool) \<Rightarrow> string \<Rightarrow> bool" where
  "SignaturesSupported supports f = (hasSuffix f ''.go'' \<or> supports f)"

definition obligation_met :: "Plan \<Rightarrow> Consumer \<Rightarrow> Obligation \<Rightarrow> bool" where
  "obligation_met p c ob =
     (ob_Path ob = nd_Path (co_Node c) \<and> (ob_Symbol ob = nd_FQN (co_Node c) \<or> ob_Symbol ob = nd_Name (co_Node c)) \<and>
      ((ob_Resolution ob = ''edit'' \<and> covers (plan_WriteAllowlist p) (ob_Path ob)) \<or>
       (hasPrefix (ob_Resolution ob) ''no change needed:'' \<and> \<not> isBlank (trimPrefix (ob_Resolution ob) ''no change needed:''))))"

definition ValidateObligations :: "Plan \<Rightarrow> Impact option \<Rightarrow> workflow_error option" where
  "ValidateObligations p impact =
     (case impact of
        None \<Rightarrow> None
      | Some i \<Rightarrow>
          first_error (\<lambda>c. if nd_Path (co_Node c) = [] \<or> list_ex (obligation_met p c) (plan_Obligations p) then None
                           else Some (UnresolvedObligation (nd_FQN (co_Node c)) (nd_Path (co_Node c)))) (im_Consumers i))"

section \<open>Persistence\<close>

definition phase_name :: "Phase \<Rightarrow> string" where
  "phase_name p = (case p of Intake \<Rightarrow> ''INTAKE'' | Localize \<Rightarrow> ''LOCALIZE'' | ImpactPhase \<Rightarrow> ''IMPACT'' | Planning \<Rightarrow> ''PLAN''
     | Edit \<Rightarrow> ''EDIT'' | Verify \<Rightarrow> ''VERIFY'' | Review \<Rightarrow> ''REVIEW'' | Finalize \<Rightarrow> ''FINALIZE'' | PhaseOther s \<Rightarrow> s)"

record wf_row =
  wr_TaskID :: string
  wr_Phase :: Phase
  wr_Body :: string
  wr_UpdatedAt :: int

record task_store =
  sl_tasks :: task_db
  sl_workflow :: "wf_row list"
  sl_ledger :: ledger_db

record 'm wf_codec =
  wc_state :: "'m WState \<Rightarrow> string option"
  wc_unstate :: "string \<Rightarrow> 'm WState option"
  wc_intent :: "string \<Rightarrow> string \<Rightarrow> string"
  wc_outcome :: "string \<Rightarrow> string"

definition wf_row_of :: "task_store \<Rightarrow> string \<Rightarrow> wf_row option" where
  "wf_row_of db i = find (\<lambda>r. wr_TaskID r = i) (sl_workflow db)"

definition LoadWorkflow :: "'m wf_codec \<Rightarrow> task_store \<Rightarrow> string \<Rightarrow> workflow_error + 'm WState option" where
  "LoadWorkflow cd db i =
     (case wf_row_of db i of
        None \<Rightarrow> Inr None
      | Some r \<Rightarrow> (case wc_unstate cd (wr_Body r) of None \<Rightarrow> Inl WorkflowUndecodable | Some s \<Rightarrow> Inr (Some s)))"

definition put_row :: "wf_row \<Rightarrow> wf_row list \<Rightarrow> wf_row list" where
  "put_row row rows =
     (if list_ex (\<lambda>r. wr_TaskID r = wr_TaskID row) rows
      then map (\<lambda>r. if wr_TaskID r = wr_TaskID row then row else r) rows else rows @ [row])"

definition phase_op :: "'m wf_codec \<Rightarrow> int \<Rightarrow> string \<Rightarrow> string \<Rightarrow> 'm WState \<Rightarrow> ledger_db \<Rightarrow> Operation" where
  "phase_op cd now i previous s db =
     \<lparr>op_ID = next_id db, op_TaskID = i, op_Seq = last_seq db i + 1, op_Kind = KindDecision,
      op_Intent = wc_intent cd previous (phase_name (w_Phase s)), op_Outcome = wc_outcome cd (phase_name (w_Phase s)),
      op_CandidateBefore = w_Candidate s, op_CandidateAfter = w_Candidate s, op_EvidenceID = [],
      op_StartedAt = now, op_FinishedAt = now, op_Error = []\<rparr>"

definition SaveWorkflow :: "'m wf_codec \<Rightarrow> bool \<Rightarrow> int \<Rightarrow> string \<Rightarrow> 'm WState \<Rightarrow> task_store \<Rightarrow> workflow_error option \<times> task_store" where
  "SaveWorkflow cd ok now i s db =
     (case wc_state cd s of
        None \<Rightarrow> (Some WorkflowUndecodable, db)
      | Some body \<Rightarrow>
          (let prev = wf_row_of db i in
           case (case prev of
                   Some r \<Rightarrow> if wr_Phase r \<noteq> w_Phase s then Transition (wr_Phase r) (w_Phase s) else None
                 | None \<Rightarrow> if w_Phase s \<noteq> Intake then Some MustStartAtIntake else None) of
             Some e \<Rightarrow> (Some e, db)
           | None \<Rightarrow>
               if \<not> ok then (Some WorkflowDbFailed, db)
               else (let db1 = db\<lparr>sl_workflow := put_row \<lparr>wr_TaskID = i, wr_Phase = w_Phase s, wr_Body = body, wr_UpdatedAt = now\<rparr>
                                                (sl_workflow db)\<rparr>;
                         previous = (case prev of None \<Rightarrow> [] | Some r \<Rightarrow> phase_name (wr_Phase r))
                     in if previous = phase_name (w_Phase s) then (None, db1)
                        else (None, db1\<lparr>sl_ledger := (sl_ledger db)\<lparr>lg_ops := lg_ops (sl_ledger db) @
                                             [phase_op cd now i previous s (sl_ledger db)]\<rparr>\<rparr>))))"

section \<open>What a validated plan grants\<close>

lemma plan_Validate_None:
  assumes "plan_Validate p scope = None"
  shows "\<forall>f \<in> set (plan_Files p) \<union> set (plan_WriteAllowlist p). grant_error scope f = None"
    and "set (plan_WriteAllowlist p) \<subseteq> set (plan_Files p)" and "plan_WriteAllowlist p \<noteq> []"
    and "\<not> isBlank (plan_RootCause p)" and "plan_Tests p \<noteq> []"
  using assms by (auto simp: plan_Validate_def first_error_None_iff split: if_splits option.splits)

lemma grant_ok:
  assumes "grant_error scope f = None"
  shows "confined_rel f" and "f \<noteq> ''.''" and "literal_pattern f" and "\<not> sensitive f" and "\<not> Generated f"
    and "\<not> hasPrefix f ''.git/''" and "scope = [] \<or> covers scope f"
  using assms by (auto simp: grant_error_def confined_rel_def literal_pattern_def containsAny_def split: if_splits)

lemma grant_covers:
  assumes "grant_error scope g = None" and "covers [g] rel"
  shows "under g rel"
proof -
  have "cleanPath g = g" "g \<noteq> ''.''" using grant_ok(1,2) [OF assms(1)] by (simp_all add: confined_rel_def)
  then have "policy_matches g rel" using assms(2) by (auto simp: covers_iff)
  moreover have "\<not> hasSuffix g ''/''"
  proof
    assume "hasSuffix g ''/''"
    then obtain d where "g = d @ slash # []" by (auto simp: hasSuffix_iff)
    then have "[] \<in> set (splitOn slash g)" by (simp only: splitOn_append) simp
    then show False using confined_rel_segments [OF grant_ok(1,2) [OF assms(1)]] by (auto simp: list_all_iff plain_seg_def)
  qed
  ultimately show ?thesis using grant_ok(3) [OF assms(1)] policy_matches_literal by blast
qed

text \<open>
  C25. A plan that validates confers no more than it declares.  Whatever path its write allowlist
  covers lies at or below one of its declared files; every such file is a cleaned relative path
  without parent segments or metacharacters, is neither sensitive nor inside \<open>.git\<close> nor generated
  output, and is inside the operator's scope when there is one.
\<close>

theorem plan_authority:
  assumes "plan_Validate p scope = None" and "covers (plan_WriteAllowlist p) rel"
  shows "\<exists>g \<in> set (plan_Files p). under g rel \<and> list_all plain_seg (splitOn slash g) \<and> literal_pattern g \<and>
    \<not> sensitive g \<and> \<not> hasPrefix g ''.git/'' \<and> \<not> Generated g \<and> (scope = [] \<or> covers scope g)"
proof -
  obtain g where g: "g \<in> set (plan_WriteAllowlist p)" "covers [g] rel" using assms(2) by (auto simp: covers_iff)
  have ok: "grant_error scope g = None" using plan_Validate_None(1) [OF assms(1)] g(1) by blast
  have "g \<in> set (plan_Files p)" using plan_Validate_None(2) [OF assms(1)] g(1) by blast
  moreover have "list_all plain_seg (splitOn slash g)" using confined_rel_segments [OF grant_ok(1,2) [OF ok]] by blast
  ultimately show ?thesis using grant_ok [OF ok] grant_covers [OF ok g(2)] by blast
qed

definition demo_wplan :: Plan where
  "demo_wplan = \<lparr>plan_RootCause = ''x'', plan_Files = [''a/b.go'', ''c.go''], plan_Symbols = [], plan_Tests = [''t''], plan_Contracts = [],
     plan_WriteAllowlist = [''a/b.go''], plan_Risks = [], plan_Obligations = [], plan_Regenerate = []\<rparr>"

theorem plan_authority_witness:
  "\<exists>g \<in> set (plan_Files demo_wplan). under g ''a/b.go'' \<and> covers [''a''] g"
proof -
  have v: "plan_Validate demo_wplan [''a'', ''c.go''] = None" "covers (plan_WriteAllowlist demo_wplan) ''a/b.go''" by code_simp+
  have "covers [''a''] ''a/b.go''" "\<not> under ''c.go'' ''a/b.go''" by code_simp+
  with plan_authority [OF v] show ?thesis by (auto simp: demo_wplan_def)
qed

section \<open>Failures are classified by one precedence\<close>

lemma classify_class:
  "fr_Class (Classify env r baseline seen rootDir) =
     (if Environmental r then Environment
      else if seen (Fingerprint env r rootDir) > 0 then Same
      else if Regression r baseline then Regressed else New)"
  by (simp add: Classify_def Fingerprint_def Let_def split: prod.splits)

text \<open>
  What identifies a failure keeps every line number.  The bytes that are hashed encode the tool,
  the status, the exit code and, for every finding, its line, column, test and rule as reported: an
  error that an edit moved to another line is encoded differently, however its text is normalised.
\<close>

theorem fingerprint_keeps_lines:
  "Fingerprint env r rootDir = fe_sha256 env (fe_marshalBody env (fingerprint_body env r rootDir)) \<and>
   image_mset (\<lambda>f. (Line f, Column f, Test f, FRule f)) (mset (fp_Findings (fingerprint_body env r rootDir))) =
   image_mset (\<lambda>f. (Line f, Column f, Test f, FRule f)) (mset (Findings (res_Summary r)))"
proof -
  have "image_mset (\<lambda>f. (Line f, Column f, Test f, FRule f)) (mset (map (\<lambda>f. f\<lparr>File := a f, Message := b f\<rparr>) fs)) =
      image_mset (\<lambda>f. (Line f, Column f, Test f, FRule f)) (mset fs)" for a b and fs :: "Finding list"
    by (induction fs) simp_all
  then show ?thesis
    by (simp add: Fingerprint_def FingerprintWithSymbols_def fingerprint_body_def fingerprint_findings_def)
qed

section \<open>The phases that reach the disk\<close>

text \<open>A sequence of saves of one task; the phases that were persisted, in order.\<close>

fun save_all :: "'m wf_codec \<Rightarrow> string \<Rightarrow> (bool \<times> int \<times> 'm WState) list \<Rightarrow> task_store \<Rightarrow> Phase list \<times> task_store" where
  "save_all cd i [] db = ([], db)"
| "save_all cd i ((ok, now, s) # rest) db =
     (case SaveWorkflow cd ok now i s db of
        (Some _, db1) \<Rightarrow> save_all cd i rest db1
      | (None, db1) \<Rightarrow> (let (ps, db2) = save_all cd i rest db1 in (w_Phase s # ps, db2)))"

lemma find_put_row: "find (\<lambda>r. wr_TaskID r = wr_TaskID row) (put_row row rows) = Some row"
proof -
  have "find (\<lambda>r. wr_TaskID r = wr_TaskID row) (map (\<lambda>r. if wr_TaskID r = wr_TaskID row then row else r) rows) = Some row"
    if "list_ex (\<lambda>r. wr_TaskID r = wr_TaskID row) rows" using that by (induction rows) auto
  moreover have "find (\<lambda>r. wr_TaskID r = wr_TaskID row) (rows @ [row]) = Some row"
    if "\<not> list_ex (\<lambda>r. wr_TaskID r = wr_TaskID row) rows" using that by (induction rows) auto
  ultimately show ?thesis by (simp add: put_row_def)
qed

lemma find_other_row: "j \<noteq> wr_TaskID row \<Longrightarrow> find (\<lambda>r. wr_TaskID r = j) (put_row row rows) = find (\<lambda>r. wr_TaskID r = j) rows"
proof -
  assume j: "j \<noteq> wr_TaskID row"
  have "find (\<lambda>r. wr_TaskID r = j) (map (\<lambda>r. if wr_TaskID r = wr_TaskID row then row else r) rs) = find (\<lambda>r. wr_TaskID r = j) rs" for rs
    using j by (induction rs) auto
  moreover have "find (\<lambda>r. wr_TaskID r = j) (rs @ [row]) = find (\<lambda>r. wr_TaskID r = j) rs" for rs
    using j by (induction rs) auto
  ultimately show ?thesis by (simp add: put_row_def)
qed

lemma SaveWorkflow_error: "SaveWorkflow cd ok now i s db = (Some e, db') \<Longrightarrow> db' = db"
  by (auto simp: SaveWorkflow_def Let_def split: option.splits if_splits)

lemma SaveWorkflow_saved:
  assumes "SaveWorkflow cd ok now i s db = (None, db')"
  shows "\<exists>body. wc_state cd s = Some body \<and>
      wf_row_of db' i = Some \<lparr>wr_TaskID = i, wr_Phase = w_Phase s, wr_Body = body, wr_UpdatedAt = now\<rparr>"
    and "case wf_row_of db i of None \<Rightarrow> w_Phase s = Intake
       | Some r \<Rightarrow> wr_Phase r = w_Phase s \<or> w_Phase s \<in> set (allowed_next (wr_Phase r))"
  using assms find_put_row [of "\<lparr>wr_TaskID = i, wr_Phase = w_Phase s, wr_Body = the (wc_state cd s), wr_UpdatedAt = now\<rparr>"]
  by (auto simp: SaveWorkflow_def Let_def Transition_def wf_row_of_def list_ex_iff split: option.splits if_splits)

definition phase_step :: "Phase \<Rightarrow> Phase \<Rightarrow> bool" where
  "phase_step a b = (a = b \<or> b \<in> set (allowed_next a))"

lemma save_all_path:
  "save_all cd i saves db = (ps, db') \<Longrightarrow>
     (case wf_row_of db i of None \<Rightarrow> ps = [] \<or> (hd ps = Intake \<and> successively phase_step ps)
      | Some r \<Rightarrow> successively phase_step (wr_Phase r # ps))"
proof (induction cd i saves db arbitrary: ps rule: save_all.induct)
  case (2 cd i ok now s rest db)
  obtain e db1 where sv: "SaveWorkflow cd ok now i s db = (e, db1)" by (cases "SaveWorkflow cd ok now i s db")
  show ?case
  proof (cases e)
    case (Some x)
    then have "db1 = db" using sv SaveWorkflow_error by blast
    then show ?thesis using "2.IH"(2) [OF sv [symmetric] Some] "2.prems" sv Some by simp
  next
    case None
    obtain qs where qs: "save_all cd i rest db1 = (qs, db')" "ps = w_Phase s # qs"
      using "2.prems" sv None by (auto split: prod.splits)
    have "successively phase_step (w_Phase s # qs)"
      using "2.IH"(1) [OF sv [symmetric] None qs(1)] SaveWorkflow_saved(1) [of cd ok now i s db db1] sv None by auto
    then show ?thesis using SaveWorkflow_saved(2) [of cd ok now i s db db1] sv None qs(2)
      by (auto simp: successively_Cons phase_step_def split: option.splits)
  qed
qed (simp split: option.splits)

lemma entered_from:
  assumes "successively phase_step ps" and "hd ps = Intake" and "n < length ps" and "ps ! n \<noteq> Intake"
  shows "\<exists>k < n. ps ! n \<in> set (allowed_next (ps ! k))"
  using assms(3,4)
proof (induction n)
  case 0
  then show ?case using assms(2) by (simp add: hd_conv_nth)
next
  case (Suc n)
  have "phase_step (ps ! n) (ps ! Suc n)" using assms(1) Suc.prems(1) by (simp add: successively_conv_nth)
  then consider "ps ! Suc n \<in> set (allowed_next (ps ! n))" | "ps ! n = ps ! Suc n" by (auto simp: phase_step_def)
  then show ?case
  proof cases
    case 2
    then obtain k where "k < n" "ps ! n \<in> set (allowed_next (ps ! k))" using Suc by auto
    then show ?thesis using 2 by (intro exI [of _ k]) simp
  qed blast
qed

lemma entered_inv:
  "Finalize \<in> set (allowed_next p) \<Longrightarrow> p = Review" "Review \<in> set (allowed_next p) \<Longrightarrow> p = Verify"
  by (cases p; simp add: allowed_next_def)+

text \<open>
  C10. No task is finalised without having been verified and reviewed.  Whatever sequence of saves is
  attempted for a new task, with whatever states and whatever database failures, the phases that reach
  the disk start at \<^verbatim>\<open>INTAKE\<close> and follow the transitions of the contract, so before \<^verbatim>\<open>FINALIZE\<close> is ever
  persisted \<^verbatim>\<open>REVIEW\<close> was, and before that \<^verbatim>\<open>VERIFY\<close>.
\<close>

theorem finalize_after_review:
  assumes "wf_row_of db i = None" and "save_all cd i saves db = (ps, db')"
  shows "(ps = [] \<or> hd ps = Intake) \<and> successively phase_step ps \<and>
    (\<forall>n < length ps. ps ! n = Finalize \<longrightarrow> (\<exists>k < n. ps ! k = Review \<and> (\<exists>j < k. ps ! j = Verify)))"
proof (cases "ps = []")
  case False
  have path: "hd ps = Intake" "successively phase_step ps" using save_all_path [OF assms(2)] assms(1) False by auto
  have "\<exists>k < n. ps ! k = Review \<and> (\<exists>j < k. ps ! j = Verify)" if n: "n < length ps" and fin: "ps ! n = Finalize" for n
  proof -
    obtain k where k: "k < n" "ps ! k = Review"
      using entered_from [OF path(2,1) n] fin entered_inv(1) by auto
    obtain j where "j < k" "ps ! j = Verify"
      using entered_from [OF path(2,1), of k] k n entered_inv(2) by auto
    then show ?thesis using k by blast
  qed
  then show ?thesis using path by blast
qed simp

definition demo_state :: "Phase \<Rightarrow> unit WState" where
  "demo_state p = \<lparr>w_Prefix = \<lparr>px_Policy = [], px_RepoCard = [], px_RepoMap = [], px_TaskCard = []\<rparr>, w_FenceToken = [], w_Bodies = [],
     w_FinalizationCandidate = [], w_Presets = [], w_Phase = p, w_Base = ''b'', w_Candidate = ''c'', w_StartedAt = 0, w_Tokens = 0,
     w_Attempts = 0, w_Replans = 0, w_VerifyLoops = 0, w_Regressions = 0, w_Files = [], w_Symbols = [], w_Hypothesis = [],
     w_Plan = demo_wplan, w_Impact = None, w_Baseline = [], w_Results = [], w_Feedback = [], w_Failures = [],
     w_FailureHistory = [], w_Edit = no_transcript, w_Verdict = None\<rparr>"

definition demo_codec :: "unit wf_codec" where
  "demo_codec = \<lparr>wc_state = (\<lambda>s. Some (phase_name (w_Phase s))), wc_unstate = (\<lambda>b. if b = ''EDIT'' then Some (demo_state Edit) else None),
     wc_intent = (\<lambda>a b. a @ ''>'' @ b), wc_outcome = (\<lambda>b. b)\<rparr>"

definition demo_store :: task_store where
  "demo_store = \<lparr>sl_tasks = demo_db, sl_workflow = [], sl_ledger = empty_ledger\<rparr>"

theorem finalize_after_review_witness:
  "\<exists>db'. save_all demo_codec ''t'' (map (\<lambda>p. (True, 1, demo_state p))
      [Finalize, Intake, Localize, ImpactPhase, Planning, Edit, Finalize, Verify, Review, Finalize]) demo_store =
     ([Intake, Localize, ImpactPhase, Planning, Edit, Verify, Review, Finalize], db') \<and>
     (\<exists>k < 7. [Intake, Localize, ImpactPhase, Planning, Edit, Verify, Review, Finalize] ! k = Review)"
proof -
  let ?r = "save_all demo_codec ''t'' (map (\<lambda>p. (True, 1, demo_state p))
      [Finalize, Intake, Localize, ImpactPhase, Planning, Edit, Finalize, Verify, Review, Finalize]) demo_store"
  have ps: "fst ?r = [Intake, Localize, ImpactPhase, Planning, Edit, Verify, Review, Finalize]" by code_simp
  have none: "wf_row_of demo_store ''t'' = None" by code_simp
  obtain db' where r: "?r = ([Intake, Localize, ImpactPhase, Planning, Edit, Verify, Review, Finalize], db')"
    using ps by (metis prod.collapse)
  let ?L = "[Intake, Localize, ImpactPhase, Planning, Edit, Verify, Review, Finalize]"
  have "7 < length ?L" "?L ! 7 = Finalize" by simp_all
  then have "\<exists>k < 7. ?L ! k = Review" using finalize_after_review [OF none r] by blast
  then show ?thesis using r by blast
qed

lemma SaveWorkflow_journal: "journal_inv (sl_ledger db) \<Longrightarrow> journal_inv (sl_ledger (snd (SaveWorkflow cd ok now i s db)))"
proof -
  assume "journal_inv (sl_ledger db)"
  then have "journal_inv ((sl_ledger db)\<lparr>lg_ops := lg_ops (sl_ledger db) @ [phase_op cd now i prev s (sl_ledger db)]\<rparr>)" for prev
    by (rule journal_inv_append) (simp_all add: phase_op_def)
  then show ?thesis using \<open>journal_inv (sl_ledger db)\<close>
    by (auto simp: SaveWorkflow_def Let_def split: option.splits)
qed

text \<open>
  What is saved is what is loaded, and it is journalled.  After a save that succeeds, loading
  gives the state that was saved (for a state its encoding carries faithfully), other tasks' rows and
  the journal's numbering are intact, and a change of phase, and nothing else, adds one operation with
  an outcome to the journal.
\<close>

theorem save_then_load:
  assumes saved: "SaveWorkflow cd ok now i s db = (None, db')" and "\<forall>body. wc_state cd s = Some body \<longrightarrow> wc_unstate cd body = Some s"
    and "journal_inv (sl_ledger db)"
  shows "LoadWorkflow cd db' i = Inr (Some s) \<and> (\<forall>j. j \<noteq> i \<longrightarrow> wf_row_of db' j = wf_row_of db j) \<and> journal_inv (sl_ledger db') \<and>
    lg_ops (sl_ledger db') = lg_ops (sl_ledger db) @
      (case wf_row_of db i of
         None \<Rightarrow> [phase_op cd now i [] s (sl_ledger db)]
       | Some r \<Rightarrow> if phase_name (wr_Phase r) = phase_name (w_Phase s) then []
                   else [phase_op cd now i (phase_name (wr_Phase r)) s (sl_ledger db)])"
proof (intro conjI allI impI)
  show "LoadWorkflow cd db' i = Inr (Some s)"
    using SaveWorkflow_saved(1) [OF saved] assms(2) by (auto simp: LoadWorkflow_def)
  show "journal_inv (sl_ledger db')" using SaveWorkflow_journal [OF assms(3), of cd ok now i s] saved by simp
  obtain body where body: "sl_workflow db' = put_row \<lparr>wr_TaskID = i, wr_Phase = w_Phase s, wr_Body = body, wr_UpdatedAt = now\<rparr> (sl_workflow db)"
    using saved by (auto simp: SaveWorkflow_def Let_def split: option.splits if_splits)
  show "wf_row_of db' j = wf_row_of db j" if "j \<noteq> i" for j
    using find_other_row [of j] that by (simp add: wf_row_of_def body)
  show "lg_ops (sl_ledger db') = lg_ops (sl_ledger db) @
      (case wf_row_of db i of
         None \<Rightarrow> [phase_op cd now i [] s (sl_ledger db)]
       | Some r \<Rightarrow> if phase_name (wr_Phase r) = phase_name (w_Phase s) then []
                   else [phase_op cd now i (phase_name (wr_Phase r)) s (sl_ledger db)])"
    using saved by (auto simp: SaveWorkflow_def Let_def phase_name_def split: option.splits if_splits)
qed

theorem save_then_load_witness:
  "\<exists>db'. SaveWorkflow demo_codec True 2 ''t'' (demo_state Edit)
      (demo_store\<lparr>sl_workflow := [\<lparr>wr_TaskID = ''t'', wr_Phase = Planning, wr_Body = [], wr_UpdatedAt = 0\<rparr>]\<rparr>) = (None, db') \<and>
     LoadWorkflow demo_codec db' ''t'' = Inr (Some (demo_state Edit))"
proof -
  let ?db = "demo_store\<lparr>sl_workflow := [\<lparr>wr_TaskID = ''t'', wr_Phase = Planning, wr_Body = [], wr_UpdatedAt = 0\<rparr>]\<rparr>"
  have "fst (SaveWorkflow demo_codec True 2 ''t'' (demo_state Edit) ?db) = None" by code_simp
  then obtain db' where sv: "SaveWorkflow demo_codec True 2 ''t'' (demo_state Edit) ?db = (None, db')" by (metis prod.collapse)
  have "\<forall>body. wc_state demo_codec (demo_state Edit) = Some body \<longrightarrow> wc_unstate demo_codec body = Some (demo_state Edit)"
    by (simp add: demo_codec_def demo_state_def phase_name_def)
  moreover have "journal_inv (sl_ledger ?db)" using empty_ledger_inv by (simp add: demo_store_def)
  ultimately show ?thesis using save_then_load [OF sv] sv by blast
qed

text \<open>
  Recovery reads every phase change as a rejected hypothesis.  A phase change is journalled as a
  decision whose intent has no \<open>accepted\<close> field, and recovery files every decision without one under
  the rejected hypotheses.
\<close>

theorem phase_change_rejected:
  assumes "SaveWorkflow cd ok now i s db = (None, db')" and "wf_row_of db i = Some r" and "phase_name (wr_Phase r) \<noteq> phase_name (w_Phase s)"
    and "\<not> dec_accepted dec (wc_intent cd (phase_name (wr_Phase r)) (phase_name (w_Phase s)))"
    and "RecoverTask dec hashFile manifest (sl_ledger db') i wt = Inr w"
  shows "wc_intent cd (phase_name (wr_Phase r)) (phase_name (w_Phase s)) \<in> set (wks_RejectedHypotheses w)"
proof -
  let ?op = "phase_op cd now i (phase_name (wr_Phase r)) s (sl_ledger db)"
  have "?op \<in> set (lg_ops (sl_ledger db'))"
    using assms(1-3) by (auto simp: SaveWorkflow_def Let_def split: option.splits if_splits)
  then have "?op \<in> set (Operations (sl_ledger db') i)" by (simp add: Operations_def phase_op_def)
  moreover have "wks_RejectedHypotheses w =
      map op_Intent (filter (\<lambda>o'. op_Kind o' = KindDecision \<and> \<not> dec_accepted dec (op_Intent o')) (Operations (sl_ledger db') i))"
    using assms(5) by (auto simp: RecoverTask_def Let_def split: sum.splits)
  ultimately show ?thesis using assms(4) by (force simp: phase_op_def)
qed

theorem phase_change_rejected_witness:
  "\<exists>w. RecoverTask demo_decoders (\<lambda>_. Inr []) (\<lambda>_. Inr [])
      (sl_ledger (snd (SaveWorkflow demo_codec True 2 ''t'' (demo_state Edit)
        (demo_store\<lparr>sl_workflow := [\<lparr>wr_TaskID = ''t'', wr_Phase = Planning, wr_Body = [], wr_UpdatedAt = 0\<rparr>]\<rparr>)))) ''t'' [] = Inr w \<and>
     ''PLAN>EDIT'' \<in> set (wks_RejectedHypotheses w)"
proof -
  let ?row = "\<lparr>wr_TaskID = ''t'', wr_Phase = Planning, wr_Body = [], wr_UpdatedAt = 0\<rparr>"
  let ?db = "demo_store\<lparr>sl_workflow := [?row]\<rparr>"
  have "fst (SaveWorkflow demo_codec True 2 ''t'' (demo_state Edit) ?db) = None" by code_simp
  then obtain db' where sv: "SaveWorkflow demo_codec True 2 ''t'' (demo_state Edit) ?db = (None, db')" by (metis prod.collapse)
  obtain w where w: "RecoverTask demo_decoders (\<lambda>_. Inr []) (\<lambda>_. Inr []) (sl_ledger db') ''t'' [] = Inr w"
    by (simp add: RecoverTask_def Let_def)
  have row: "wf_row_of ?db ''t'' = Some ?row" by code_simp
  have "phase_name (wr_Phase ?row) \<noteq> phase_name (w_Phase (demo_state Edit))" by code_simp
  moreover have "wc_intent demo_codec (phase_name (wr_Phase ?row)) (phase_name (w_Phase (demo_state Edit))) = ''PLAN>EDIT''" by code_simp
  ultimately show ?thesis
    using phase_change_rejected [OF sv row _ _ w] w sv by (simp add: demo_decoders_def)
qed

end
