(* ===== verification/Sandbox.thy ===== *)
theory Sandbox
  imports Workflow "HOL-Library.Word"
begin

text \<open>
  The layered sandbox (\<^verbatim>\<open>src/internal/sandbox/sandbox.go\<close>, \<^verbatim>\<open>bwrap/runner.go\<close> and
  \<^verbatim>\<open>landlock/runner.go\<close>): what a spec grants, the choice of a runner, the command line bubblewrap is
  started with, and the rule set Landlock is given, with ports at their 16 bits.  The kernel is an
  argument: whether a runner is available, whether a path is a directory, what
  \<^verbatim>\<open>ip_local_port_range\<close> holds.  Enforcing a rule set is the kernel's work and is not modelled.
\<close>

section \<open>Specs and runners\<close>

definition LayerContainer :: string where "LayerContainer = ''container''"
definition LayerLandlock :: string where "LayerLandlock = ''landlock''"
definition LayerBwrap :: string where "LayerBwrap = ''bwrap''"

definition NetworkNone :: string where "NetworkNone = []"
definition NetworkHost :: string where "NetworkHost = ''host''"

record ConfineSpec =
  sp_Network :: string
  sp_ReadOnly :: "string list"
  sp_ReadWrite :: "string list"
  sp_TCPConnect :: "16 word list"
  sp_TCPBind :: "16 word list"
  sp_AllowEphemeralTCP :: bool
  sp_TCPDeny :: "16 word list"
  sp_Env :: "string list"
  sp_Dir :: string
  sp_TmpDir :: string

datatype sandbox_error = NoWritablePath | NoSandboxDir | NoSandboxCommand

definition spec_Validate :: "ConfineSpec \<Rightarrow> sandbox_error option" where
  "spec_Validate s =
     (if sp_ReadWrite s = [] then Some NoWritablePath
      else if sp_Dir s = [] then Some NoSandboxDir
      else None)"

text \<open>The command a runner builds: the program, its arguments, its directory and its environment.\<close>

record SandboxCmd =
  sc_Path :: string
  sc_Args :: "string list"
  sc_Dir :: string
  sc_Env :: "string list"

record SandboxRunner =
  sr_Name :: string
  sr_Layers :: "string list"
  sr_Available :: "bool \<times> string"
  sr_Command :: "ConfineSpec \<Rightarrow> string list \<Rightarrow> sandbox_error + SandboxCmd"

record LayerNote =
  lnote_Layer :: string
  lnote_Reason :: string

record SandboxReport =
  rep_Runner :: string
  rep_Active :: "string list"
  rep_Inactive :: "LayerNote list"

fun select_loop :: "SandboxRunner list \<Rightarrow> SandboxRunner option \<Rightarrow> LayerNote list \<Rightarrow> SandboxRunner option \<times> LayerNote list" where
  "select_loop [] chosen notes = (chosen, notes)"
| "select_loop (c # cs) chosen notes =
     (case sr_Available c of
        (ok, reason) \<Rightarrow>
          if ok \<and> chosen = None then select_loop cs (Some c) notes
          else if \<not> ok then
            select_loop cs chosen (notes @ map (\<lambda>l. \<lparr>lnote_Layer = l, lnote_Reason = reason\<rparr>)
                                              (filter (\<lambda>l. l \<noteq> LayerContainer) (sr_Layers c)))
          else select_loop cs chosen notes)"

definition sandbox_Select :: "SandboxRunner list \<Rightarrow> SandboxRunner option \<times> SandboxReport" where
  "sandbox_Select candidates =
     (case select_loop candidates None [] of
        (None, notes) \<Rightarrow> (None, \<lparr>rep_Runner = [], rep_Active = [], rep_Inactive = notes\<rparr>)
      | (Some c, notes) \<Rightarrow>
          (Some c, \<lparr>rep_Runner = sr_Name c, rep_Active = sr_Layers c,
                    rep_Inactive = stable_sort (\<lambda>a b. lnote_Layer a < lnote_Layer b) notes\<rparr>))"

section \<open>Bubblewrap\<close>

definition underDev :: "string \<Rightarrow> bool" where
  "underDev p = (p = ''/dev'' \<or> hasPrefix p ''/dev/'')"

definition unshare_args :: "ConfineSpec \<Rightarrow> string list" where
  "unshare_args spec =
     [''--unshare-user'', ''--unshare-pid'', ''--unshare-ipc'', ''--unshare-uts'', ''--unshare-cgroup-try''] @
     (if sp_Network spec \<noteq> NetworkHost then [''--unshare-net''] else [])"

definition bwrap_args :: "ConfineSpec \<Rightarrow> string list" where
  "bwrap_args spec =
     unshare_args spec @
     [''--die-with-parent'', ''--new-session'', ''--proc'', ''/proc'', ''--dev'', ''/dev''] @
     (if sp_TmpDir spec \<noteq> [] then [''--bind'', sp_TmpDir spec, ''/tmp''] else [''--tmpfs'', ''/tmp'']) @
     concat (map (\<lambda>p. [''--ro-bind-try'', p, p]) (filter (\<lambda>p. \<not> underDev p) (sp_ReadOnly spec))) @
     concat (map (\<lambda>p. [''--bind'', p, p]) (filter (\<lambda>p. \<not> underDev p) (sp_ReadWrite spec))) @
     [''--chdir'', sp_Dir spec, ''--'']"

definition bwrap_binary :: "string \<Rightarrow> string" where
  "bwrap_binary b = (if b \<noteq> [] then b else ''bwrap'')"

definition bwrap_Command ::
  "string \<Rightarrow> SandboxRunner option \<Rightarrow> ConfineSpec \<Rightarrow> string list \<Rightarrow> sandbox_error + SandboxCmd" where
  "bwrap_Command binary inner spec argv =
     (case spec_Validate spec of
        Some e \<Rightarrow> Inl e
      | None \<Rightarrow>
          if argv = [] then Inl NoSandboxCommand
          else (case inner of
             None \<Rightarrow>
               Inr \<lparr>sc_Path = bwrap_binary binary, sc_Args = bwrap_args spec @ argv,
                    sc_Dir = sp_Dir spec, sc_Env = sp_Env spec\<rparr>
           | Some r \<Rightarrow>
               (case sr_Command r spec argv of
                  Inl e \<Rightarrow> Inl e
                | Inr cmd \<Rightarrow>
                    Inr \<lparr>sc_Path = bwrap_binary binary,
                         sc_Args = bwrap_args spec @ [sc_Path cmd] @ sc_Args cmd,
                         sc_Dir = sp_Dir spec, sc_Env = sc_Env cmd\<rparr>)))"

definition bwrap_Name :: "SandboxRunner option \<Rightarrow> string" where
  "bwrap_Name inner = (case inner of Some r \<Rightarrow> ''bwrap+'' @ sr_Name r | None \<Rightarrow> ''bwrap'')"

definition bwrap_dedupe :: "string list \<Rightarrow> string list" where
  "bwrap_dedupe ls = sortStrings (nub_from [] ls)"

definition bwrap_Layers :: "SandboxRunner option \<Rightarrow> string list" where
  "bwrap_Layers inner =
     bwrap_dedupe ([LayerContainer, LayerBwrap] @ (case inner of Some r \<Rightarrow> sr_Layers r | None \<Rightarrow> []))"

text \<open>The probe files of the kernel; \<open>None\<close> is a file that cannot be read.\<close>

definition UserNamespacesAvailable :: "(string \<Rightarrow> string option) \<Rightarrow> (string \<Rightarrow> int option) \<Rightarrow> bool" where
  "UserNamespacesAvailable readFile parseInt =
     ((case readFile ''/proc/sys/kernel/unprivileged_userns_clone'' of
         Some b \<Rightarrow> trimSpace b \<noteq> ''0'' | None \<Rightarrow> True) \<and>
      (case readFile ''/proc/sys/user/max_user_namespaces'' of
         Some b \<Rightarrow> parseInt (trimSpace b) \<noteq> Some 0 | None \<Rightarrow> True) \<and>
      (case readFile ''/proc/sys/kernel/apparmor_restrict_unprivileged_userns'' of
         Some b \<Rightarrow> trimSpace b \<noteq> ''1'' | None \<Rightarrow> True))"

section \<open>Landlock\<close>

definition HelperCommand :: string where "HelperCommand = ''__sandbox-exec''"
definition EnvSpec :: string where "EnvSpec = ''LE_SANDBOX_SPEC''"

definition landlock_Command ::
  "(ConfineSpec \<Rightarrow> string) \<Rightarrow> string \<Rightarrow> ConfineSpec \<Rightarrow> string list \<Rightarrow> sandbox_error + SandboxCmd" where
  "landlock_Command marshal self spec argv =
     (case spec_Validate spec of
        Some e \<Rightarrow> Inl e
      | None \<Rightarrow>
          if argv = [] then Inl NoSandboxCommand
          else Inr \<lparr>sc_Path = self, sc_Args = [HelperCommand, ''--''] @ argv, sc_Dir = sp_Dir spec,
                    sc_Env = sp_Env spec @ [EnvSpec @ ''='' @ marshal spec]\<rparr>)"

text \<open>Whether a path is there, and whether it is a directory.\<close>

fun classify :: "(string \<Rightarrow> bool option) \<Rightarrow> string list \<Rightarrow> string list \<times> string list" where
  "classify stat [] = ([], [])"
| "classify stat (p # ps) =
     (case classify stat ps of
        (dirs, files) \<Rightarrow>
          if p = [] then (dirs, files)
          else (case stat p of
             None \<Rightarrow> (p # dirs, files)
           | Some True \<Rightarrow> (p # dirs, files)
           | Some False \<Rightarrow> (dirs, p # files)))"

datatype ll_rule =
    RODirs "string list" | ROFiles "string list" | RWDirs "string list" | RWFiles "string list"
  | ConnectTCP "16 word" | BindTCP "16 word"

text \<open>
  The ephemeral ports, counted in 16 bits with the test after the body.  The loop ends because the
  distance to the last port, modulo \<open>2 ^ 16\<close>, shrinks: also where the last port is the largest one.
\<close>

function ephemeral_rules :: "16 word \<Rightarrow> 16 word list \<Rightarrow> 16 word \<Rightarrow> ll_rule list" where
  "ephemeral_rules hi denied p =
     (if p \<in> set denied then [] else [BindTCP p, ConnectTCP p]) @
     (if p = hi then [] else ephemeral_rules hi denied (p + 1))"
  by pat_completeness auto

lemma word_distance_shrinks: "p \<noteq> (hi :: 16 word) \<Longrightarrow> unat (hi - (p + 1)) < unat (hi - p)"
proof -
  assume "p \<noteq> hi"
  then have "hi - p \<noteq> 0" by simp
  then have "unat (hi - p - 1) < unat (hi - p)"
    by (rule measure_unat)
  then show ?thesis
    by (simp add: diff_diff_eq)
qed

termination ephemeral_rules
  by (relation "measure (\<lambda>(hi, denied, p). unat (hi - p))") (auto simp: word_distance_shrinks)

declare ephemeral_rules.simps [simp del]

definition parsePort :: "string \<Rightarrow> nat option" where
  "parsePort s = (if s \<noteq> [] \<and> list_all isDigit s \<and> digits_nat s < 65536 then Some (digits_nat s) else None)"

text \<open>The text of \<^verbatim>\<open>ip_local_port_range\<close>, or \<open>None\<close> when it cannot be read.\<close>

definition EphemeralRange :: "string option \<Rightarrow> 16 word \<times> 16 word" where
  "EphemeralRange body =
     (case map_option (goFields []) body of
        Some [a, b] \<Rightarrow>
          (case (parsePort a, parsePort b) of
             (Some l, Some h) \<Rightarrow> if l < 1 \<or> h < l then (32768, 60999) else (of_nat l, of_nat h)
           | _ \<Rightarrow> (32768, 60999))
      | _ \<Rightarrow> (32768, 60999))"

definition landlock_rules :: "(string \<Rightarrow> bool option) \<Rightarrow> 16 word \<times> 16 word \<Rightarrow> ConfineSpec \<Rightarrow> ll_rule list" where
  "landlock_rules stat ports spec =
     (case (classify stat (sp_ReadOnly spec), classify stat (sp_ReadWrite spec)) of
        ((roDirs, roFiles), (rwDirs, rwFiles)) \<Rightarrow>
          (if roDirs \<noteq> [] then [RODirs roDirs] else []) @
          (if roFiles \<noteq> [] then [ROFiles roFiles] else []) @
          (if rwDirs \<noteq> [] then [RWDirs rwDirs] else []) @
          (if rwFiles \<noteq> [] then [RWFiles rwFiles] else []) @
          map ConnectTCP (sp_TCPConnect spec) @
          map BindTCP (sp_TCPBind spec) @
          (if sp_AllowEphemeralTCP spec then ephemeral_rules (snd ports) (sp_TCPDeny spec) (fst ports) else []))"

definition landlock_Apply ::
  "(string \<Rightarrow> bool option) \<Rightarrow> string option \<Rightarrow> ConfineSpec \<Rightarrow> sandbox_error + ll_rule list" where
  "landlock_Apply stat portRange spec =
     (case spec_Validate spec of
        Some e \<Rightarrow> Inl e
      | None \<Rightarrow> Inr (landlock_rules stat (EphemeralRange portRange) spec))"

text \<open>The environment the confined program sees: the helper removes the spec before it executes the program.\<close>

definition helper_env :: "string list \<Rightarrow> string list" where
  "helper_env env = filter (\<lambda>kv. \<not> hasPrefix kv (EnvSpec @ ''='')) env"

datatype helper_error = SpecNotSet | SpecUndecodable | HelperNoCommand | ApplyFailed sandbox_error | NotOnPath

definition landlock_Helper ::
  "(string \<Rightarrow> ConfineSpec option) \<Rightarrow> (string \<Rightarrow> bool option) \<Rightarrow> string option \<Rightarrow> (string \<Rightarrow> string option)
   \<Rightarrow> string list \<Rightarrow> string \<Rightarrow> string list \<Rightarrow> helper_error + (ll_rule list \<times> string \<times> string list \<times> string list)" where
  "landlock_Helper unmarshal stat portRange lookPath env raw argv =
     (if raw = [] then Inl SpecNotSet
      else (case unmarshal raw of
         None \<Rightarrow> Inl SpecUndecodable
       | Some spec \<Rightarrow>
           (case argv of
              [] \<Rightarrow> Inl HelperNoCommand
            | prog # rest \<Rightarrow>
                (case landlock_Apply stat portRange spec of
                   Inl e \<Rightarrow> Inl (ApplyFailed e)
                 | Inr rules \<Rightarrow>
                     (case lookPath prog of
                        None \<Rightarrow> Inl NotOnPath
                      | Some bin \<Rightarrow> Inr (rules, bin, prog # rest, helper_env env))))))"

section \<open>Exactly the granted paths and ports\<close>

definition port_between :: "16 word \<times> 16 word \<Rightarrow> 16 word \<Rightarrow> bool" where
  "port_between ports p = (unat (fst ports) \<le> unat p \<and> unat p \<le> unat (snd ports))"

lemma ephemeral_step:
  "p \<le> hi \<Longrightarrow> p \<noteq> hi \<Longrightarrow> unat (p + 1) = Suc (unat p) \<and> p + 1 \<le> (hi :: 16 word)"
  by unat_arith

lemma ephemeral_rules_set:
  "p \<le> hi \<Longrightarrow> set (ephemeral_rules hi denied p) =
     (\<Union>q \<in> {q. p \<le> q \<and> q \<le> hi \<and> q \<notin> set denied}. {BindTCP q, ConnectTCP q})"
proof (induction hi denied p rule: ephemeral_rules.induct)
  case (1 hi denied p)
  show ?case
  proof (cases "p = hi")
    case True
    then show ?thesis
      by (subst ephemeral_rules.simps) auto
  next
    case False
    have split: "p \<le> q \<longleftrightarrow> q = p \<or> p + 1 \<le> q" for q
      using False "1.prems" by unat_arith
    have "p + 1 \<le> hi"
      using ephemeral_step [OF "1.prems" False] by simp
    then show ?thesis
      using False "1.prems" "1.IH" by (subst ephemeral_rules.simps) (auto simp: split)
  qed
qed

lemma EphemeralRange_ordered: "fst (EphemeralRange body) \<le> snd (EphemeralRange body)"
proof -
  have le: "l \<le> h \<Longrightarrow> h < 65536 \<Longrightarrow> (of_nat l :: 16 word) \<le> of_nat h" for l h
    by (simp add: word_le_nat_alt unat_of_nat)
  show ?thesis
    by (auto simp: EphemeralRange_def parsePort_def intro!: le split: option.splits list.splits)
qed

lemma classify_sets:
  "set (fst (classify stat ps)) = {p \<in> set ps. p \<noteq> [] \<and> stat p \<noteq> Some False} \<and>
   set (snd (classify stat ps)) = {p \<in> set ps. p \<noteq> [] \<and> stat p = Some False}"
proof (induction ps)
  case (Cons p ps)
  obtain ds fs where c: "classify stat ps = (ds, fs)"
    by (cases "classify stat ps")
  have ih: "set ds = {p \<in> set ps. p \<noteq> [] \<and> stat p \<noteq> Some False}" "set fs = {p \<in> set ps. p \<noteq> [] \<and> stat p = Some False}"
    using Cons.IH by (simp_all add: c)
  consider "p = []" | "p \<noteq> []" "stat p = Some False" | "p \<noteq> []" "stat p \<noteq> Some False"
    by blast
  then show ?case
  proof cases
    case 3
    then have "classify stat (p # ps) = (p # ds, fs)"
      by (cases "stat p") (auto simp: c)
    then show ?thesis
      using 3 ih by auto
  qed (auto simp: c ih)
qed simp

lemma landlock_rules_connect:
  "ConnectTCP p \<in> set (landlock_rules stat ports spec) \<longleftrightarrow>
     p \<in> set (sp_TCPConnect spec) \<or>
     (sp_AllowEphemeralTCP spec \<and> ConnectTCP p \<in> set (ephemeral_rules (snd ports) (sp_TCPDeny spec) (fst ports)))"
  by (cases "classify stat (sp_ReadOnly spec)"; cases "classify stat (sp_ReadWrite spec)")
    (auto simp: landlock_rules_def)

text \<open>
  The ports a confined task may dial are the ones its spec names and, where the spec grants the
  ephemeral range, the ports of that range that are not denied: no more and no fewer, also where the
  range ends at the largest port, where a counter of 16 bits would wrap.
\<close>

theorem landlock_ports_exact:
  assumes "landlock_Apply stat portRange spec = Inr rules"
  shows "ConnectTCP p \<in> set rules \<longleftrightarrow>
     p \<in> set (sp_TCPConnect spec) \<or>
     (sp_AllowEphemeralTCP spec \<and> p \<notin> set (sp_TCPDeny spec) \<and> port_between (EphemeralRange portRange) p)"
proof -
  have rules: "rules = landlock_rules stat (EphemeralRange portRange) spec"
    using assms by (auto simp: landlock_Apply_def split: option.splits)
  have "ConnectTCP p \<in> set (ephemeral_rules (snd (EphemeralRange portRange)) (sp_TCPDeny spec) (fst (EphemeralRange portRange)))
          \<longleftrightarrow> p \<notin> set (sp_TCPDeny spec) \<and> port_between (EphemeralRange portRange) p"
    unfolding ephemeral_rules_set [OF EphemeralRange_ordered]
    by (auto simp: port_between_def word_le_nat_alt)
  then show ?thesis
    unfolding rules landlock_rules_connect by blast
qed

definition demo_confine :: ConfineSpec where
  "demo_confine = \<lparr>sp_Network = NetworkNone, sp_ReadOnly = [''/usr''], sp_ReadWrite = [''/w'', ''/dev/null''],
                sp_TCPConnect = [8080], sp_TCPBind = [], sp_AllowEphemeralTCP = True, sp_TCPDeny = [65534],
                sp_Env = [], sp_Dir = ''/w'', sp_TmpDir = []\<rparr>"

lemma demo_range: "EphemeralRange (Some ''65533 65535'') = (65533, 65535)"
proof -
  have "goFields [] ''65533 65535'' = [''65533'', ''65535'']"
    by code_simp
  moreover have "parsePort ''65533'' = Some 65533" "parsePort ''65535'' = Some 65535"
    by (simp_all add: parsePort_def digits_nat_def isDigit_def)
  ultimately show ?thesis
    by (simp add: EphemeralRange_def)
qed

theorem landlock_ports_exact_witness:
  "ConnectTCP 65535 \<in> set (landlock_rules (\<lambda>p. Some (p \<noteq> ''/dev/null'')) (65533, 65535) demo_confine) \<and>
   ConnectTCP 65534 \<notin> set (landlock_rules (\<lambda>p. Some (p \<noteq> ''/dev/null'')) (65533, 65535) demo_confine)"
proof -
  have run: "landlock_Apply (\<lambda>p. Some (p \<noteq> ''/dev/null'')) (Some ''65533 65535'') demo_confine =
               Inr (landlock_rules (\<lambda>p. Some (p \<noteq> ''/dev/null'')) (65533, 65535) demo_confine)"
    by (simp add: landlock_Apply_def spec_Validate_def demo_confine_def demo_range)
  note exact = landlock_ports_exact [OF run, unfolded demo_range]
  show ?thesis
    unfolding exact by (simp add: demo_confine_def port_between_def)
qed

definition inactive_notes :: "SandboxRunner list \<Rightarrow> LayerNote set" where
  "inactive_notes cs =
     {\<lparr>lnote_Layer = l, lnote_Reason = snd (sr_Available c)\<rparr> | c l.
        c \<in> set cs \<and> \<not> fst (sr_Available c) \<and> l \<in> set (sr_Layers c) \<and> l \<noteq> LayerContainer}"

lemma inactive_notes_Cons:
  "inactive_notes (c # cs) = inactive_notes cs \<union>
     (if fst (sr_Available c) then {}
      else (\<lambda>l. \<lparr>lnote_Layer = l, lnote_Reason = snd (sr_Available c)\<rparr>) ` {l \<in> set (sr_Layers c). l \<noteq> LayerContainer})"
  by (auto simp: inactive_notes_def)

lemma select_loop_chosen: "fst (select_loop cs (Some c) ns) = Some c"
  by (induction cs arbitrary: ns) (auto split: prod.splits)

lemma select_loop_first:
  "fst (select_loop cs None ns) = find (\<lambda>c. fst (sr_Available c)) cs"
  by (induction cs arbitrary: ns) (auto simp: select_loop_chosen split: prod.splits)

lemma select_loop_notes:
  "set (snd (select_loop cs chosen ns)) = set ns \<union> inactive_notes cs"
proof (induction cs arbitrary: chosen ns)
  case Nil
  then show ?case by (simp add: inactive_notes_def)
next
  case (Cons c cs)
  then show ?case
    by (cases "sr_Available c") (auto simp: inactive_notes_Cons)
qed

text \<open>
  The runner that is selected is the first one available, and every layer that a runner which is not
  available would have added is reported with that runner's own reason.
\<close>

theorem select_strongest_honest:
  "fst (sandbox_Select cs) = find (\<lambda>c. fst (sr_Available c)) cs \<and>
   set (rep_Inactive (snd (sandbox_Select cs))) =
     {\<lparr>lnote_Layer = l, lnote_Reason = snd (sr_Available c)\<rparr> | c l.
        c \<in> set cs \<and> \<not> fst (sr_Available c) \<and> l \<in> set (sr_Layers c) \<and> l \<noteq> LayerContainer}"
proof -
  obtain ch ns where loop: "select_loop cs None [] = (ch, ns)"
    by (cases "select_loop cs None []")
  have "ch = find (\<lambda>c. fst (sr_Available c)) cs"
    using select_loop_first [of cs "[]"] by (simp add: loop)
  moreover have "set (rep_Inactive (snd (sandbox_Select cs))) = set ns"
    by (auto simp: sandbox_Select_def loop split: option.splits)
  moreover have "set ns = inactive_notes cs"
    using select_loop_notes [of cs None "[]"] by (simp add: loop)
  ultimately show ?thesis
    by (auto simp: sandbox_Select_def loop inactive_notes_def split: option.splits)
qed

lemma bwrap_unshares_net:
  assumes "bwrap_Command b inner spec argv = Inr cmd" "sp_Network spec \<noteq> NetworkHost"
  shows "\<exists>rest. sc_Args cmd = unshare_args spec @ rest \<and> ''--unshare-net'' \<in> set (unshare_args spec)"
  using assms by (auto simp: bwrap_Command_def bwrap_args_def unshare_args_def split: option.splits if_splits sum.splits)

end
