(* ===== verification/Egress.thy ===== *)
theory Egress
  imports Sandbox
begin

text \<open>
  The allowlisting egress proxy and the provisioning lanes
  (\<^verbatim>\<open>src/internal/proxy/proxy.go\<close> and \<^verbatim>\<open>lane.go\<close>): the allowlist and its validation, the decision
  the proxy takes on a request, the two request handlers, the journal of decisions, the bound on
  concurrent tunnels, and the confinement a lane gets.  The network is an argument: whether an
  upstream connect succeeds, what an upstream answers, whether the connection can be hijacked.
  The tunnels of one server run concurrently, so \<^verbatim>\<open>handleConnect\<close> is cut at the points where it
  blocks and a step relation interleaves the pieces.
\<close>

section \<open>Lanes and the allowlist\<close>

definition LaneDeps :: string where "LaneDeps = ''deps''"
definition LaneDocs :: string where "LaneDocs = ''docs''"

definition ParseLane :: "string \<Rightarrow> string option" where
  "ParseLane s = (if s = LaneDeps \<or> s = LaneDocs then Some s else None)"

record EgressRule =
  er_Host :: string
  er_Lanes :: "string list"
  er_Why :: string

record EgressDecision =
  dec_At :: int
  dec_Lane :: string
  dec_Host :: string
  dec_Port :: string
  dec_Allowed :: bool
  dec_Rule :: string
  dec_Reason :: string

datatype egress_error =
    NoHost nat | AllowsEveryHost nat | LooksLikeURL nat | ManyWildcards nat | WildcardNotLeading nat
  | NoWhy nat | DuplicateHost nat | UnknownLane nat string

abbreviation star :: char where "star \<equiv> CHR ''*''"

definition normHost :: "string \<Rightarrow> string" where
  "normHost h = toLower (trimSpace h)"

definition rule_problem :: "string list \<Rightarrow> nat \<Rightarrow> EgressRule \<Rightarrow> egress_error option" where
  "rule_problem seen i r =
     (let h = normHost (er_Host r) in
      if h = [] then Some (NoHost (i + 1))
      else if h = [star] then Some (AllowsEveryHost (i + 1))
      else if containsStr h ''/'' then Some (LooksLikeURL (i + 1))
      else if 1 < length (filter (\<lambda>c. c = star) h) then Some (ManyWildcards (i + 1))
      else if containsStr h [star] \<and> \<not> hasPrefix h ''*.'' then Some (WildcardNotLeading (i + 1))
      else if trimSpace (er_Why r) = [] then Some (NoWhy (i + 1))
      else if h \<in> set seen then Some (DuplicateHost (i + 1))
      else first_error (\<lambda>l. if ParseLane l = None then Some (UnknownLane (i + 1) l) else None) (er_Lanes r))"

fun validate_rules :: "string list \<Rightarrow> nat \<Rightarrow> EgressRule list \<Rightarrow> egress_error option" where
  "validate_rules seen i [] = None"
| "validate_rules seen i (r # rs) =
     (case rule_problem seen i r of
        Some e \<Rightarrow> Some e
      | None \<Rightarrow> validate_rules (normHost (er_Host r) # seen) (i + 1) rs)"

definition allow_Validate :: "EgressRule list \<Rightarrow> egress_error option" where
  "allow_Validate rs = validate_rules [] 0 rs"

definition ruleCoversLane :: "EgressRule \<Rightarrow> string \<Rightarrow> bool" where
  "ruleCoversLane r lane = (er_Lanes r = [] \<or> lane \<in> set (er_Lanes r))"

fun allows_from :: "EgressRule list \<Rightarrow> string \<Rightarrow> string \<Rightarrow> bool \<times> string" where
  "allows_from [] lane h = (False, [])"
| "allows_from (r # rs) lane h =
     (if \<not> ruleCoversLane r lane then allows_from rs lane h
      else let p = normHost (er_Host r) in
        if hasPrefix p ''*.'' then
          (if hasSuffix h (tl p) \<and> length p - 1 < length h then (True, er_Host r) else allows_from rs lane h)
        else if h = p then (True, er_Host r)
        else allows_from rs lane h)"

definition Allows :: "EgressRule list \<Rightarrow> string \<Rightarrow> string \<Rightarrow> bool \<times> string" where
  "Allows rs lane host = allows_from rs lane (trimSuffix (normHost host) ''.'')"

definition DefaultAllowlist :: "EgressRule list" where
  "DefaultAllowlist =
     [\<lparr>er_Host = ''proxy.golang.org'', er_Lanes = [LaneDeps], er_Why = ''the Go module proxy''\<rparr>,
      \<lparr>er_Host = ''sum.golang.org'', er_Lanes = [LaneDeps],
       er_Why = ''the Go checksum database; without it GONOSUMDB would have to be set''\<rparr>,
      \<lparr>er_Host = ''registry.npmjs.org'', er_Lanes = [LaneDeps],
       er_Why = ''npm packages for the TypeScript sidecar and Node projects''\<rparr>,
      \<lparr>er_Host = ''pkg.go.dev'', er_Lanes = [LaneDocs], er_Why = ''Go package documentation''\<rparr>]"

section \<open>The decision on one request\<close>

text \<open>\<^verbatim>\<open>net.SplitHostPort\<close> and \<^verbatim>\<open>net.JoinHostPort\<close>; \<open>None\<close> is the error the proxy replaces by its default.\<close>

abbreviation colon :: char where "colon \<equiv> CHR '':''"

definition splitLast :: "char \<Rightarrow> string \<Rightarrow> (string \<times> string) option" where
  "splitLast c s =
     (if c \<in> set s
      then Some (rev (tl (dropWhile (\<lambda>x. x \<noteq> c) (rev s))), rev (takeWhile (\<lambda>x. x \<noteq> c) (rev s)))
      else None)"

definition SplitHostPort :: "string \<Rightarrow> (string \<times> string) option" where
  "SplitHostPort hp =
     (case splitLast colon hp of
        None \<Rightarrow> None
      | Some (before, port) \<Rightarrow>
          if hasPrefix hp ''['' then
            (let host = takeWhile (\<lambda>c. c \<noteq> CHR '']'') (tl hp) in
             if before = CHR ''['' # host @ '']'' \<and> CHR ''['' \<notin> set (tl hp) \<and> CHR '']'' \<notin> set port
             then Some (host, port) else None)
          else if colon \<in> set before \<or> CHR ''['' \<in> set hp \<or> CHR '']'' \<in> set hp then None
          else Some (before, port))"

definition JoinHostPort :: "string \<Rightarrow> string \<Rightarrow> string" where
  "JoinHostPort host port =
     (if colon \<in> set host then CHR ''['' # host @ '']:'' @ port else host @ [colon] @ port)"

record EgressServer =
  sv_Allow :: "EgressRule list"
  sv_Lane :: string
  sv_AllowPorts :: "string list"
  sv_DialTimeout :: int
  sv_IdleTimeout :: int

definition MaxConcurrent :: int where "MaxConcurrent = 32"

definition sv_ports :: "EgressServer \<Rightarrow> string list" where
  "sv_ports s = (if sv_AllowPorts s = [] then [''80'', ''443''] else sv_AllowPorts s)"

definition portAllowed :: "EgressServer \<Rightarrow> string \<Rightarrow> bool" where
  "portAllowed s port = list_ex (\<lambda>p. p = port) (sv_ports s)"

datatype egress_verdict =
    Refused string string string
  | Granted string string string

definition sv_check :: "EgressServer \<Rightarrow> string \<Rightarrow> string \<Rightarrow> egress_verdict" where
  "sv_check s hostport defaultPort =
     (case (case SplitHostPort hostport of None \<Rightarrow> (hostport, defaultPort) | Some hp \<Rightarrow> hp) of
        (host, port) \<Rightarrow>
          if host = [] then Refused [] [] ''no host in the request''
          else if \<not> portAllowed s port then
            Refused host port (''port '' @ port @ '' is not '' @ joinWith '' or '' (sv_ports s))
          else (case Allows (sv_Allow s) (sv_Lane s) host of
             (allowed, rl) \<Rightarrow>
               if \<not> allowed then
                 Refused host port (host @ '' is not in the '' @ sv_Lane s @
                   '' lane's allowlist; add it to egress.allowlist in le.yaml with a reason'')
               else Granted host port rl))"

section \<open>The handlers\<close>

text \<open>
  What a server has done so far: the counter its mutex guards, the decisions it journalled, the
  upstream addresses it connected to or asked for, and the tunnels in flight.
\<close>

datatype stage = Dialing | Piping

record Tunnel =
  tn_id :: nat
  tn_Host :: string
  tn_Port :: string
  tn_Rule :: string
  tn_stage :: stage

record ProxyState =
  ps_conns :: int
  ps_journal :: "EgressDecision list"
  ps_upstream :: "(string \<times> string) list"
  ps_tunnels :: "Tunnel list"

definition sv_record :: "EgressServer \<Rightarrow> int \<Rightarrow> EgressDecision \<Rightarrow> ProxyState \<Rightarrow> ProxyState" where
  "sv_record s now d st = st\<lparr>ps_journal := ps_journal st @ [d\<lparr>dec_At := now, dec_Lane := sv_Lane s\<rparr>]\<rparr>"

definition decision :: "string \<Rightarrow> string \<Rightarrow> bool \<Rightarrow> string \<Rightarrow> string \<Rightarrow> EgressDecision" where
  "decision host port ok rl why =
     \<lparr>dec_At = 0, dec_Lane = [], dec_Host = host, dec_Port = port, dec_Allowed = ok, dec_Rule = rl, dec_Reason = why\<rparr>"

definition sv_acquire :: "ProxyState \<Rightarrow> bool \<times> ProxyState" where
  "sv_acquire st = (if MaxConcurrent \<le> ps_conns st then (False, st) else (True, st\<lparr>ps_conns := ps_conns st + 1\<rparr>))"

definition sv_release :: "ProxyState \<Rightarrow> ProxyState" where
  "sv_release st = st\<lparr>ps_conns := ps_conns st - 1\<rparr>"

definition dial_timeout :: "EgressServer \<Rightarrow> int" where
  "dial_timeout s = (if sv_DialTimeout s \<le> 0 then 15 * 10 ^ 9 else sv_DialTimeout s)"

text \<open>\<^verbatim>\<open>handleConnect\<close> up to the upstream connect: what it answers at once, or the tunnel it starts to dial.\<close>

definition connect_open :: "EgressServer \<Rightarrow> int \<Rightarrow> nat \<Rightarrow> string \<Rightarrow> ProxyState \<Rightarrow> int option \<times> ProxyState" where
  "connect_open s now i reqHost st =
     (case sv_check s reqHost ''443'' of
        Refused host port why \<Rightarrow> (Some 403, sv_record s now (decision host port False [] why) st)
      | Granted host port rl \<Rightarrow>
          (case sv_acquire st of
             (False, st') \<Rightarrow>
               (Some 503, sv_record s now (decision host port False rl ''too many concurrent tunnels'') st')
           | (True, st') \<Rightarrow>
               (None, st'\<lparr>ps_upstream := ps_upstream st' @ [(host, port)],
                          ps_tunnels := ps_tunnels st' @
                            [\<lparr>tn_id = i, tn_Host = host, tn_Port = port, tn_Rule = rl, tn_stage = Dialing\<rparr>]\<rparr>)))"

definition drop_tunnel :: "Tunnel \<Rightarrow> ProxyState \<Rightarrow> ProxyState" where
  "drop_tunnel t st = sv_release (st\<lparr>ps_tunnels := remove1 t (ps_tunnels st)\<rparr>)"

text \<open>
  What the upstream connect brought: an error, or a connection that can or cannot be taken over.
  The answer to the client is the status it sees; \<open>None\<close> is a tunnel that is up.
\<close>

datatype dialed = DialFailed string | NoHijack | HijackFailed | Tunnelled

definition connect_dialed :: "EgressServer \<Rightarrow> int \<Rightarrow> dialed \<Rightarrow> Tunnel \<Rightarrow> ProxyState \<Rightarrow> int option \<times> ProxyState" where
  "connect_dialed s now d t st =
     (case d of
        DialFailed e \<Rightarrow>
          (Some 502, drop_tunnel t (sv_record s now
             (decision (tn_Host t) (tn_Port t) True (tn_Rule t) (''allowed, but the upstream connect failed: '' @ e)) st))
      | NoHijack \<Rightarrow> (Some 500, drop_tunnel t (sv_record s now (decision (tn_Host t) (tn_Port t) True (tn_Rule t) []) st))
      | HijackFailed \<Rightarrow> (None, drop_tunnel t (sv_record s now (decision (tn_Host t) (tn_Port t) True (tn_Rule t) []) st))
      | Tunnelled \<Rightarrow>
          (Some 200, (sv_record s now (decision (tn_Host t) (tn_Port t) True (tn_Rule t) []) st)
             \<lparr>ps_tunnels := map (\<lambda>u. if u = t then u\<lparr>tn_stage := Piping\<rparr> else u) (ps_tunnels st)\<rparr>))"

text \<open>
  \<^verbatim>\<open>pipe\<close> copies one direction: every read gets a fresh deadline, what was read is written before the
  read's error is looked at, and a failed write or read ends the copy.
\<close>

record Transfer =
  tr_at :: int
  tr_data :: string
  tr_writeOk :: bool
  tr_readErr :: bool

definition idle_timeout :: "EgressServer \<Rightarrow> int" where
  "idle_timeout s = (if sv_IdleTimeout s \<le> 0 then 300 * 10 ^ 9 else sv_IdleTimeout s)"

fun cp :: "int \<Rightarrow> Transfer list \<Rightarrow> string \<times> int list" where
  "cp idle [] = ([], [])"
| "cp idle (x # xs) =
     (let deadline = tr_at x + idle in
      if tr_data x \<noteq> [] \<and> \<not> tr_writeOk x then ([], [deadline])
      else if tr_readErr x then (tr_data x, [deadline])
      else (case cp idle xs of (out, ds) \<Rightarrow> (tr_data x @ out, deadline # ds)))"

text \<open>The whole handler for one client: the pieces in the order \<^verbatim>\<open>handleConnect\<close> runs them.\<close>

definition handleConnect :: "EgressServer \<Rightarrow> int \<Rightarrow> nat \<Rightarrow> string \<Rightarrow> dialed \<Rightarrow> ProxyState \<Rightarrow> int option \<times> ProxyState" where
  "handleConnect s now i reqHost d st =
     (case connect_open s now i reqHost st of
        (Some code, st1) \<Rightarrow> (Some code, st1)
      | (None, st1) \<Rightarrow>
          (let t = last (ps_tunnels st1) in
           case connect_dialed s now d t st1 of
             (code, st2) \<Rightarrow>
               (code, if d = Tunnelled then drop_tunnel (t\<lparr>tn_stage := Piping\<rparr>) st2 else st2)))"

definition hopByHop :: "string list" where
  "hopByHop = [''Proxy-Connection'', ''Proxy-Authenticate'', ''Proxy-Authorization'', ''Connection'', ''Keep-Alive'',
               ''Te'', ''Trailer'', ''Transfer-Encoding'', ''Upgrade'']"

record HttpRequest =
  hr_Method :: string
  hr_Host :: string
  hr_URLHost :: "string option"
  hr_Header :: "(string \<times> string) list"

record HttpResponse =
  hs_Status :: int
  hs_Header :: "(string \<times> string) list"
  hs_Body :: string

definition http_error :: "string \<Rightarrow> int \<Rightarrow> HttpResponse" where
  "http_error msg code = \<lparr>hs_Status = code, hs_Header = [], hs_Body = msg\<rparr>"

definition handleHTTP ::
  "EgressServer \<Rightarrow> int \<Rightarrow> (HttpRequest \<Rightarrow> HttpResponse option) \<Rightarrow> HttpRequest \<Rightarrow> ProxyState \<Rightarrow> HttpResponse \<times> ProxyState" where
  "handleHTTP s now do r st =
     (case hr_URLHost r of
        None \<Rightarrow> (http_error ''egress: this is a forward proxy; send an absolute URI or CONNECT'' 400, st)
      | Some urlHost \<Rightarrow>
          (case sv_check s urlHost ''80'' of
             Refused host port why \<Rightarrow>
               (http_error (''egress refused: '' @ why) 403, sv_record s now (decision host port False [] why) st)
           | Granted host port rl \<Rightarrow>
               (let st1 = (sv_record s now (decision host port True rl []) st)
                             \<lparr>ps_upstream := ps_upstream st @ [(host, port)]\<rparr>;
                    out = r\<lparr>hr_Header := filter (\<lambda>(k, v). k \<notin> set hopByHop) (hr_Header r)\<rparr> in
                case do out of
                  None \<Rightarrow> (http_error ''egress: upstream request failed'' 502, st1)
                | Some resp \<Rightarrow> (resp, st1))))"

text \<open>
  The server's connections interleave: a new CONNECT, the end of a dial, the end of a tunnel, or a
  plain HTTP request.  A connection is told from the others by its identifier.
\<close>

inductive proxy_step :: "EgressServer \<Rightarrow> ProxyState \<Rightarrow> ProxyState \<Rightarrow> bool" for s where
  P_open: "i \<notin> tn_id ` set (ps_tunnels st) \<Longrightarrow> proxy_step s st (snd (connect_open s now i h st))"
| P_dialed: "t \<in> set (ps_tunnels st) \<Longrightarrow> tn_stage t = Dialing \<Longrightarrow> proxy_step s st (snd (connect_dialed s now d t st))"
| P_closed: "t \<in> set (ps_tunnels st) \<Longrightarrow> tn_stage t = Piping \<Longrightarrow> proxy_step s st (drop_tunnel t st)"
| P_http: "proxy_step s st (snd (handleHTTP s now do r st))"

definition proxy_init :: ProxyState where
  "proxy_init = \<lparr>ps_conns = 0, ps_journal = [], ps_upstream = [], ps_tunnels = []\<rparr>"

section \<open>Provisioning lanes\<close>

record LaneSpec =
  ln_Lane :: string
  ln_ProxyPort :: int
  ln_Dir :: string
  ln_ReadWrite :: "string list"
  ln_ReadOnly :: "string list"
  ln_TmpDir :: string
  ln_Env :: "string list"

datatype lane_error = NotALane string | NoProxyPort | NoWorkingDir | NoCommand | NoSandbox | ConfineFailed | LaneRunFailed | LaneTimeout

definition lane_DeviceFiles :: "string list" where
  "lane_DeviceFiles = [''/dev/null'', ''/dev/zero'', ''/dev/full'', ''/dev/random'', ''/dev/urandom'', ''/dev/tty'']"

definition ProxyEnv :: "LaneSpec \<Rightarrow> string list" where
  "ProxyEnv s =
     (let addr = ''http://127.0.0.1:'' @ showInt (ln_ProxyPort s) in
      ln_Env s @
      [''HTTP_PROXY='' @ addr, ''HTTPS_PROXY='' @ addr, ''http_proxy='' @ addr, ''https_proxy='' @ addr,
       ''NO_PROXY=127.0.0.1,localhost,::1'', ''no_proxy=127.0.0.1,localhost,::1'',
       ''GOFLAGS=-mod=mod'', ''GOPROXY=https://proxy.golang.org,direct''])"

definition lane_SandboxSpec :: "LaneSpec \<Rightarrow> lane_error + ConfineSpec" where
  "lane_SandboxSpec s =
     (if ParseLane (ln_Lane s) = None then Inl (NotALane (ln_Lane s))
      else if ln_ProxyPort s \<le> 0 \<or> 65535 < ln_ProxyPort s then Inl NoProxyPort
      else if ln_Dir s = [] then Inl NoWorkingDir
      else Inr \<lparr>sp_Network = NetworkNone, sp_ReadOnly = ln_ReadOnly s,
                sp_ReadWrite = [ln_Dir s] @ ln_ReadWrite s @
                  (if ln_TmpDir s \<noteq> [] then [ln_TmpDir s] else []) @ lane_DeviceFiles,
                sp_TCPConnect = [word_of_int (ln_ProxyPort s)], sp_TCPBind = [], sp_AllowEphemeralTCP = False,
                sp_TCPDeny = [], sp_Env = ProxyEnv s, sp_Dir = ln_Dir s, sp_TmpDir = ln_TmpDir s\<rparr>)"

text \<open>
  What running a confined command comes to: an exit code or a failure to run, with its output, and
  whether the deadline had passed by then.
\<close>

record LaneResult =
  lr_Argv :: "string list"
  lr_Lane :: string
  lr_ExitCode :: int
  lr_Stdout :: string
  lr_Stderr :: string

datatype ran = Exited int | RanError

record LaneExec =
  lx_result :: ran
  lx_out :: string
  lx_err :: string
  lx_expired :: bool

definition lane_timeout :: "int \<Rightarrow> int" where
  "lane_timeout t = (if t \<le> 0 then 600 * 10 ^ 9 else t)"

definition lane_Run ::
  "SandboxRunner option \<Rightarrow> (int \<Rightarrow> SandboxCmd \<Rightarrow> LaneExec) \<Rightarrow> int \<Rightarrow> LaneSpec \<Rightarrow> string list
   \<Rightarrow> lane_error option \<times> LaneResult" where
  "lane_Run sandbox run timeout spec argv =
     (let res = \<lparr>lr_Argv = argv, lr_Lane = ln_Lane spec, lr_ExitCode = 0, lr_Stdout = [], lr_Stderr = []\<rparr> in
      if argv = [] then (Some NoCommand, res)
      else (case sandbox of
         None \<Rightarrow> (Some NoSandbox, res)
       | Some sb \<Rightarrow>
           (case lane_SandboxSpec spec of
              Inl e \<Rightarrow> (Some e, res)
            | Inr sbSpec \<Rightarrow>
                (case sr_Command sb sbSpec argv of
                   Inl e \<Rightarrow> (Some ConfineFailed, res)
                 | Inr cmd \<Rightarrow>
                     (let x = run (lane_timeout timeout) cmd;
                          res1 = res\<lparr>lr_Stdout := lx_out x, lr_Stderr := lx_err x\<rparr> in
                      case lx_result x of
                        RanError \<Rightarrow> (Some LaneRunFailed, res1)
                      | Exited c \<Rightarrow>
                          (let res2 = res1\<lparr>lr_ExitCode := c\<rparr> in
                           if lx_expired x then (Some LaneTimeout, res2) else (None, res2)))))))"

section \<open>The allowlist means what it says\<close>

text \<open>A pattern covers one host, or every host with at least one more label in front of a domain.\<close>

definition host_matches :: "string \<Rightarrow> string \<Rightarrow> bool" where
  "host_matches pat h =
     (if hasPrefix pat ''*.'' then \<exists>label. label \<noteq> [] \<and> h = label @ ''.'' @ drop 2 pat else h = pat)"

lemma wildcard_iff:
  assumes "hasPrefix p ''*.''"
  shows "(hasSuffix h (tl p) \<and> length p - 1 < length h) \<longleftrightarrow> (\<exists>label. label \<noteq> [] \<and> h = label @ ''.'' @ drop 2 p)"
proof -
  obtain d where p: "p = ''*.'' @ d"
    using assms by (auto simp: hasPrefix_iff)
  show ?thesis
    by (auto simp: p hasSuffix_iff)
qed

lemma host_matches_test:
  "host_matches p h = (if hasPrefix p ''*.'' then hasSuffix h (tl p) \<and> length p - 1 < length h else h = p)"
  using wildcard_iff [of p h] by (cases "hasPrefix p ''*.''") (simp_all only: host_matches_def if_True if_False)

lemma allows_from_Cons:
  "allows_from (r # rs) lane h =
     (if ruleCoversLane r lane \<and> host_matches (normHost (er_Host r)) h then (True, er_Host r) else allows_from rs lane h)"
  by (simp add: host_matches_test Let_def)

lemma allows_from_iff:
  "fst (allows_from rs lane h) \<longleftrightarrow> (\<exists>r \<in> set rs. ruleCoversLane r lane \<and> host_matches (normHost (er_Host r)) h)"
proof (induction rs)
  case (Cons r rs)
  then show ?case
    unfolding allows_from_Cons by (auto simp del: allows_from.simps)
qed simp

text \<open>
  C32. A lane may reach a host exactly when a rule for the lane names the host, or names a domain by a
  wildcard and the host has at least one label in front of that domain; the domain itself, a
  different case, surrounding blanks and a trailing dot make no difference to which rule is meant.
\<close>

theorem allows_exact:
  "fst (Allows rs lane host) \<longleftrightarrow>
     (\<exists>r \<in> set rs. (er_Lanes r = [] \<or> lane \<in> set (er_Lanes r)) \<and>
        host_matches (normHost (er_Host r)) (trimSuffix (normHost host) ''.''))"
  unfolding Allows_def allows_from_iff ruleCoversLane_def by (rule refl)

section \<open>Every route out is allowlisted, journalled and counted\<close>

definition may_reach :: "EgressServer \<Rightarrow> string \<times> string \<Rightarrow> bool" where
  "may_reach s hp = (portAllowed s (snd hp) \<and> fst (Allows (sv_Allow s) (sv_Lane s) (fst hp)))"

definition accounted :: "ProxyState \<Rightarrow> string \<times> string \<Rightarrow> bool" where
  "accounted st hp =
     ((\<exists>t \<in> set (ps_tunnels st). tn_stage t = Dialing \<and> (tn_Host t, tn_Port t) = hp) \<or>
      (\<exists>d \<in> set (ps_journal st). dec_Allowed d \<and> (dec_Host d, dec_Port d) = hp))"

definition proxy_inv :: "EgressServer \<Rightarrow> ProxyState \<Rightarrow> bool" where
  "proxy_inv s st =
     (ps_conns st = int (length (ps_tunnels st)) \<and> ps_conns st \<le> MaxConcurrent \<and>
      distinct (map tn_id (ps_tunnels st)) \<and>
      (\<forall>hp \<in> set (ps_upstream st). may_reach s hp \<and> accounted st hp) \<and>
      (\<forall>d \<in> set (ps_journal st). dec_Lane d = sv_Lane s))"

lemma sv_check_granted: "sv_check s hp dp = Granted host port rl \<Longrightarrow> may_reach s (host, port)"
  by (auto simp: sv_check_def may_reach_def Let_def split: prod.splits option.splits if_splits)

lemmas proxy_defs = sv_record_def decision_def sv_acquire_def sv_release_def drop_tunnel_def

lemma accounted_journal:
  "accounted st hp \<Longrightarrow> set (ps_journal st) \<subseteq> set (ps_journal st') \<Longrightarrow> ps_tunnels st' = ps_tunnels st \<Longrightarrow> accounted st' hp"
  by (auto simp: accounted_def)

lemma proxy_inv_record:
  assumes "proxy_inv s st"
  shows "proxy_inv s (sv_record s now d st)"
  using assms by (auto simp: proxy_inv_def sv_record_def intro: accounted_journal)

lemma proxy_inv_http: "proxy_inv s st \<Longrightarrow> proxy_inv s (snd (handleHTTP s now do r st))"
proof (cases "hr_URLHost r")
  case (Some h)
  assume inv: "proxy_inv s st"
  show ?thesis
  proof (cases "sv_check s h ''80''")
    case (Refused host port why)
    then show ?thesis
      using Some inv by (simp add: handleHTTP_def proxy_inv_record)
  next
    case (Granted host port rl)
    let ?d = "(decision host port True rl [])\<lparr>dec_At := now, dec_Lane := sv_Lane s\<rparr>"
    let ?st = "st\<lparr>ps_journal := ps_journal st @ [?d], ps_upstream := ps_upstream st @ [(host, port)]\<rparr>"
    have "proxy_inv s ?st"
      using inv sv_check_granted [OF Granted]
      by (auto simp: proxy_inv_def accounted_def decision_def)
    moreover have "snd (handleHTTP s now do r st) = ?st"
      using Some Granted by (auto simp: handleHTTP_def sv_record_def Let_def split: option.split)
    ultimately show ?thesis by simp
  qed
qed (simp add: handleHTTP_def)

lemma proxy_inv_open:
  assumes inv: "proxy_inv s st" and fresh: "i \<notin> tn_id ` set (ps_tunnels st)"
  shows "proxy_inv s (snd (connect_open s now i h st))"
proof (cases "sv_check s h ''443''")
  case (Refused host port why)
  then show ?thesis
    using inv by (simp add: connect_open_def proxy_inv_record)
next
  case (Granted host port rl)
  show ?thesis
  proof (cases "MaxConcurrent \<le> ps_conns st")
    case True
    then show ?thesis
      using Granted inv by (simp add: connect_open_def sv_acquire_def proxy_inv_record)
  next
    case False
    have "ps_conns st + 1 \<le> MaxConcurrent"
      using False by simp
    then show ?thesis
      using Granted inv fresh False sv_check_granted [OF Granted]
      by (auto simp: connect_open_def sv_acquire_def proxy_inv_def accounted_def)
  qed
qed

text \<open>A tunnel that leaves gives its slot back; what it dialled stays accounted for by the journal.\<close>

lemma proxy_inv_drop:
  assumes inv: "proxy_inv s st" and t: "t \<in> set (ps_tunnels st)"
    and left: "\<exists>d \<in> set (ps_journal st). dec_Allowed d \<and> (dec_Host d, dec_Port d) = (tn_Host t, tn_Port t)"
  shows "proxy_inv s (drop_tunnel t st)"
proof -
  have d: "distinct (ps_tunnels st)"
    using inv by (simp add: proxy_inv_def distinct_map)
  have len: "int (length (remove1 t (ps_tunnels st))) = int (length (ps_tunnels st)) - 1"
  proof -
    have "length (remove1 t (ps_tunnels st)) = length (ps_tunnels st) - 1" "0 < length (ps_tunnels st)"
      using t length_pos_if_in_set [OF t] by (simp_all only: length_remove1 if_True)
    then show ?thesis by linarith
  qed
  have dist: "distinct (map tn_id (remove1 t (ps_tunnels st)))"
    using inv by (simp add: proxy_inv_def distinct_map inj_on_subset set_remove1_eq [OF d])
      (metis Diff_subset inj_on_subset distinct_remove1)
  have acc: "accounted (drop_tunnel t st) hp" if "accounted st hp" for hp
    using that left d t by (auto simp: accounted_def drop_tunnel_def sv_release_def)
  show ?thesis
    using inv len dist acc by (auto simp: proxy_inv_def drop_tunnel_def sv_release_def)
qed

lemma proxy_inv_dialed:
  assumes inv: "proxy_inv s st" and t: "t \<in> set (ps_tunnels st)"
  shows "proxy_inv s (snd (connect_dialed s now d t st))"
proof -
  have dropped: "proxy_inv s (drop_tunnel t (sv_record s now (decision (tn_Host t) (tn_Port t) True (tn_Rule t) why) st))" for why
    by (rule proxy_inv_drop [OF proxy_inv_record [OF inv]]) (use t in \<open>auto simp: sv_record_def decision_def\<close>)
  have up: "proxy_inv s (snd (connect_dialed s now Tunnelled t st))"
  proof -
    let ?f = "\<lambda>u. if u = t then u\<lparr>tn_stage := Piping\<rparr> else u"
    have ids: "map tn_id (map ?f (ps_tunnels st)) = map tn_id (ps_tunnels st)"
      by simp
    have "\<exists>u \<in> set (map ?f (ps_tunnels st)). tn_stage u = Dialing \<and> (tn_Host u, tn_Port u) = hp"
      if "v \<in> set (ps_tunnels st)" "tn_stage v = Dialing" "(tn_Host v, tn_Port v) = hp" "v \<noteq> t" for v hp
      using that by force
    then have acc: "accounted (snd (connect_dialed s now Tunnelled t st)) hp" if "accounted st hp" for hp
      using that by (fastforce simp: accounted_def connect_dialed_def sv_record_def decision_def)
    then show ?thesis
      using inv ids by (auto simp: proxy_inv_def connect_dialed_def sv_record_def decision_def simp del: map_map)
  qed
  show ?thesis
    using dropped up by (cases d) (simp_all add: connect_dialed_def)
qed

text \<open>A tunnel that is up was journalled when it came up.\<close>

definition piped_journalled :: "ProxyState \<Rightarrow> bool" where
  "piped_journalled st =
     (\<forall>t \<in> set (ps_tunnels st). tn_stage t = Piping \<longrightarrow>
        (\<exists>d \<in> set (ps_journal st). dec_Allowed d \<and> (dec_Host d, dec_Port d) = (tn_Host t, tn_Port t)))"

lemma piped_journalled_mono:
  assumes "piped_journalled st" "set (ps_journal st) \<subseteq> set (ps_journal st')"
    "\<And>t. t \<in> set (ps_tunnels st') \<Longrightarrow> tn_stage t = Piping \<Longrightarrow> t \<in> set (ps_tunnels st)"
  shows "piped_journalled st'"
  using assms unfolding piped_journalled_def by (metis subsetD)

lemma piped_journalled_step:
  assumes pj: "piped_journalled st" and "proxy_step s st st'"
  shows "piped_journalled st'"
  using assms(2)
proof cases
  case (P_open i now h)
  show ?thesis
    by (rule piped_journalled_mono [OF pj])
      (auto simp: P_open connect_open_def proxy_defs split: egress_verdict.splits if_splits)
next
  case (P_dialed t now d)
  show ?thesis
  proof (cases "d = Tunnelled")
    case True
    then show ?thesis
      using pj by (auto simp: P_dialed connect_dialed_def piped_journalled_def sv_record_def decision_def)
  next
    case False
    then show ?thesis
      by (intro piped_journalled_mono [OF pj])
        (auto simp: P_dialed connect_dialed_def proxy_defs split: dialed.splits dest: subsetD [OF set_remove1_subset])
  qed
next
  case (P_closed t)
  show ?thesis
    by (rule piped_journalled_mono [OF pj]) (auto simp: P_closed proxy_defs dest: subsetD [OF set_remove1_subset])
next
  case (P_http now do r)
  show ?thesis
    by (rule piped_journalled_mono [OF pj])
      (auto simp: P_http handleHTTP_def proxy_defs Let_def split: option.splits egress_verdict.splits)
qed

lemma proxy_inv_step:
  assumes inv: "proxy_inv s st" and pj: "piped_journalled st" and "proxy_step s st st'"
  shows "proxy_inv s st'"
  using assms(3)
proof cases
  case (P_closed t)
  then show ?thesis
    using inv pj by (auto simp: piped_journalled_def intro!: proxy_inv_drop)
qed (simp_all add: inv proxy_inv_open proxy_inv_dialed proxy_inv_http)

lemma proxy_reachable_inv:
  assumes "(proxy_step s)\<^sup>*\<^sup>* proxy_init st"
  shows "proxy_inv s st \<and> piped_journalled st"
  using assms
proof (induction rule: rtranclp_induct)
  case base
  then show ?case
    by (simp add: proxy_init_def proxy_inv_def piped_journalled_def MaxConcurrent_def)
next
  case (step st st')
  then show ?case
    using proxy_inv_step piped_journalled_step by blast
qed


definition demo_proxy :: EgressServer where
  "demo_proxy = \<lparr>sv_Allow = DefaultAllowlist, sv_Lane = LaneDeps, sv_AllowPorts = [], sv_DialTimeout = 0, sv_IdleTimeout = 0\<rparr>"

definition demo_dialing :: ProxyState where
  "demo_dialing =
     \<lparr>ps_conns = 1, ps_journal = [], ps_upstream = [(''sum.golang.org'', ''443'')],
      ps_tunnels = [\<lparr>tn_id = 0, tn_Host = ''sum.golang.org'', tn_Port = ''443'', tn_Rule = ''sum.golang.org'', tn_stage = Dialing\<rparr>]\<rparr>"

lemma demo_open: "snd (connect_open demo_proxy 1 0 ''sum.golang.org:443'' proxy_init) = demo_dialing"
  by code_simp

lemma demo_proxy_run:
  "(proxy_step demo_proxy)\<^sup>*\<^sup>* proxy_init (snd (connect_dialed demo_proxy 2 Tunnelled (hd (ps_tunnels demo_dialing)) demo_dialing))"
proof -
  have "proxy_step demo_proxy proxy_init demo_dialing"
    using P_open [of 0 proxy_init demo_proxy 1 "''sum.golang.org:443''"] unfolding demo_open
    by (simp add: proxy_init_def)
  moreover have "proxy_step demo_proxy demo_dialing
      (snd (connect_dialed demo_proxy 2 Tunnelled (hd (ps_tunnels demo_dialing)) demo_dialing))"
    by (rule P_dialed) (simp_all add: demo_dialing_def)
  ultimately show ?thesis
    by (meson converse_rtranclp_into_rtranclp r_into_rtranclp)
qed


text \<open>
  The counter the mutex guards is the number of tunnels in flight, whatever the order in which they
  open, fail to dial and close: it never passes 32 and it never goes below zero.
\<close>

theorem tunnels_bounded:
  assumes "(proxy_step s)\<^sup>*\<^sup>* proxy_init st"
  shows "ps_conns st = int (length (ps_tunnels st)) \<and> 0 \<le> ps_conns st \<and> ps_conns st \<le> 32"
  using proxy_reachable_inv [OF assms] by (simp add: proxy_inv_def MaxConcurrent_def)

theorem tunnels_bounded_witness:
  "ps_conns (snd (connect_dialed demo_proxy 2 Tunnelled (hd (ps_tunnels demo_dialing)) demo_dialing)) \<le> 32"
  using tunnels_bounded [OF demo_proxy_run] by blast

lemma cp_prefix: "\<exists>rest. concat (map tr_data xs) = fst (cp idle xs) @ rest"
  by (induction xs) (auto simp: Let_def split: prod.split)

lemma cp_all:
  "list_all tr_writeOk xs \<and> list_all (\<lambda>x. \<not> tr_readErr x) (butlast xs) \<longrightarrow> fst (cp idle xs) = concat (map tr_data xs)"
  by (induction xs) (auto simp: Let_def split: prod.split if_splits)

lemma cp_deadlines: "snd (cp idle xs) = map (\<lambda>x. tr_at x + idle) (take (length (snd (cp idle xs))) xs)"
  by (induction xs) (auto simp: Let_def split: prod.split)

text \<open>
  The copy of one direction of a tunnel writes a prefix of what was read, in order, and all of it when
  no write fails and only the last read does; and each read waits from the moment it starts, so that a
  tunnel is ended by silence and not by its age.
\<close>

theorem pipe_copies_in_order:
  "(\<exists>rest. concat (map tr_data xs) = fst (cp idle xs) @ rest) \<and>
   (list_all tr_writeOk xs \<and> list_all (\<lambda>x. \<not> tr_readErr x) (butlast xs) \<longrightarrow> fst (cp idle xs) = concat (map tr_data xs)) \<and>
   snd (cp idle xs) = map (\<lambda>x. tr_at x + idle) (take (length (snd (cp idle xs))) xs)"
  using cp_prefix cp_all cp_deadlines by blast

theorem pipe_copies_in_order_witness:
  "fst (cp 5 [\<lparr>tr_at = 0, tr_data = ''ab'', tr_writeOk = True, tr_readErr = False\<rparr>,
              \<lparr>tr_at = 9, tr_data = ''c'', tr_writeOk = True, tr_readErr = True\<rparr>]) = ''abc''"
  using pipe_copies_in_order [of "[\<lparr>tr_at = 0, tr_data = ''ab'', tr_writeOk = True, tr_readErr = False\<rparr>,
              \<lparr>tr_at = 9, tr_data = ''c'', tr_writeOk = True, tr_readErr = True\<rparr>]" 5] by simp

section \<open>What a lane may do\<close>

lemma lane_spec_ports:
  "lane_SandboxSpec spec = Inr sb \<Longrightarrow>
     sp_TCPConnect sb = [word_of_int (ln_ProxyPort spec)] \<and> \<not> sp_AllowEphemeralTCP sb \<and>
     0 < ln_ProxyPort spec \<and> ln_ProxyPort spec \<le> 65535"
  by (auto simp: lane_SandboxSpec_def split: if_splits)

text \<open>
  A provisioning lane under Landlock may dial the port of its proxy and no other: the port survives
  the conversion to 16 bits, and neither the ephemeral range nor a second port is granted.
\<close>

theorem lane_dials_only_proxy:
  assumes "lane_SandboxSpec spec = Inr sb" and "landlock_Apply stat portRange sb = Inr rules"
  shows "ConnectTCP p \<in> set rules \<longleftrightarrow> uint p = ln_ProxyPort spec"
proof -
  note sb = lane_spec_ports [OF assms(1)]
  have rules: "rules = landlock_rules stat (EphemeralRange portRange) sb"
    using assms(2) by (auto simp: landlock_Apply_def split: option.splits)
  have "uint (word_of_int (ln_ProxyPort spec) :: 16 word) = ln_ProxyPort spec"
    using sb by (simp add: uint_word_of_int)
  then have "p = word_of_int (ln_ProxyPort spec) \<longleftrightarrow> uint p = ln_ProxyPort spec"
    by (metis word_uint_eq_iff)
  then show ?thesis
    using sb by (simp add: rules landlock_rules_connect)
qed

definition demo_lane :: LaneSpec where
  "demo_lane = \<lparr>ln_Lane = LaneDeps, ln_ProxyPort = 8118, ln_Dir = ''/w'', ln_ReadWrite = [''/cache''], ln_ReadOnly = [''/usr''],
                ln_TmpDir = [], ln_Env = []\<rparr>"

definition demo_lane_spec :: ConfineSpec where
  "demo_lane_spec =
     \<lparr>sp_Network = NetworkNone, sp_ReadOnly = [''/usr''], sp_ReadWrite = [''/w'', ''/cache''] @ lane_DeviceFiles,
      sp_TCPConnect = [8118], sp_TCPBind = [], sp_AllowEphemeralTCP = False, sp_TCPDeny = [],
      sp_Env = ProxyEnv demo_lane, sp_Dir = ''/w'', sp_TmpDir = []\<rparr>"

lemma demo_lane_SandboxSpec: "lane_SandboxSpec demo_lane = Inr demo_lane_spec"
  by (simp add: lane_SandboxSpec_def demo_lane_def demo_lane_spec_def ParseLane_def LaneDeps_def)

theorem lane_dials_only_proxy_witness:
  "ConnectTCP 443 \<notin> set (landlock_rules (\<lambda>_. None) (EphemeralRange None) demo_lane_spec)"
proof -
  have "landlock_Apply (\<lambda>_. None) None demo_lane_spec = Inr (landlock_rules (\<lambda>_. None) (EphemeralRange None) demo_lane_spec)"
    by (simp add: landlock_Apply_def spec_Validate_def demo_lane_spec_def)
  from lane_dials_only_proxy [OF demo_lane_SandboxSpec this, of 443] show ?thesis
    by (simp add: demo_lane_def)
qed

text \<open>
  A lane's spec leaves the network at its default, so a runner that uses bubblewrap, which is the one
  preferred when it is available, starts the fetch in a network namespace of its own: there the
  loopback address of the proxy is another one, and no fetch can reach it.
\<close>

theorem lane_cut_off_by_bwrap:
  assumes "lane_SandboxSpec spec = Inr sb" and "bwrap_Command b inner sb argv = Inr cmd"
  shows "\<exists>rest. sc_Args cmd = unshare_args sb @ rest \<and> ''--unshare-net'' \<in> set (unshare_args sb)"
proof -
  have "sp_Network sb \<noteq> NetworkHost"
    using assms(1) by (auto simp: lane_SandboxSpec_def NetworkNone_def NetworkHost_def split: if_splits)
  with assms(2) show ?thesis
    by (rule bwrap_unshares_net)
qed

theorem lane_cut_off_by_bwrap_witness:
  "''--unshare-net'' \<in> set (bwrap_args demo_lane_spec @ [''go'', ''mod'', ''download''])"
proof -
  have "bwrap_Command [] None demo_lane_spec [''go'', ''mod'', ''download''] =
          Inr \<lparr>sc_Path = ''bwrap'', sc_Args = bwrap_args demo_lane_spec @ [''go'', ''mod'', ''download''],
               sc_Dir = ''/w'', sc_Env = ProxyEnv demo_lane\<rparr>"
    by (simp add: bwrap_Command_def spec_Validate_def demo_lane_spec_def bwrap_binary_def)
  from lane_cut_off_by_bwrap [OF demo_lane_SandboxSpec this] show ?thesis
    by (metis SandboxCmd.select_convs(2) Un_iff set_append)
qed

text \<open>A command runs in a lane only confined, and only through a spec of that lane.\<close>

lemma lane_never_unconfined:
  "lane_Run sandbox run t spec argv = (None, res) \<Longrightarrow>
     \<exists>r sb cmd. sandbox = Some r \<and> lane_SandboxSpec spec = Inr sb \<and> sr_Command r sb argv = Inr cmd \<and>
       lr_ExitCode res = (case lx_result (run (lane_timeout t) cmd) of Exited c \<Rightarrow> c | RanError \<Rightarrow> 0)"
  by (auto simp: lane_Run_def Let_def split: if_splits option.splits sum.splits ran.splits)

end
