(* ===== verification/Identity.thy ===== *)
theory Identity
  imports Trust Memory
begin

text \<open>
  Workspace identity and the content-addressed cache: \<^verbatim>\<open>src/internal/workspace/identity.go\<close> and
  \<^verbatim>\<open>manifest.go\<close> (identifiers, the search for the marker file, creation, opening and adoption of a
  workspace), \<^verbatim>\<open>src/internal/cache/cache.go\<close> (cache keys) and \<^verbatim>\<open>src/internal/store/blobs.go\<close> (the
  byte store behind it).  SHA-256, git and the file operations are arguments; base 32 and the
  length-prefixed encoding that is hashed are written out, because the isolation of workspaces rests
  on them.
\<close>

section \<open>The encoding that is hashed\<close>

text \<open>\<^verbatim>\<open>binary.PutUvarint\<close>: seven bits a byte, the high bit says that more follow.\<close>

fun putUvarint :: "nat \<Rightarrow> string" where
  "putUvarint n = (if n < 128 then [char_of n] else char_of (n mod 128 + 128) # putUvarint (n div 128))"

declare putUvarint.simps [simp del]

definition component :: "string \<Rightarrow> string" where
  "component p = putUvarint (length p) @ p"

definition writeComponents :: "string list \<Rightarrow> string" where
  "writeComponents parts = concat (map component parts)"

text \<open>
  An encoding that delimits itself: the code of one value cannot run on into what follows it.  Sequences
  of such codes determine their elements.
\<close>

locale self_delimiting =
  fixes enc :: "'a \<Rightarrow> 'c list"
  assumes nonempty: "enc a \<noteq> []"
    and delimited: "enc a @ r = enc b @ s \<Longrightarrow> a = b \<and> r = s"
begin

lemma sequence_inj: "concat (map enc xs) = concat (map enc ys) \<Longrightarrow> xs = ys"
proof (induction xs arbitrary: ys)
  case Nil
  then show ?case by (cases ys) (simp_all add: nonempty)
next
  case (Cons x xs)
  then obtain y ys' where ys: "ys = y # ys'"
    by (cases ys) (simp_all add: nonempty)
  with Cons.prems have "enc x @ concat (map enc xs) = enc y @ concat (map enc ys')"
    by simp
  from delimited [OF this] Cons.IH show ?case
    by (simp add: ys)
qed

lemma enc_inj: "enc a = enc b \<Longrightarrow> a = b"
  using delimited [of a "[]" b "[]"] by simp

lemma pair_delimited: "enc a @ enc b @ r = enc c @ enc d @ s \<Longrightarrow> a = c \<and> b = d \<and> r = s"
  using delimited by blast

end

lemma of_char_small: "n < 256 \<Longrightarrow> (of_char (char_of n :: char) :: nat) = n"
  by (simp add: take_bit_nat_eq_self_iff)

lemma putUvarint_delimited: "putUvarint m @ r = putUvarint n @ s \<Longrightarrow> m = n \<and> r = s"
proof (induction m arbitrary: n rule: less_induct)
  case (less m)
  have high: "(of_char (char_of (k mod 128 + 128) :: char) :: nat) = k mod 128 + 128" for k :: nat
    by (rule of_char_small) simp
  have inj: "char_of (a :: nat) = (char_of b :: char) \<Longrightarrow> a < 256 \<Longrightarrow> b < 256 \<Longrightarrow> a = b" for a b
    by (metis of_char_small)
  show ?case
  proof (cases "m < 128"; cases "n < 128")
    assume "m < 128" "n < 128"
    with less.prems show ?thesis
      using inj [of m n] by (simp add: putUvarint.simps [of m] putUvarint.simps [of n])
  next
    assume "m < 128" "\<not> n < 128"
    with less.prems show ?thesis
      using inj [of m "n mod 128 + 128"] by (simp add: putUvarint.simps [of m] putUvarint.simps [of n])
  next
    assume "\<not> m < 128" "n < 128"
    with less.prems show ?thesis
      using inj [of "m mod 128 + 128" n] by (simp add: putUvarint.simps [of m] putUvarint.simps [of n])
  next
    assume m: "\<not> m < 128" and n: "\<not> n < 128"
    have heads: "m mod 128 + 128 = n mod 128 + 128" "putUvarint (m div 128) @ r = putUvarint (n div 128) @ s"
      using less.prems m n inj [of "m mod 128 + 128" "n mod 128 + 128"]
      by (simp_all add: putUvarint.simps [of m] putUvarint.simps [of n])
    have "m div 128 = n div 128 \<and> r = s"
      by (rule less.IH [OF _ heads(2)]) (use m in simp)
    then show ?thesis
      using heads(1) by (metis add_right_cancel mult_div_mod_eq)
  qed
qed

lemma putUvarint_nonempty: "putUvarint n \<noteq> []"
  by (subst putUvarint.simps) simp

interpretation uv: self_delimiting putUvarint
  by unfold_locales (rule putUvarint_nonempty, erule putUvarint_delimited)

lemma component_delimited: "component p @ r = component q @ s \<Longrightarrow> p = q \<and> r = s"
proof -
  assume "component p @ r = component q @ s"
  then have "putUvarint (length p) @ p @ r = putUvarint (length q) @ q @ s"
    by (simp add: component_def)
  from uv.delimited [OF this] have "length p = length q" "p @ r = q @ s"
    by simp_all
  then show ?thesis
    by (simp add: append_eq_append_conv)
qed

lemma component_nonempty: "component p \<noteq> []"
  by (simp add: component_def putUvarint_nonempty)

interpretation co: self_delimiting component
  by unfold_locales (rule component_nonempty, erule component_delimited)

section \<open>Identifiers\<close>

definition WorkspaceIDScheme :: int where "WorkspaceIDScheme = 1"
definition IDLength :: nat where "IDLength = 26"

definition id_byte :: "char \<Rightarrow> bool" where
  "id_byte c = (let b = (of_char c :: nat) in (97 \<le> b \<and> b \<le> 122) \<or> (50 \<le> b \<and> b \<le> 55))"

lemma id_byte_code [code]: "id_byte c = (let b = byte_code c in (97 \<le> b \<and> b \<le> 122) \<or> (50 \<le> b \<and> b \<le> 55))"
  by (simp add: id_byte_def byte_code_eq Let_def)

definition id_Valid :: "string \<Rightarrow> bool" where
  "id_Valid s = (length s = IDLength \<and> list_all id_byte s)"

text \<open>Base 32 without padding: five bits a character, the last group filled up with zeros.\<close>

definition byte_bits :: "char \<Rightarrow> bool list" where
  "byte_bits c = map (\<lambda>i. odd ((of_char c :: nat) div 2 ^ i)) [7, 6, 5, 4, 3, 2, 1, 0]"

lemma byte_bits_code [code]: "byte_bits c = (case c of Char b0 b1 b2 b3 b4 b5 b6 b7 \<Rightarrow> [b7, b6, b5, b4, b3, b2, b1, b0])"
proof -
  define n :: nat where "n = of_char c"
  have "c = char_of n" by (simp add: n_def)
  then have "c = Char (bit n 0) (bit n 1) (bit n 2) (bit n 3) (bit n 4) (bit n 5) (bit n 6) (bit n 7)"
    by (simp only: char_of_def)
  moreover have "byte_bits c = [bit n 7, bit n 6, bit n 5, bit n 4, bit n 3, bit n 2, bit n 1, bit n 0]"
    unfolding byte_bits_def bit_iff_odd by (simp only: n_def list.map)
  ultimately show ?thesis by (simp only: char.case)
qed

definition b32_alphabet :: string where
  "b32_alphabet = ''ABCDEFGHIJKLMNOPQRSTUVWXYZ234567''"

definition b32_char :: "bool list \<Rightarrow> char" where
  "b32_char bs =
     b32_alphabet ! foldl (\<lambda>n b. 2 * n + (if b then 1 else 0)) 0 (take 5 (bs @ replicate 5 False))"

function b32_chars :: "bool list \<Rightarrow> string" where
  "b32_chars bs = (if bs = [] then [] else b32_char (take 5 bs) # b32_chars (drop 5 bs))"
  by pat_completeness auto
termination
  by (relation "measure length") auto

declare b32_chars.simps [simp del]

definition b32_encode :: "string \<Rightarrow> string" where
  "b32_encode s = b32_chars (concat (map byte_bits s))"

definition digest_id :: "string \<Rightarrow> string" where
  "digest_id d = take IDLength (map ascii_lower (b32_encode d))"

definition DeriveID :: "(string \<Rightarrow> string) \<Rightarrow> string \<Rightarrow> string \<Rightarrow> string \<Rightarrow> string" where
  "DeriveID sha256 canonicalRoot gitRemote name =
     digest_id (sha256 (writeComponents [''le-workspace-v'' @ showInt WorkspaceIDScheme, canonicalRoot, gitRemote, name]))"

definition DeriveRepositoryID :: "(string \<Rightarrow> string) \<Rightarrow> string \<Rightarrow> string \<Rightarrow> string \<Rightarrow> string" where
  "DeriveRepositoryID sha256 ws relp remote =
     digest_id (sha256 (writeComponents [''le-repo-v'' @ showInt WorkspaceIDScheme, ws, relp, remote]))"

lemma div5_step: "0 < n \<Longrightarrow> Suc ((n - 5 + 4) div 5) = (n + 4) div (5 :: nat)"
proof (cases "5 \<le> n")
  case True
  then have "n + 4 = (n - 5 + 4) + 5" by simp
  then show ?thesis by (metis Suc_eq_plus1 div_add_self2 zero_neq_numeral)
next
  case False
  moreover assume "0 < n"
  ultimately consider "n = 1" | "n = 2" | "n = 3" | "n = 4" by linarith
  then show ?thesis by cases simp_all
qed

lemma list_all_take: "list_all P xs \<Longrightarrow> list_all P (take n xs)"
  by (metis append_take_drop_id list_all_append)

lemma b32_chars_length: "length (b32_chars bs) = (length bs + 4) div 5"
proof (induction bs rule: b32_chars.induct)
  case (1 bs)
  show ?case
  proof (cases "bs = []")
    case False
    then have "length (b32_chars bs) = Suc ((length bs - 5 + 4) div 5)"
      using 1 by (subst b32_chars.simps) simp
    moreover have "0 < length bs"
      using False by simp
    ultimately show ?thesis
      by (simp only: div5_step)
  qed (simp add: b32_chars.simps)
qed

lemma b32_index_small:
  "foldl (\<lambda>n b. 2 * n + (if b then 1 else 0)) (m :: nat) bs < 2 ^ length bs * Suc m"
proof (induction bs arbitrary: m)
  case (Cons b bs)
  have "foldl (\<lambda>n b. 2 * n + (if b then 1 else 0)) (2 * m + (if b then 1 else 0)) bs
          < 2 ^ length bs * Suc (2 * m + (if b then 1 else 0))"
    by (rule Cons.IH)
  also have "\<dots> \<le> 2 ^ length bs * (2 * Suc m)"
    by (rule mult_le_mono2) simp
  finally show ?case
    by (simp add: mult.assoc mult.left_commute)
qed simp

lemma b32_alphabet_valid: "list_all (\<lambda>c. id_byte (ascii_lower c)) b32_alphabet" "length b32_alphabet = 32"
  by (simp_all add: b32_alphabet_def id_byte_def ascii_lower_def)

lemma b32_char_valid: "id_byte (ascii_lower (b32_char bs))"
proof -
  let ?g = "take 5 (bs @ replicate 5 False)"
  have len: "length ?g = 5"
    by simp
  have "foldl (\<lambda>n b. 2 * n + (if b then 1 else 0)) (0 :: nat) ?g < 32"
    using b32_index_small [of 0 ?g] unfolding len by simp
  then show ?thesis
    using b32_alphabet_valid by (auto simp: b32_char_def list_all_iff)
qed

lemma b32_chars_valid: "list_all (\<lambda>c. id_byte (ascii_lower c)) (b32_chars bs)"
  by (induction bs rule: b32_chars.induct) (subst b32_chars.simps, simp add: b32_char_valid)

lemma digest_id_valid: "length d = 32 \<Longrightarrow> id_Valid (digest_id d)"
proof -
  assume d: "length d = 32"
  have "length (concat (map byte_bits d)) = 8 * length d"
    by (induction d) (simp_all add: byte_bits_def)
  then have "length (b32_encode d) = 52"
    using d by (simp add: b32_encode_def b32_chars_length)
  moreover have "list_all id_byte (map ascii_lower (b32_encode d))"
    using b32_chars_valid by (simp add: b32_encode_def list_all_iff)
  ultimately show ?thesis
    unfolding id_Valid_def digest_id_def IDLength_def by (simp add: list_all_take)
qed

text \<open>
  Whatever the inputs, a derived identifier has the shape the storage layer insists on: 26
  characters of the lowercase base-32 alphabet, so a usable directory name with no separator in it.
\<close>

theorem derived_id_valid:
  assumes "\<And>x. length (sha256 x) = 32"
  shows "id_Valid (DeriveID sha256 canonicalRoot gitRemote name)"
  unfolding DeriveID_def using assms by (rule digest_id_valid)

definition demo_digest :: "string \<Rightarrow> string" where
  "demo_digest s = take 32 (s @ replicate 32 (CHR ''x''))"

theorem derived_id_valid_witness: "id_Valid (DeriveID demo_digest ''/w'' [] ''demo'')"
  by (rule derived_id_valid) (simp add: demo_digest_def)

lemma WorkspaceIDScheme_shown: "showInt WorkspaceIDScheme = ''1''"
  by code_simp

text \<open>
  C38. Workspaces derived from a different path, remote or name get different identifiers, unless the two
  encodings that were hashed collide: the encoding itself never maps two different triples to
  one byte string, whatever bytes they hold.
\<close>

theorem identity_injective:
  assumes "(root1, remote1, name1) \<noteq> (root2, remote2, name2)"
    and "inj_on (\<lambda>x. digest_id (sha256 x))
           {writeComponents [''le-workspace-v1'', root1, remote1, name1], writeComponents [''le-workspace-v1'', root2, remote2, name2]}"
  shows "DeriveID sha256 root1 remote1 name1 \<noteq> DeriveID sha256 root2 remote2 name2"
proof
  assume "DeriveID sha256 root1 remote1 name1 = DeriveID sha256 root2 remote2 name2"
  then have "digest_id (sha256 (writeComponents [''le-workspace-v1'', root1, remote1, name1])) =
        digest_id (sha256 (writeComponents [''le-workspace-v1'', root2, remote2, name2]))"
    by (simp add: DeriveID_def WorkspaceIDScheme_shown)
  then have "writeComponents [''le-workspace-v1'', root1, remote1, name1] = writeComponents [''le-workspace-v1'', root2, remote2, name2]"
    by (rule inj_onD [OF assms(2)]) simp_all
  then have "[''le-workspace-v1'', root1, remote1, name1] = [''le-workspace-v1'', root2, remote2, name2]"
    unfolding writeComponents_def by (rule co.sequence_inj)
  with assms(1) show False
    by simp
qed

definition demo_tail :: "string \<Rightarrow> string" where
  "demo_tail s = take 32 (rev s @ replicate 32 (CHR ''x''))"

theorem identity_injective_witness: "DeriveID demo_tail ''/w'' [] ''a'' \<noteq> DeriveID demo_tail ''/w'' ''a'' []"
proof (rule identity_injective)
  have "digest_id (demo_tail (writeComponents [''le-workspace-v1'', ''/w'', [], ''a''])) \<noteq>
        digest_id (demo_tail (writeComponents [''le-workspace-v1'', ''/w'', ''a'', []]))"
    by code_simp
  then show "inj_on (\<lambda>x. digest_id (demo_tail x))
      {writeComponents [''le-workspace-v1'', ''/w'', [], ''a''], writeComponents [''le-workspace-v1'', ''/w'', ''a'', []]}"
    by (auto simp: inj_on_def)
qed simp

end
