(* ===== verification/WorkspaceDir.thy ===== *)
theory WorkspaceDir
  imports Identity Retrieval
begin

text \<open>
  Workspaces on disk: the search for the marker file, creating, opening and adopting a workspace
  (\<^verbatim>\<open>src/internal/workspace/identity.go\<close>, \<^verbatim>\<open>manifest.go\<close>), the byte store of a workspace's cache
  directory (\<^verbatim>\<open>src/internal/store/blobs.go\<close>) and the analysis cache on top of it
  (\<^verbatim>\<open>src/internal/cache/cache.go\<close>).  The file system, git and YAML are the fields of an environment.
\<close>

section \<open>The environment\<close>

record WsRepository =
  wr_ID :: string
  wr_Name :: string
  wr_Path :: string
  wr_Remote :: string
  wr_DefaultBranch :: string

record Derivation =
  dv_CanonicalRoot :: string
  dv_GitRemote :: string
  dv_Name :: string

record WsManifest =
  wm_SchemeVersion :: int
  wm_ID :: string
  wm_Name :: string
  wm_CreatedAt :: int
  wm_DerivedFrom :: Derivation
  wm_Repositories :: "WsRepository list"

record Workspace =
  ws_Root :: string
  ws_Manifest :: WsManifest

record 'w WsEnv =
  we_abs :: "'w \<Rightarrow> string \<Rightarrow> string option"
  we_eval :: "'w \<Rightarrow> string \<Rightarrow> string option"
  we_stat :: "'w \<Rightarrow> string \<Rightarrow> bool option"
  we_git :: "'w \<Rightarrow> string \<Rightarrow> string list \<Rightarrow> string option"
  we_read :: "'w \<Rightarrow> string \<Rightarrow> fs_error + string"
  we_mkdirs :: "string \<Rightarrow> 'w \<Rightarrow> fs_error option \<times> 'w"
  we_write :: "string \<Rightarrow> string \<Rightarrow> 'w \<Rightarrow> fs_error option \<times> 'w"
  we_rename :: "string \<Rightarrow> string \<Rightarrow> 'w \<Rightarrow> fs_error option \<times> 'w"
  we_encode :: "WsManifest \<Rightarrow> string option"
  we_decode :: "string \<Rightarrow> WsManifest option"
  we_sha256 :: "string \<Rightarrow> string"

datatype ws_error =
    NotAWorkspace | RootUnresolved | RootNotADirectory | WorkspaceExists | RepoNotADirectory string
  | WsFs fs_error | EncodeFailed | ManifestUnreadable | InvalidID string | NewerScheme int

definition MarkerDir :: string where "MarkerDir = ''.le''"
definition MarkerFile :: string where "MarkerFile = ''workspace.yaml''"

definition MarkerPath :: "string \<Rightarrow> string" where
  "MarkerPath rt = joinPath (joinPath rt MarkerDir) MarkerFile"

section \<open>Identity on disk\<close>

definition CanonicalRoot :: "'w WsEnv \<Rightarrow> 'w \<Rightarrow> string \<Rightarrow> ws_error + string" where
  "CanonicalRoot e w p =
     (case we_abs e w p of
        None \<Rightarrow> Inl RootUnresolved
      | Some a \<Rightarrow>
          (case we_eval e w a of
             None \<Rightarrow> Inl RootUnresolved
           | Some r \<Rightarrow>
               (case we_stat e w r of
                  None \<Rightarrow> Inl RootUnresolved
                | Some isDir \<Rightarrow> if isDir then Inr r else Inl RootNotADirectory)))"

definition gitOutput :: "'w WsEnv \<Rightarrow> 'w \<Rightarrow> string \<Rightarrow> string list \<Rightarrow> string" where
  "gitOutput e w rt args = (case we_git e w rt args of None \<Rightarrow> [] | Some out \<Rightarrow> trimSpace out)"

definition GitRemote :: "'w WsEnv \<Rightarrow> 'w \<Rightarrow> string \<Rightarrow> string" where
  "GitRemote e w rt = gitOutput e w rt [''remote'', ''get-url'', ''origin'']"

definition GitDefaultBranch :: "'w WsEnv \<Rightarrow> 'w \<Rightarrow> string \<Rightarrow> string" where
  "GitDefaultBranch e w rt =
     (let s = gitOutput e w rt [''symbolic-ref'', ''--short'', ''refs/remotes/origin/HEAD'']; b = gitOutput e w rt [''branch'', ''--show-current''] in
      if s \<noteq> [] then trimPrefix s ''origin/'' else if b \<noteq> [] then b else ''main'')"

text \<open>\<^verbatim>\<open>FindRoot\<close> walks up until the marker file is found or \<^verbatim>\<open>filepath.Dir\<close> reaches its fixed point.\<close>

function findRoot :: "(string \<Rightarrow> bool) \<Rightarrow> string \<Rightarrow> string option" where
  "findRoot exist dir =
     (if exist (MarkerPath dir) then Some dir
      else if dirPath dir = dir then None
      else findRoot exist (dirPath dir))"
  by pat_completeness auto
termination
  by (relation "measure (\<lambda>(f, d). dir_measure d)") (simp_all add: dirPath_progress)

declare findRoot.simps [simp del]

definition FindRoot :: "'w WsEnv \<Rightarrow> 'w \<Rightarrow> string \<Rightarrow> ws_error + string" where
  "FindRoot e w start =
     (case we_abs e w start of
        None \<Rightarrow> Inl RootUnresolved
      | Some dir \<Rightarrow>
          (case findRoot (\<lambda>p. we_stat e w p \<noteq> None) dir of None \<Rightarrow> Inl NotAWorkspace | Some d \<Rightarrow> Inr d))"

section \<open>Creating, opening and adopting\<close>

definition ws_Repository :: "Workspace \<Rightarrow> string \<Rightarrow> WsRepository option" where
  "ws_Repository ws i = find (\<lambda>r. wr_ID r = i) (wm_Repositories (ws_Manifest ws))"

definition RepositoryPath :: "Workspace \<Rightarrow> string \<Rightarrow> string option" where
  "RepositoryPath ws i = map_option (\<lambda>r. joinPath (ws_Root ws) (wr_Path r)) (ws_Repository ws i)"

definition marker_header :: string where
  "marker_header =
     ''# local-engineer workspace identity. Commit this file.'' @ [newline] @
     ''# Moving the directory without it creates a NEW workspace on purpose;'' @ [newline] @
     ''# after a move run `le workspace adopt` to re-bind this id.'' @ [newline]"

definition writeManifest :: "'w WsEnv \<Rightarrow> string \<Rightarrow> WsManifest \<Rightarrow> 'w \<Rightarrow> ws_error option \<times> 'w" where
  "writeManifest e rt m w =
     (let dir = joinPath rt MarkerDir; tmp = joinPath dir (MarkerFile @ ''.tmp'') in
      case we_mkdirs e dir w of
        (Some err, w1) \<Rightarrow> (Some (WsFs err), w1)
      | (None, w1) \<Rightarrow>
          (case we_encode e m of
             None \<Rightarrow> (Some EncodeFailed, w1)
           | Some y \<Rightarrow>
               (case we_write e tmp (marker_header @ y) w1 of
                  (Some err, w2) \<Rightarrow> (Some (WsFs err), w2)
                | (None, w2) \<Rightarrow>
                    (case we_rename e tmp (joinPath dir MarkerFile) w2 of
                       (Some err, w3) \<Rightarrow> (Some (WsFs err), w3)
                     | (None, w3) \<Rightarrow> (None, w3)))))"

definition repoDisplayName :: "string \<Rightarrow> string \<Rightarrow> string" where
  "repoDisplayName rt rel' = (if rel' = ''.'' then basePath rt else basePath rel')"

fun init_repos :: "'w WsEnv \<Rightarrow> 'w \<Rightarrow> string \<Rightarrow> string \<Rightarrow> string list \<Rightarrow> ws_error + WsRepository list" where
  "init_repos e w canonical wid [] = Inr []"
| "init_repos e w canonical wid (p # ps) =
     (let rl = cleanPath p; ap = joinPath canonical rl in
      if we_stat e w ap \<noteq> Some True then Inl (RepoNotADirectory rl)
      else (case init_repos e w canonical wid ps of
         Inl err \<Rightarrow> Inl err
       | Inr rs \<Rightarrow>
           (let remote = GitRemote e w ap in
            Inr (\<lparr>wr_ID = DeriveRepositoryID (we_sha256 e) wid rl remote, wr_Name = repoDisplayName canonical rl,
                  wr_Path = rl, wr_Remote = remote, wr_DefaultBranch = GitDefaultBranch e w ap\<rparr> # rs))))"

record InitOptions =
  io_Name :: string
  io_Repositories :: "string list"
  io_Force :: bool

definition ws_Init :: "'w WsEnv \<Rightarrow> int \<Rightarrow> string \<Rightarrow> InitOptions \<Rightarrow> 'w \<Rightarrow> (ws_error + Workspace) \<times> 'w" where
  "ws_Init e now rt opts w =
     (case CanonicalRoot e w rt of
        Inl err \<Rightarrow> (Inl err, w)
      | Inr canonical \<Rightarrow>
          if we_stat e w (MarkerPath canonical) \<noteq> None \<and> \<not> io_Force opts then (Inl WorkspaceExists, w)
          else
            (let name = (if io_Name opts = [] then basePath canonical else io_Name opts);
                 remote = GitRemote e w canonical;
                 wid = DeriveID (we_sha256 e) canonical remote name;
                 paths = sortStrings (if io_Repositories opts = [] then [''.''] else io_Repositories opts) in
             case init_repos e w canonical wid paths of
               Inl err \<Rightarrow> (Inl err, w)
             | Inr rs \<Rightarrow>
                 (let m = \<lparr>wm_SchemeVersion = WorkspaceIDScheme, wm_ID = wid, wm_Name = name, wm_CreatedAt = now,
                           wm_DerivedFrom = \<lparr>dv_CanonicalRoot = canonical, dv_GitRemote = remote, dv_Name = name\<rparr>,
                           wm_Repositories = rs\<rparr> in
                  case writeManifest e canonical m w of
                    (Some err, w1) \<Rightarrow> (Inl err, w1)
                  | (None, w1) \<Rightarrow> (Inr \<lparr>ws_Root = canonical, ws_Manifest = m\<rparr>, w1))))"

definition ws_OpenRoot :: "'w WsEnv \<Rightarrow> 'w \<Rightarrow> string \<Rightarrow> ws_error + Workspace" where
  "ws_OpenRoot e w rt =
     (case CanonicalRoot e w rt of
        Inl err \<Rightarrow> Inl err
      | Inr canonical \<Rightarrow>
          (case we_read e w (MarkerPath canonical) of
             Inl err \<Rightarrow> Inl (if err = NotExist then NotAWorkspace else WsFs err)
           | Inr body \<Rightarrow>
               (case we_decode e body of
                  None \<Rightarrow> Inl ManifestUnreadable
                | Some m \<Rightarrow>
                    if \<not> id_Valid (wm_ID m) then Inl (InvalidID (wm_ID m))
                    else if WorkspaceIDScheme < wm_SchemeVersion m then Inl (NewerScheme (wm_SchemeVersion m))
                    else Inr \<lparr>ws_Root = canonical, ws_Manifest = m\<rparr>)))"

definition ws_Open :: "'w WsEnv \<Rightarrow> 'w \<Rightarrow> string \<Rightarrow> ws_error + Workspace" where
  "ws_Open e w start = (case FindRoot e w start of Inl err \<Rightarrow> Inl err | Inr rt \<Rightarrow> ws_OpenRoot e w rt)"

definition Moved :: "Workspace \<Rightarrow> bool" where
  "Moved ws = (dv_CanonicalRoot (wm_DerivedFrom (ws_Manifest ws)) \<noteq> [] \<and>
               dv_CanonicalRoot (wm_DerivedFrom (ws_Manifest ws)) \<noteq> ws_Root ws)"

definition adopted :: "'w WsEnv \<Rightarrow> 'w \<Rightarrow> Workspace \<Rightarrow> Workspace" where
  "adopted e w ws =
     (let m = ws_Manifest ws; d = wm_DerivedFrom m;
          re = (\<lambda>r. let ap = joinPath (ws_Root ws) (wr_Path r) in
                     r\<lparr>wr_Remote := GitRemote e w ap, wr_DefaultBranch := GitDefaultBranch e w ap\<rparr>) in
      ws\<lparr>ws_Manifest := m\<lparr>wm_DerivedFrom := d\<lparr>dv_CanonicalRoot := ws_Root ws, dv_GitRemote := GitRemote e w (ws_Root ws)\<rparr>,
                           wm_Repositories := map re (wm_Repositories m)\<rparr>\<rparr>)"

definition ws_Adopt :: "'w WsEnv \<Rightarrow> Workspace \<Rightarrow> 'w \<Rightarrow> ws_error option \<times> Workspace \<times> 'w" where
  "ws_Adopt e ws w =
     (let ws' = adopted e w ws in
      case writeManifest e (ws_Root ws) (ws_Manifest ws') w of (err, w') \<Rightarrow> (err, ws', w'))"

section \<open>The byte store and the cache\<close>

record 'w BlobFS =
  bf_mkdirs :: "string \<Rightarrow> 'w \<Rightarrow> fs_error option \<times> 'w"
  bf_createTemp :: "string \<Rightarrow> 'w \<Rightarrow> (fs_error + string) \<times> 'w"
  bf_writeAll :: "string \<Rightarrow> string \<Rightarrow> 'w \<Rightarrow> fs_error option \<times> 'w"
  bf_rename :: "string \<Rightarrow> string \<Rightarrow> 'w \<Rightarrow> fs_error option \<times> 'w"
  bf_remove :: "string \<Rightarrow> 'w \<Rightarrow> 'w"
  bf_read :: "'w \<Rightarrow> string \<Rightarrow> fs_error + string"

record BlobDir =
  bd_ws :: string
  bd_dir :: string

datatype blob_error = BadNamespace string | BadKey string | NoBlob | BlobFs fs_error

definition store_Blobs :: "'w BlobFS \<Rightarrow> string \<Rightarrow> string \<Rightarrow> string \<Rightarrow> 'w \<Rightarrow> (blob_error + BlobDir) \<times> 'w" where
  "store_Blobs f wid cacheDir namespace w =
     (if namespace = [] \<or> cleanPath namespace \<noteq> namespace \<or> isAbs namespace then (Inl (BadNamespace namespace), w)
      else let dir = joinPath cacheDir namespace in
        case bf_mkdirs f dir w of
          (Some e, w1) \<Rightarrow> (Inl (BlobFs e), w1)
        | (None, w1) \<Rightarrow> (Inr \<lparr>bd_ws = wid, bd_dir = dir\<rparr>, w1))"

definition blob_path :: "BlobDir \<Rightarrow> string \<Rightarrow> blob_error + string" where
  "blob_path b key =
     (if length key < 3 \<or> cleanPath key \<noteq> key \<or> isAbs key \<or> basePath key \<noteq> key then Inl (BadKey key)
      else Inr (joinPath (joinPath (bd_dir b) (take 2 key)) (drop 2 key)))"

definition blob_Get :: "'w BlobFS \<Rightarrow> BlobDir \<Rightarrow> string \<Rightarrow> 'w \<Rightarrow> blob_error + string" where
  "blob_Get f b key w =
     (case blob_path b key of
        Inl e \<Rightarrow> Inl e
      | Inr p \<Rightarrow>
          (case bf_read f w p of
             Inr body \<Rightarrow> Inr body
           | Inl e \<Rightarrow> Inl (if e = NotExist then NoBlob else BlobFs e)))"

definition blob_Put :: "'w BlobFS \<Rightarrow> BlobDir \<Rightarrow> string \<Rightarrow> string \<Rightarrow> 'w \<Rightarrow> blob_error option \<times> 'w" where
  "blob_Put f b key body w =
     (case blob_path b key of
        Inl e \<Rightarrow> (Some e, w)
      | Inr p \<Rightarrow>
          (case bf_mkdirs f (dirPath p) w of
             (Some e, w1) \<Rightarrow> (Some (BlobFs e), w1)
           | (None, w1) \<Rightarrow>
               (case bf_createTemp f (dirPath p) w1 of
                  (Inl e, w2) \<Rightarrow> (Some (BlobFs e), w2)
                | (Inr tmp, w2) \<Rightarrow>
                    (case bf_writeAll f tmp body w2 of
                       (Some e, w3) \<Rightarrow> (Some (BlobFs e), bf_remove f tmp w3)
                     | (None, w3) \<Rightarrow>
                         (case bf_rename f tmp p w3 of
                            (Some e, w4) \<Rightarrow> (Some (BlobFs e), bf_remove f tmp w4)
                          | (None, w4) \<Rightarrow> (None, bf_remove f tmp w4))))))"

record Cache =
  ca_ws :: string
  ca_blobs :: BlobDir
  ca_hits :: int
  ca_misses :: int

definition cache_Key :: "(string \<Rightarrow> string) \<Rightarrow> Cache \<Rightarrow> string \<Rightarrow> string \<Rightarrow> string" where
  "cache_Key sha256 c namespace manifest =
     hexEncode (sha256 (writeComponents [''le-cache-v'' @ showInt IndexerVersion, ca_ws c, namespace, manifest]))"

definition cache_Get ::
  "'w BlobFS \<Rightarrow> (string \<Rightarrow> string) \<Rightarrow> Cache \<Rightarrow> string \<Rightarrow> string \<Rightarrow> 'w \<Rightarrow> (blob_error option + string) \<times> Cache" where
  "cache_Get f sha256 c namespace manifest w =
     (case blob_Get f (ca_blobs c) (cache_Key sha256 c namespace manifest) w of
        Inr body \<Rightarrow> (Inr body, c\<lparr>ca_hits := ca_hits c + 1\<rparr>)
      | Inl e \<Rightarrow> if e = NoBlob then (Inl None, c\<lparr>ca_misses := ca_misses c + 1\<rparr>) else (Inl (Some e), c))"

definition cache_Put :: "'w BlobFS \<Rightarrow> (string \<Rightarrow> string) \<Rightarrow> Cache \<Rightarrow> string \<Rightarrow> string \<Rightarrow> string \<Rightarrow> 'w \<Rightarrow> blob_error option \<times> 'w" where
  "cache_Put f sha256 c namespace manifest body w = blob_Put f (ca_blobs c) (cache_Key sha256 c namespace manifest) body w"

text \<open>The manifest of a set of files; a Go map is an association list with distinct keys.\<close>

definition ManifestOf :: "(string \<Rightarrow> string) \<Rightarrow> (string \<times> string) list \<Rightarrow> string" where
  "ManifestOf sha256 pairs =
     hexEncode (sha256 (concat (map (\<lambda>k. writeComponents [k, the (map_of pairs k)]) (sortStrings (map fst pairs)))))"

section \<open>The nearest workspace above a directory\<close>

lemma findRoot_abs:
  assumes "list_all plain_seg ss"
  shows "findRoot exist (abs_of ss) = map_option abs_of (find (\<lambda>ps. exist (MarkerPath (abs_of ps))) (rev (prefixes ss)))"
  using assms
proof (induction ss rule: rev_induct)
  case Nil
  show ?case
    by (subst findRoot.simps) (simp add: dirPath_root)
next
  case (snoc s ss)
  have "abs_of ss \<noteq> abs_of (ss @ [s])"
    using snoc.prems abs_of_inject [of ss "ss @ [s]"] by auto
  then show ?case
    using snoc by (subst findRoot.simps) (simp add: dirPath_abs_of prefixes_snoc)
qed

text \<open>
  The search for a workspace ends at the nearest directory at or above the start that holds the
  marker file, and reports that there is none exactly when no ancestor up to the root holds it.
\<close>

theorem find_root_nearest:
  assumes "list_all plain_seg ss" and "we_abs e w start = Some (abs_of ss)"
  shows "FindRoot e w start =
    (case find (\<lambda>ps. we_stat e w (MarkerPath (abs_of ps)) \<noteq> None) (rev (prefixes ss)) of
       None \<Rightarrow> Inl NotAWorkspace | Some ps \<Rightarrow> Inr (abs_of ps))"
  using assms by (auto simp: FindRoot_def findRoot_abs split: option.splits)

section \<open>A workspace that was created or adopted opens as itself\<close>

text \<open>What the code relies on of the file system and of YAML for the marker file.\<close>

definition wsenv_ok :: "'w WsEnv \<Rightarrow> bool" where
  "wsenv_ok e \<longleftrightarrow>
     (\<forall>t p b w w1 w2. we_write e t b w = (None, w1) \<longrightarrow> we_rename e t p w1 = (None, w2) \<longrightarrow> we_read e w2 p = Inr b) \<and>
     (\<forall>m y. we_encode e m = Some y \<longrightarrow> we_decode e (marker_header @ y) = Some m) \<and>
     (\<forall>x. length (we_sha256 e x) = 32)"

lemma writeManifest_read:
  assumes "wsenv_ok e" and "writeManifest e rt m w = (None, w')"
  shows "\<exists>b. we_read e w' (MarkerPath rt) = Inr b \<and> we_decode e b = Some m"
  using assms
  by (fastforce simp: writeManifest_def wsenv_ok_def MarkerPath_def Let_def split: prod.splits option.splits)

lemma written_manifest_opens:
  assumes "wsenv_ok e" and "writeManifest e rt m w = (None, w')" and "CanonicalRoot e w' rt = Inr rt"
    and "id_Valid (wm_ID m)" and "wm_SchemeVersion m \<le> WorkspaceIDScheme"
  shows "ws_OpenRoot e w' rt = Inr \<lparr>ws_Root = rt, ws_Manifest = m\<rparr>"
proof -
  obtain b where "we_read e w' (MarkerPath rt) = Inr b" "we_decode e b = Some m"
    using writeManifest_read [OF assms(1,2)] by blast
  then show ?thesis
    using assms(3-5) by (simp add: ws_OpenRoot_def)
qed

lemma ws_Init_cases:
  assumes "ws_Init e now rt opts w = (Inr ws, w')"
  shows "writeManifest e (ws_Root ws) (ws_Manifest ws) w = (None, w') \<and>
     wm_SchemeVersion (ws_Manifest ws) = WorkspaceIDScheme \<and>
     wm_ID (ws_Manifest ws) =
       DeriveID (we_sha256 e) (ws_Root ws) (dv_GitRemote (wm_DerivedFrom (ws_Manifest ws))) (wm_Name (ws_Manifest ws))"
  using assms by (auto simp: ws_Init_def Let_def split: sum.splits if_splits prod.splits option.splits)

text \<open>
  A workspace that was created opens as the workspace that was created: with the same root, the same
  identifier and the same repositories.  (The path that was resolved once resolves to itself.)
\<close>

theorem init_then_open:
  assumes "wsenv_ok e" and "ws_Init e now rt opts w = (Inr ws, w')" and "CanonicalRoot e w' (ws_Root ws) = Inr (ws_Root ws)"
  shows "ws_OpenRoot e w' (ws_Root ws) = Inr ws"
proof -
  note i = ws_Init_cases [OF assms(2)]
  have "id_Valid (wm_ID (ws_Manifest ws))"
    using i assms(1) by (auto simp: wsenv_ok_def DeriveID_def intro!: digest_id_valid)
  with i written_manifest_opens [OF assms(1) _ assms(3), of "ws_Manifest ws" w] show ?thesis
    by simp
qed

text \<open>
  Adopting a workspace at the place it was moved to keeps its identifier and its repositories' identifiers
  and paths, records the new place, and the adopted workspace is the one that opens there.
\<close>

theorem adopt_keeps_identity:
  assumes "wsenv_ok e" and "ws_OpenRoot e w rt = Inr ws" and "ws_Adopt e ws w = (None, ws', w')"
    and "CanonicalRoot e w' (ws_Root ws) = Inr (ws_Root ws)"
  shows "ws_OpenRoot e w' (ws_Root ws) = Inr ws' \<and> wm_ID (ws_Manifest ws') = wm_ID (ws_Manifest ws) \<and>
    map wr_ID (wm_Repositories (ws_Manifest ws')) = map wr_ID (wm_Repositories (ws_Manifest ws)) \<and>
    map wr_Path (wm_Repositories (ws_Manifest ws')) = map wr_Path (wm_Repositories (ws_Manifest ws)) \<and> \<not> Moved ws'"
proof -
  have ws': "ws' = adopted e w ws" and wr: "writeManifest e (ws_Root ws) (ws_Manifest ws') w = (None, w')"
    using assms(3) by (auto simp: ws_Adopt_def Let_def split: prod.splits)
  have valid: "id_Valid (wm_ID (ws_Manifest ws))" "wm_SchemeVersion (ws_Manifest ws) \<le> WorkspaceIDScheme"
    using assms(2) by (auto simp: ws_OpenRoot_def split: sum.splits option.splits if_splits)
  have kept: "wm_ID (ws_Manifest ws') = wm_ID (ws_Manifest ws)" "wm_SchemeVersion (ws_Manifest ws') = wm_SchemeVersion (ws_Manifest ws)"
    "ws_Root ws' = ws_Root ws" and m: "\<not> Moved ws'"
    and reps: "map wr_ID (wm_Repositories (ws_Manifest ws')) = map wr_ID (wm_Repositories (ws_Manifest ws))"
    "map wr_Path (wm_Repositories (ws_Manifest ws')) = map wr_Path (wm_Repositories (ws_Manifest ws))"
    by (simp_all add: ws' adopted_def Let_def Moved_def)
  have "ws_OpenRoot e w' (ws_Root ws) = Inr \<lparr>ws_Root = ws_Root ws, ws_Manifest = ws_Manifest ws'\<rparr>"
    by (rule written_manifest_opens [OF assms(1) wr assms(4)]) (use valid kept in simp_all)
  then show ?thesis
    using kept m reps by (metis Workspace.surjective old.unit.exhaust)
qed

definition demo_manifest :: WsManifest where
  "demo_manifest =
     \<lparr>wm_SchemeVersion = 1, wm_ID = DeriveID demo_digest ''/w'' [] ''w'', wm_Name = ''w'', wm_CreatedAt = 7,
      wm_DerivedFrom = \<lparr>dv_CanonicalRoot = ''/w'', dv_GitRemote = [], dv_Name = ''w''\<rparr>,
      wm_Repositories = [\<lparr>wr_ID = DeriveRepositoryID demo_digest (DeriveID demo_digest ''/w'' [] ''w'') ''.'' [],
                          wr_Name = ''w'', wr_Path = ''.'', wr_Remote = [], wr_DefaultBranch = ''main''\<rparr>]\<rparr>"

text \<open>Files as a map; the one manifest that is written has a code of its own.\<close>

definition demo_wsenv :: "(string \<rightharpoonup> string) WsEnv" where
  "demo_wsenv =
     \<lparr>we_abs = (\<lambda>w p. Some p), we_eval = (\<lambda>w p. Some p),
      we_stat = (\<lambda>w p. if p = ''/w'' then Some True else map_option (\<lambda>_. False) (w p)),
      we_git = (\<lambda>w d args. None),
      we_read = (\<lambda>w p. case w p of None \<Rightarrow> Inl NotExist | Some b \<Rightarrow> Inr b),
      we_mkdirs = (\<lambda>d w. (None, w)), we_write = (\<lambda>p b w. (None, w(p \<mapsto> b))),
      we_rename = (\<lambda>a b w. case w a of None \<Rightarrow> (Some NotExist, w) | Some x \<Rightarrow> (None, (w(a := None))(b \<mapsto> x))),
      we_encode = (\<lambda>m. if m = demo_manifest then Some ''y'' else None),
      we_decode = (\<lambda>b. if b = marker_header @ ''y'' then Some demo_manifest else None),
      we_sha256 = demo_digest\<rparr>"

lemma demo_wsenv_ok: "wsenv_ok demo_wsenv"
  by (auto simp: wsenv_ok_def demo_wsenv_def demo_digest_def split: if_splits option.splits)

lemma demo_canonical: "CanonicalRoot demo_wsenv w ''/w'' = Inr ''/w''"
  by (simp add: CanonicalRoot_def demo_wsenv_def)

definition demo_opts :: InitOptions where
  "demo_opts = \<lparr>io_Name = [], io_Repositories = [], io_Force = False\<rparr>"

lemma demo_paths:
  "MarkerPath ''/w'' = ''/w/.le/workspace.yaml''" "joinPath ''/w'' ''.le'' = ''/w/.le''" "basePath ''/w'' = ''w''"
  "joinPath ''/w/.le'' ''workspace.yaml'' = ''/w/.le/workspace.yaml''"
  "joinPath ''/w/.le'' ''workspace.yaml.tmp'' = ''/w/.le/workspace.yaml.tmp''" "cleanPath ''.'' = ''.''" "joinPath ''/w'' ''.'' = ''/w''"
  by code_simp+

definition demo_disk :: "string \<rightharpoonup> string" where
  "demo_disk = [''/w/.le/workspace.yaml'' \<mapsto> marker_header @ ''y'']"

lemma demo_write: "writeManifest demo_wsenv ''/w'' demo_manifest Map.empty = (None, demo_disk)"
  by (simp add: writeManifest_def demo_wsenv_def Let_def MarkerDir_def MarkerFile_def demo_paths demo_disk_def)

lemma demo_repos:
  "init_repos demo_wsenv Map.empty ''/w'' i [''.''] =
     Inr [\<lparr>wr_ID = DeriveRepositoryID demo_digest i ''.'' [], wr_Name = ''w'', wr_Path = ''.'', wr_Remote = [], wr_DefaultBranch = ''main''\<rparr>]"
  by (simp add: demo_paths GitRemote_def gitOutput_def GitDefaultBranch_def repoDisplayName_def Let_def) (simp add: demo_wsenv_def)

lemma demo_init: "ws_Init demo_wsenv 7 ''/w'' demo_opts Map.empty = (Inr \<lparr>ws_Root = ''/w'', ws_Manifest = demo_manifest\<rparr>, demo_disk)"
proof -
  have remote: "GitRemote demo_wsenv Map.empty ''/w'' = []"
    by (simp add: GitRemote_def gitOutput_def demo_wsenv_def)
  have "we_stat demo_wsenv Map.empty (MarkerPath ''/w'') = None" "we_sha256 demo_wsenv = demo_digest"
    by (simp_all add: demo_wsenv_def demo_paths)
  moreover have "sortStrings [''.''] = [''.'']"
    by (simp add: sortStrings_def)
  ultimately show ?thesis
    by (simp add: ws_Init_def demo_canonical demo_opts_def remote demo_paths demo_repos demo_write [unfolded demo_manifest_def]
        WorkspaceIDScheme_def Let_def del: init_repos.simps) (simp add: demo_manifest_def)
qed

theorem init_then_open_witness:
  "ws_OpenRoot demo_wsenv demo_disk ''/w'' = Inr \<lparr>ws_Root = ''/w'', ws_Manifest = demo_manifest\<rparr>"
  using init_then_open [OF demo_wsenv_ok demo_init] by (simp add: demo_canonical)

theorem find_root_nearest_witness: "FindRoot demo_wsenv demo_disk ''/w/src/a'' = Inr ''/w''"
proof -
  have abs: "we_abs demo_wsenv demo_disk ''/w/src/a'' = Some (abs_of [''w'', ''src'', ''a''])"
    by (simp add: demo_wsenv_def abs_of_def)
  have m: "MarkerPath (abs_of [''w'', ''src'', ''a'']) = ''/w/src/a/.le/workspace.yaml''"
    "MarkerPath (abs_of [''w'', ''src'']) = ''/w/src/.le/workspace.yaml''" "MarkerPath (abs_of [''w'']) = ''/w/.le/workspace.yaml''"
    by code_simp+
  have "list_all plain_seg [''w'', ''src'', ''a'']"
    by (simp add: plain_seg_def)
  from find_root_nearest [OF this abs] show ?thesis
    by (simp add: m) (simp add: demo_wsenv_def demo_disk_def abs_of_def)
qed

theorem adopt_keeps_identity_witness:
  "\<not> Moved (adopted demo_wsenv demo_disk \<lparr>ws_Root = ''/w'', ws_Manifest = demo_manifest\<rparr>)"
proof -
  let ?ws = "\<lparr>ws_Root = ''/w'', ws_Manifest = demo_manifest\<rparr>"
  have o: "ws_OpenRoot demo_wsenv demo_disk ''/w'' = Inr ?ws"
  proof -
    have "id_Valid (wm_ID demo_manifest)" "wm_SchemeVersion demo_manifest \<le> WorkspaceIDScheme"
      by (simp_all add: demo_manifest_def DeriveID_def WorkspaceIDScheme_def digest_id_valid demo_digest_def)
    then show ?thesis
      by (simp add: ws_OpenRoot_def demo_canonical demo_paths) (simp add: demo_wsenv_def demo_disk_def)
  qed
  have same: "adopted demo_wsenv demo_disk ?ws = ?ws"
    by (simp add: adopted_def Let_def demo_manifest_def GitRemote_def GitDefaultBranch_def gitOutput_def demo_wsenv_def)
  have "writeManifest demo_wsenv ''/w'' demo_manifest demo_disk = (None, demo_disk)"
    by (simp add: writeManifest_def demo_wsenv_def Let_def MarkerDir_def MarkerFile_def demo_paths demo_disk_def)
  then have "ws_Adopt demo_wsenv ?ws demo_disk = (None, adopted demo_wsenv demo_disk ?ws, demo_disk)"
    by (simp add: ws_Adopt_def same Let_def)
  from adopt_keeps_identity [OF demo_wsenv_ok o this] show ?thesis
    by (simp add: demo_canonical)
qed

section \<open>A cache belongs to one workspace\<close>

lemma hex_pair_inj:
  "a < 16 \<Longrightarrow> b < 16 \<Longrightarrow> hex_digit a = hex_digit b \<Longrightarrow> a = b"
  by (auto simp: hex_digit_def split: if_splits dest: arg_cong [where f = "of_char :: char \<Rightarrow> nat"])

lemma hexEncode_inj: "hexEncode a = hexEncode b \<Longrightarrow> a = b"
proof (induction a arbitrary: b)
  case Nil
  then show ?case by (cases b) (simp_all add: hexEncode_def Let_def)
next
  case (Cons x a)
  then obtain y b' where b: "b = y # b'"
    by (cases b) (simp_all add: hexEncode_def Let_def)
  have small: "(of_char c :: nat) div 16 < 16" for c :: char
    using nat_of_char_less_256 [of c] by (simp add: less_mult_imp_div_less)
  have "(of_char x :: nat) div 16 = of_char y div 16" "(of_char x :: nat) mod 16 = of_char y mod 16" "hexEncode a = hexEncode b'"
    using Cons.prems small by (auto simp: b hexEncode_def Let_def intro!: hex_pair_inj)
  then have "(of_char x :: nat) = of_char y"
    by (metis div_mult_mod_eq)
  then show ?case
    using Cons.IH \<open>hexEncode a = hexEncode b'\<close> by (simp add: b)
qed

lemma IndexerVersion_shown: "showInt IndexerVersion = ''1''"
  by code_simp

text \<open>
  Two caches never share an entry: another workspace, another namespace or another manifest gives
  another key, unless the byte strings hashed for the two keys have the same SHA-256.
\<close>

theorem cache_keys_isolated:
  assumes "(ca_ws c, namespace, manifest) \<noteq> (ca_ws c', namespace', manifest')"
    and "inj_on sha256 {writeComponents [''le-cache-v1'', ca_ws c, namespace, manifest],
                        writeComponents [''le-cache-v1'', ca_ws c', namespace', manifest']}"
  shows "cache_Key sha256 c namespace manifest \<noteq> cache_Key sha256 c' namespace' manifest'"
proof
  assume "cache_Key sha256 c namespace manifest = cache_Key sha256 c' namespace' manifest'"
  then have "sha256 (writeComponents [''le-cache-v1'', ca_ws c, namespace, manifest]) =
             sha256 (writeComponents [''le-cache-v1'', ca_ws c', namespace', manifest'])"
    by (auto simp: cache_Key_def IndexerVersion_shown dest: hexEncode_inj)
  then have "writeComponents [''le-cache-v1'', ca_ws c, namespace, manifest] =
             writeComponents [''le-cache-v1'', ca_ws c', namespace', manifest']"
    by (rule inj_onD [OF assms(2)]) simp_all
  then have "[''le-cache-v1'', ca_ws c, namespace, manifest] = [''le-cache-v1'', ca_ws c', namespace', manifest']"
    unfolding writeComponents_def by (rule co.sequence_inj)
  with assms(1) show False
    by simp
qed

definition demo_cache :: "string \<Rightarrow> Cache" where
  "demo_cache wid = \<lparr>ca_ws = wid, ca_blobs = \<lparr>bd_ws = wid, bd_dir = ''/d/'' @ wid\<rparr>, ca_hits = 0, ca_misses = 0\<rparr>"

theorem cache_keys_isolated_witness:
  "cache_Key id (demo_cache ''a'') ''go'' ''m'' \<noteq> cache_Key id (demo_cache ''b'') ''go'' ''m''"
  by (rule cache_keys_isolated) (simp_all add: demo_cache_def)

text \<open>What the byte store relies on: a file that was written and renamed is read back, and clearing up the
  temporary name afterwards does not touch it.\<close>

definition blobfs_ok :: "'w BlobFS \<Rightarrow> bool" where
  "blobfs_ok f \<longleftrightarrow>
     (\<forall>d tmp b p w w1 w2 w3. bf_createTemp f d w = (Inr tmp, w1) \<longrightarrow> bf_writeAll f tmp b w1 = (None, w2) \<longrightarrow>
        bf_rename f tmp p w2 = (None, w3) \<longrightarrow> bf_read f (bf_remove f tmp w3) p = Inr b)"

text \<open>
  What was put into the cache is what the next lookup of the same namespace and manifest returns, and it
  counts as one hit.
\<close>

theorem cache_put_then_get:
  assumes "blobfs_ok f" and "cache_Put f sha256 c namespace manifest body w = (None, w')"
  shows "cache_Get f sha256 c namespace manifest w' = (Inr body, c\<lparr>ca_hits := ca_hits c + 1\<rparr>)"
proof -
  obtain p where p: "blob_path (ca_blobs c) (cache_Key sha256 c namespace manifest) = Inr p"
    using assms(2) by (auto simp: cache_Put_def blob_Put_def split: sum.splits)
  then have "bf_read f w' p = Inr body"
    using assms by (fastforce simp: cache_Put_def blob_Put_def blobfs_ok_def split: prod.splits option.splits sum.splits)
  with p show ?thesis
    by (simp add: cache_Get_def blob_Get_def)
qed

definition demo_blobfs :: "(string \<rightharpoonup> string) BlobFS" where
  "demo_blobfs =
     \<lparr>bf_mkdirs = (\<lambda>d w. (None, w)), bf_createTemp = (\<lambda>d w. (Inr ''/tmp'', w(''/tmp'' \<mapsto> []))),
      bf_writeAll = (\<lambda>p b w. (None, w(p \<mapsto> b))),
      bf_rename = (\<lambda>a b w. if a = b then (Some FsFailure, w) else (None, (w(a := None))(b := w a))),
      bf_remove = (\<lambda>p w. w(p := None)),
      bf_read = (\<lambda>w p. case w p of None \<Rightarrow> Inl NotExist | Some b \<Rightarrow> Inr b)\<rparr>"

theorem cache_put_then_get_witness:
  "cache_Get demo_blobfs id (demo_cache ''a'') ''go'' ''m''
     (snd (cache_Put demo_blobfs id (demo_cache ''a'') ''go'' ''m'' ''body'' Map.empty)) =
   (Inr ''body'', (demo_cache ''a'')\<lparr>ca_hits := 1\<rparr>)"
proof -
  have ok: "blobfs_ok demo_blobfs"
    by (auto simp: blobfs_ok_def demo_blobfs_def split: if_splits)
  have key: "cache_Key id (demo_cache ''a'') ''go'' ''m'' = ''0b6c652d63616368652d76310161'' @ ''02676f016d''"
    by code_simp
  have path: "blob_path (ca_blobs (demo_cache ''a'')) (''0b6c652d63616368652d76310161'' @ ''02676f016d'') =
      Inr (''/d/a/0b/6c652d63616368652d76310161'' @ ''02676f016d'')"
    by code_simp
  have put: "cache_Put demo_blobfs id (demo_cache ''a'') ''go'' ''m'' ''body'' Map.empty =
      (None, snd (cache_Put demo_blobfs id (demo_cache ''a'') ''go'' ''m'' ''body'' Map.empty))"
    unfolding cache_Put_def key blob_Put_def path by (simp add: demo_blobfs_def)
  from cache_put_then_get [OF ok put] show ?thesis
    by (simp add: demo_cache_def)
qed

end
