(* ===== verification/Storage.thy ===== *)
theory Storage
  imports WorkspaceDir
begin

text \<open>
  The data directory of the supervisor: its layout (\<^verbatim>\<open>src/internal/store/paths.go\<close>), schema migrations and
  the workspace stamp (\<^verbatim>\<open>migrate.go\<close>), opening and switching workspaces (\<^verbatim>\<open>store.go\<close>), restoring a
  backup and preparing sandbox directories (\<^verbatim>\<open>blobs.go\<close>).  A database is its \<open>meta\<close> table and the rest
  of its rows; running an SQL script, committing it, taking a backup and the file operations are
  arguments.
\<close>

section \<open>Layout\<close>

definition WorkspacesDir :: "string \<Rightarrow> string" where "WorkspacesDir rt = joinPath rt ''workspaces''"
definition WorkspaceDir :: "string \<Rightarrow> string \<Rightarrow> string" where "WorkspaceDir rt i = joinPath (WorkspacesDir rt) i"
definition IndexDB :: "string \<Rightarrow> string \<Rightarrow> string" where "IndexDB rt i = joinPath (WorkspaceDir rt i) ''index.db''"
definition LedgerDB :: "string \<Rightarrow> string \<Rightarrow> string" where "LedgerDB rt i = joinPath (WorkspaceDir rt i) ''ledger.db''"
definition TelemetryDB :: "string \<Rightarrow> string \<Rightarrow> string" where "TelemetryDB rt i = joinPath (WorkspaceDir rt i) ''telemetry.db''"
definition ArtifactsDir :: "string \<Rightarrow> string \<Rightarrow> string" where "ArtifactsDir rt i = joinPath (WorkspaceDir rt i) ''artifacts''"
definition CacheDir :: "string \<Rightarrow> string \<Rightarrow> string" where "CacheDir rt i = joinPath (WorkspaceDir rt i) ''cache''"
definition OpenCodeDir :: "string \<Rightarrow> string \<Rightarrow> string" where "OpenCodeDir rt i = joinPath (WorkspaceDir rt i) ''opencode''"
definition SlotsDir :: "string \<Rightarrow> string \<Rightarrow> string" where "SlotsDir rt i = joinPath (WorkspaceDir rt i) ''slots''"
definition TmpDir :: "string \<Rightarrow> string \<Rightarrow> string" where "TmpDir rt i = joinPath (WorkspaceDir rt i) ''tmp''"

definition workspaceSubdirs :: "string \<Rightarrow> string \<Rightarrow> string list" where
  "workspaceSubdirs rt i = [WorkspaceDir rt i, ArtifactsDir rt i, CacheDir rt i, OpenCodeDir rt i, SlotsDir rt i, TmpDir rt i]"

section \<open>Migrations\<close>

record 'r WsDB =
  wd_meta :: "(string \<rightharpoonup> string) option"
  wd_rows :: 'r

record migration =
  mg_version :: int
  mg_name :: string
  mg_sql :: string

datatype store_error =
    NoTarget string | NonNumericMigration string | NotContiguous string | CountMismatch | UnreadableSchema string
  | SchemaTooNew int int | BackupFailed | StepFailed string | NoStamp | WrongStamp string
  | BadWorkspaceID string | MkdirFailed | OpenFailed string | NotABackup | ExistsNoForce string | RestoreFailed
  | ClearFailed

text \<open>\<^verbatim>\<open>strconv.Atoi\<close>: an optional sign and digits that fit in 64 bits.\<close>

definition goAtoi :: "string \<Rightarrow> int option" where
  "goAtoi s =
     (let neg = hasPrefix s ''-''; ds = (if neg \<or> hasPrefix s ''+'' then tl s else s); n = int (digits_nat ds) in
      if ds = [] \<or> \<not> list_all isDigit ds then None
      else if neg then (if n \<le> 2 ^ 63 then Some (- n) else None)
      else (if n < 2 ^ 63 then Some n else None))"

fun parse_migrations :: "string \<Rightarrow> (string \<times> string) list \<Rightarrow> store_error + migration list" where
  "parse_migrations pre [] = Inr []"
| "parse_migrations pre ((n, body) # es) =
     (if \<not> hasPrefix n pre \<or> \<not> hasSuffix n ''.sql'' then parse_migrations pre es
      else (case goAtoi (trimSuffix (trimPrefix n pre) ''.sql'') of
         None \<Rightarrow> Inl (NonNumericMigration n)
       | Some v \<Rightarrow>
           (case parse_migrations pre es of
              Inl e \<Rightarrow> Inl e
            | Inr ms \<Rightarrow> Inr (\<lparr>mg_version = v, mg_name = n, mg_sql = body\<rparr> # ms))))"

fun contiguous_from :: "int \<Rightarrow> migration list \<Rightarrow> store_error option" where
  "contiguous_from i [] = None"
| "contiguous_from i (m # ms) = (if mg_version m \<noteq> i then Some (NotContiguous (mg_name m)) else contiguous_from (i + 1) ms)"

definition migrationsFor :: "(string \<times> string) list \<Rightarrow> string \<Rightarrow> store_error + migration list" where
  "migrationsFor entries name =
     (case parse_migrations (name @ ''_'') entries of
        Inl e \<Rightarrow> Inl e
      | Inr ms \<Rightarrow>
          (let out = stable_sort (\<lambda>a b. mg_version a < mg_version b) ms in
           case contiguous_from 1 out of Some e \<Rightarrow> Inl e | None \<Rightarrow> Inr out))"

definition metaSet :: "string \<Rightarrow> string \<Rightarrow> 'r WsDB \<Rightarrow> 'r WsDB option" where
  "metaSet k v db = map_option (\<lambda>m. db\<lparr>wd_meta := Some (m(k \<mapsto> v))\<rparr>) (wd_meta db)"

definition metaGet :: "string \<Rightarrow> 'r WsDB \<Rightarrow> string option" where
  "metaGet k db = Option.bind (wd_meta db) (\<lambda>m. m k)"

definition currentVersion :: "'r WsDB \<Rightarrow> store_error + int" where
  "currentVersion db =
     (case metaGet ''schema_version'' db of
        None \<Rightarrow> Inr 0
      | Some v \<Rightarrow> (case goAtoi v of None \<Rightarrow> Inl (UnreadableSchema v) | Some n \<Rightarrow> Inr n))"

definition verifyWorkspaceStamp :: "string \<Rightarrow> 'r WsDB \<Rightarrow> store_error option" where
  "verifyWorkspaceStamp ws db =
     (case metaGet ''workspace_id'' db of
        None \<Rightarrow> Some NoStamp
      | Some got \<Rightarrow> if got \<noteq> ws then Some (WrongStamp got) else None)"

text \<open>One step in one transaction: \<open>None\<close> when any statement or the commit fails, and then nothing of it stays.\<close>

definition migrate_step :: "(string \<Rightarrow> 'r WsDB \<Rightarrow> 'r WsDB option) \<Rightarrow> string \<Rightarrow> string \<Rightarrow> migration \<Rightarrow> 'r WsDB \<Rightarrow> 'r WsDB option" where
  "migrate_step exec by_version ws st db =
     Option.bind (exec (mg_sql st) db) (\<lambda>db1.
     Option.bind (metaSet ''schema_version'' (showInt (mg_version st)) db1) (\<lambda>db2.
     Option.bind (metaSet ''workspace_id'' ws db2) (metaSet ''created_by'' by_version)))"

fun migrate_steps ::
  "(string \<Rightarrow> 'r WsDB \<Rightarrow> 'r WsDB option) \<Rightarrow> string \<Rightarrow> string \<Rightarrow> int \<Rightarrow> migration list \<Rightarrow> 'r WsDB \<Rightarrow> store_error option \<times> 'r WsDB" where
  "migrate_steps exec by_version ws cur [] db = (None, db)"
| "migrate_steps exec by_version ws cur (st # sts) db =
     (if mg_version st \<le> cur then migrate_steps exec by_version ws cur sts db
      else (case migrate_step exec by_version ws st db of
         None \<Rightarrow> (Some (StepFailed (mg_name st)), db)
       | Some db' \<Rightarrow> migrate_steps exec by_version ws cur sts db'))"

record 'r DBFile =
  df_db :: "'r WsDB"
  df_backups :: "(int \<times> 'r WsDB) list"

definition backupBeforeMigrating :: "('r WsDB \<Rightarrow> bool) \<Rightarrow> int \<Rightarrow> 'r DBFile \<Rightarrow> bool \<times> 'r DBFile" where
  "backupBeforeMigrating vacuumInto cur f =
     (if vacuumInto (df_db f) then (True, f\<lparr>df_backups := df_backups f @ [(cur, df_db f)]\<rparr>) else (False, f))"

record 'r MigrateEnv =
  me_entries :: "(string \<times> string) list"
  me_exec :: "string \<Rightarrow> 'r WsDB \<Rightarrow> 'r WsDB option"
  me_vacuumInto :: "'r WsDB \<Rightarrow> bool"
  me_version :: string

definition SchemaVersions :: "string \<rightharpoonup> int" where
  "SchemaVersions = [''index'' \<mapsto> 2, ''ledger'' \<mapsto> 5, ''telemetry'' \<mapsto> 1]"

definition run_steps :: "'r MigrateEnv \<Rightarrow> string \<Rightarrow> int \<Rightarrow> migration list \<Rightarrow> 'r DBFile \<Rightarrow> store_error option \<times> 'r DBFile" where
  "run_steps e ws cur sts f =
     (case migrate_steps (me_exec e) (me_version e) ws cur sts (df_db f) of
        (Some err, db) \<Rightarrow> (Some err, f\<lparr>df_db := db\<rparr>)
      | (None, db) \<Rightarrow> (verifyWorkspaceStamp ws db, f\<lparr>df_db := db\<rparr>))"

definition migrate :: "'r MigrateEnv \<Rightarrow> string \<Rightarrow> string \<Rightarrow> 'r DBFile \<Rightarrow> store_error option \<times> 'r DBFile" where
  "migrate e name ws f =
     (case SchemaVersions name of
        None \<Rightarrow> (Some (NoTarget name), f)
      | Some target \<Rightarrow>
          (case migrationsFor (me_entries e) name of
             Inl err \<Rightarrow> (Some err, f)
           | Inr sts \<Rightarrow>
               if int (length sts) \<noteq> target then (Some CountMismatch, f)
               else (case currentVersion (df_db f) of
                  Inl err \<Rightarrow> (Some err, f)
                | Inr cur \<Rightarrow>
                    if target < cur then (Some (SchemaTooNew cur target), f)
                    else if cur = target then (verifyWorkspaceStamp ws (df_db f), f)
                    else if 0 < cur then
                      (case backupBeforeMigrating (me_vacuumInto e) cur f of
                         (False, f1) \<Rightarrow> (Some BackupFailed, f1)
                       | (True, f1) \<Rightarrow> run_steps e ws cur sts f1)
                    else run_steps e ws cur sts f)))"

section \<open>Workspaces that are open\<close>

record 'r Root =
  ro_dir :: string
  ro_open :: "string \<rightharpoonup> string list"
  ro_active :: string
  ro_dbs :: "string \<Rightarrow> 'r DBFile"
  ro_slots :: "string \<Rightarrow> string list"

text \<open>Opening one database: whether it can be opened at all, then its migration.\<close>

fun open_dbs ::
  "'r MigrateEnv \<Rightarrow> (string \<Rightarrow> bool) \<Rightarrow> string \<Rightarrow> (string \<times> string) list \<Rightarrow> (string \<Rightarrow> 'r DBFile) \<Rightarrow> store_error option \<times> (string \<Rightarrow> 'r DBFile)" where
  "open_dbs e canOpen ws [] dbs = (None, dbs)"
| "open_dbs e canOpen ws ((name, p) # specs) dbs =
     (if \<not> canOpen p then (Some (OpenFailed p), dbs)
      else (case migrate e name ws (dbs p) of
         (Some err, f) \<Rightarrow> (Some err, dbs(p := f))
       | (None, f) \<Rightarrow> open_dbs e canOpen ws specs (dbs(p := f))))"

definition db_specs :: "string \<Rightarrow> string \<Rightarrow> (string \<times> string) list" where
  "db_specs rt i = [(''index'', IndexDB rt i), (''ledger'', LedgerDB rt i), (''telemetry'', TelemetryDB rt i)]"

definition OpenWorkspace ::
  "'r MigrateEnv \<Rightarrow> (string \<Rightarrow> bool) \<Rightarrow> (string \<Rightarrow> bool) \<Rightarrow> string \<Rightarrow> 'r Root \<Rightarrow> (store_error + string list) \<times> 'r Root" where
  "OpenWorkspace e mkdirOk canOpen i r =
     (if \<not> id_Valid i then (Inl (BadWorkspaceID i), r)
      else (case ro_open r i of
         Some h \<Rightarrow> (Inr h, r)
       | None \<Rightarrow>
           if \<not> list_all mkdirOk (workspaceSubdirs (ro_dir r) i) then (Inl MkdirFailed, r)
           else (case open_dbs e canOpen i (db_specs (ro_dir r) i) (ro_dbs r) of
              (Some err, dbs) \<Rightarrow> (Inl err, r\<lparr>ro_dbs := dbs\<rparr>)
            | (None, dbs) \<Rightarrow>
                (let h = map snd (db_specs (ro_dir r) i) in
                 (Inr h, r\<lparr>ro_dbs := dbs, ro_open := (ro_open r)(i \<mapsto> h)\<rparr>)))))"

definition CloseWorkspace :: "string \<Rightarrow> 'r Root \<Rightarrow> 'r Root" where
  "CloseWorkspace i r = r\<lparr>ro_open := (ro_open r)(i := None)\<rparr>"

definition clearDir :: "(string \<Rightarrow> bool) \<Rightarrow> string \<Rightarrow> 'r Root \<Rightarrow> bool \<times> 'r Root" where
  "clearDir canRemove d r =
     (let keep = dropWhile canRemove (ro_slots r d) in (keep = [], r\<lparr>ro_slots := (ro_slots r)(d := keep)\<rparr>))"

definition SwitchTo :: "(string \<Rightarrow> bool) \<Rightarrow> string \<Rightarrow> 'r Root \<Rightarrow> (store_error option \<times> string) \<times> 'r Root" where
  "SwitchTo canRemove i r =
     (let previous = ro_active r in
      if previous = i then ((None, previous), r)
      else if previous \<noteq> [] then
        (case clearDir canRemove (SlotsDir (ro_dir r) previous) r of
           (False, r1) \<Rightarrow> ((Some ClearFailed, previous), r1)
         | (True, r1) \<Rightarrow> ((None, previous), r1\<lparr>ro_active := i\<rparr>))
      else ((None, previous), r\<lparr>ro_active := i\<rparr>))"

section \<open>Restoring and preparing directories\<close>

definition db_names :: "string list" where "db_names = [''index.db'', ''ledger.db'', ''telemetry.db'']"

text \<open>Files as a map; \<open>canRemove\<close> and \<open>canWrite\<close> say whether a removal or a write of a path goes through.\<close>

fun restore_loop ::
  "(string \<Rightarrow> bool) \<Rightarrow> (string \<Rightarrow> bool) \<Rightarrow> string \<Rightarrow> string \<Rightarrow> bool \<Rightarrow> string list \<Rightarrow> string list \<Rightarrow> (string \<rightharpoonup> string)
   \<Rightarrow> (store_error option \<times> string list) \<times> (string \<rightharpoonup> string)" where
  "restore_loop canRemove canWrite srcDir dstDir force [] restored fs = ((None, restored), fs)"
| "restore_loop canRemove canWrite srcDir dstDir force (n # ns) restored fs =
     (case fs (joinPath srcDir n) of
        None \<Rightarrow> restore_loop canRemove canWrite srcDir dstDir force ns restored fs
      | Some body \<Rightarrow>
          (let dst = joinPath dstDir n in
           if fs dst \<noteq> None \<and> \<not> force then ((Some (ExistsNoForce dst), restored), fs)
           else if \<not> canRemove (dst @ ''-wal'') then ((Some RestoreFailed, restored), fs)
           else (let fs1 = fs(dst @ ''-wal'' := None) in
             if \<not> canRemove (dst @ ''-shm'') then ((Some RestoreFailed, restored), fs1)
             else (let fs2 = fs1(dst @ ''-shm'' := None) in
               if \<not> canWrite dst then ((Some RestoreFailed, restored), fs2)
               else restore_loop canRemove canWrite srcDir dstDir force ns (restored @ [n]) (fs2(dst \<mapsto> body))))))"

definition RestoreFrom ::
  "(string \<Rightarrow> bool) \<Rightarrow> (string \<Rightarrow> bool) \<Rightarrow> (string \<Rightarrow> bool) \<Rightarrow> string \<Rightarrow> string \<Rightarrow> bool \<Rightarrow> (string \<rightharpoonup> string)
   \<Rightarrow> (store_error option \<times> string list) \<times> (string \<rightharpoonup> string)" where
  "RestoreFrom isDir canRemove canWrite srcDir dstDir force fs =
     (if \<not> isDir srcDir then ((Some NotABackup, []), fs)
      else (case restore_loop canRemove canWrite srcDir dstDir force db_names [] fs of
         ((Some err, restored), fs') \<Rightarrow> ((Some err, restored), fs')
       | ((None, restored), fs') \<Rightarrow> if restored = [] then ((Some NotABackup, []), fs') else ((None, restored), fs')))"

fun EnsureSandboxDirs :: "(string \<Rightarrow> bool) \<Rightarrow> string \<Rightarrow> string list \<Rightarrow> store_error option \<times> string list" where
  "EnsureSandboxDirs mkdirOk dir [] = (None, [])"
| "EnsureSandboxDirs mkdirOk dir (p # ps) =
     (if p = [] \<or> \<not> hasPrefix (cleanPath p) dir then EnsureSandboxDirs mkdirOk dir ps
      else if \<not> mkdirOk p then (Some MkdirFailed, [])
      else (case EnsureSandboxDirs mkdirOk dir ps of (e, made) \<Rightarrow> (e, p # made)))"

section \<open>Migrations go forward, one step at a time\<close>

lemma showNat_shape: "showNat n \<noteq> [] \<and> list_all isDigit (showNat n)"
proof (induction n rule: showNat.induct)
  case (1 n)
  have d: "isDigit (digit_char k)" if "k < 10" for k
    using that by (simp add: isDigit_def of_char_digit Let_def)
  show ?case
    using 1 d [of n] d [of "n mod 10"] by (subst (1 2) showNat.simps) auto
qed

lemma goAtoi_showInt:
  assumes "0 \<le> n" "n < 2 ^ 63"
  shows "goAtoi (showInt n) = Some n"
proof -
  let ?s = "showNat (nat n)"
  obtain c cs where c: "?s = c # cs" "isDigit c"
    using showNat_shape [of "nat n"] by (cases ?s) auto
  then have "\<not> hasPrefix ?s ''-''" "\<not> hasPrefix ?s ''+''"
    by (auto simp: isDigit_def Let_def)
  then show ?thesis
    using assms showNat_shape [of "nat n"]
    by (simp add: goAtoi_def showInt_def digits_nat_showNat Let_def)
qed

lemma metaGet_metaSet:
  "metaSet k v db = Some db' \<Longrightarrow> metaGet j db' = (if j = k then Some v else metaGet j db)"
  by (auto simp: metaSet_def metaGet_def)

lemma migrate_step_meta:
  assumes "migrate_step exec bv ws st db = Some db'"
  shows "metaGet ''schema_version'' db' = Some (showInt (mg_version st)) \<and> metaGet ''workspace_id'' db' = Some ws"
  using assms by (auto simp: migrate_step_def metaGet_metaSet split: bind_splits)

lemma migrate_step_version:
  assumes "migrate_step exec bv ws st db = Some db'" "0 \<le> mg_version st" "mg_version st < 2 ^ 63"
  shows "currentVersion db' = Inr (mg_version st)"
  using migrate_step_meta [OF assms(1)] goAtoi_showInt [OF assms(2,3)] by (simp add: currentVersion_def)

lemma migrate_steps_progress:
  assumes "contiguous_from i sts = None" "currentVersion db = Inr (max cur (i - 1))" "1 \<le> i" "i + int (length sts) < 2 ^ 63"
    and "migrate_steps exec bv ws cur sts db = (res, db')"
  shows "case res of
      None \<Rightarrow> currentVersion db' = Inr (max cur (i - 1 + int (length sts)))
    | Some err \<Rightarrow> \<exists>st \<in> set sts. err = StepFailed (mg_name st) \<and> cur < mg_version st \<and> currentVersion db' = Inr (mg_version st - 1)"
  using assms
proof (induction sts arbitrary: i db)
  case Nil
  then show ?case by simp
next
  case (Cons st sts)
  have v: "mg_version st = i" and c: "contiguous_from (i + 1) sts = None"
    using Cons.prems(1) by (auto split: if_splits)
  have bounds: "1 \<le> i + 1" "i + 1 + int (length sts) < 2 ^ 63" "0 \<le> i" "i < 2 ^ 63"
    using Cons.prems(3,4) by simp_all
  have next_step: ?case if "currentVersion db1 = Inr (max cur i)" "migrate_steps exec bv ws cur sts db1 = (res, db')" for db1
  proof -
    have "currentVersion db1 = Inr (max cur (i + 1 - 1))"
      using that(1) by simp
    from Cons.IH [OF c this bounds(1,2) that(2)] show ?thesis
      by (auto simp: algebra_simps split: option.splits)
  qed
  show ?case
  proof (cases "i \<le> cur")
    case True
    then have "currentVersion db = Inr (max cur i)"
      using Cons.prems(2) by simp
    then show ?thesis
      using Cons.prems(5) True v by (intro next_step) simp_all
  next
    case False
    show ?thesis
    proof (cases "migrate_step exec bv ws st db")
      case None
      then have "res = Some (StepFailed (mg_name st))" "db' = db"
        using Cons.prems(5) False v by simp_all
      then show ?thesis
        using Cons.prems(2) False v by auto
    next
      case (Some db1)
      have "currentVersion db1 = Inr i"
        using migrate_step_version [OF Some] v bounds by simp
      then show ?thesis
        using Cons.prems(5) False v Some by (intro next_step) simp_all
    qed
  qed
qed

lemma migrationsFor_contiguous: "migrationsFor es name = Inr sts \<Longrightarrow> contiguous_from 1 sts = None"
  by (auto simp: migrationsFor_def Let_def split: sum.splits option.splits)

lemma SchemaVersions_small: "SchemaVersions name = Some t \<Longrightarrow> 0 \<le> t \<and> t \<le> 5"
  by (auto simp: SchemaVersions_def split: if_splits)

text \<open>What a migration that got past its guards does.\<close>

lemma migrate_runs:
  assumes "migrate e name ws f = (res, f')" and "SchemaVersions name = Some target" and "migrationsFor (me_entries e) name = Inr sts"
    and "int (length sts) = target" and "currentVersion (df_db f) = Inr cur" and "cur < target"
    and "0 < cur \<longrightarrow> me_vacuumInto e (df_db f)"
  shows "df_backups f' = df_backups f @ (if 0 < cur then [(cur, df_db f)] else []) \<and>
    (\<exists>r. migrate_steps (me_exec e) (me_version e) ws cur sts (df_db f) = (r, df_db f') \<and>
         res = (case r of Some err \<Rightarrow> Some err | None \<Rightarrow> verifyWorkspaceStamp ws (df_db f')))"
  using assms
  by (auto simp: migrate_def run_steps_def backupBeforeMigrating_def split: if_splits prod.splits option.splits)

text \<open>
  A migration that succeeds leaves the database at the schema this build targets and stamped with the
  workspace it was opened as.
\<close>

theorem migrate_reaches_target:
  assumes "migrate e name ws f = (None, f')" and "SchemaVersions name = Some target"
    and "currentVersion (df_db f) = Inr cur" and "0 \<le> cur"
  shows "currentVersion (df_db f') = Inr target \<and> metaGet ''workspace_id'' (df_db f') = Some ws"
proof -
  have stamp: "verifyWorkspaceStamp ws db = None \<Longrightarrow> metaGet ''workspace_id'' db = Some ws" for db :: "'a WsDB"
    by (auto simp: verifyWorkspaceStamp_def split: option.splits if_splits)
  obtain sts where sts: "migrationsFor (me_entries e) name = Inr sts" "int (length sts) = target" "cur \<le> target"
    using assms by (auto simp: migrate_def split: sum.splits if_splits)
  show ?thesis
  proof (cases "cur = target")
    case True
    then have "verifyWorkspaceStamp ws (df_db f) = None" "f' = f"
      using assms sts by (auto simp: migrate_def)
    then show ?thesis
      using True assms(3) stamp by simp
  next
    case False
    then have lt: "cur < target" using sts(3) by simp
    have "0 < cur \<longrightarrow> me_vacuumInto e (df_db f)"
      using assms sts lt by (auto simp: migrate_def backupBeforeMigrating_def split: if_splits)
    from migrate_runs [OF assms(1,2) sts(1,2) assms(3) lt this] obtain r
      where r: "migrate_steps (me_exec e) (me_version e) ws cur sts (df_db f) = (r, df_db f')"
        "None = (case r of Some err \<Rightarrow> Some err | None \<Rightarrow> verifyWorkspaceStamp ws (df_db f'))" by blast
    then have "r = None" "verifyWorkspaceStamp ws (df_db f') = None"
      by (auto split: option.splits)
    moreover have "currentVersion (df_db f) = Inr (max cur (1 - 1))" "1 + int (length sts) < 2 ^ 63"
      using assms(3,4) sts(2) SchemaVersions_small [OF assms(2)] by simp_all
    ultimately show ?thesis
      using migrate_steps_progress [OF migrationsFor_contiguous [OF sts(1)] _ _ _ r(1)] sts(2) lt stamp by simp
  qed
qed

text \<open>
  When a step fails, nothing of it stays and everything before it does: the database is at the version just
  before the failed step, so that the next start goes on from there; and a database that held
  anything was backed up as it was before the first step ran.
\<close>

theorem failed_migration_resumable:
  assumes "migrate e name ws f = (Some (StepFailed n), f')" and "migrationsFor (me_entries e) name = Inr sts"
    and "currentVersion (df_db f) = Inr cur" and "0 \<le> cur"
  shows "(\<exists>st \<in> set sts. mg_name st = n \<and> cur < mg_version st \<and> currentVersion (df_db f') = Inr (mg_version st - 1)) \<and>
    (0 < cur \<longrightarrow> (cur, df_db f) \<in> set (df_backups f'))"
proof -
  have stamp: "verifyWorkspaceStamp ws db \<noteq> Some (StepFailed n)" for db :: "'a WsDB"
    by (auto simp: verifyWorkspaceStamp_def split: option.splits)
  obtain target where t: "SchemaVersions name = Some target" "int (length sts) = target" "cur < target"
    using assms stamp by (auto simp: migrate_def split: option.splits if_splits)
  have "0 < cur \<longrightarrow> me_vacuumInto e (df_db f)"
    using assms t by (auto simp: migrate_def backupBeforeMigrating_def split: if_splits)
  from migrate_runs [OF assms(1) t(1) assms(2) t(2) assms(3) t(3) this] obtain r
    where r: "migrate_steps (me_exec e) (me_version e) ws cur sts (df_db f) = (r, df_db f')"
      "Some (StepFailed n) = (case r of Some err \<Rightarrow> Some err | None \<Rightarrow> verifyWorkspaceStamp ws (df_db f'))"
      and b: "df_backups f' = df_backups f @ (if 0 < cur then [(cur, df_db f)] else [])" by blast
  then have "r = Some (StepFailed n)"
    using stamp by (auto split: option.splits)
  moreover have "currentVersion (df_db f) = Inr (max cur (1 - 1))" "1 + int (length sts) < 2 ^ 63"
    using assms(3,4) t(2) SchemaVersions_small [OF t(1)] by simp_all
  ultimately show ?thesis
    using migrate_steps_progress [OF migrationsFor_contiguous [OF assms(2)] _ _ _ r(1)] b by auto
qed

text \<open>
  A database of another workspace is turned away while it is at the current schema.  At an older schema it is
  not: every step writes the stamp of the workspace that opens it, and the stamp is only looked at
  afterwards.
\<close>

lemma wrong_stamp_refused:
  assumes "SchemaVersions name = Some target" and "migrationsFor (me_entries e) name = Inr sts" and "int (length sts) = target"
    and "currentVersion (df_db f) = Inr target" and "metaGet ''workspace_id'' (df_db f) = Some other" and "other \<noteq> ws"
  shows "migrate e name ws f = (Some (WrongStamp other), f)"
  using assms by (simp add: migrate_def verifyWorkspaceStamp_def)

definition scripts_run :: "'r MigrateEnv \<Rightarrow> bool" where
  "scripts_run e \<longleftrightarrow> (\<forall>sql db. wd_meta db \<noteq> None \<longrightarrow> (\<exists>db'. me_exec e sql db = Some db' \<and> wd_meta db' \<noteq> None))"

lemma migrate_step_runs:
  assumes "scripts_run e" and "wd_meta db \<noteq> None"
  shows "\<exists>db'. migrate_step (me_exec e) bv ws st db = Some db' \<and> wd_meta db' \<noteq> None \<and> metaGet ''workspace_id'' db' = Some ws"
proof -
  obtain db1 m where "me_exec e (mg_sql st) db = Some db1" "wd_meta db1 = Some m"
    using assms unfolding scripts_run_def by (meson not_None_eq)
  then show ?thesis
    by (simp add: migrate_step_def metaSet_def metaGet_def)
qed

lemma migrate_steps_run:
  assumes "scripts_run e" and "wd_meta db \<noteq> None"
  shows "\<exists>db'. migrate_steps (me_exec e) bv ws cur sts db = (None, db') \<and> wd_meta db' \<noteq> None \<and>
    ((\<exists>st \<in> set sts. cur < mg_version st) \<or> metaGet ''workspace_id'' db = Some ws \<longrightarrow> metaGet ''workspace_id'' db' = Some ws)"
  using assms(2)
proof (induction sts arbitrary: db)
  case (Cons st sts)
  show ?case
  proof (cases "mg_version st \<le> cur")
    case True
    then show ?thesis using Cons.IH [OF Cons.prems] by auto
  next
    case False
    obtain db1 where d: "migrate_step (me_exec e) bv ws st db = Some db1" "wd_meta db1 \<noteq> None" "metaGet ''workspace_id'' db1 = Some ws"
      using migrate_step_runs [OF assms(1) Cons.prems] by blast
    from Cons.IH [OF d(2)] d False show ?thesis by auto
  qed
qed simp

lemma contiguous_versions: "contiguous_from i sts = None \<Longrightarrow> map mg_version sts = map (\<lambda>k. i + int k) [0..<length sts]"
proof (induction sts arbitrary: i)
  case (Cons st sts)
  then show ?case by (auto simp: upt_rec [of 0] map_Suc_upt [symmetric] simp del: upt_Suc split: if_splits)
qed simp

text \<open>
  The workspace stamp does not protect a database of an older schema: whichever workspace it belonged to,
  opening it as another one migrates it, rewrites the stamp and succeeds.
\<close>

theorem old_schema_restamped:
  assumes "scripts_run e" and "me_vacuumInto e (df_db f)" and "SchemaVersions name = Some target"
    and "migrationsFor (me_entries e) name = Inr sts" and "int (length sts) = target"
    and "currentVersion (df_db f) = Inr cur" and "0 < cur" and "cur < target"
    and "metaGet ''workspace_id'' (df_db f) = Some other"
  shows "fst (migrate e name ws f) = None \<and> metaGet ''workspace_id'' (df_db (snd (migrate e name ws f))) = Some ws"
proof -
  have meta: "wd_meta (df_db f) \<noteq> None"
    using assms(9) by (auto simp: metaGet_def split: bind_splits)
  have "\<exists>st \<in> set sts. cur < mg_version st"
  proof -
    have "mg_version ` set sts = (\<lambda>k. 1 + int k) ` {0..<length sts}"
      using contiguous_versions [OF migrationsFor_contiguous [OF assms(4)]] by (metis list.set_map set_upt)
    moreover have "1 + int (nat cur) = cur + 1" "nat cur < length sts"
      using assms(5,7,8) by auto
    ultimately have "cur + 1 \<in> mg_version ` set sts"
      by (metis (no_types, lifting) atLeastLessThan_iff image_eqI zero_le)
    then show ?thesis by force
  qed
  then obtain db' where db': "migrate_steps (me_exec e) (me_version e) ws cur sts (df_db f) = (None, db')"
    "metaGet ''workspace_id'' db' = Some ws"
    using migrate_steps_run [OF assms(1) meta] by blast
  then show ?thesis
    using assms by (simp add: migrate_def run_steps_def backupBeforeMigrating_def verifyWorkspaceStamp_def)
qed

text \<open>A ledger at schema 3 that belongs to workspace \<open>other\<close>, and five scripts, of which one may fail.\<close>

definition demo_menv :: "string option \<Rightarrow> unit MigrateEnv" where
  "demo_menv bad =
     \<lparr>me_entries = map (\<lambda>k. (''ledger_00'' @ k @ ''.sql'', ''sql'' @ k)) [''1'', ''2'', ''3'', ''4'', ''5''],
      me_exec = (\<lambda>s db. if bad = Some s then None else Some db), me_vacuumInto = (\<lambda>_. True), me_version = ''1.0''\<rparr>"

definition demo_old :: "unit DBFile" where
  "demo_old = \<lparr>df_db = \<lparr>wd_meta = Some [''schema_version'' \<mapsto> ''3'', ''workspace_id'' \<mapsto> ''other''], wd_rows = ()\<rparr>, df_backups = []\<rparr>"

definition demo_steps :: "migration list" where
  "demo_steps = map (\<lambda>(v, k). \<lparr>mg_version = v, mg_name = ''ledger_00'' @ k @ ''.sql'', mg_sql = ''sql'' @ k\<rparr>)
     [(1, ''1''), (2, ''2''), (3, ''3''), (4, ''4''), (5, ''5'')]"

lemma demo_migrations: "migrationsFor (me_entries (demo_menv bad)) ''ledger'' = Inr demo_steps"
proof -
  have "migrationsFor (map (\<lambda>k. (''ledger_00'' @ k @ ''.sql'', ''sql'' @ k)) [''1'', ''2'', ''3'', ''4'', ''5'']) ''ledger'' = Inr demo_steps"
    by code_simp
  then show ?thesis by (simp add: demo_menv_def)
qed

lemma demo_current: "currentVersion (df_db demo_old) = Inr 3"
proof -
  have "goAtoi ''3'' = Some 3" by code_simp
  then show ?thesis by (simp add: currentVersion_def metaGet_def demo_old_def)
qed

lemma demo_facts:
  "SchemaVersions ''ledger'' = Some 5" "int (length demo_steps) = 5" "metaGet ''workspace_id'' (df_db demo_old) = Some ''other''"
  "me_vacuumInto (demo_menv bad) (df_db demo_old)"
  by (simp_all add: SchemaVersions_def demo_steps_def demo_old_def metaGet_def demo_menv_def)

lemma demo_scripts: "scripts_run (demo_menv None)"
  by (simp add: scripts_run_def demo_menv_def)

theorem old_schema_restamped_witness:
  "metaGet ''workspace_id'' (df_db demo_old) = Some ''other'' \<and> fst (migrate (demo_menv None) ''ledger'' ''mine'' demo_old) = None"
  using old_schema_restamped [OF demo_scripts demo_facts(4,1) demo_migrations demo_facts(2) demo_current _ _ demo_facts(3), of "''mine''"]
    demo_facts(3) by simp

theorem migrate_reaches_target_witness:
  "currentVersion (df_db (snd (migrate (demo_menv None) ''ledger'' ''mine'' demo_old))) = Inr 5"
proof -
  have "fst (migrate (demo_menv None) ''ledger'' ''mine'' demo_old) = None"
    by code_simp
  then have "migrate (demo_menv None) ''ledger'' ''mine'' demo_old = (None, snd (migrate (demo_menv None) ''ledger'' ''mine'' demo_old))"
    by (metis prod.collapse)
  from migrate_reaches_target [OF this demo_facts(1) demo_current] show ?thesis by simp
qed

theorem failed_migration_resumable_witness:
  "(3, df_db demo_old) \<in> set (df_backups (snd (migrate (demo_menv (Some ''sql5'')) ''ledger'' ''mine'' demo_old)))"
proof -
  have "fst (migrate (demo_menv (Some ''sql5'')) ''ledger'' ''mine'' demo_old) = Some (StepFailed ''ledger_005.sql'')"
    by code_simp
  then have "migrate (demo_menv (Some ''sql5'')) ''ledger'' ''mine'' demo_old =
      (Some (StepFailed ''ledger_005.sql''), snd (migrate (demo_menv (Some ''sql5'')) ''ledger'' ''mine'' demo_old))"
    by (metis prod.collapse)
  from failed_migration_resumable [OF this demo_migrations demo_current] show ?thesis by simp
qed

section \<open>Workspaces do not share files or slots\<close>

lemma id_plain: "id_Valid i \<Longrightarrow> plain_seg i"
proof -
  assume v: "id_Valid i"
  have "\<not> id_byte slash" "\<not> id_byte (CHR ''.'')"
    by (simp_all add: id_byte_def)
  then have "slash \<notin> set i" "CHR ''.'' \<notin> set i" "i \<noteq> []"
    using v by (auto simp: id_Valid_def IDLength_def list_all_iff)
  then show ?thesis by (auto simp: plain_seg_def)
qed

lemma workspace_file:
  assumes "list_all plain_seg ss" "id_Valid i" "plain_seg n"
  shows "joinPath (WorkspaceDir (abs_of ss) i) n = abs_of (ss @ [''workspaces'', i, n])"
proof -
  have w: "list_all plain_seg (ss @ [''workspaces''])"
    using assms(1) by (simp add: plain_seg_def)
  then have "WorkspaceDir (abs_of ss) i = abs_of (ss @ [''workspaces'', i])"
    using assms(1) joinPath_plain [OF w id_plain [OF assms(2)]]
    by (simp add: WorkspaceDir_def WorkspacesDir_def joinPath_plain plain_seg_def)
  moreover have "list_all plain_seg (ss @ [''workspaces'', i])"
    using w id_plain [OF assms(2)] by simp
  ultimately show ?thesis
    using joinPath_plain [OF _ assms(3), of "ss @ [''workspaces'', i]"] by simp
qed


text \<open>
  Inference serves another workspace only once the saved slots of the one it served are gone; if they cannot
  be cleared, the switch fails and the active workspace stays.
\<close>

theorem switch_clears_slots:
  assumes "SwitchTo canRemove i r = ((err, previous), r')" and "ro_active r \<noteq> []" and "ro_active r \<noteq> i"
  shows "(err = None \<and> ro_active r' = i \<and> ro_slots r' (SlotsDir (ro_dir r) (ro_active r)) = []) \<or>
    (err = Some ClearFailed \<and> ro_active r' = ro_active r)"
  using assms by (auto simp: SwitchTo_def clearDir_def Let_def simp del: dropWhile_eq_Nil_conv split: if_splits bool.splits)

definition demo_root :: "unit Root" where
  "demo_root = \<lparr>ro_dir = ''/data'', ro_open = Map.empty, ro_active = ''a'', ro_dbs = (\<lambda>_. demo_old),
     ro_slots = (\<lambda>d. if d = ''/data/workspaces/a/slots'' then [''0.bin''] else [])\<rparr>"

text \<open>Empty databases, and scripts that create the \<open>meta\<close> table when it is not there.\<close>

definition demo_fresh :: "unit MigrateEnv" where
  "demo_fresh =
     \<lparr>me_entries = map (\<lambda>n. (n @ ''.sql'', [])) [''index_1'', ''index_2'', ''ledger_1'', ''ledger_2'', ''ledger_3'',
        ''ledger_4'', ''ledger_5'', ''telemetry_1''],
      me_exec = (\<lambda>s db. Some (db\<lparr>wd_meta := Some (case wd_meta db of None \<Rightarrow> Map.empty | Some m \<Rightarrow> m)\<rparr>)),
      me_vacuumInto = (\<lambda>_. True), me_version = ''1.0''\<rparr>"

definition demo_empty :: "unit Root" where
  "demo_empty = \<lparr>ro_dir = abs_of [''data''], ro_open = Map.empty, ro_active = [],
     ro_dbs = (\<lambda>_. \<lparr>df_db = \<lparr>wd_meta = None, wd_rows = ()\<rparr>, df_backups = []\<rparr>), ro_slots = (\<lambda>_. [])\<rparr>"

definition demo_open :: "char \<Rightarrow> unit Root \<Rightarrow> (store_error + string list) \<times> unit Root" where
  "demo_open c = OpenWorkspace demo_fresh (\<lambda>_. True) (\<lambda>_. True) (replicate 26 c)"


theorem switch_clears_slots_witness:
  "ro_slots (snd (SwitchTo (\<lambda>_. True) ''b'' demo_root)) ''/data/workspaces/a/slots'' = []"
proof -
  have d: "SlotsDir (ro_dir demo_root) (ro_active demo_root) = ''/data/workspaces/a/slots''"
    by code_simp
  obtain err p r' where s: "SwitchTo (\<lambda>_. True) ''b'' demo_root = ((err, p), r')"
    by (metis prod.collapse)
  have "err = None"
    using s by (auto simp: SwitchTo_def clearDir_def Let_def demo_root_def split: if_splits)
  then show ?thesis
    using switch_clears_slots [OF s] s d by (simp add: demo_root_def)
qed

text \<open>A directory beside the workspace, whose name only begins like it, counts as inside.\<close>

lemma ensure_dirs_sibling:
  "EnsureSandboxDirs (\<lambda>_. True) ''/data/workspaces/a'' [''/data/workspaces/ab/x''] = (None, [''/data/workspaces/ab/x''])"
  by code_simp

end
