(* ===== verification/Procman.thy ===== *)
theory Procman
  imports LE_Prelude
begin

text \<open>
  The supervisor of child processes (\<^verbatim>\<open>src/internal/procman/procman.go\<close>): registration, the restart loop
  with its budget and backoff, the life of one run of a child as a step relation over what the
  goroutines share (the exit of the process arrives once, on a channel), states and readiness.  Signals,
  health probes and the process itself are the environment of that relation.
\<close>

section \<open>Children and their status\<close>

datatype child_state = StateStopped | StateStarting | StateReady | StateDegraded | StateFailed | StateStopping

definition child_Terminal :: "child_state \<Rightarrow> bool" where
  "child_Terminal s = (s = StateFailed \<or> s = StateStopped)"

text \<open>Durations are in nanoseconds; \<open>ch_Build\<close> and \<open>ch_Health\<close> say whether the function is there.\<close>

record Child =
  ch_Name :: string
  ch_Build :: bool
  ch_Health :: bool
  ch_HealthInterval :: int
  ch_StartTimeout :: int
  ch_MaxRestarts :: int
  ch_RestartWindow :: int
  ch_Essential :: bool
  ch_StopSignal :: int
  ch_StopGrace :: int

definition second :: int where "second = 10 ^ 9"
definition DefaultHealthInterval :: int where "DefaultHealthInterval = 5 * second"
definition DefaultStartTimeout :: int where "DefaultStartTimeout = 60 * second"
definition DefaultMaxRestarts :: int where "DefaultMaxRestarts = 5"
definition DefaultRestartWindow :: int where "DefaultRestartWindow = 5 * 60 * second"
definition DefaultStopGrace :: int where "DefaultStopGrace = 10 * second"
definition MaxBackoff :: int where "MaxBackoff = 30 * second"

record child_status =
  cs_Name :: string
  cs_State :: child_state
  cs_PID :: int
  cs_Restarts :: int
  cs_LastError :: string
  cs_LastChange :: int
  cs_Essential :: bool

text \<open>The children in the order of registration: the map and the order of the source in one list.\<close>

record Manager =
  mg_children :: "(Child \<times> child_status) list"
  mg_started :: bool

datatype procman_error = AlreadyStarted | NoChildName | NoBuild string | AlreadyRegistered string

definition applyDefaults :: "Child \<Rightarrow> Child" where
  "applyDefaults c =
     c\<lparr>ch_HealthInterval := (if ch_HealthInterval c = 0 then DefaultHealthInterval else ch_HealthInterval c),
       ch_StartTimeout := (if ch_StartTimeout c = 0 then DefaultStartTimeout else ch_StartTimeout c),
       ch_MaxRestarts := (if ch_MaxRestarts c = 0 then DefaultMaxRestarts else ch_MaxRestarts c),
       ch_RestartWindow := (if ch_RestartWindow c = 0 then DefaultRestartWindow else ch_RestartWindow c),
       ch_StopGrace := (if ch_StopGrace c = 0 then DefaultStopGrace else ch_StopGrace c),
       ch_StopSignal := (if ch_StopSignal c = 0 then 15 else ch_StopSignal c)\<rparr>"

definition manager_Add :: "int \<Rightarrow> Child \<Rightarrow> Manager \<Rightarrow> procman_error option \<times> Manager" where
  "manager_Add now c m =
     (if mg_started m then (Some AlreadyStarted, m)
      else if ch_Name c = [] then (Some NoChildName, m)
      else if \<not> ch_Build c then (Some (NoBuild (ch_Name c)), m)
      else if ch_Name c \<in> (ch_Name \<circ> fst) ` set (mg_children m) then (Some (AlreadyRegistered (ch_Name c)), m)
      else (None, m\<lparr>mg_children := mg_children m @
              [(applyDefaults c, \<lparr>cs_Name = ch_Name c, cs_State = StateStopped, cs_PID = 0, cs_Restarts = 0,
                                  cs_LastError = [], cs_LastChange = now, cs_Essential = ch_Essential c\<rparr>)]\<rparr>))"

definition manager_Start :: "Manager \<Rightarrow> procman_error option \<times> Manager" where
  "manager_Start m = (if mg_started m then (Some AlreadyStarted, m) else (None, m\<lparr>mg_started := True\<rparr>))"

definition setState :: "int \<Rightarrow> child_state \<Rightarrow> string option \<Rightarrow> child_status \<Rightarrow> child_status" where
  "setState now st err s =
     (let s1 = (if cs_State s \<noteq> st then s\<lparr>cs_LastChange := now\<rparr> else s);
          s2 = s1\<lparr>cs_State := st\<rparr>;
          s3 = (case err of Some e \<Rightarrow> s2\<lparr>cs_LastError := e\<rparr> | None \<Rightarrow> if st = StateReady then s2\<lparr>cs_LastError := []\<rparr> else s2) in
      if st = StateStopped \<or> st = StateFailed then s3\<lparr>cs_PID := 0\<rparr> else s3)"

definition manager_Status :: "Manager \<Rightarrow> child_status list" where
  "manager_Status m = map snd (mg_children m)"

fun state_text :: "child_state \<Rightarrow> string" where
  "state_text StateStopped = ''stopped''"
| "state_text StateStarting = ''starting''"
| "state_text StateReady = ''ready''"
| "state_text StateDegraded = ''degraded''"
| "state_text StateFailed = ''failed''"
| "state_text StateStopping = ''stopping''"

definition manager_Ready :: "Manager \<Rightarrow> bool \<times> string list" where
  "manager_Ready m =
     (let reasons = map (\<lambda>s. cs_Name s @ '' is '' @ state_text (cs_State s) @ (if cs_LastError s \<noteq> [] then '': '' @ cs_LastError s else []))
                        (filter (\<lambda>s. cs_Essential s \<and> cs_State s \<noteq> StateReady) (manager_Status m)) in
      (reasons = [], reasons))"

section \<open>The restart loop\<close>

definition prune :: "int \<Rightarrow> int \<Rightarrow> int list \<Rightarrow> int list" where
  "prune window now ts = filter (\<lambda>t. now - window < t) ts"

definition next_backoff :: "int \<Rightarrow> int" where
  "next_backoff b = (if 2 * b > MaxBackoff then MaxBackoff else 2 * b)"

text \<open>
  One child's loop, over the clock readings of its rounds and whether the context was still live when the round's
  run of the child came back; the two readings of the clock in one round are taken as one.  It returns the times at which the child was started, whether it was
  given up, and the waits between runs.
\<close>

record Supervision =
  su_starts :: "int list"
  su_failed :: bool
  su_waits :: "int list"

fun supervise :: "Child \<Rightarrow> (int \<times> bool) list \<Rightarrow> int list \<Rightarrow> int \<Rightarrow> Supervision" where
  "supervise c [] ts backoff = \<lparr>su_starts = [], su_failed = False, su_waits = []\<rparr>"
| "supervise c ((now, live) # rounds) ts backoff =
     (let kept = prune (ch_RestartWindow c) now ts in
      if ch_MaxRestarts c \<le> int (length kept) then \<lparr>su_starts = [], su_failed = True, su_waits = []\<rparr>
      else if \<not> live then \<lparr>su_starts = [now], su_failed = False, su_waits = []\<rparr>
      else (let rest = supervise c rounds (kept @ [now]) (next_backoff backoff) in
        rest\<lparr>su_starts := now # su_starts rest, su_waits := backoff # su_waits rest\<rparr>))"

section \<open>One run of a child\<close>

text \<open>
  Where \<^verbatim>\<open>runOnce\<close> stands: waiting for the child to become ready, watching it, waiting on the channel
  after it was told to stop (because it never became ready, or because the context ended), or
  returned.  The channel \<^verbatim>\<open>done\<close> has room for one value, and the goroutine that waits for the process
  sends exactly one.
\<close>

datatype run_pc = WaitReady | Watch | AwaitDone | Returned

record run_state =
  rs_pc :: run_pc
  rs_done :: bool
  rs_sent :: bool
  rs_state :: child_state

definition run_started :: run_state where
  "run_started = \<lparr>rs_pc = WaitReady, rs_done = False, rs_sent = False, rs_state = StateStarting\<rparr>"

inductive run_step :: "Child \<Rightarrow> run_state \<Rightarrow> run_state \<Rightarrow> bool" for c where
  R_exit: "\<not> rs_sent s \<Longrightarrow> run_step c s (s\<lparr>rs_sent := True, rs_done := True\<rparr>)"
| R_ready: "rs_pc s = WaitReady \<Longrightarrow> run_step c s (s\<lparr>rs_pc := Watch, rs_state := StateReady\<rparr>)"
| R_early_exit: "rs_pc s = WaitReady \<Longrightarrow> ch_Health c \<Longrightarrow> rs_done s \<Longrightarrow>
    run_step c s (s\<lparr>rs_pc := AwaitDone, rs_done := False, rs_state := StateStopping\<rparr>)"
| R_not_ready: "rs_pc s = WaitReady \<Longrightarrow> ch_Health c \<Longrightarrow> run_step c s (s\<lparr>rs_pc := AwaitDone, rs_state := StateStopping\<rparr>)"
| R_probe: "rs_pc s = Watch \<Longrightarrow> ch_Health c \<Longrightarrow>
    run_step c s (s\<lparr>rs_state := (if healthy then StateReady else StateDegraded)\<rparr>)"
| R_exited: "rs_pc s = Watch \<Longrightarrow> rs_done s \<Longrightarrow> run_step c s (s\<lparr>rs_pc := Returned, rs_done := False, rs_state := StateStopped\<rparr>)"
| R_cancelled: "rs_pc s = Watch \<Longrightarrow> run_step c s (s\<lparr>rs_pc := AwaitDone, rs_state := StateStopping\<rparr>)"
| R_drained: "rs_pc s = AwaitDone \<Longrightarrow> rs_done s \<Longrightarrow> run_step c s (s\<lparr>rs_pc := Returned, rs_done := False\<rparr>)"

section \<open>The restart budget\<close>

definition in_window :: "int \<Rightarrow> int \<Rightarrow> int list \<Rightarrow> int list" where
  "in_window w T ts = filter (\<lambda>t. T - w < t \<and> t \<le> T) ts"

lemma in_window_append: "in_window w T (xs @ ys) = in_window w T xs @ in_window w T ys"
  by (simp add: in_window_def)

lemma in_window_le_prune:
  assumes "now \<le> T"
  shows "length (in_window w T h) \<le> length (prune w now h)"
proof -
  have "in_window w T h = filter (\<lambda>t. T - w < t \<and> t \<le> T) (prune w now h)"
    using assms by (auto simp: in_window_def prune_def intro!: filter_cong)
  then show ?thesis by (metis length_filter_le)
qed

lemma prune_prune: "now \<le> now' \<Longrightarrow> prune w now' (prune w now h) = prune w now' h"
  by (auto simp: prune_def intro!: filter_cong)

text \<open>
  The loop remembers less and less of the past: only what any later window can still see.
\<close>

lemma supervise_within_budget:
  assumes "\<And>now. m \<le> now \<Longrightarrow> prune (ch_RestartWindow c) now ts = prune (ch_RestartWindow c) now h"
    and "sorted (map fst rounds)" and "\<forall>r \<in> set rounds. m \<le> fst r"
    and "\<And>T. int (length (in_window (ch_RestartWindow c) T h)) \<le> max 0 (ch_MaxRestarts c)"
  shows "int (length (in_window (ch_RestartWindow c) T (h @ su_starts (supervise c rounds ts b)))) \<le> max 0 (ch_MaxRestarts c)"
  using assms
proof (induction rounds arbitrary: ts h m b)
  case Nil
  then show ?case by simp
next
  case (Cons r rounds)
  obtain now live where r: "r = (now, live)" by (cases r)
  let ?w = "ch_RestartWindow c" and ?M = "ch_MaxRestarts c"
  have m: "m \<le> now" using Cons.prems(3) by (simp add: r)
  have kept: "prune ?w now ts = prune ?w now h" using Cons.prems(1) [OF m] .
  show ?case
  proof (cases "?M \<le> int (length (prune ?w now h))")
    case True
    then show ?thesis using Cons.prems(4) [of T] by (simp add: r kept)
  next
    case False
    have started: "int (length (in_window ?w T (h @ [now]))) \<le> max 0 ?M" for T
    proof (cases "now \<le> T")
      case True
      have "length (in_window ?w T [now]) \<le> 1" by (simp add: in_window_def)
      then show ?thesis
        using False in_window_le_prune [OF True, of ?w h] by (simp add: in_window_append)
    next
      case False
      then have "in_window ?w T [now] = []" by (simp add: in_window_def)
      then show ?thesis using Cons.prems(4) [of T] by (simp add: in_window_append)
    qed
    show ?thesis
    proof (cases live)
      case True
      have "prune ?w now' (prune ?w now ts @ [now]) = prune ?w now' (h @ [now])" if "now \<le> now'" for now'
        using prune_prune [OF that, of ?w h] by (simp add: kept) (simp add: prune_def)
      moreover have "sorted (map fst rounds)" "\<forall>r \<in> set rounds. now \<le> fst r"
        using Cons.prems(2) by (auto simp: r)
      ultimately have "int (length (in_window ?w T ((h @ [now]) @ su_starts (supervise c rounds (prune ?w now ts @ [now]) (next_backoff b))))) \<le> max 0 ?M"
        using started by (intro Cons.IH) auto
      then show ?thesis using False True by (simp add: r kept Let_def)
    next
      case dead: False
      then show ?thesis using False started [of T] by (simp add: r kept)
    qed
  qed
qed

text \<open>
  However often it exits, a child is never started more than its allowed number of times within any
  stretch as long as its restart window, wherever that stretch begins.
\<close>

theorem restart_budget_kept:
  assumes "sorted (map fst rounds)"
  shows "int (length (filter (\<lambda>t. T - ch_RestartWindow c < t \<and> t \<le> T) (su_starts (supervise c rounds [] b)))) \<le> max 0 (ch_MaxRestarts c)"
proof (cases rounds)
  case Nil
  then show ?thesis by simp
next
  case (Cons r rs)
  have "\<forall>x \<in> set rounds. fst r \<le> fst x"
    using assms by (auto simp: Cons)
  from supervise_within_budget [OF _ assms this, where h = "[]" and ts = "[]"] show ?thesis
    by (simp add: in_window_def)
qed

definition demo_child :: Child where
  "demo_child = \<lparr>ch_Name = ''llama'', ch_Build = True, ch_Health = True, ch_HealthInterval = 5, ch_StartTimeout = 60, ch_MaxRestarts = 2,
     ch_RestartWindow = 10, ch_Essential = True, ch_StopSignal = 15, ch_StopGrace = 10\<rparr>"

theorem restart_budget_kept_witness:
  "su_starts (supervise demo_child [(0, True), (4, True), (20, True), (21, True), (22, True)] [] 1) = [0, 4, 20, 21] \<and>
   int (length (filter (\<lambda>t. 25 - 10 < t \<and> t \<le> 25) (su_starts (supervise demo_child [(0, True), (4, True), (20, True), (21, True), (22, True)] [] 1)))) \<le> 2"
  using restart_budget_kept [of "[(0, True), (4, True), (20, True), (21, True), (22, True)]" 25 demo_child 1]
  by (simp add: demo_child_def prune_def Let_def)

lemma waits_bounded:
  "b \<le> MaxBackoff \<Longrightarrow> 0 \<le> b \<Longrightarrow> \<forall>w \<in> set (su_waits (supervise c rounds ts b)). b \<le> w \<and> w \<le> MaxBackoff"
proof (induction rounds arbitrary: ts b)
  case (Cons r rounds)
  obtain now live where r: "r = (now, live)" by (cases r)
  have "b \<le> next_backoff b" "next_backoff b \<le> MaxBackoff" "0 \<le> next_backoff b"
    using Cons.prems by (auto simp: next_backoff_def)
  from Cons.IH [OF this(2,3), of "prune (ch_RestartWindow c) now ts @ [now]"] this Cons.prems show ?case
    by (auto simp: r Let_def intro: order_trans)
qed simp

section \<open>A child that exits before it is ready\<close>

inductive_cases run_stepE: "run_step c s s'"

lemma run_sent: "(run_step c)\<^sup>*\<^sup>* run_started s \<Longrightarrow> rs_done s \<longrightarrow> rs_sent s"
proof (induction rule: rtranclp_induct)
  case (step s s')
  from step.hyps(2) step.IH show ?case by cases auto
qed (simp add: run_started_def)

text \<open>Once the one value was taken out, the wait for it does not end.\<close>

lemma await_empty_stays:
  assumes "run_step c s s'" and "rs_pc s = AwaitDone" "\<not> rs_done s" "rs_sent s"
  shows "rs_pc s' = AwaitDone \<and> \<not> rs_done s' \<and> rs_sent s'"
  using assms by cases auto

text \<open>
  When a child with a health check exits before it becomes ready, the wait for readiness takes the exit
  out of the channel and the run then waits for it a second time: the run never returns, so the
  child is never restarted, whatever happens afterwards.
\<close>

theorem early_exit_never_returns:
  assumes "(run_step c)\<^sup>*\<^sup>* run_started s" and "ch_Health c" and "rs_pc s = WaitReady" and "rs_done s"
    and "(run_step c)\<^sup>*\<^sup>* (s\<lparr>rs_pc := AwaitDone, rs_done := False, rs_state := StateStopping\<rparr>) s'"
  shows "run_step c s (s\<lparr>rs_pc := AwaitDone, rs_done := False, rs_state := StateStopping\<rparr>) \<and> rs_pc s' \<noteq> Returned"
proof -
  have "rs_sent s"
    using run_sent [OF assms(1)] assms(4) by blast
  have "rs_pc s' = AwaitDone \<and> \<not> rs_done s' \<and> rs_sent s'"
    using assms(5)
  proof (induction rule: rtranclp_induct)
    case base
    then show ?case using \<open>rs_sent s\<close> by simp
  next
    case (step y z)
    then show ?case using await_empty_stays by blast
  qed
  moreover have "run_step c s (s\<lparr>rs_pc := AwaitDone, rs_done := False, rs_state := StateStopping\<rparr>)"
    by (rule R_early_exit [OF assms(3,2,4)])
  ultimately show ?thesis by simp
qed

theorem early_exit_never_returns_witness:
  "rs_pc (run_started\<lparr>rs_sent := True, rs_pc := AwaitDone, rs_done := False, rs_state := StateStopping\<rparr>) \<noteq> Returned"
proof -
  let ?s = "run_started\<lparr>rs_sent := True, rs_done := True\<rparr>"
  have "(run_step demo_child)\<^sup>*\<^sup>* run_started ?s"
    by (rule r_into_rtranclp, rule R_exit) (simp add: run_started_def)
  from early_exit_never_returns [OF this, of "?s\<lparr>rs_pc := AwaitDone, rs_done := False, rs_state := StateStopping\<rparr>"] show ?thesis
    by (simp add: demo_child_def run_started_def)
qed

text \<open>Every other way of ending a run leaves the value for the wait that comes last.\<close>

lemma run_returns_or_stuck:
  "(run_step c)\<^sup>*\<^sup>* run_started s \<Longrightarrow>
     rs_pc s = Returned \<or> rs_done s = rs_sent s \<or> (rs_pc s = AwaitDone \<and> \<not> rs_done s \<and> rs_sent s)"
proof (induction rule: rtranclp_induct)
  case (step s s')
  from step.hyps(2) step.IH show ?case by cases auto
qed (simp add: run_started_def)

section \<open>Registration and readiness\<close>

definition names_distinct :: "Manager \<Rightarrow> bool" where
  "names_distinct m = distinct (map (ch_Name \<circ> fst) (mg_children m))"

lemma add_keeps_names: "names_distinct m \<Longrightarrow> names_distinct (snd (manager_Add now c m))"
  by (auto simp: names_distinct_def manager_Add_def applyDefaults_def)

lemma ready_exact:
  "fst (manager_Ready m) \<longleftrightarrow> (\<forall>s \<in> set (manager_Status m). cs_Essential s \<longrightarrow> cs_State s = StateReady)"
  by (auto simp: manager_Ready_def Let_def filter_empty_conv)

end
