(* ===== verification/Broker.thy ===== *)
theory Broker
  imports Workflow
begin

text \<open>
  The human gates: \<^verbatim>\<open>src/internal/broker/broker.go\<close> and \<^verbatim>\<open>storage.go\<close>.  The table of gates is a list of
  rows, \<open>now\<close> is the clock in nanoseconds, the random part of an identifier and the JSON encoders are
  arguments, and each database transaction's success is a Boolean argument.
\<close>

section \<open>Gates and policy\<close>

datatype GateKind = KindPlan | KindImpact | KindOutOfScope | KindBudget | KindApply

definition gate_kind_name :: "GateKind \<Rightarrow> string" where
  "gate_kind_name k = (case k of KindPlan \<Rightarrow> ''plan'' | KindImpact \<Rightarrow> ''impact'' | KindOutOfScope \<Rightarrow> ''out_of_scope''
     | KindBudget \<Rightarrow> ''budget'' | KindApply \<Rightarrow> ''apply'')"

datatype Decision = Pending | Approved | Rejected | Expired

record Gate =
  gate_ID :: string
  gate_WorkspaceID :: string
  gate_TaskID :: string
  gate_Kind :: GateKind
  gate_Question :: string
  gate_Evidence :: string
  gate_Candidate :: string
  gate_Decision :: Decision
  gate_DecidedBy :: string
  gate_Note :: string
  gate_CreatedAt :: int
  gate_DecidedAt :: "int option"
  gate_ExpiresAt :: "int option"

definition gate_Open :: "Gate \<Rightarrow> bool" where
  "gate_Open g = (gate_Decision g = Pending)"

record GatePolicy =
  RequireForBreaking :: bool
  RequireForOutOfScope :: bool
  RequireForApply :: bool
  RequireForPlan :: bool
  MaxBreakingAuto :: int
  GateTimeout :: int

definition DefaultPolicy :: GatePolicy where
  "DefaultPolicy = \<lparr>RequireForBreaking = True, RequireForOutOfScope = True, RequireForApply = True,
     RequireForPlan = False, MaxBreakingAuto = 0, GateTimeout = 0\<rparr>"

definition Permissive :: GatePolicy where
  "Permissive = \<lparr>RequireForBreaking = False, RequireForOutOfScope = False, RequireForApply = False,
     RequireForPlan = False, MaxBreakingAuto = 0, GateTimeout = 0\<rparr>"

record GateEvidence =
  ge_Summary :: string
  ge_Impact :: "Impact option"
  ge_BreakingCount :: int
  ge_OutOfScope :: "string list"
  ge_Diff :: string
  ge_Findings :: "string list"
  ge_Plan :: string
  ge_PolicyReasons :: "string list"
  ge_ReviewConcerns :: "string list"

definition Needs :: "GatePolicy \<Rightarrow> GateKind \<Rightarrow> GateEvidence \<Rightarrow> string option" where
  "Needs p kind ev =
     (case kind of
        KindPlan \<Rightarrow> if RequireForPlan p then Some ''the policy gates plans before they run'' else None
      | KindImpact \<Rightarrow>
          (let breaking = ge_BreakingCount ev in
           if RequireForBreaking p \<and> breaking > 0 then Some (''the change breaks '' @ showInt breaking @ '' consumer(s)'')
           else if \<not> RequireForBreaking p \<and> breaking > MaxBreakingAuto p
           then Some (showInt breaking @ '' breaking consumer(s) exceeds the automatic limit of '' @ showInt (MaxBreakingAuto p))
           else None)
      | KindOutOfScope \<Rightarrow>
          if RequireForOutOfScope p \<and> ge_OutOfScope ev \<noteq> []
          then Some (showNat (length (ge_OutOfScope ev)) @ '' file(s) changed outside the declared scope'') else None
      | KindApply \<Rightarrow> if RequireForApply p then Some ''the policy gates applying a change'' else None
      | KindBudget \<Rightarrow> Some ''extending a budget is not a decision the system makes for itself'')"

definition MaxDiffInGate :: nat where
  "MaxDiffInGate = 40000"

section \<open>Storage\<close>

record gate_db =
  gd_gates :: "Gate list"
  gd_ledger :: ledger_db

datatype broker_error =
    GateMarshal | GateDbFailed | GateJournal ledger_error | NoSuchGate string | AlreadyDecided Decision

text \<open>Times are stored in milliseconds and read back as such.\<close>

definition at_ms :: "int \<Rightarrow> int" where
  "at_ms t = unixMilli t * 1000000"

definition gate_save :: "bool \<Rightarrow> string \<Rightarrow> Gate \<Rightarrow> gate_db \<Rightarrow> broker_error option \<times> gate_db" where
  "gate_save ok ws g db =
     (if \<not> ok then (Some GateDbFailed, db)
      else if gate_ID g \<in> set (map gate_ID (gd_gates db)) then
        (None, db\<lparr>gd_gates := map (\<lambda>r. if gate_ID r = gate_ID g
            then r\<lparr>gate_Decision := gate_Decision g, gate_DecidedBy := gate_DecidedBy g, gate_Note := gate_Note g,
                   gate_DecidedAt := map_option at_ms (gate_DecidedAt g)\<rparr> else r) (gd_gates db)\<rparr>)
      else (None, db\<lparr>gd_gates := gd_gates db @
              [g\<lparr>gate_WorkspaceID := ws, gate_Evidence := (if gate_Evidence g = [] then ''{}'' else gate_Evidence g),
                 gate_CreatedAt := at_ms (gate_CreatedAt g), gate_DecidedAt := map_option at_ms (gate_DecidedAt g),
                 gate_ExpiresAt := map_option at_ms (gate_ExpiresAt g)\<rparr>]\<rparr>))"

definition gate_list :: "(Gate \<Rightarrow> bool) \<Rightarrow> gate_db \<Rightarrow> Gate list" where
  "gate_list p db = stable_sort (\<lambda>a b. gate_CreatedAt a < gate_CreatedAt b) (filter p (gd_gates db))"

definition gate_Get :: "gate_db \<Rightarrow> string \<Rightarrow> broker_error + Gate" where
  "gate_Get db i = (case gate_list (\<lambda>g. gate_ID g = i) db of [] \<Rightarrow> Inl (NoSuchGate i) | g # _ \<Rightarrow> Inr g)"

definition gate_All :: "gate_db \<Rightarrow> Gate list" where
  "gate_All db = gate_list (\<lambda>_. True) db"

definition gate_expired :: "int \<Rightarrow> Gate \<Rightarrow> bool" where
  "gate_expired now g = (case gate_ExpiresAt g of None \<Rightarrow> False | Some t \<Rightarrow> now > t)"

definition decidedFor :: "int \<Rightarrow> gate_db \<Rightarrow> string \<Rightarrow> GateKind \<Rightarrow> string \<Rightarrow> Gate option" where
  "decidedFor now db task kind candidate =
     (if candidate = [] then None
      else find (\<lambda>g. (gate_Decision g = Approved \<or> gate_Decision g = Rejected) \<and> \<not> gate_expired now g)
             (rev (gate_list (\<lambda>g. gate_TaskID g = task \<and> gate_Kind g = kind \<and> gate_Candidate g = candidate) db)))"

definition gateID :: "string \<Rightarrow> string \<Rightarrow> GateKind \<Rightarrow> string \<Rightarrow> string" where
  "gateID fresh task kind candidate =
     ''gate-'' @ task @ ''-'' @ gate_kind_name kind @ ''-'' @ (if candidate \<noteq> [] then take 12 candidate else fresh)"

section \<open>Asking and deciding\<close>

record gate_codec =
  gc_evidence :: "GateEvidence \<Rightarrow> string option"
  gc_intent :: "string \<Rightarrow> GateKind \<Rightarrow> string \<Rightarrow> string \<Rightarrow> string"
  gc_gate_of :: "string \<Rightarrow> string option"
  gc_outcome :: "Decision \<Rightarrow> string \<Rightarrow> string \<Rightarrow> string"
  gc_failed :: "broker_error \<Rightarrow> string"

record Broker =
  br_ws :: string
  br_policy :: GatePolicy
  br_codec :: gate_codec

definition no_gate :: "string \<Rightarrow> GateKind \<Rightarrow> Gate" where
  "no_gate task kind = \<lparr>gate_ID = [], gate_WorkspaceID = [], gate_TaskID = task, gate_Kind = kind, gate_Question = [],
     gate_Evidence = [], gate_Candidate = [], gate_Decision = Approved, gate_DecidedBy = [], gate_Note = ''no gate required by policy'',
     gate_CreatedAt = 0, gate_DecidedAt = None, gate_ExpiresAt = None\<rparr>"

definition truncated_note :: string where
  "truncated_note = newline # [CHR 0xE2, CHR 0x80, CHR 0xA6] @ '' diff truncated; inspect the task worktree for the whole change'' @ [newline]"

definition bounded_diff :: "GateEvidence \<Rightarrow> GateEvidence" where
  "bounded_diff ev = (if length (ge_Diff ev) > MaxDiffInGate then ev\<lparr>ge_Diff := take MaxDiffInGate (ge_Diff ev) @ truncated_note\<rparr> else ev)"

lemma bounded_diff_code [code]:
  "bounded_diff ev = (if exceeds 40000 (ge_Diff ev) then ev\<lparr>ge_Diff := int_take 40000 (ge_Diff ev) @ truncated_note\<rparr> else ev)"
  by (simp add: bounded_diff_def exceeds_iff int_take_eq MaxDiffInGate_def)

definition new_gate :: "Broker \<Rightarrow> int \<Rightarrow> string \<Rightarrow> string \<Rightarrow> GateKind \<Rightarrow> string \<Rightarrow> string \<Rightarrow> string \<Rightarrow> string \<Rightarrow> Gate" where
  "new_gate b now fresh task kind question why body candidate =
     \<lparr>gate_ID = gateID fresh task kind candidate, gate_WorkspaceID = br_ws b, gate_TaskID = task, gate_Kind = kind,
      gate_Question = trimSpace (question @ '' ('' @ why @ '')''), gate_Evidence = body, gate_Candidate = candidate,
      gate_Decision = Pending, gate_DecidedBy = [], gate_Note = [], gate_CreatedAt = now, gate_DecidedAt = None,
      gate_ExpiresAt = (if GateTimeout (br_policy b) > 0 then Some (now + GateTimeout (br_policy b)) else None)\<rparr>"

text \<open>\<open>okb\<close>, \<open>oks\<close> and \<open>okf\<close>: the journal entry, the row of the gate, the failure written when the row is not.\<close>

definition open_gate :: "Broker \<Rightarrow> bool \<Rightarrow> bool \<Rightarrow> bool \<Rightarrow> int \<Rightarrow> string \<Rightarrow> Gate \<Rightarrow> gate_db \<Rightarrow> (broker_error + Gate) \<times> gate_db" where
  "open_gate b okb oks okf now why g db =
     (case Begin okb (unixMilli now) (gate_TaskID g) KindApproval
             (Some (gc_intent (br_codec b) (gate_ID g) (gate_Kind g) (gate_Question g) why)) [] (gd_ledger db) of
        (Inl e, l) \<Rightarrow> (Inl (GateJournal e), db\<lparr>gd_ledger := l\<rparr>)
      | (Inr h, l) \<Rightarrow>
          (case gate_save oks (br_ws b) g (db\<lparr>gd_ledger := l\<rparr>) of
             (Some e, db1) \<Rightarrow>
               (case h_Fail okf (unixMilli now) (\<lambda>_. gc_failed (br_codec b) e) [] h (gd_ledger db1) of
                  (_, _, l2) \<Rightarrow> (Inl e, db1\<lparr>gd_ledger := l2\<rparr>))
           | (None, db1) \<Rightarrow> (Inr g, db1)))"

definition Ask :: "Broker \<Rightarrow> bool \<Rightarrow> bool \<Rightarrow> bool \<Rightarrow> int \<Rightarrow> string \<Rightarrow> string \<Rightarrow> GateKind \<Rightarrow> string \<Rightarrow> GateEvidence \<Rightarrow> string \<Rightarrow> gate_db
   \<Rightarrow> (broker_error + Gate) \<times> gate_db" where
  "Ask b okb oks okf now fresh task kind question ev candidate db =
     (case Needs (br_policy b) kind ev of
        None \<Rightarrow> (Inr (no_gate task kind), db)
      | Some why \<Rightarrow>
          (case decidedFor now db task kind candidate of
             Some g \<Rightarrow> (Inr g, db)
           | None \<Rightarrow>
               (case gc_evidence (br_codec b) (bounded_diff ev) of
                  None \<Rightarrow> (Inl GateMarshal, db)
                | Some body \<Rightarrow>
                    open_gate b okb oks okf now why (new_gate b now fresh task kind question why body candidate) db)))"

definition gate_complete :: "bool \<Rightarrow> int \<Rightarrow> string \<Rightarrow> int \<Rightarrow> gate_db \<Rightarrow> broker_error option \<times> gate_db" where
  "gate_complete ok now body opID db =
     (if \<not> ok then (Some GateDbFailed, db)
      else (None, db\<lparr>gd_ledger := update_op opID (\<lambda>o'. o'\<lparr>op_Outcome := body, op_FinishedAt := unixMilli now\<rparr>) (gd_ledger db)\<rparr>))"

definition Decide :: "Broker \<Rightarrow> bool \<Rightarrow> bool \<Rightarrow> int \<Rightarrow> string \<Rightarrow> Decision \<Rightarrow> string \<Rightarrow> string \<Rightarrow> gate_db \<Rightarrow> (broker_error + Gate) \<times> gate_db" where
  "Decide b oks okc now i decision who note db =
     (case gate_Get db i of
        Inl e \<Rightarrow> (Inl e, db)
      | Inr g0 \<Rightarrow>
          if \<not> gate_Open g0 then (Inl (AlreadyDecided (gate_Decision g0)), db)
          else (let g = g0\<lparr>gate_Decision := decision, gate_DecidedBy := who, gate_Note := note, gate_DecidedAt := Some now\<rparr> in
                case gate_save oks (br_ws b) g db of
                  (Some e, db1) \<Rightarrow> (Inl e, db1)
                | (None, db1) \<Rightarrow>
                    (case find (\<lambda>o'. op_Kind o' = KindApproval \<and> Uncertain o' \<and> gc_gate_of (br_codec b) (op_Intent o') = Some i)
                            (Operations (gd_ledger db1) (gate_TaskID g)) of
                       None \<Rightarrow> (Inr g, db1)
                     | Some o' \<Rightarrow>
                         (case gate_complete okc now (gc_outcome (br_codec b) decision who note) (op_ID o') db1 of
                            (Some e, db2) \<Rightarrow> (Inl e, db2)
                          | (None, db2) \<Rightarrow> (Inr g, db2)))))"

fun expire_gates :: "Broker \<Rightarrow> bool \<Rightarrow> bool \<Rightarrow> int \<Rightarrow> Gate list \<Rightarrow> gate_db \<Rightarrow> Gate list \<times> gate_db" where
  "expire_gates b oks okc now [] db = ([], db)"
| "expire_gates b oks okc now (g # gs) db =
     (if gate_expired now g then
        (case Decide b oks okc now (gate_ID g) Expired ''system'' ''nobody answered within the policy timeout'' db of
           (r, db1) \<Rightarrow>
             (let (out, db2) = expire_gates b oks okc now gs db1 in
              ((case r of Inr d \<Rightarrow> d | Inl _ \<Rightarrow> g) # out, db2)))
      else (let (out, db2) = expire_gates b oks okc now gs db in (g # out, db2)))"

definition PendingGates :: "Broker \<Rightarrow> bool \<Rightarrow> bool \<Rightarrow> int \<Rightarrow> gate_db \<Rightarrow> Gate list \<times> gate_db" where
  "PendingGates b oks okc now db =
     (let (out, db1) = expire_gates b oks okc now (gate_list (\<lambda>g. gate_Decision g = Pending) db) db
      in (stable_sort (\<lambda>a b. gate_CreatedAt a < gate_CreatedAt b) out, db1))"

section \<open>An approval answers for one content\<close>

datatype gate_op =
    AskOp bool bool bool int string string GateKind string GateEvidence string
  | DecideOp bool bool int string Decision string string
  | PendingOp bool bool int

fun gate_apply :: "Broker \<Rightarrow> gate_op \<Rightarrow> gate_db \<Rightarrow> gate_db" where
  "gate_apply b (AskOp okb oks okf now fresh task kind q ev cand) db = snd (Ask b okb oks okf now fresh task kind q ev cand db)"
| "gate_apply b (DecideOp oks okc now i d who note) db = snd (Decide b oks okc now i d who note db)"
| "gate_apply b (PendingOp oks okc now) db = snd (PendingGates b oks okc now db)"

definition gate_run :: "Broker \<Rightarrow> gate_op list \<Rightarrow> gate_db \<Rightarrow> gate_db" where
  "gate_run b ops db = foldl (\<lambda>d x. gate_apply b x d) db ops"

definition asked :: "gate_op list \<Rightarrow> string \<Rightarrow> GateKind \<Rightarrow> string \<Rightarrow> bool" where
  "asked ops task kind cand = list_ex (\<lambda>x. case x of AskOp _ _ _ _ _ t k _ _ c \<Rightarrow> t = task \<and> k = kind \<and> c = cand | _ \<Rightarrow> False) ops"

definition approved_by_hand :: "gate_op list \<Rightarrow> string \<Rightarrow> bool" where
  "approved_by_hand ops i = list_ex (\<lambda>x. case x of DecideOp _ _ _ j d _ _ \<Rightarrow> j = i \<and> d = Approved | _ \<Rightarrow> False) ops"

definition gates_ok :: "gate_op list \<Rightarrow> Gate list \<Rightarrow> bool" where
  "gates_ok ops gs = list_all (\<lambda>g. asked ops (gate_TaskID g) (gate_Kind g) (gate_Candidate g) \<and>
     (gate_Decision g = Approved \<longrightarrow> approved_by_hand ops (gate_ID g))) gs"

lemma gates_ok_mono: "gates_ok ops gs \<Longrightarrow> gates_ok (ops @ xs) gs"
  by (auto simp: gates_ok_def list_all_iff asked_def approved_by_hand_def list_ex_iff)

lemma gate_save_ok:
  assumes "gates_ok ops (gd_gates db)" and "gate_Decision g = Approved \<longrightarrow> approved_by_hand ops (gate_ID g)"
    and "gate_ID g \<notin> gate_ID ` set (gd_gates db) \<longrightarrow> asked ops (gate_TaskID g) (gate_Kind g) (gate_Candidate g)"
  shows "gates_ok ops (gd_gates (snd (gate_save ok ws g db)))"
  using assms by (auto simp: gate_save_def gates_ok_def list_all_iff)

lemma gate_complete_gates [simp]: "gd_gates (snd (gate_complete ok now body i db)) = gd_gates db"
  by (simp add: gate_complete_def)

lemma open_gate_gates:
  "gd_gates (snd (open_gate b okb oks okf now why g db)) = gd_gates db \<or>
   (\<exists>l. gd_gates (snd (open_gate b okb oks okf now why g db)) = gd_gates (snd (gate_save oks (br_ws b) g (db\<lparr>gd_ledger := l\<rparr>))))"
proof -
  obtain r l where b: "Begin okb (unixMilli now) (gate_TaskID g) KindApproval
      (Some (gc_intent (br_codec b) (gate_ID g) (gate_Kind g) (gate_Question g) why)) [] (gd_ledger db) = (r, l)" by fastforce
  obtain e db1 where sv: "gate_save oks (br_ws b) g (db\<lparr>gd_ledger := l\<rparr>) = (e, db1)" by fastforce
  show ?thesis
  proof (cases r)
    case (Inr h)
    then have "gd_gates (snd (open_gate b okb oks okf now why g db)) = gd_gates (snd (gate_save oks (br_ws b) g (db\<lparr>gd_ledger := l\<rparr>)))"
      using b sv by (auto simp: open_gate_def split: option.splits prod.splits)
    then show ?thesis by blast
  qed (simp add: open_gate_def b)
qed

lemma Ask_gates:
  "gd_gates (snd (Ask b okb oks okf now fresh task kind q ev cand db)) = gd_gates db \<or>
   (\<exists>g l. gate_TaskID g = task \<and> gate_Kind g = kind \<and> gate_Candidate g = cand \<and> gate_Decision g = Pending \<and>
      gd_gates (snd (Ask b okb oks okf now fresh task kind q ev cand db)) = gd_gates (snd (gate_save oks (br_ws b) g (db\<lparr>gd_ledger := l\<rparr>))))"
proof -
  have new: "gate_TaskID (new_gate b now fresh task kind q why body cand) = task" "gate_Kind (new_gate b now fresh task kind q why body cand) = kind"
    "gate_Candidate (new_gate b now fresh task kind q why body cand) = cand" "gate_Decision (new_gate b now fresh task kind q why body cand) = Pending"
    for why body by (simp_all add: new_gate_def)
  have "snd (Ask b okb oks okf now fresh task kind q ev cand db) = db \<or> (\<exists>why body. Ask b okb oks okf now fresh task kind q ev cand db =
        open_gate b okb oks okf now why (new_gate b now fresh task kind q why body cand) db)"
    by (auto simp: Ask_def split: option.splits)
  then show ?thesis
  proof (elim disjE exE)
    fix why body
    assume "Ask b okb oks okf now fresh task kind q ev cand db = open_gate b okb oks okf now why (new_gate b now fresh task kind q why body cand) db"
    then show ?thesis using open_gate_gates [of b okb oks okf now why "new_gate b now fresh task kind q why body cand" db] new by metis
  qed simp
qed

lemma find_SomeD: "find P xs = Some x \<Longrightarrow> x \<in> set xs \<and> P x"
  by (auto simp: find_Some_iff)

lemma gate_Get_in: "gate_Get db i = Inr g \<Longrightarrow> g \<in> set (gd_gates db) \<and> gate_ID g = i"
proof -
  assume "gate_Get db i = Inr g"
  then have "g \<in> set (gate_list (\<lambda>g. gate_ID g = i) db)" by (auto simp: gate_Get_def split: list.splits)
  then show ?thesis by (auto simp: gate_list_def)
qed

lemma Decide_keeps:
  assumes "P db" and "\<And>g0. gate_Get db i = Inr g0 \<Longrightarrow>
      P (snd (gate_save oks (br_ws b) (g0\<lparr>gate_Decision := d, gate_DecidedBy := who, gate_Note := nt, gate_DecidedAt := Some now\<rparr>) db))"
    and "\<And>db l. P db \<Longrightarrow> P (db\<lparr>gd_ledger := l\<rparr>)"
  shows "P (snd (Decide b oks okc now i d who nt db))"
proof (cases "gate_Get db i")
  case (Inr g0)
  then show ?thesis using assms(1) assms(2) [OF Inr] assms(3)
    by (auto simp: Decide_def Let_def gate_complete_def split: option.splits prod.splits)
qed (use assms(1) in \<open>simp add: Decide_def\<close>)

lemma expire_keeps:
  assumes "P db" and "\<And>db i. P db \<Longrightarrow> P (snd (Decide b oks okc now i Expired ''system'' ''nobody answered within the policy timeout'' db))"
  shows "P (snd (expire_gates b oks okc now gs db))"
  using assms(1)
proof (induction gs arbitrary: db)
  case (Cons g gs)
  obtain r db1 where d: "Decide b oks okc now (gate_ID g) Expired ''system'' ''nobody answered within the policy timeout'' db = (r, db1)" by fastforce
  have "P db1" using assms(2) [OF Cons.prems, of "gate_ID g"] d by simp
  then show ?case using Cons.IH [of db] Cons.IH [of db1] Cons.prems d by (auto simp: Let_def split: prod.splits)
qed simp

lemma Decide_ok:
  assumes "gates_ok ops (gd_gates db)" and "d = Approved \<longrightarrow> approved_by_hand ops i"
  shows "gates_ok ops (gd_gates (snd (Decide b oks okc now i d who nt db)))"
proof (rule Decide_keeps [where P = "\<lambda>db. gates_ok ops (gd_gates db)"])
  fix g0 assume "gate_Get db i = Inr g0"
  from gate_Get_in [OF this] assms
  show "gates_ok ops (gd_gates (snd (gate_save oks (br_ws b)
      (g0\<lparr>gate_Decision := d, gate_DecidedBy := who, gate_Note := nt, gate_DecidedAt := Some now\<rparr>) db)))"
    by (intro gate_save_ok) auto
qed (use assms(1) in auto)

lemma expire_ok: "gates_ok ops (gd_gates db) \<Longrightarrow> gates_ok ops (gd_gates (snd (expire_gates b oks okc now gs db)))"
  by (rule expire_keeps [where P = "\<lambda>db. gates_ok ops (gd_gates db)"]) (auto intro: Decide_ok)

lemma gate_apply_ok:
  assumes "gates_ok ops (gd_gates db)"
  shows "gates_ok (ops @ [x]) (gd_gates (gate_apply b x db))"
proof (cases x)
  case (AskOp okb oks okf now fresh task kind q ev cand)
  have asked: "asked (ops @ [x]) task kind cand" by (simp add: asked_def AskOp)
  note old = gates_ok_mono [OF assms, of "[x]"]
  from Ask_gates [of b okb oks okf now fresh task kind q ev cand db] show ?thesis
  proof (elim disjE exE conjE)
    fix g l
    assume g: "gate_TaskID g = task" "gate_Kind g = kind" "gate_Candidate g = cand" "gate_Decision g = Pending"
      "gd_gates (snd (Ask b okb oks okf now fresh task kind q ev cand db)) = gd_gates (snd (gate_save oks (br_ws b) g (db\<lparr>gd_ledger := l\<rparr>)))"
    have "gates_ok (ops @ [x]) (gd_gates (snd (gate_save oks (br_ws b) g (db\<lparr>gd_ledger := l\<rparr>))))"
      by (rule gate_save_ok) (use old g asked in auto)
    then show ?thesis using g(5) AskOp by simp
  qed (use old AskOp in simp)
next
  case (DecideOp oks okc now i d who nt)
  have "d = Approved \<longrightarrow> approved_by_hand (ops @ [x]) i" by (simp add: approved_by_hand_def DecideOp)
  then show ?thesis using Decide_ok [OF gates_ok_mono [OF assms, of "[x]"]] DecideOp by simp
next
  case (PendingOp oks okc now)
  then show ?thesis
    using expire_ok [OF gates_ok_mono [OF assms, of "[x]"]]
    by (auto simp: PendingGates_def Let_def split: prod.splits) (metis snd_conv)
qed

lemma gate_run_ok: "gd_gates db = [] \<Longrightarrow> gates_ok ops (gd_gates (gate_run b ops db))"
proof (induction ops rule: rev_induct)
  case Nil
  then show ?case by (simp add: gate_run_def gates_ok_def)
next
  case (snoc x ops)
  then show ?case using gate_apply_ok [of ops "gate_run b ops db" x b] by (simp add: gate_run_def)
qed

text \<open>
  C11. An approval is a person's and is about the same content.  Whatever asks, decisions and listings
  ran before, with whatever database failures: when the policy requires a gate and asking returns an
  approval, then the content is identified, the approval's row is for the same task, kind and content,
  that content was asked about before, and a decision to approve that very gate was submitted.
\<close>

theorem approval_bound_to_content:
  assumes "gd_gates db = []" and "Needs (br_policy b) kind ev \<noteq> None"
    and "fst (Ask b okb oks okf now fresh task kind q ev cand (gate_run b ops db)) = Inr g" and "gate_Decision g = Approved"
  shows "cand \<noteq> [] \<and> gate_TaskID g = task \<and> gate_Kind g = kind \<and> gate_Candidate g = cand \<and> \<not> gate_expired now g \<and>
    asked ops task kind cand \<and> approved_by_hand ops (gate_ID g)"
proof -
  let ?db = "gate_run b ops db"
  obtain why where why: "Needs (br_policy b) kind ev = Some why" using assms(2) by auto
  have dec: "decidedFor now ?db task kind cand = Some g"
  proof (cases "decidedFor now ?db task kind cand")
    case None
    then have "gate_Decision g = Pending"
      using assms(3) why by (auto simp: Ask_def open_gate_def new_gate_def split: option.splits prod.splits sum.splits)
    then show ?thesis using assms(4) by simp
  qed (use assms(3) why in \<open>simp add: Ask_def\<close>)
  then have "cand \<noteq> []" and "g \<in> set (rev (gate_list (\<lambda>g. gate_TaskID g = task \<and> gate_Kind g = kind \<and> gate_Candidate g = cand) ?db))"
    and fresh: "\<not> gate_expired now g"
    by (auto simp: decidedFor_def split: if_splits dest!: find_SomeD)
  then have g: "g \<in> set (gd_gates ?db)" "gate_TaskID g = task" "gate_Kind g = kind" "gate_Candidate g = cand"
    by (auto simp: gate_list_def)
  from gate_run_ok [OF assms(1), of ops b] g assms(4) show ?thesis
    using \<open>cand \<noteq> []\<close> fresh by (auto simp: gates_ok_def list_all_iff)
qed

definition demo_gate_codec :: gate_codec where
  "demo_gate_codec = \<lparr>gc_evidence = (\<lambda>_. Some ''e''), gc_intent = (\<lambda>i _ _ _. i), gc_gate_of = Some, gc_outcome = (\<lambda>_ _ _. ''o''), gc_failed = (\<lambda>_. ''f'')\<rparr>"

definition demo_broker :: "int \<Rightarrow> Broker" where
  "demo_broker timeout = \<lparr>br_ws = ''w'', br_policy = DefaultPolicy\<lparr>GateTimeout := timeout\<rparr>, br_codec = demo_gate_codec\<rparr>"

definition demo_evidence :: GateEvidence where
  "demo_evidence = \<lparr>ge_Summary = [], ge_Impact = None, ge_BreakingCount = 0, ge_OutOfScope = [], ge_Diff = ''d'', ge_Findings = [],
     ge_Plan = [], ge_PolicyReasons = [], ge_ReviewConcerns = []\<rparr>"

definition demo_gates :: gate_db where
  "demo_gates = \<lparr>gd_gates = [], gd_ledger = empty_ledger\<rparr>"

definition demo_ask :: "int \<Rightarrow> gate_op" where
  "demo_ask now = AskOp True True True now [] ''t'' KindApply ''apply?'' demo_evidence ''cccc''"

definition demo_approve :: "int \<Rightarrow> gate_op" where
  "demo_approve now = DecideOp True True now ''gate-t-apply-cccc'' Approved ''me'' ''fine''"

theorem approval_bound_to_content_witness:
  "\<exists>g. fst (Ask (demo_broker 0) True True True 9000000 [] ''t'' KindApply ''apply?'' demo_evidence ''cccc''
      (gate_run (demo_broker 0) [demo_ask 5000000, demo_approve 7000000] demo_gates)) = Inr g \<and> gate_Decision g = Approved \<and>
     approved_by_hand [demo_ask 5000000, demo_approve 7000000] (gate_ID g)"
proof -
  let ?r = "fst (Ask (demo_broker 0) True True True 9000000 [] ''t'' KindApply ''apply?'' demo_evidence ''cccc''
      (gate_run (demo_broker 0) [demo_ask 5000000, demo_approve 7000000] demo_gates))"
  have "case ?r of Inl _ \<Rightarrow> False | Inr g \<Rightarrow> gate_Decision g = Approved" by code_simp
  then obtain g where g: "?r = Inr g" "gate_Decision g = Approved" by (auto split: sum.splits)
  have "gd_gates demo_gates = []" by (simp add: demo_gates_def)
  moreover have "Needs (br_policy (demo_broker 0)) KindApply demo_evidence \<noteq> None" by code_simp
  ultimately show ?thesis using approval_bound_to_content [OF _ _ g] g by blast
qed

section \<open>A gate that timed out\<close>

lemma Ask_answers:
  "gc_evidence (br_codec b) (bounded_diff ev) \<noteq> None \<Longrightarrow> \<exists>g. fst (Ask b True True okf now fresh task kind q ev cand db) = Inr g"
  by (auto simp: Ask_def open_gate_def Begin_def gate_save_def Let_def split: option.splits)

definition gate_for :: "string \<Rightarrow> GateKind \<Rightarrow> string \<Rightarrow> Gate \<Rightarrow> bool" where
  "gate_for task kind cand g = (gate_TaskID g = task \<and> gate_Kind g = kind \<and> gate_Candidate g = cand)"

definition timed_out :: "int \<Rightarrow> string \<Rightarrow> GateKind \<Rightarrow> string \<Rightarrow> Gate list \<Rightarrow> bool" where
  "timed_out T task kind cand gs = (gateID [] task kind cand \<in> gate_ID ` set gs \<and>
     list_all (\<lambda>g. gate_for task kind cand g \<longrightarrow> gate_expired T g) gs)"

lemma gate_save_timed_out:
  assumes "timed_out T task kind cand (gd_gates db)" and "gate_for task kind cand g \<longrightarrow> gate_ID g \<in> gate_ID ` set (gd_gates db)"
  shows "timed_out T task kind cand (gd_gates (snd (gate_save ok ws g db)))"
proof -
  let ?f = "\<lambda>r :: Gate. if gate_ID r = gate_ID g then r\<lparr>gate_Decision := gate_Decision g, gate_DecidedBy := gate_DecidedBy g,
      gate_Note := gate_Note g, gate_DecidedAt := map_option at_ms (gate_DecidedAt g)\<rparr> else r"
  have "gate_ID (?f r) = gate_ID r" for r by simp
  then have id: "gate_ID \<circ> ?f = gate_ID" by (intro ext) (simp only: o_apply)
  have "gate_ID ` set (map ?f gs) = gate_ID ` set gs" for gs by (simp only: set_map image_comp id)
  moreover have "list_all (\<lambda>g. gate_for task kind cand g \<longrightarrow> gate_expired T g) (map ?f gs) =
      list_all (\<lambda>g. gate_for task kind cand g \<longrightarrow> gate_expired T g) gs" for gs
    by (induction gs) (auto simp: gate_for_def gate_expired_def)
  ultimately have upd: "timed_out T task kind cand (map ?f (gd_gates db))" using assms(1) unfolding timed_out_def by presburger
  show ?thesis
  proof (cases "ok \<and> gate_ID g \<notin> gate_ID ` set (gd_gates db)")
    case True
    then show ?thesis using assms by (auto simp: gate_save_def timed_out_def gate_for_def)
  next
    case False
    then show ?thesis using assms(1) upd by (cases ok) (simp_all add: gate_save_def)
  qed
qed

lemma Decide_timed_out:
  assumes "timed_out T task kind cand (gd_gates db)"
  shows "timed_out T task kind cand (gd_gates (snd (Decide b oks okc now i d who nt db)))"
proof (rule Decide_keeps [where P = "\<lambda>db. timed_out T task kind cand (gd_gates db)"])
  fix g0 assume "gate_Get db i = Inr g0"
  from gate_Get_in [OF this] assms
  show "timed_out T task kind cand (gd_gates (snd (gate_save oks (br_ws b)
      (g0\<lparr>gate_Decision := d, gate_DecidedBy := who, gate_Note := nt, gate_DecidedAt := Some now\<rparr>) db)))"
    by (intro gate_save_timed_out) auto
qed (use assms in auto)

lemma gate_apply_timed_out:
  assumes "cand \<noteq> []" and "timed_out T task kind cand (gd_gates db)"
  shows "timed_out T task kind cand (gd_gates (gate_apply b x db))"
proof (cases x)
  case (AskOp okb oks okf now fresh task' kind' q ev cand')
  have id: "gate_ID g \<in> gate_ID ` set (gd_gates db)" if "gate_for task kind cand g" "gate_ID g = gateID fresh task' kind' cand'"
      "gate_TaskID g = task'" "gate_Kind g = kind'" "gate_Candidate g = cand'" for g
    using assms that by (auto simp: timed_out_def gateID_def gate_for_def)
  have save: "timed_out T task kind cand (gd_gates (snd (open_gate b okb oks okf now why (new_gate b now fresh task' kind' q why body cand') db)))" for why body
    using open_gate_gates [of b okb oks okf now why "new_gate b now fresh task' kind' q why body cand'" db]
  proof (elim disjE exE)
    fix l assume "gd_gates (snd (open_gate b okb oks okf now why (new_gate b now fresh task' kind' q why body cand') db)) =
        gd_gates (snd (gate_save oks (br_ws b) (new_gate b now fresh task' kind' q why body cand') (db\<lparr>gd_ledger := l\<rparr>)))"
    moreover have "timed_out T task kind cand (gd_gates (snd (gate_save oks (br_ws b) (new_gate b now fresh task' kind' q why body cand') (db\<lparr>gd_ledger := l\<rparr>))))"
      by (rule gate_save_timed_out) (use assms(2) id in \<open>auto simp: new_gate_def\<close>)
    ultimately show ?thesis by simp
  qed (use assms(2) in simp)
  then show ?thesis using assms(2) by (auto simp: AskOp Ask_def split: option.splits)
next
  case (DecideOp oks okc now i d who nt)
  then show ?thesis using Decide_timed_out [OF assms(2)] by simp
next
  case (PendingOp oks okc now)
  have "timed_out T task kind cand (gd_gates (snd (expire_gates b oks okc now gs db)))" for gs
    by (rule expire_keeps [where P = "\<lambda>db. timed_out T task kind cand (gd_gates db)"]) (auto intro: Decide_timed_out assms(2))
  then show ?thesis by (auto simp: PendingOp PendingGates_def Let_def split: prod.splits) (metis snd_conv)
qed

text \<open>
  A gate that timed out can never be answered.  Once the gate of a task, kind and content has
  passed its deadline, no later ask about them returns a decision, whatever people decide in between:
  asking again re-opens the same row but keeps its old deadline, and an answer on a row past its
  deadline does not count.
\<close>

theorem expired_gate_never_answers:
  assumes "cand \<noteq> []" and "timed_out T task kind cand (gd_gates db)" and "T \<le> now" and "Needs (br_policy b) kind ev \<noteq> None"
    and "fst (Ask b okb oks okf now fresh task kind q ev cand (gate_run b ops db)) = Inr g"
  shows "gate_Decision g = Pending"
proof -
  have "timed_out T task kind cand (gd_gates (gate_run b ops db))"
  proof (induction ops rule: rev_induct)
    case (snoc x ops)
    then show ?case using gate_apply_timed_out [OF assms(1)] by (simp add: gate_run_def)
  qed (use assms(2) in \<open>simp add: gate_run_def\<close>)
  then have "decidedFor now (gate_run b ops db) task kind cand = None"
    using assms(1,3) by (auto simp: decidedFor_def find_None_iff gate_list_def timed_out_def gate_for_def gate_expired_def
        list_all_iff split: option.splits)
  then show ?thesis using assms(4,5)
    by (auto simp: Ask_def open_gate_def new_gate_def split: option.splits prod.splits sum.splits)
qed

end
