(* ===== verification/ContextPack.thy ===== *)
theory ContextPack
  imports Trust
begin

text \<open>
  How every model request is assembled: \<^verbatim>\<open>src/internal/contextpack/pack.go\<close> and \<^verbatim>\<open>compaction.go\<close>.  A request
  is a frozen prefix, a log that is only appended to, and a tail that is rebuilt on every call.
\<close>

section \<open>The pack\<close>

datatype BlockKind = KindEvidence | KindToolResult | KindModelTurn

record Block =
  bk_Kind :: BlockKind
  bk_Origin :: string
  bk_Body :: string

definition block_kind_name :: "BlockKind \<Rightarrow> string" where
  "block_kind_name k = (case k of KindEvidence \<Rightarrow> ''evidence'' | KindToolResult \<Rightarrow> ''tool_result'' | KindModelTurn \<Rightarrow> ''model_turn'')"

record PackBudget =
  pb_Prefix :: int
  pb_Log :: int
  pb_Output :: int

record Pack =
  pk_prefix :: Prefix
  pk_fence :: Fence
  pk_budget :: PackBudget
  pk_log :: "Block list"
  pk_logTokens :: int

definition EstimateTokens :: "string \<Rightarrow> int" where
  "EstimateTokens s = (if s = [] then 0 else int (length s) div 4 + 1)"

definition headLines :: nat where
  "headLines = 60"

definition tailLines :: nat where
  "tailLines = 40"

definition markerLines :: nat where
  "markerLines = 3"

definition omission :: "nat \<Rightarrow> string" where
  "omission n = [newline, newline] @ ''... '' @ showNat n @ '' lines omitted at fetch time ...'' @ [newline, newline]"

definition Truncate :: "BlockKind \<Rightarrow> string \<Rightarrow> string" where
  "Truncate kind body =
     (if kind \<noteq> KindToolResult then body
      else let ls = splitOn newline body in
        if length ls \<le> headLines + tailLines + markerLines then body
        else joinWith [newline] (take headLines ls) @ omission (length ls - headLines - tailLines) @
             joinWith [newline] (drop (length ls - tailLines) ls))"

definition render_block :: "Pack \<Rightarrow> Block \<Rightarrow> string" where
  "render_block p b =
     (if bk_Kind b = KindModelTurn then bk_Body b
      else fence_Wrap (pk_fence p) (if bk_Origin b = [] then block_kind_name (bk_Kind b) else bk_Origin b) (bk_Body b))"

definition frozenUser :: "Prefix \<Rightarrow> string" where
  "frozenUser px =
     foldl (\<lambda>b (heading, body). if isBlank body then b
         else (if b \<noteq> [] then b @ [newline, newline] else b) @ ''## '' @ heading @ [newline] @ body)
       [] [(''REPOSITORY'', px_RepoCard px), (''REPOSITORY MAP'', px_RepoMap px), (''TASK'', px_TaskCard px)]"

definition PrefixTokens :: "Prefix \<Rightarrow> Fence \<Rightarrow> int" where
  "PrefixTokens px f = EstimateTokens (px_Policy px) + EstimateTokens (fence_Preamble f) + EstimateTokens (frozenUser px)"

datatype pack_error = NeedsFence | BudgetUnreserved | PrefixOverBudget int int | LogFull

definition pack_New :: "Prefix \<Rightarrow> Fence \<Rightarrow> PackBudget \<Rightarrow> pack_error + Pack" where
  "pack_New px f bud =
     (if \<not> fence_Valid f then Inl NeedsFence
      else if pb_Prefix bud \<le> 0 \<or> pb_Log bud \<le> 0 then Inl BudgetUnreserved
      else if PrefixTokens px f > pb_Prefix bud then Inl (PrefixOverBudget (PrefixTokens px f) (pb_Prefix bud))
      else Inr \<lparr>pk_prefix = px, pk_fence = f, pk_budget = bud, pk_log = [], pk_logTokens = 0\<rparr>)"

definition pack_Append :: "Block \<Rightarrow> Pack \<Rightarrow> pack_error option \<times> Pack" where
  "pack_Append b0 p =
     (let b = b0\<lparr>bk_Body := Truncate (bk_Kind b0) (bk_Body b0)\<rparr>; cost = EstimateTokens (render_block p b) in
      if pk_logTokens p + cost > pb_Log (pk_budget p) then (Some LogFull, p)
      else (None, p\<lparr>pk_log := pk_log p @ [b], pk_logTokens := pk_logTokens p + cost\<rparr>))"

definition pack_Fits :: "Block \<Rightarrow> Pack \<Rightarrow> bool" where
  "pack_Fits b0 p =
     (let b = b0\<lparr>bk_Body := Truncate (bk_Kind b0) (bk_Body b0)\<rparr> in
      pk_logTokens p + EstimateTokens (render_block p b) \<le> pb_Log (pk_budget p))"

record Tail =
  tl_Instruction :: string
  tl_TokensUsed :: int
  tl_TokensRemaining :: int
  tl_Retry :: int

definition tail_render :: "Tail \<Rightarrow> string" where
  "tail_render t =
     tl_Instruction t @
     (if tl_TokensUsed t > 0 \<or> tl_TokensRemaining t > 0 \<or> tl_Retry t > 0
      then [newline, newline] @ ''Budget: '' @ showInt (tl_TokensUsed t) @ '' tokens used, '' @ showInt (tl_TokensRemaining t) @
           '' remaining, attempt '' @ showInt (tl_Retry t + 1) @ ''.'' else [])"

text \<open>A message is its role and its content; the packer fills nothing else of it.\<close>

type_synonym pack_message = "string \<times> string"

definition frozen_messages :: "Pack \<Rightarrow> pack_message list" where
  "frozen_messages p =
     [(''system'', px_Policy (pk_prefix p) @ [newline, newline] @ fence_Preamble (pk_fence p)), (''user'', frozenUser (pk_prefix p))]"

definition log_messages :: "Pack \<Rightarrow> pack_message list" where
  "log_messages p = map (\<lambda>b. (if bk_Kind b = KindModelTurn then ''assistant'' else ''user'', render_block p b)) (pk_log p)"

definition Messages :: "Pack \<Rightarrow> Tail \<Rightarrow> pack_message list \<times> nat" where
  "Messages p t =
     (frozen_messages p @ log_messages p @ (if isBlank (tail_render t) then [] else [(''user'', tail_render t)]),
      length (frozen_messages p))"

definition Repack :: "Pack \<Rightarrow> string \<Rightarrow> PackBudget \<Rightarrow> pack_error + Pack" where
  "Repack p taskCard bud =
     pack_New (if isBlank taskCard then pk_prefix p else (pk_prefix p)\<lparr>px_TaskCard := taskCard\<rparr>) (pk_fence p) bud"

section \<open>The task card\<close>

record Fact =
  fact_Fact :: string
  fact_Evidence :: string
  fact_Commit :: string

record Change =
  chg_File :: string
  chg_Symbol :: string
  chg_Summary :: string

record TestStatus =
  ts_Ran :: "string list"
  ts_Passed :: int
  ts_Failed :: int

record Card =
  card_Objective :: string
  card_ConfirmedFacts :: "Fact list"
  card_FilesExamined :: "string list"
  card_Symbols :: "string list"
  card_Hypothesis :: string
  card_Changes :: "Change list"
  card_TestStatus :: TestStatus
  card_OpenFailures :: "string list"
  card_Decisions :: "string list"
  card_NextAction :: string

definition commaList :: "string list \<Rightarrow> string" where
  "commaList xs = joinWith '', '' xs"

definition card_Render :: "Card \<Rightarrow> string" where
  "card_Render c = trimRightByte newline (
     ''Objective: '' @ card_Objective c @ [newline] @
     (if card_Hypothesis c \<noteq> [] then ''Root cause so far: '' @ card_Hypothesis c @ [newline] else []) @
     (if card_ConfirmedFacts c \<noteq> []
      then [newline] @ ''Established by tools (not by reasoning):'' @ [newline] @
           concat (map (\<lambda>f. ''- '' @ fact_Fact f @ '' ['' @ fact_Evidence f @ '']'' @ [newline]) (card_ConfirmedFacts c)) else []) @
     (if card_Symbols c \<noteq> [] then [newline] @ ''Relevant symbols: '' @ commaList (card_Symbols c) @ [newline] else []) @
     (if card_FilesExamined c \<noteq> [] then ''Files examined: '' @ commaList (card_FilesExamined c) @ [newline] else []) @
     (if card_Changes c \<noteq> []
      then [newline] @ ''Changes already on disk:'' @ [newline] @
           concat (map (\<lambda>ch. ''- '' @ chg_File ch @ (if chg_Symbol ch \<noteq> [] then '' ('' @ chg_Symbol ch @ '')'' else []) @ '': '' @
                             chg_Summary ch @ [newline]) (card_Changes c)) else []) @
     (if ts_Ran (card_TestStatus c) \<noteq> [] \<or> ts_Failed (card_TestStatus c) > 0
      then [newline] @ ''Verification: '' @ showInt (ts_Passed (card_TestStatus c)) @ '' passed, '' @
           showInt (ts_Failed (card_TestStatus c)) @ '' failed'' @
           (if ts_Ran (card_TestStatus c) \<noteq> [] then '' ('' @ commaList (ts_Ran (card_TestStatus c)) @ '')'' else []) @ [newline] else []) @
     (if card_OpenFailures c \<noteq> [] then ''Open failures: '' @ commaList (card_OpenFailures c) @ [newline] else []) @
     (if card_Decisions c \<noteq> []
      then [newline] @ ''Decisions:'' @ [newline] @ concat (map (\<lambda>d. ''- '' @ d @ [newline]) (card_Decisions c)) else []) @
     (if card_NextAction c \<noteq> [] then [newline] @ ''Next: '' @ card_NextAction c @ [newline] else []))"

definition sortUnique :: "string list \<Rightarrow> string list" where
  "sortUnique xs = sortStrings (nub_from [] (filter (\<lambda>s. s \<noteq> []) xs))"

definition card_Normalize :: "Card \<Rightarrow> Card" where
  "card_Normalize c =
     c\<lparr>card_FilesExamined := sortUnique (card_FilesExamined c), card_Symbols := sortUnique (card_Symbols c),
       card_OpenFailures := sortUnique (card_OpenFailures c),
       card_TestStatus := (card_TestStatus c)\<lparr>ts_Ran := sortUnique (ts_Ran (card_TestStatus c))\<rparr>\<rparr>"

section \<open>Nothing sent is ever rewritten\<close>

definition append_all :: "Block list \<Rightarrow> Pack \<Rightarrow> Pack" where
  "append_all bs p = foldl (\<lambda>q b. snd (pack_Append b q)) p bs"

lemma render_same: "pk_fence q = pk_fence p \<Longrightarrow> render_block q b = render_block p b"
  by (simp add: render_block_def)

lemma render_update: "render_block (p\<lparr>pk_log := l, pk_logTokens := n\<rparr>) = render_block p"
  by (rule ext) (simp add: render_block_def)

lemma append_extends:
  "pk_prefix (snd (pack_Append b p)) = pk_prefix p \<and> pk_fence (snd (pack_Append b p)) = pk_fence p \<and>
   pk_budget (snd (pack_Append b p)) = pk_budget p \<and> prefix (pk_log p) (pk_log (snd (pack_Append b p)))"
  by (simp add: pack_Append_def Let_def)

lemma append_all_extends:
  "pk_prefix (append_all bs p) = pk_prefix p \<and> pk_fence (append_all bs p) = pk_fence p \<and>
   pk_budget (append_all bs p) = pk_budget p \<and> prefix (pk_log p) (pk_log (append_all bs p))"
proof (induction bs arbitrary: p)
  case (Cons b bs)
  have "append_all (b # bs) p = append_all bs (snd (pack_Append b p))" by (simp add: append_all_def)
  then show ?case using Cons [of "snd (pack_Append b p)"] append_extends [of b p] prefix_order.trans by metis
qed (simp add: append_all_def)

lemma log_messages_prefix:
  assumes "pk_fence q = pk_fence p" and "prefix (pk_log p) (pk_log q)"
  shows "prefix (log_messages p) (log_messages q)"
  using assms(2) by (auto simp: prefix_def log_messages_def render_same [OF assms(1)])

definition log_cost :: "Pack \<Rightarrow> int" where
  "log_cost p = sum_list (map (\<lambda>b. EstimateTokens (render_block p b)) (pk_log p))"

lemma append_all_cost:
  "pk_logTokens p = log_cost p \<Longrightarrow> log_cost p \<le> pb_Log (pk_budget p) \<Longrightarrow>
   pk_logTokens (append_all bs p) = log_cost (append_all bs p) \<and> log_cost (append_all bs p) \<le> pb_Log (pk_budget p)"
proof (induction bs arbitrary: p)
  case (Cons b bs)
  let ?q = "snd (pack_Append b p)"
  have "pk_logTokens ?q = log_cost ?q \<and> log_cost ?q \<le> pb_Log (pk_budget ?q)"
    using Cons.prems by (auto simp: pack_Append_def Let_def log_cost_def render_update)
  moreover have "append_all (b # bs) p = append_all bs ?q" by (simp add: append_all_def)
  ultimately show ?case using Cons.IH [of ?q] append_extends [of b p] by metis
qed (simp add: append_all_def)

text \<open>
  A later request extends an earlier one.  Whatever blocks are offered to a pack that was built for
  a phase, the two frozen messages and everything already in the log are sent again byte for byte, as
  the beginning of the new request, and the log's estimated tokens never exceed the phase's budget.
\<close>

theorem request_extends_previous:
  assumes "pack_New px f bud = Inr p0"
  shows "(\<exists>more. fst (Messages (append_all (bs @ cs) p0) t) = frozen_messages p0 @ log_messages (append_all bs p0) @ more) \<and>
    snd (Messages (append_all (bs @ cs) p0) t) = 2 \<and>
    pk_logTokens (append_all bs p0) = log_cost (append_all bs p0) \<and> log_cost (append_all bs p0) \<le> pb_Log bud"
proof (intro conjI)
  have start: "pk_log p0 = []" "pk_logTokens p0 = 0" "pk_budget p0 = bud" "pb_Log bud > 0"
    using assms by (auto simp: pack_New_def split: if_splits)
  have "append_all (bs @ cs) p0 = append_all cs (append_all bs p0)" by (simp add: append_all_def)
  then have "prefix (log_messages (append_all bs p0)) (log_messages (append_all (bs @ cs) p0))"
    using append_all_extends [of cs "append_all bs p0"] by (metis log_messages_prefix)
  moreover have "frozen_messages (append_all (bs @ cs) p0) = frozen_messages p0"
    using append_all_extends [of "bs @ cs" p0] by (simp add: frozen_messages_def)
  ultimately show "\<exists>more. fst (Messages (append_all (bs @ cs) p0) t) = frozen_messages p0 @ log_messages (append_all bs p0) @ more"
    by (auto simp: Messages_def prefix_def)
  show "snd (Messages (append_all (bs @ cs) p0) t) = 2" by (simp add: Messages_def frozen_messages_def)
  show "pk_logTokens (append_all bs p0) = log_cost (append_all bs p0)" and "log_cost (append_all bs p0) \<le> pb_Log bud"
    using append_all_cost [of p0 bs] start by (simp_all add: log_cost_def)
qed

definition demo_prefix :: Prefix where
  "demo_prefix = \<lparr>px_Policy = ''policy'', px_RepoCard = ''repo'', px_RepoMap = [], px_TaskCard = ''task''\<rparr>"

definition demo_block :: Block where
  "demo_block = \<lparr>bk_Kind = KindModelTurn, bk_Origin = [], bk_Body = ''twelve bytes''\<rparr>"

definition demo_pack :: Pack where
  "demo_pack = \<lparr>pk_prefix = demo_prefix, pk_fence = \<lparr>fc_nonce = ''0a''\<rparr>, pk_budget = \<lparr>pb_Prefix = 1000, pb_Log = 4, pb_Output = 0\<rparr>,
     pk_log = [], pk_logTokens = 0\<rparr>"

theorem request_extends_previous_witness:
  "\<exists>more. fst (Messages (append_all [demo_block, demo_block] demo_pack) \<lparr>tl_Instruction = ''go'', tl_TokensUsed = 0, tl_TokensRemaining = 0, tl_Retry = 0\<rparr>) =
     frozen_messages demo_pack @ [(''assistant'', ''twelve bytes'')] @ more \<and> pk_logTokens (append_all [demo_block, demo_block] demo_pack) = 4"
proof -
  have n: "pack_New demo_prefix \<lparr>fc_nonce = ''0a''\<rparr> \<lparr>pb_Prefix = 1000, pb_Log = 4, pb_Output = 0\<rparr> = Inr demo_pack" by code_simp
  have l: "log_messages (append_all [demo_block] demo_pack) = [(''assistant'', ''twelve bytes'')]" by code_simp
  have c: "pk_logTokens (append_all [demo_block, demo_block] demo_pack) = 4" by code_simp
  show ?thesis
    using request_extends_previous [OF n, of "[demo_block]" "[demo_block]"
      "\<lparr>tl_Instruction = ''go'', tl_TokensUsed = 0, tl_TokensRemaining = 0, tl_Retry = 0\<rparr>"] l c by simp
qed

section \<open>A block is truncated once\<close>

lemma splitOn_join2:
  assumes "xs \<noteq> []" and "ys \<noteq> []" and "\<forall>p \<in> set xs \<union> set ys. c \<notin> set p"
  shows "splitOn c (joinWith [c] xs @ [c] @ joinWith [c] ys) = xs @ ys"
  using splitOn_joinWith [of "xs @ ys" c] joinWith_append [OF assms(1,2), of "[c]"] assms by fastforce

lemma showNat_no_newline: "newline \<notin> set (showNat n)"
proof (induction n rule: showNat.induct)
  case (1 n)
  have nd: "digit_char d \<noteq> newline" if "d < 10" for d
  proof
    assume "digit_char d = newline"
    then show False using of_char_digit [OF that] by simp
  qed
  show ?case using 1 nd [of n] nd [of "n mod 10"] by (subst showNat.simps) auto
qed

definition notice :: "nat \<Rightarrow> string" where
  "notice n = ''... '' @ showNat n @ '' lines omitted at fetch time ...''"

lemma truncated_lines:
  assumes "length (splitOn newline body) > 103"
  shows "\<exists>n. splitOn newline (Truncate KindToolResult body) =
     take 60 (splitOn newline body) @ [[], notice n, []] @ drop (length (splitOn newline body) - 40) (splitOn newline body)"
proof -
  let ?ls = "splitOn newline body"
  let ?n = "length ?ls - 60 - 40"
  let ?mid = "[[], notice ?n, []]"
  let ?tl = "drop (length ?ls - 40) ?ls"
  have ne: "take 60 ?ls \<noteq> []" "?tl \<noteq> []" using assms by auto
  have plain: "newline \<notin> set q" if "q \<in> set (take 60 ?ls) \<union> set (?mid @ ?tl)" for q
    using that showNat_no_newline [of ?n] splitOn_no_sep [of q newline body] by (auto simp: notice_def dest: in_set_takeD in_set_dropD)
  have "joinWith [newline] ?mid = [newline] @ notice ?n @ [newline]" by simp
  then have "[newline] @ joinWith [newline] (?mid @ ?tl) = omission ?n @ joinWith [newline] ?tl"
    using joinWith_append [of ?mid ?tl "[newline]"] ne(2) by (simp add: omission_def notice_def)
  then have "Truncate KindToolResult body = joinWith [newline] (take 60 ?ls) @ [newline] @ joinWith [newline] (?mid @ ?tl)"
    using assms by (simp add: Truncate_def headLines_def tailLines_def markerLines_def Let_def)
  then show ?thesis using splitOn_join2 [OF ne(1), of "?mid @ ?tl" newline] plain by auto
qed

lemma truncate_short: "length (splitOn newline body) \<le> 103 \<Longrightarrow> Truncate k body = body"
  by (simp add: Truncate_def headLines_def tailLines_def markerLines_def)

text \<open>
  Truncation is done once.  Cutting a block that was already cut changes nothing, so admitting it
  again cannot rewrite what an earlier request sent; a tool result keeps at most 103 lines.
\<close>

theorem truncate_once:
  "Truncate k (Truncate k body) = Truncate k body \<and> length (splitOn newline (Truncate KindToolResult body)) \<le> 103"
proof (intro conjI)
  show bound: "length (splitOn newline (Truncate KindToolResult body)) \<le> 103"
  proof (cases "length (splitOn newline body) > 103")
    case True
    then show ?thesis using truncated_lines [OF True] by auto
  qed (simp add: truncate_short)
  show "Truncate k (Truncate k body) = Truncate k body"
  proof (cases "k = KindToolResult")
    case True
    show ?thesis unfolding True by (rule truncate_short [OF bound])
  qed (simp add: Truncate_def)
qed

section \<open>The card does not depend on the order its parts were met in\<close>

text \<open>
  The lists of a task card are the sorted sets of what was put in them.  The open failures come
  from iterating over a Go map, whose order changes from run to run: the rendered card does not, so
  the frozen prefix stays frozen.
\<close>

theorem card_order_independent:
  "sortUnique xs = sorted_list_of_set (set xs - {[]}) \<and>
   card_Render (card_Normalize (c\<lparr>card_OpenFailures := sortUnique xs\<rparr>)) = card_Render (card_Normalize (c\<lparr>card_OpenFailures := xs\<rparr>))"
proof (intro conjI)
  have eq: "sortUnique ys = sorted_list_of_set (set ys - {[]})" for ys
  proof (rule sorted_distinct_set_unique)
    show "sorted (sortUnique ys)" by (simp add: sortUnique_def sortStrings_def)
    show "distinct (sortUnique ys)" by (simp add: sortUnique_def sortStrings_def distinct_nub_from)
    show "set (sortUnique ys) = set (sorted_list_of_set (set ys - {[]}))" by (auto simp: sortUnique_def sortStrings_def set_nub_from)
  qed simp_all
  show "sortUnique xs = sorted_list_of_set (set xs - {[]})" by (rule eq)
  have "sortUnique (sortUnique xs) = sortUnique xs" unfolding eq by simp
  then show "card_Render (card_Normalize (c\<lparr>card_OpenFailures := sortUnique xs\<rparr>)) = card_Render (card_Normalize (c\<lparr>card_OpenFailures := xs\<rparr>))"
    by (simp add: card_Normalize_def)
qed

end
