(* ===== verification/TaskRun.thy ===== *)
theory TaskRun
  imports Broker ContextPack "HOL-Library.Word"
begin

text \<open>
  What both ways of running a task share, from \<^verbatim>\<open>src/internal/task/runner.go\<close>: the sandbox
  specification, the outcome, verification with its evidence, the human gate and the recorded end.
  A program of the supervisor is a function on the state \<open>sys\<close>: an abstract world \<open>'w\<close> (checkouts,
  processes, the clock, cancellation), the task store with its ledger, and the table of gates.  What
  the runner calls and this development does not model (git, the sandbox, an engine, a model, the
  retriever, the JSON encoder) are the fields of the record \<open>TaskRunner\<close>.
\<close>

section \<open>The sandbox specification of a task\<close>

record SandboxSpec =
  sp_Network :: string
  sp_ReadOnly :: "string list"
  sp_ReadWrite :: "string list"
  sp_TCPConnect :: "16 word list"
  sp_TCPBind :: "16 word list"
  sp_AllowEphemeralTCP :: bool
  sp_TCPDeny :: "16 word list"
  sp_Env :: "string list"
  sp_Dir :: string
  sp_TmpDir :: string

record TaskDirs =
  td_Tmp :: string
  td_GoBuildCache :: string
  td_GoModCache :: string

definition envValue :: "string list \<Rightarrow> string \<Rightarrow> string" where
  "envValue env key =
     (case find (\<lambda>e. hasPrefix e (key @ ''='')) (rev env) of None \<Rightarrow> [] | Some e \<Rightarrow> trimPrefix e (key @ ''=''))"

definition dedupePorts :: "16 word list \<Rightarrow> 16 word list" where
  "dedupePorts ps = nub_from [] ps"

definition dedupe :: "string list \<Rightarrow> string list" where
  "dedupe xs = nub_from [] (filter (\<lambda>s. s \<noteq> []) xs)"

definition specFor :: "TaskDirs \<Rightarrow> SandboxSpec \<Rightarrow> string \<Rightarrow> string \<Rightarrow> SandboxSpec" where
  "specFor dirs base self wtPath =
     (let tmp = (if sp_TmpDir base = [] then td_Tmp dirs else sp_TmpDir base);
          env = (if sp_Env base = [] then GoEnv (td_GoBuildCache dirs) (td_GoModCache dirs) tmp else sp_Env base);
          (rw, ro) = GoSandboxPaths (envValue env ''GOCACHE'') (envValue env ''GOMODCACHE'') tmp
      in base\<lparr>sp_TmpDir := tmp, sp_Env := env,
              sp_ReadWrite := dedupe ([wtPath] @ sp_ReadWrite base @ rw) @ DeviceFiles,
              sp_ReadOnly := dedupe (sp_ReadOnly base @ ro) @ (if isAbs self then [self] else []),
              sp_Dir := wtPath\<rparr>)"

section \<open>Retrieval misses\<close>

text \<open>\<^verbatim>\<open>src/internal/retrieval/misses.go\<close>: a file a failure named that the packet did not carry.\<close>

record Miss =
  miss_Path :: string
  miss_Detail :: string
  miss_Recipe :: string

definition normalisePath :: "string \<Rightarrow> string" where
  "normalisePath p = (let q = trimSpace p in if q = [] then [] else trimPrefix (cleanPath q) ''./'')"

definition DetectMisses :: "string list \<Rightarrow> (string \<times> (string \<times> string) list) list \<Rightarrow> Miss list" where
  "DetectMisses slicePaths failures =
     stable_sort (\<lambda>a b. if miss_Path a \<noteq> miss_Path b then miss_Path a < miss_Path b else miss_Recipe a < miss_Recipe b)
       (nub_key (\<lambda>m. miss_Recipe m @ [nul] @ miss_Path m) []
         (filter (\<lambda>m. miss_Path m \<noteq> [] \<and> miss_Path m \<notin> set (map normalisePath slicePaths))
           (concat (map (\<lambda>(rec, fs). map (\<lambda>(f, msg). \<lparr>miss_Path = normalisePath f, miss_Detail = trimSpace msg, miss_Recipe = rec\<rparr>) fs)
              failures))))"

section \<open>Outcomes\<close>

datatype run_error =
    ETask task_error | ELedger ledger_error | EWorkflow workflow_error | EWorktree wt_error | EBroker broker_error
  | EPreset preset_error | EAccess access_error | EPack pack_error | ESecret string | EExternal string | ERefused string

text \<open>A sentence of an outcome: one of the completion contract, fixed text, or text followed by an error's.\<close>

datatype why = Contract reason | Said string | SaidOf string run_error

record Concern =
  cn_Severity :: string
  cn_Detail :: string
  cn_Path :: string

record Hypothesis =
  hy_Cause :: string
  hy_Suggestion :: string
  hy_RuledOut :: "string list"

record Outcome =
  out_Task :: Task
  out_Accepted :: bool
  out_Reasons :: "why list"
  out_Results :: "Result list"
  out_Attempts :: int
  out_TokensUsed :: int
  out_Candidate :: string
  out_OutOfScope :: "string list"
  out_PolicyViolations :: "Violation list"
  out_Review :: "Concern list option"
  out_Diagnosis :: "Hypothesis option"
  out_RetrievalMisses :: "Miss list"
  out_Diff :: string
  out_Verified :: string
  out_Gate :: "Gate option"
  out_Branch :: string
  out_Worktree :: string

definition new_outcome :: "Task \<Rightarrow> Outcome" where
  "new_outcome t = \<lparr>out_Task = t, out_Accepted = False, out_Reasons = [], out_Results = [], out_Attempts = 0, out_TokensUsed = 0,
     out_Candidate = [], out_OutOfScope = [], out_PolicyViolations = [], out_Review = None, out_Diagnosis = None,
     out_RetrievalMisses = [], out_Diff = [], out_Verified = [], out_Gate = None, out_Branch = [], out_Worktree = []\<rparr>"

definition nextAfter :: "State \<Rightarrow> string" where
  "nextAfter st = (case st of
     StateAccepted \<Rightarrow> ''review the diff and merge the task branch''
   | StateFailed \<Rightarrow> ''read the verification findings and decide whether to re-plan or abandon''
   | StateBlocked \<Rightarrow> ''the budget was exhausted; raise it or reduce the task's scope''
   | StateReview \<Rightarrow> ''answer the open gate with `le gate approve` or `le gate reject`''
   | _ \<Rightarrow> ''resume the task'')"

definition status_name :: "Status \<Rightarrow> string" where
  "status_name s = (case s of Pass \<Rightarrow> ''pass'' | Fail \<Rightarrow> ''fail'' | Error \<Rightarrow> ''error'' | Skipped \<Rightarrow> ''skipped'')"

abbreviation dash :: string where "dash \<equiv> [CHR '' '', CHR 0xE2, CHR 0x80, CHR 0x94, CHR '' '']"

definition result_line :: "Result \<Rightarrow> string" where
  "result_line res = res_Recipe res @ '': '' @ status_name (res_Status res) @ dash @ Headline (res_Summary res)"

definition commitMessage :: "Task \<Rightarrow> Outcome \<Rightarrow> string" where
  "commitMessage t out =
     task_Title t @ [newline, newline] @
     ''task: '' @ task_ID t @ [newline] @ ''verification: '' @ level_name (task_Verification t) @ '' ('' @
     (if out_Accepted out then ''accepted'' else ''not accepted'') @ '')'' @ [newline] @ ''attempts: '' @ showInt (out_Attempts out) @ [newline] @
     concat (map (\<lambda>res. ''  '' @ result_line res @ [newline]) (out_Results out))"

definition recipe_names :: "Recipe list \<Rightarrow> string list" where
  "recipe_names rs = map rec_Name rs"

definition summaries :: "Result list \<Rightarrow> (string \<times> string \<times> string \<times> string \<times> string) list" where
  "summaries rs = map (\<lambda>r. (res_Recipe r, kind_name (res_Kind r), status_name (res_Status r), Headline (res_Summary r), res_ArtifactHash r)) rs"

section \<open>The runner and the state it acts on\<close>

text \<open>The JSON objects the runner journals, one constructor per object.\<close>

datatype jbody =
    JEngineStep string int string string int
  | JStepDone string bool "string list" int bool bool
  | JVerification string "string list"
  | JResults "(string \<times> string \<times> string \<times> string \<times> string) list"
  | JHandoff string string bool "why list"
  | JModelCall string string string
  | JModelReply string string string
  | JFinalizeCommit string
  | JCommitted bool string

record 'p Packet =
  pkt_SlicePaths :: "string list"
  pkt_Rejected :: "string list"
  pkt_Tokens :: int
  pkt_Impact :: "Impact option"
  pkt_Content :: 'p

record RetrievalRequest =
  rt_Root :: string
  rt_Query :: string
  rt_Symbols :: "string list"
  rt_ExpandDepth :: int
  rt_ImpactOf :: "string list"
  rt_ImpactChange :: "ChangeKind option"
  rt_TokenBudget :: int

definition no_request :: RetrievalRequest where
  "no_request = \<lparr>rt_Root = [], rt_Query = [], rt_Symbols = [], rt_ExpandDepth = 0, rt_ImpactOf = [], rt_ImpactChange = None, rt_TokenBudget = 0\<rparr>"

record 'p EngineRequest =
  rq_Presets :: "Preset list"
  rq_TaskID :: string
  rq_Objective :: string
  rq_Worktree :: string
  rq_Packet :: "'p Packet"
  rq_Feedback :: "Result list"
  rq_Attempt :: int
  rq_Access :: Access
  rq_Phase :: "Phase option"
  rq_Plan :: "Plan option"
  rq_MaxTokens :: int
  rq_ContextTokens :: int
  rq_OutputTokens :: int
  rq_ReasoningTokens :: int

record Response =
  rs_Summary :: string
  rs_ClaimsDone :: bool
  rs_TokensUsed :: int
  rs_Edited :: bool
  rs_Truncated :: bool
  rs_BudgetExhausted :: bool

text \<open>
  An engine's step as the supervisor sees it: it ends with its transcript, saves a transcript and goes
  on knowing whether that worked and what the transcript is then, or writes to the journal it was
  handed.  (The engine may also be given a recipe runner in the task's sandbox, which is part of the
  engine here.)
\<close>

datatype ('m, 'w) engine_run =
    EngineDone "string + Response" "'m Transcript" 'w
  | EngineSave "'m Transcript" 'w "bool \<Rightarrow> 'm Transcript \<Rightarrow> 'w \<Rightarrow> ('m, 'w) engine_run"
  | EngineJournal "ledger_db \<Rightarrow> ledger_db" "ledger_db \<Rightarrow> ('m, 'w) engine_run"

record 'w sys =
  sy_world :: 'w
  sy_store :: task_store
  sy_gates :: "Gate list"

record ('m, 'p, 'w) TaskRunner =
  ru_tx :: "'w \<Rightarrow> (bool \<times> int) \<times> 'w"
  ru_ctxErr :: "'w \<Rightarrow> string option"
  ru_random :: "'w \<Rightarrow> string option \<times> 'w"
  ru_git :: "'w git"
  ru_fs :: "'w \<Rightarrow> FS"
  ru_tree :: "string \<Rightarrow> 'w \<Rightarrow> tnode list option"
  ru_sha :: "string \<Rightarrow> string"
  ru_codec :: "'m wf_codec"
  ru_json :: "jbody \<Rightarrow> string"
  ru_summaryJSON :: "Summary \<Rightarrow> string"
  ru_Broker :: "Broker option"
  ru_Sandbox :: "(SandboxSpec \<Rightarrow> 'w sandbox) option"
  ru_SandboxSpec :: SandboxSpec
  ru_dirs :: TaskDirs
  ru_self :: string
  ru_ensureDirs :: "string list \<Rightarrow> 'w \<Rightarrow> 'w"
  ru_Artifacts :: "(string \<Rightarrow> string option) option"
  ru_showDuration :: "int \<Rightarrow> string"
  ru_probes :: "'w \<Rightarrow> probes"
  ru_declared :: "Level \<Rightarrow> string \<Rightarrow> string \<Rightarrow> 'w \<Rightarrow> Recipe list"
  ru_ports :: "string \<Rightarrow> 'w \<Rightarrow> 16 word list option"
  ru_phased :: bool
  ru_edits :: bool
  ru_engineName :: string
  ru_Engine :: "'p EngineRequest \<Rightarrow> 'm Transcript \<Rightarrow> 'w \<Rightarrow> ('m, 'w) engine_run"
  ru_Build :: "RetrievalRequest \<Rightarrow> 'w \<Rightarrow> (string + 'p Packet) \<times> 'w"
  ru_Dirty :: "('w \<Rightarrow> (string + int) \<times> 'w) option"
  ru_Refresh :: "string \<Rightarrow> 'w \<Rightarrow> string option \<times> 'w"
  ru_repoRoot :: string
  ru_Policies :: PolicySet
  ru_Holder :: string

section \<open>Programs\<close>

type_synonym ('s, 'e, 'a) prog = "'s \<Rightarrow> ('e + 'a) \<times> 's"

definition goRet :: "'a \<Rightarrow> ('s, 'e, 'a) prog" where
  "goRet a s = (Inr a, s)"

definition goFail :: "'e \<Rightarrow> ('s, 'e, 'a) prog" where
  "goFail e s = (Inl e, s)"

definition goBind :: "('s, 'e, 'a) prog \<Rightarrow> ('a \<Rightarrow> ('s, 'e, 'b) prog) \<Rightarrow> ('s, 'e, 'b) prog" where
  "goBind m k s = (case m s of (Inl e, s') \<Rightarrow> (Inl e, s') | (Inr a, s') \<Rightarrow> k a s')"

definition goTry :: "('s, 'e, 'a) prog \<Rightarrow> ('s, 'f, 'e + 'a) prog" where
  "goTry m s = (case m s of (r, s') \<Rightarrow> (Inr r, s'))"

lemma goBind_Inr_iff: "goBind m k s = (Inr b, s') \<longleftrightarrow> (\<exists>a s1. m s = (Inr a, s1) \<and> k a s1 = (Inr b, s'))"
  by (auto simp: goBind_def split: prod.splits sum.splits)

lemma goRet_iff [simp]: "goRet a s = (Inr b, s') \<longleftrightarrow> b = a \<and> s' = s"
  by (auto simp: goRet_def)

lemma goFail_iff [simp]: "goFail e s \<noteq> (Inr b, s')"
  by (simp add: goFail_def)

lemma goTry_iff: "goTry m s = (Inr r, s') \<longleftrightarrow> m s = (r, s')"
  by (auto simp: goTry_def split: prod.splits)

definition in_world :: "('w \<Rightarrow> 'a \<times> 'w) \<Rightarrow> ('w sys, 'e, 'a) prog" where
  "in_world f s = (case f (sy_world s) of (a, w) \<Rightarrow> (Inr a, s\<lparr>sy_world := w\<rparr>))"

definition from_sum :: "('e \<Rightarrow> 'f) \<Rightarrow> 'e + 'a \<Rightarrow> ('s, 'f, 'a) prog" where
  "from_sum f r = (case r of Inl e \<Rightarrow> goFail (f e) | Inr a \<Rightarrow> goRet a)"

definition external :: "('e \<Rightarrow> run_error) \<Rightarrow> ('w \<Rightarrow> ('e + 'a) \<times> 'w) \<Rightarrow> ('w sys, run_error, 'a) prog" where
  "external f m = goBind (in_world m) (from_sum f)"

definition sum_of_option :: "'e option \<Rightarrow> 'e + unit" where
  "sum_of_option e = (case e of None \<Rightarrow> Inr () | Some x \<Rightarrow> Inl x)"

section \<open>The stores\<close>

definition on_ledger ::
  "('m, 'p, 'w) TaskRunner \<Rightarrow> (bool \<Rightarrow> int \<Rightarrow> ledger_db \<Rightarrow> (ledger_error + 'a) \<times> ledger_db) \<Rightarrow> ('w sys, run_error, 'a) prog" where
  "on_ledger r f s =
     (case ru_tx r (sy_world s) of ((ok, now), w) \<Rightarrow>
      case f ok now (sl_ledger (sy_store s)) of (res, l) \<Rightarrow>
        from_sum ELedger res (s\<lparr>sy_world := w, sy_store := (sy_store s)\<lparr>sl_ledger := l\<rparr>\<rparr>))"

definition on_tasks ::
  "('m, 'p, 'w) TaskRunner \<Rightarrow> (bool \<Rightarrow> int \<Rightarrow> task_db \<Rightarrow> (task_error + 'a) \<times> task_db) \<Rightarrow> ('w sys, run_error, 'a) prog" where
  "on_tasks r f s =
     (case ru_tx r (sy_world s) of ((ok, now), w) \<Rightarrow>
      case f ok (unixMilli now) (sl_tasks (sy_store s)) of (res, d) \<Rightarrow>
        from_sum ETask res (s\<lparr>sy_world := w, sy_store := (sy_store s)\<lparr>sl_tasks := d\<rparr>\<rparr>))"

definition do_Begin :: "('m, 'p, 'w) TaskRunner \<Rightarrow> string \<Rightarrow> OpKind \<Rightarrow> jbody \<Rightarrow> string \<Rightarrow> ('w sys, run_error, Handle) prog" where
  "do_Begin r task kind body cand = on_ledger r (\<lambda>ok now. Begin ok (unixMilli now) task kind (Some (ru_json r body)) cand)"

definition do_Complete :: "('m, 'p, 'w) TaskRunner \<Rightarrow> jbody \<Rightarrow> string \<Rightarrow> string \<Rightarrow> Handle \<Rightarrow> ('w sys, run_error, unit) prog" where
  "do_Complete r body cand evid h =
     on_ledger r (\<lambda>ok now l. case Complete ok (unixMilli now) (Some (ru_json r body)) cand evid h l of (e, _, l') \<Rightarrow> (sum_of_option e, l'))"

definition do_Interrupted :: "('m, 'p, 'w) TaskRunner \<Rightarrow> string \<Rightarrow> Handle \<Rightarrow> ('w sys, run_error, unit) prog" where
  "do_Interrupted r cause h =
     on_ledger r (\<lambda>ok now l. case Interrupted ok (unixMilli now) (Some cause) h l of (e, _, l') \<Rightarrow> (sum_of_option e, l'))"

definition do_Save :: "('m, 'p, 'w) TaskRunner \<Rightarrow> string \<Rightarrow> 'm WState \<Rightarrow> ('w sys, run_error, unit) prog" where
  "do_Save r i st s =
     (case ru_tx r (sy_world s) of ((ok, now), w) \<Rightarrow>
      case SaveWorkflow (ru_codec r) ok (unixMilli now) i st (sy_store s) of (e, d) \<Rightarrow>
        from_sum EWorkflow (sum_of_option e) (s\<lparr>sy_world := w, sy_store := d\<rparr>))"

definition do_Ask ::
  "('m, 'p, 'w) TaskRunner \<Rightarrow> Broker \<Rightarrow> string \<Rightarrow> GateKind \<Rightarrow> string \<Rightarrow> GateEvidence \<Rightarrow> string \<Rightarrow> ('w sys, run_error, Gate) prog" where
  "do_Ask r b task kind q ev cand s =
     (case ru_tx r (sy_world s) of ((okb, now), w1) \<Rightarrow> case ru_tx r w1 of ((oks, _), w2) \<Rightarrow> case ru_tx r w2 of ((okf, _), w3) \<Rightarrow>
      case ru_random r w3 of (fresh, w4) \<Rightarrow>
      case Ask b okb oks okf now (case fresh of None \<Rightarrow> [] | Some x \<Rightarrow> x) task kind q ev cand
             \<lparr>gd_gates = sy_gates s, gd_ledger = sl_ledger (sy_store s)\<rparr> of (res, db) \<Rightarrow>
        from_sum EBroker res (s\<lparr>sy_world := w4, sy_store := (sy_store s)\<lparr>sl_ledger := gd_ledger db\<rparr>, sy_gates := gd_gates db\<rparr>))"

definition wt_Candidate :: "('m, 'p, 'w) TaskRunner \<Rightarrow> Worktree \<Rightarrow> ('w sys, run_error, string) prog" where
  "wt_Candidate r wt s = from_sum ELedger (ContentManifest (ru_sha r) (ru_tree r (wt_Path wt) (sy_world s))) s"

section \<open>Verification with evidence\<close>

definition frozen_recipes :: "('m, 'p, 'w) TaskRunner \<Rightarrow> Task \<Rightarrow> Worktree \<Rightarrow> 'w sys \<Rightarrow> run_error + Recipe list" where
  "frozen_recipes r t wt s =
     (case LoadWorkflow (ru_codec r) (sy_store s) (task_ID t) of
        Inl e \<Rightarrow> Inl (EWorkflow e)
      | Inr None \<Rightarrow> Inl (ERefused ''workflow verification has no frozen presets'')
      | Inr (Some st) \<Rightarrow>
          if w_Presets st = [] then Inl (ERefused ''workflow verification has no frozen presets'')
          else (case first_error (preset_Validate (ru_fs r (sy_world s)) (wt_Path wt)) (w_Presets st) of
                  Some e \<Rightarrow> Inl (EPreset e)
                | None \<Rightarrow>
                    Inr (map (preset_Recipe (ru_probes r (sy_world s)))
                           (filter (\<lambda>p. pre_Kind p = KindGenerate) (w_Presets st) @ filter (\<lambda>p. pre_Kind p \<noteq> KindGenerate) (w_Presets st)))))"

definition with_declared :: "('m, 'p, 'w) TaskRunner \<Rightarrow> Task \<Rightarrow> Worktree \<Rightarrow> 'w \<Rightarrow> Recipe list \<Rightarrow> SandboxSpec \<Rightarrow> Recipe list \<times> SandboxSpec" where
  "with_declared r t wt w recipes spec =
     (if \<not> IncludesDeclared (task_Verification t) then (recipes, spec)
      else let declared = ru_declared r (task_Verification t) (wt_Path wt) (ru_self r) w in
        if declared = [] then (recipes, spec)
        else (filter (\<lambda>d. rec_Kind d = KindGenerate) declared @ recipes @ filter (\<lambda>d. rec_Kind d \<noteq> KindGenerate) declared,
              case ru_ports r (wt_Path wt) w of
                None \<Rightarrow> spec
              | Some ports \<Rightarrow> spec\<lparr>sp_TCPBind := dedupePorts (sp_TCPBind spec @ ports), sp_TCPConnect := dedupePorts (sp_TCPConnect spec @ ports)\<rparr>))"

definition recipe_runner :: "('m, 'p, 'w) TaskRunner \<Rightarrow> SandboxSpec \<Rightarrow> 'w Runner" where
  "recipe_runner r spec =
     \<lparr>rn_Sandbox = map_option (\<lambda>sb. sb spec) (ru_Sandbox r), rn_Spec = \<lparr>spec_Dir = sp_Dir spec, spec_Env = sp_Env spec\<rparr>,
      rn_Store = ru_Artifacts r, rn_MaxOutputBytes = 0, rn_showDuration = ru_showDuration r,
      rn_cancelled = (\<lambda>w. ru_ctxErr r w \<noteq> None)\<rparr>"

definition evidence_id :: "Task \<Rightarrow> Result \<Rightarrow> nat \<Rightarrow> string" where
  "evidence_id t res i = task_ID t @ ''-'' @ kind_name (res_Kind res) @ ''-'' @ showNat i"

definition evidence_row :: "('m, 'p, 'w) TaskRunner \<Rightarrow> Task \<Rightarrow> nat \<Rightarrow> Result \<Rightarrow> int \<Rightarrow> Evidence_row" where
  "evidence_row r t i res now =
     \<lparr>ev_ID = evidence_id t res i, ev_TaskID = task_ID t, ev_Kind = kind_name (res_Kind res),
      ev_Status = status_name (res_Status res), ev_Candidate = res_Candidate res, ev_ArtifactHash = res_ArtifactHash res,
      ev_Summary = Headline (res_Summary res), ev_Detail = ru_summaryJSON r (res_Summary res), ev_CreatedAt = unixMilli now\<rparr>"

fun record_evidence :: "('m, 'p, 'w) TaskRunner \<Rightarrow> Task \<Rightarrow> nat \<Rightarrow> Result list \<Rightarrow> ('w sys, run_error, unit) prog" where
  "record_evidence r t i [] = goRet ()"
| "record_evidence r t i (res # rest) =
     goBind (on_ledger r (\<lambda>ok now l. case RecordEvidence ok (evidence_row r t i res now) l of (e, l') \<Rightarrow> (sum_of_option e, l')))
       (\<lambda>_. record_evidence r t (Suc i) rest)"

definition verify_with :: "('m, 'p, 'w) TaskRunner \<Rightarrow> Task \<Rightarrow> Worktree \<Rightarrow> string \<Rightarrow> Recipe list \<times> SandboxSpec \<Rightarrow> ('w sys, run_error, Result list) prog" where
  "verify_with r t wt candidate rs =
     (case rs of (recipes, spec) \<Rightarrow>
      if recipes = [] then goRet []
      else goBind (do_Begin r (task_ID t) KindRecipeRun (JVerification (level_name (task_Verification t)) (recipe_names recipes)) candidate) (\<lambda>h.
           goBind (in_world (RunAll (recipe_runner r spec) recipes (wt_Path wt) candidate)) (\<lambda>results.
           goBind (record_evidence r t 0 results) (\<lambda>_.
           goBind (do_Complete r (JResults (summaries results)) candidate [] h) (\<lambda>_. goRet results)))))"

definition verify_task :: "('m, 'p, 'w) TaskRunner \<Rightarrow> Task \<Rightarrow> Worktree \<Rightarrow> string \<Rightarrow> ('w sys, run_error, Result list) prog" where
  "verify_task r t wt candidate =
     (let spec = specFor (ru_dirs r) (ru_SandboxSpec r) (ru_self r) (wt_Path wt) in
      goBind (in_world (\<lambda>w. ((), ru_ensureDirs r (sp_ReadWrite spec) w))) (\<lambda>_.
      goBind (\<lambda>s. from_sum id (if ru_phased r \<and> ru_edits r then frozen_recipes r t wt s
                               else Inr (GoRecipes (ru_probes r (sy_world s)) (task_Verification t))) s) (\<lambda>recipes s.
      verify_with r t wt candidate (with_declared r t wt (sy_world s) recipes spec) s)))"

section \<open>The gate and the recorded end\<close>

text \<open>A gate that was never asked; its kind is the zero value in the source and is read nowhere.\<close>

definition automatic :: "string \<Rightarrow> Gate" where
  "automatic note' = (no_gate [] KindApply)\<lparr>gate_Note := note'\<rparr>"

definition concern_line :: "Concern \<Rightarrow> string" where
  "concern_line c = ''['' @ cn_Severity c @ ''] '' @ (if cn_Path c = [] then ''the change'' else cn_Path c) @ '': '' @ cn_Detail c"

definition apply_evidence :: "Task \<Rightarrow> Outcome \<Rightarrow> GateEvidence" where
  "apply_evidence t out =
     \<lparr>ge_Summary = task_Title t @ '': '' @ showInt (out_Attempts out) @ '' attempt(s), every required check passed'', ge_Impact = None,
      ge_BreakingCount = 0, ge_OutOfScope = [], ge_Diff = out_Diff out, ge_Findings = map result_line (out_Results out), ge_Plan = [],
      ge_PolicyReasons = map (\<lambda>v. Violation_Path v @ '' ('' @ Violation_Policy v @ ''): '' @ Violation_Reason v) (out_PolicyViolations out),
      ge_ReviewConcerns = (case out_Review out of None \<Rightarrow> [] | Some cs \<Rightarrow> map concern_line cs)\<rparr>"

definition gate :: "('m, 'p, 'w) TaskRunner \<Rightarrow> Task \<Rightarrow> Outcome \<Rightarrow> ('w sys, run_error, Gate) prog" where
  "gate r t out =
     (case ru_Broker r of
        None \<Rightarrow> goRet (automatic ''no broker configured'')
      | Some b \<Rightarrow>
          if isBlank (out_Diff out) then goRet (automatic ''the task changed nothing; there is nothing to apply'')
          else do_Ask r b (task_ID t) KindApply ''This task met the completion contract. Apply its change?'' (apply_evidence t out) (out_Candidate out))"

text \<open>Go returns the outcome beside an error here: the pair of both is the result.\<close>

definition finish :: "('m, 'p, 'w) TaskRunner \<Rightarrow> Task \<Rightarrow> Outcome \<Rightarrow> State \<Rightarrow> ('w sys, run_error, Outcome \<times> run_error option) prog" where
  "finish r t out st =
     goBind (goTry (on_ledger r (\<lambda>ok now l.
         case Checkpoint ok (task_ID t) (state_name st) (Some (ru_json r (JHandoff (task_Title t) (nextAfter st) (out_Accepted out) (out_Reasons out))))
                (out_Candidate out) l of (e, l') \<Rightarrow> (sum_of_option e, l')))) (\<lambda>c.
     case c of
       Inl e \<Rightarrow> goRet (out, Some e)
     | Inr _ \<Rightarrow>
         goBind (goTry (on_tasks r (\<lambda>ok now d. SetState ok now (task_ID t) st d))) (\<lambda>u.
         case u of
           Inl e \<Rightarrow> goRet (out, Some e)
         | Inr _ \<Rightarrow> goRet (out\<lparr>out_Task := (out_Task out)\<lparr>task_State := st\<rparr>\<rparr>, None)))"

section \<open>One engine step\<close>

primrec run_engine ::
  "('m Transcript \<Rightarrow> 'x \<Rightarrow> 'w sys \<Rightarrow> bool \<times> 'm Transcript \<times> 'x \<times> 'w sys) \<Rightarrow> ('m, 'w) engine_run \<Rightarrow> 'x \<Rightarrow> 'w sys
   \<Rightarrow> (string + Response) \<times> 'm Transcript \<times> 'x \<times> 'w sys" where
  "run_engine save (EngineDone res tr w) x s = (res, tr, x, s\<lparr>sy_world := w\<rparr>)"
| "run_engine save (EngineSave tr w k) x s =
     (case save tr x (s\<lparr>sy_world := w\<rparr>) of (ok, tr', x', s') \<Rightarrow> run_engine save (k ok tr' (sy_world s')) x' s')"
| "run_engine save (EngineJournal f k) x s =
     run_engine save (k (sl_ledger (sy_store s))) x (s\<lparr>sy_store := (sy_store s)\<lparr>sl_ledger := f (sl_ledger (sy_store s))\<rparr>\<rparr>)"

definition freshen :: "('m, 'p, 'w) TaskRunner \<Rightarrow> string \<Rightarrow> 'w \<Rightarrow> unit \<times> 'w" where
  "freshen r root' w =
     (case ru_Dirty r of
        None \<Rightarrow> ((), w)
      | Some dirty \<Rightarrow>
          if root' = [] then ((), w)
          else (case dirty w of
                  (Inl _, w1) \<Rightarrow> ((), w1)
                | (Inr n, w1) \<Rightarrow> if n = 0 then ((), w1) else ((), snd (ru_Refresh r root' w1))))"

definition engine_step :: "('m, 'p, 'w) TaskRunner \<Rightarrow> 'p EngineRequest \<Rightarrow> ('w sys, run_error, string + Response) prog" where
  "engine_step r req s =
     (case run_engine (\<lambda>tr x s. (True, tr, x, s)) (ru_Engine r req no_transcript (sy_world s)) () s of (res, _, _, s') \<Rightarrow> (Inr res, s'))"

definition step_request :: "('m, 'p, 'w) TaskRunner \<Rightarrow> Task \<Rightarrow> Worktree \<Rightarrow> int \<Rightarrow> Result list \<Rightarrow> int \<Rightarrow> 'p Packet \<Rightarrow> 'p EngineRequest" where
  "step_request r t wt attempt feedback remaining pkt =
     \<lparr>rq_Presets = [], rq_TaskID = task_ID t, rq_Objective = task_Title t, rq_Worktree = wt_Path wt, rq_Packet = pkt, rq_Feedback = feedback,
      rq_Attempt = attempt, rq_Access = \<lparr>WriteScope = Scope (task_Budget t), AccessProtected = ru_Policies r\<rparr>, rq_Phase = None, rq_Plan = None,
      rq_MaxTokens = remaining, rq_ContextTokens = 0, rq_OutputTokens = 0, rq_ReasoningTokens = 0\<rparr>"

text \<open>The packet is returned beside the response: the runner keeps it as \<^verbatim>\<open>lastPacket\<close>.\<close>

definition step_task_engine ::
  "('m, 'p, 'w) TaskRunner \<Rightarrow> Task \<Rightarrow> Worktree \<Rightarrow> int \<Rightarrow> string \<Rightarrow> Result list \<Rightarrow> int \<Rightarrow> ('w sys, run_error, Response \<times> 'p Packet) prog" where
  "step_task_engine r t wt attempt before feedback remaining =
     goBind (in_world (freshen r (ru_repoRoot r))) (\<lambda>_.
     goBind (external EExternal (ru_Build r (no_request\<lparr>rt_Query := task_Title t, rt_ExpandDepth := 1\<rparr>))) (\<lambda>pkt.
     if pkt_Rejected pkt \<noteq> [] then goFail (ERefused ''retrieval returned slices from another workspace'')
     else goBind (do_Begin r (task_ID t) KindRecipeRun (JEngineStep (ru_engineName r) attempt (task_Title t) (wt_ID wt) (pkt_Tokens pkt)) before) (\<lambda>h.
          goBind (engine_step r (step_request r t wt attempt feedback remaining pkt)) (\<lambda>resp.
          case resp of
            Inl cause \<Rightarrow> goBind (do_Interrupted r cause h) (\<lambda>_. goFail (EExternal cause))
          | Inr res \<Rightarrow>
              goBind (wt_Candidate r wt) (\<lambda>after.
              goBind (in_world (wt_ChangedFiles (ru_git r) wt)) (\<lambda>changed.
              goBind (do_Complete r (JStepDone (rs_Summary res) (rs_ClaimsDone res) (case changed of Inr c \<Rightarrow> c | Inl _ \<Rightarrow> [])
                        (rs_TokensUsed res) (rs_Truncated res) (rs_BudgetExhausted res)) after [] h) (\<lambda>_. goRet (res, pkt))))))))"

section \<open>What the sandbox is granted\<close>

text \<open>
  The writable set of a task's sandbox is exactly its checkout, the configured paths, the device
  files, and the caches and temporary directory of the environment its checks run with: a cache named
  in the environment is always one the sandbox granted, and nothing else is.
\<close>

theorem sandbox_writable_exact:
  "set (sp_ReadWrite (specFor dirs base self wtPath)) =
     ({wtPath, envValue (sp_Env (specFor dirs base self wtPath)) ''GOCACHE'', envValue (sp_Env (specFor dirs base self wtPath)) ''GOMODCACHE'',
       sp_TmpDir (specFor dirs base self wtPath)} \<union> set (sp_ReadWrite base)) - {[]} \<union> set DeviceFiles \<and>
   sp_Dir (specFor dirs base self wtPath) = wtPath"
proof (intro conjI)
  have set_dedupe: "set (dedupe xs) = set xs - {[]}" for xs by (auto simp: dedupe_def set_nub_from)
  show "set (sp_ReadWrite (specFor dirs base self wtPath)) =
     ({wtPath, envValue (sp_Env (specFor dirs base self wtPath)) ''GOCACHE'', envValue (sp_Env (specFor dirs base self wtPath)) ''GOMODCACHE'',
       sp_TmpDir (specFor dirs base self wtPath)} \<union> set (sp_ReadWrite base)) - {[]} \<union> set DeviceFiles"
    by (auto simp: specFor_def Let_def GoSandboxPaths_def set_dedupe)
  show "sp_Dir (specFor dirs base self wtPath) = wtPath" by (simp add: specFor_def Let_def GoSandboxPaths_def)
qed

section \<open>Verification leaves its evidence\<close>

lemma showNat_digits: "c \<in> set (showNat n) \<Longrightarrow> isDigit c"
proof (induction n rule: showNat.induct)
  case (1 n)
  have d: "isDigit (digit_char k)" if "k < 10" for k
    using of_char_digit [OF that] that by (simp add: isDigit_def)
  show ?case using 1 d [of n] d [of "n mod 10"] by (subst (asm) (2) showNat.simps) (auto split: if_splits)
qed

lemma evidence_id_inj: "evidence_id t a i = evidence_id t b j \<Longrightarrow> i = j"
proof -
  have tw: "takeWhile isDigit (rev (evidence_id t x n)) = rev (showNat n)" for x n
  proof -
    have nd: "\<not> isDigit CHR ''-''" by (simp add: isDigit_def)
    have "rev (evidence_id t x n) = rev (showNat n) @ CHR ''-'' # rev (task_ID t @ ''-'' @ kind_name (res_Kind x))"
      by (simp add: evidence_id_def)
    moreover have "takeWhile isDigit (rev (showNat n) @ CHR ''-'' # ys) = rev (showNat n)" for ys
      using takeWhile_append2 [of "rev (showNat n)" isDigit "CHR ''-'' # ys"] showNat_digits nd by auto
    ultimately show ?thesis by metis
  qed
  assume "evidence_id t a i = evidence_id t b j"
  then have "rev (showNat i) = rev (showNat j)" using tw by metis
  then show "i = j" by (simp add: showNat_inject)
qed

definition evidenced :: "Task \<Rightarrow> nat \<Rightarrow> Result \<Rightarrow> ledger_db \<Rightarrow> bool" where
  "evidenced t i res l = (\<exists>e \<in> set (lg_evidence l). ev_ID e = evidence_id t res i \<and> ev_Status e = status_name (res_Status res) \<and>
     ev_Candidate e = res_Candidate res \<and> ev_Summary e = Headline (res_Summary res))"

lemma on_ledger_Inr:
  "on_ledger r f s = (Inr a, s') \<longleftrightarrow> (\<exists>ok now w l. ru_tx r (sy_world s) = ((ok, now), w) \<and> f ok now (sl_ledger (sy_store s)) = (Inr a, l) \<and>
     s' = s\<lparr>sy_world := w, sy_store := (sy_store s)\<lparr>sl_ledger := l\<rparr>\<rparr>)"
  by (auto simp: on_ledger_def from_sum_def goRet_def goFail_def split: prod.splits sum.splits)

lemma sum_of_option_case: "(case f of (e, l') \<Rightarrow> (sum_of_option e, l')) = (Inr u, l) \<longleftrightarrow> f = (None, l)"
  by (cases f; cases "fst f") (auto simp: sum_of_option_def)

lemma sum_of_option_case3: "(case f of (e, _, l') \<Rightarrow> (sum_of_option e, l')) = (Inr u, l) \<longleftrightarrow> (\<exists>h. f = (None, h, l))"
  by (cases f; cases "fst f") (auto simp: sum_of_option_def)

lemma record_evidence_Cons:
  "record_evidence r t i (x # rest) s = (Inr (), s') \<longleftrightarrow>
   (\<exists>ok now w l. ru_tx r (sy_world s) = ((ok, now), w) \<and> RecordEvidence ok (evidence_row r t i x now) (sl_ledger (sy_store s)) = (None, l) \<and>
      record_evidence r t (Suc i) rest (s\<lparr>sy_world := w, sy_store := (sy_store s)\<lparr>sl_ledger := l\<rparr>\<rparr>) = (Inr (), s'))"
  by (auto simp: goBind_Inr_iff on_ledger_Inr sum_of_option_case)

lemma RecordEvidence_row:
  assumes "RecordEvidence ok e l = (None, l')"
  shows "\<exists>x \<in> set (lg_evidence l'). ev_ID x = ev_ID e \<and> ev_Status x = ev_Status e \<and> ev_Candidate x = ev_Candidate e \<and> ev_Summary x = ev_Summary e"
    and "y \<in> set (lg_evidence l) \<Longrightarrow> ev_ID y \<noteq> ev_ID e \<Longrightarrow> y \<in> set (lg_evidence l')"
proof -
  let ?f = "\<lambda>r. if ev_ID r = ev_ID e then r\<lparr>ev_Status := ev_Status e, ev_Summary := ev_Summary e, ev_Detail := ev_Detail e, ev_Candidate := ev_Candidate e\<rparr> else r"
  have l': "lg_evidence l' = (if \<exists>r \<in> set (lg_evidence l). ev_ID r = ev_ID e then map ?f (lg_evidence l) else lg_evidence l @ [e])"
    using assms by (auto simp: RecordEvidence_def list_ex_iff split: if_splits)
  have f: "ev_ID y = ev_ID e \<Longrightarrow> ev_ID (?f y) = ev_ID e \<and> ev_Status (?f y) = ev_Status e \<and> ev_Candidate (?f y) = ev_Candidate e \<and>
      ev_Summary (?f y) = ev_Summary e" for y by simp
  show "\<exists>x \<in> set (lg_evidence l'). ev_ID x = ev_ID e \<and> ev_Status x = ev_Status e \<and> ev_Candidate x = ev_Candidate e \<and> ev_Summary x = ev_Summary e"
  proof (cases "\<exists>r \<in> set (lg_evidence l). ev_ID r = ev_ID e")
    case True
    then obtain y where y: "y \<in> set (lg_evidence l)" "ev_ID y = ev_ID e" by blast
    have "?f y \<in> set (lg_evidence l')" using y(1) True unfolding l' by (simp only: if_True set_map) (rule imageI)
    then show ?thesis using f [OF y(2)] by blast
  qed (simp add: l')
  show "y \<in> set (lg_evidence l) \<Longrightarrow> ev_ID y \<noteq> ev_ID e \<Longrightarrow> y \<in> set (lg_evidence l')" by (auto simp: l')
qed

lemma record_evidence_keeps:
  assumes "record_evidence r t n results s = (Inr (), s')" and "i < n" and "evidenced t i res (sl_ledger (sy_store s))"
  shows "evidenced t i res (sl_ledger (sy_store s'))"
  using assms
proof (induction results arbitrary: n s)
  case (Cons x rest)
  from Cons.prems(1) obtain ok now w l where s1: "RecordEvidence ok (evidence_row r t n x now) (sl_ledger (sy_store s)) = (None, l)"
      "record_evidence r t (Suc n) rest (s\<lparr>sy_world := w, sy_store := (sy_store s)\<lparr>sl_ledger := l\<rparr>\<rparr>) = (Inr (), s')"
    unfolding record_evidence_Cons by (elim exE conjE)
  have "evidence_id t res i \<noteq> ev_ID (evidence_row r t n x now)"
    using evidence_id_inj [of t res i x n] Cons.prems(2) by (auto simp: evidence_row_def)
  then have "evidenced t i res l" using Cons.prems(3) RecordEvidence_row(2) [OF s1(1)] unfolding evidenced_def by metis
  then show ?case using Cons.IH [OF s1(2)] Cons.prems(2) by simp
qed simp

lemma record_evidence_all:
  assumes "record_evidence r t n results s = (Inr (), s')" and "i < length results"
  shows "evidenced t (n + i) (results ! i) (sl_ledger (sy_store s'))"
  using assms
proof (induction results arbitrary: n s i)
  case (Cons x rest)
  from Cons.prems(1) obtain ok now w l where s1: "RecordEvidence ok (evidence_row r t n x now) (sl_ledger (sy_store s)) = (None, l)"
      "record_evidence r t (Suc n) rest (s\<lparr>sy_world := w, sy_store := (sy_store s)\<lparr>sl_ledger := l\<rparr>\<rparr>) = (Inr (), s')"
    unfolding record_evidence_Cons by (elim exE conjE)
  have "evidenced t n x l" using RecordEvidence_row(1) [OF s1(1)] by (simp add: evidenced_def evidence_row_def)
  then show ?case using record_evidence_keeps [OF s1(2), of n] Cons.IH [OF s1(2), of "i - 1"] Cons.prems(2) by (cases i) auto
qed simp

lemma h_finish_evidence: "h_finish ok now out c ev h l = (e, h', l') \<Longrightarrow> lg_evidence l' = lg_evidence l"
  by (auto simp: h_finish_def update_op_def split: option.splits if_splits)

lemma do_Complete_evidence:
  assumes "do_Complete r body c ev h s = (Inr (), s')"
  shows "lg_evidence (sl_ledger (sy_store s')) = lg_evidence (sl_ledger (sy_store s))"
proof -
  from assms obtain ok now w h' l where
    "Complete ok (unixMilli now) (Some (ru_json r body)) c ev h (sl_ledger (sy_store s)) = (None, h', l)"
    "s' = s\<lparr>sy_world := w, sy_store := (sy_store s)\<lparr>sl_ledger := l\<rparr>\<rparr>"
    unfolding do_Complete_def on_ledger_Inr sum_of_option_case3 by (elim exE conjE)
  then show ?thesis using h_finish_evidence by (auto simp: Complete_def)
qed

lemma verify_with_ran:
  assumes "verify_with r t wt candidate (recipes, spec) s = (Inr results, s')" and "recipes \<noteq> []"
  shows "\<exists>h ws s1 s2 w. RunAll (recipe_runner r spec) recipes (wt_Path wt) candidate ws = (results, w) \<and>
      record_evidence r t 0 results s1 = (Inr (), s2) \<and> do_Complete r (JResults (summaries results)) candidate [] h s2 = (Inr (), s')"
proof -
  have w: "in_world f s0 = (Inr a, s1) \<longleftrightarrow> (\<exists>w. f (sy_world s0) = (a, w) \<and> s1 = s0\<lparr>sy_world := w\<rparr>)" for f :: "'w \<Rightarrow> Result list \<times> 'w" and s0 a s1
    by (auto simp: in_world_def split: prod.splits)
  from assms(1) obtain h s1 w s2 u v where
    "RunAll (recipe_runner r spec) recipes (wt_Path wt) candidate (sy_world s1) = (results, w)"
    "record_evidence r t 0 results (s1\<lparr>sy_world := w\<rparr>) = (Inr u, s2)" "do_Complete r (JResults (summaries results)) candidate [] h s2 = (Inr v, s')"
    unfolding verify_with_def prod.case if_not_P [OF assms(2)] goBind_Inr_iff w goRet_iff by (elim exE conjE) hypsubst
  then have "record_evidence r t 0 results (s1\<lparr>sy_world := w\<rparr>) = (Inr (), s2)"
    "do_Complete r (JResults (summaries results)) candidate [] h s2 = (Inr (), s')" by simp_all
  then show ?thesis using \<open>RunAll _ _ _ _ _ = _\<close> by (intro exI conjI) assumption+
qed

lemma verify_with_results:
  assumes "verify_with r t wt candidate (recipes, spec) s = (Inr results, s')"
  shows "\<forall>res \<in> set results. res_Candidate res = candidate"
    and "\<forall>i < length results. evidenced t i (results ! i) (sl_ledger (sy_store s'))"
proof -
  have "(\<forall>res \<in> set results. res_Candidate res = candidate) \<and> (\<forall>i < length results. evidenced t i (results ! i) (sl_ledger (sy_store s')))"
  proof (cases "recipes = []")
    case True
    then show ?thesis using assms by (simp add: verify_with_def)
  next
    case False
    from verify_with_ran [OF assms False] obtain h ws s1 s2 w where
      run: "RunAll (recipe_runner r spec) recipes (wt_Path wt) candidate ws = (results, w)" and
      rec: "record_evidence r t 0 results s1 = (Inr (), s2)" and
      fin: "do_Complete r (JResults (summaries results)) candidate [] h s2 = (Inr (), s')"
      by (elim exE conjE)
    show ?thesis
      using RunAll_candidate [of _ "recipe_runner r spec" recipes "wt_Path wt" candidate ws] run
        record_evidence_all [OF rec] unfolding evidenced_def do_Complete_evidence [OF fin] by simp
  qed
  then show "\<forall>res \<in> set results. res_Candidate res = candidate"
    and "\<forall>i < length results. evidenced t i (results ! i) (sl_ledger (sy_store s'))" by blast+
qed

text \<open>
  A verification that returns has left its evidence.  Every result is about the candidate the
  caller named, and for every result the ledger holds a row with that result's status, candidate and
  headline under an identifier of its own.
\<close>

theorem verify_leaves_evidence:
  assumes "verify_task r t wt candidate s = (Inr results, s')"
  shows "(\<forall>res \<in> set results. res_Candidate res = candidate) \<and> (\<forall>i < length results. evidenced t i (results ! i) (sl_ledger (sy_store s')))"
proof -
  from assms obtain rs s0 where "verify_with r t wt candidate rs s0 = (Inr results, s')"
    unfolding verify_task_def Let_def goBind_Inr_iff by (elim exE conjE)
  then show ?thesis using verify_with_results [of r t wt candidate "fst rs" "snd rs" s0 results s'] by simp
qed

text \<open>A runner over a world with nothing in it: every transaction goes through and every command passes.\<close>

definition demo_codec :: "unit wf_codec" where
  "demo_codec = \<lparr>wc_state = (\<lambda>_. Some ''s''), wc_unstate = (\<lambda>_. None), wc_intent = (\<lambda>_ _. ''i''), wc_outcome = (\<lambda>_. ''o'')\<rparr>"

definition demo_probes :: probes where
  "demo_probes = \<lparr>pr_isFile = (\<lambda>_. False), pr_exists = (\<lambda>_. True), pr_readDir = (\<lambda>_. None), pr_lookPath = (\<lambda>_. False), pr_golangci = (\<lambda>_. None),
     pr_semgrep = (\<lambda>_. None), pr_testEvent = (\<lambda>_. None), pr_lower = (\<lambda>s. s)\<rparr>"

definition demo_spec :: SandboxSpec where
  "demo_spec = \<lparr>sp_Network = [], sp_ReadOnly = [], sp_ReadWrite = [], sp_TCPConnect = [], sp_TCPBind = [], sp_AllowEphemeralTCP = False,
     sp_TCPDeny = [], sp_Env = [], sp_Dir = [], sp_TmpDir = []\<rparr>"

definition demo_runner :: "(unit, unit, unit) TaskRunner" where
  "demo_runner = \<lparr>ru_tx = (\<lambda>w. ((True, 0), w)), ru_ctxErr = (\<lambda>_. None), ru_random = (\<lambda>w. (None, w)), ru_git = (\<lambda>_ _ w. (Some [], w)),
     ru_fs = (\<lambda>_. \<lparr>evalSymlinks = (\<lambda>p. Inr p), isSymlink = (\<lambda>_. False)\<rparr>), ru_tree = (\<lambda>_ _. Some []), ru_sha = (\<lambda>s. s), ru_codec = demo_codec,
     ru_json = (\<lambda>_. ''j''), ru_summaryJSON = (\<lambda>_. ''d''), ru_Broker = None,
     ru_Sandbox = Some (\<lambda>_ _ _ _ w. (Inr \<lparr>rr_stdout = [], rr_stderr = [], rr_end = ExitOk, rr_timedOut = False, rr_elapsed = 0\<rparr>, w)),
     ru_SandboxSpec = demo_spec, ru_dirs = \<lparr>td_Tmp = ''/t'', td_GoBuildCache = ''/b'', td_GoModCache = ''/m''\<rparr>, ru_self = ''/le'',
     ru_ensureDirs = (\<lambda>_ w. w), ru_Artifacts = None, ru_showDuration = showInt, ru_probes = (\<lambda>_. demo_probes), ru_declared = (\<lambda>_ _ _ _. []),
     ru_ports = (\<lambda>_ _. None), ru_phased = False, ru_edits = False, ru_engineName = ''verify-only'',
     ru_Engine = (\<lambda>_ tr w. EngineDone (Inr \<lparr>rs_Summary = [], rs_ClaimsDone = True, rs_TokensUsed = 0, rs_Edited = False, rs_Truncated = False,
        rs_BudgetExhausted = False\<rparr>) tr w),
     ru_Build = (\<lambda>_ w. (Inr \<lparr>pkt_SlicePaths = [], pkt_Rejected = [], pkt_Tokens = 0, pkt_Impact = None, pkt_Content = ()\<rparr>, w)),
     ru_Dirty = None, ru_Refresh = (\<lambda>_ w. (None, w)), ru_repoRoot = ''/repo'', ru_Policies = \<lparr>Policies = []\<rparr>, ru_Holder = ''h''\<rparr>"

definition demo_task :: Task where
  "demo_task = \<lparr>task_ID = ''t'', task_WorkspaceID = [], task_RequirementID = [], task_ParentID = [], task_Title = ''do'', task_Kind = ''change'',
     task_WorktreeID = [], task_State = StatePending, task_Verification = Low, task_Budget = DefaultBudget, task_CreatedAt = 0, task_UpdatedAt = 0,
     task_FinishedAt = None\<rparr>"

definition demo_wt :: Worktree where
  "demo_wt = \<lparr>wt_ID = ''wt-t'', wt_Path = ''/wt'', wt_Branch = ''le/task/t'', wt_Base = ''base'', wt_Repo = ''/repo''\<rparr>"

definition demo_sys :: "unit sys" where
  "demo_sys = \<lparr>sy_world = (), sy_store = \<lparr>sl_tasks = \<lparr>db_ws = [], db_tasks = [demo_task], db_reqs = [], db_deps = []\<rparr>, sl_workflow = [],
     sl_ledger = \<lparr>lg_ops = [], lg_checkpoints = [], lg_evidence = [], lg_leases = []\<rparr>\<rparr>, sy_gates = []\<rparr>"

lemma demo_verify:
  "\<exists>res s'. verify_task demo_runner demo_task demo_wt ''c'' demo_sys = (Inr [res], s') \<and> res_Status res = Pass"
proof -
  have "map_sum (\<lambda>_. ()) (map res_Status) (fst (verify_task demo_runner demo_task demo_wt ''c'' demo_sys)) = Inr [Pass]" by code_simp
  then show ?thesis by (cases "verify_task demo_runner demo_task demo_wt ''c'' demo_sys"; cases "fst (verify_task demo_runner demo_task demo_wt ''c'' demo_sys)") auto
qed

theorem verify_leaves_evidence_witness:
  "\<exists>res s'. verify_task demo_runner demo_task demo_wt ''c'' demo_sys = (Inr [res], s') \<and> res_Candidate res = ''c'' \<and>
     evidenced demo_task 0 res (sl_ledger (sy_store s'))"
proof -
  obtain res s' where v: "verify_task demo_runner demo_task demo_wt ''c'' demo_sys = (Inr [res], s')" using demo_verify by blast
  from verify_leaves_evidence [OF this] v show ?thesis by auto
qed

end
