(* ===== verification/Critic.thy ===== *)
theory Critic
  imports Phases
begin

text \<open>
  \<^verbatim>\<open>src/internal/critic/critic.go\<close>: the two calls made outside a task's conversation, and
  \<^verbatim>\<open>SyncFrom\<close> with its report from \<^verbatim>\<open>src/internal/worktree/worktree.go\<close>.  The model provider and the JSON
  decoder are fields of the critic; the file system operations of \<^verbatim>\<open>SyncFrom\<close> are those of a record.
\<close>

section \<open>The critic\<close>

datatype critic_error = NoProvider | NoStructuredOutput | CallFailed string | WrongShape

record ReviewResult =
  rv_Concerns :: "Concern list"
  rv_Summary :: string

datatype critic_schema = CriticReview | CriticDiagnosis

record 'w CriticProvider =
  cp_structured :: bool
  cp_chat :: "pack_message list \<Rightarrow> int \<Rightarrow> critic_schema \<Rightarrow> 'w \<Rightarrow> (string + string) \<times> 'w"

record 'w Critic =
  ck_Provider :: "'w CriticProvider option"
  ck_MaxTokens :: int
  ck_unreview :: "string \<Rightarrow> ReviewResult option"
  ck_unhypothesis :: "string \<Rightarrow> Hypothesis option"

definition truncate_text :: "string \<Rightarrow> nat \<Rightarrow> string" where
  "truncate_text s n =
     (if length s \<le> n then s
      else take n s @ [newline, CHR 0xE2, CHR 0x80, CHR 0xA6] @ '' ('' @ showNat (length s - n) @ '' bytes truncated)'')"

definition reviewSystem :: string where
  "reviewSystem =
     joinWith [newline]
       [''You are reviewing a finished change you did not write.'', [],
        ''You are given the objective, the verification results, and the diff. You do not'',
        ''have the history of how the change was made, and you do not need it.'', [],
        ''Report concerns only. You are not deciding whether this is accepted: the'',
        ''verification evidence decides that, and it has already been gathered. A concern'',
        ''is something a careful reviewer would raise that the compiler and the tests'',
        ''cannot see'' @ dash @ ''a case not handled, an assumption not stated, a consumer likely'',
        ''missed.'', [],
        ''If the change looks right, return no concerns. An empty list is a useful answer'',
        ''and padding it is not.'']"

definition review_brief :: "string \<Rightarrow> string \<Rightarrow> Result list \<Rightarrow> string" where
  "review_brief objective diff results =
     ''Objective: '' @ objective @ [newline, newline] @ ''Verification results:'' @ [newline] @
     concat (map (\<lambda>x. ''  '' @ result_line x @ [newline]) results) @
     [newline] @ ''Diff:'' @ [newline] @ truncate_text diff 20000 @ [newline]"

text \<open>One structured call: refused without a provider that has structured output, decoded from trimmed content.\<close>

definition critic_call :: "'w Critic \<Rightarrow> pack_message list \<Rightarrow> critic_schema \<Rightarrow> (string \<Rightarrow> 'a option) \<Rightarrow> 'w \<Rightarrow> (critic_error + 'a) \<times> 'w" where
  "critic_call c messages schema unmarshal w =
     (case ck_Provider c of
        None \<Rightarrow> (Inl NoProvider, w)
      | Some p \<Rightarrow>
          if \<not> cp_structured p then (Inl NoStructuredOutput, w)
          else (case cp_chat p messages (ck_MaxTokens c) schema w of
                  (Inl e, w') \<Rightarrow> (Inl (CallFailed e), w')
                | (Inr content, w') \<Rightarrow>
                    (case unmarshal (trimSpace content) of None \<Rightarrow> (Inl WrongShape, w') | Some a \<Rightarrow> (Inr a, w'))))"

definition critic_Review :: "'w Critic \<Rightarrow> string \<Rightarrow> string \<Rightarrow> Result list \<Rightarrow> 'w \<Rightarrow> (critic_error + ReviewResult) \<times> 'w" where
  "critic_Review c objective diff results =
     critic_call c [(''system'', reviewSystem), (''user'', review_brief objective diff results)] CriticReview (ck_unreview c)"

definition diagnoseSystem :: string where
  "diagnoseSystem =
     joinWith [newline]
       [''You are diagnosing repeated failures on work you did not do.'', [],
        ''You are given the objective and what verification reported, more than once. You'',
        ''do not have the attempts themselves, which is deliberate: the reasoning that'',
        ''produced the failures is what keeps producing them.'', [],
        ''Name the cause you actually believe, and say what to try instead. List what the'',
        ''evidence already rules out, so the next attempt does not spend itself'',
        ''re-testing those.'', [],
        ''If the failures point at the objective being wrong or ambiguous rather than the'',
        ''code, say that. It is a more useful answer than a plausible fix.'']"

definition finding_text :: "Finding \<Rightarrow> string" where
  "finding_text f = ''  '' @ File f @ '':'' @ showInt (Line f) @ '' '' @ Message f @ [newline]"

definition failure_text :: "Result \<Rightarrow> string" where
  "failure_text x =
     [newline] @ res_Recipe x @ '' ('' @ status_name (res_Status x) @ ''): '' @ Headline (res_Summary x) @ [newline] @
     (let fs = Findings (res_Summary x) in
      concat (map finding_text (take 10 fs)) @
      (if length fs > 10 then ''  '' @ [CHR 0xE2, CHR 0x80, CHR 0xA6] @ '' and '' @ showNat (length fs - 10) @ '' more'' @ [newline] else []))"

definition diagnose_brief :: "string \<Rightarrow> Result list \<Rightarrow> string" where
  "diagnose_brief objective failures =
     ''Objective: '' @ objective @ [newline, newline] @ ''The same work has now failed verification more than once.'' @ [newline, newline] @
     ''What failed:'' @ [newline] @ concat (map failure_text failures)"

definition critic_Diagnose :: "'w Critic \<Rightarrow> string \<Rightarrow> Result list \<Rightarrow> 'w \<Rightarrow> (critic_error + Hypothesis) \<times> 'w" where
  "critic_Diagnose c objective failures =
     critic_call c [(''system'', diagnoseSystem), (''user'', diagnose_brief objective failures)] CriticDiagnosis (ck_unhypothesis c)"

section \<open>Copying the operator's uncommitted state\<close>

record SyncReport =
  sr_Applied :: bool
  sr_Untracked :: "string list"

definition sync_Clean :: "SyncReport \<Rightarrow> bool" where
  "sync_Clean s = (\<not> sr_Applied s \<and> sr_Untracked s = [])"

definition sync_Describe :: "SyncReport \<Rightarrow> string" where
  "sync_Describe s =
     (if sync_Clean s then ''the working tree was clean; this verifies the committed state''
      else if sr_Applied s \<and> sr_Untracked s \<noteq> [] then
        ''verifying your uncommitted changes, including '' @ showNat (length (sr_Untracked s)) @ '' untracked file(s)''
      else if sr_Applied s then ''verifying your uncommitted changes''
      else ''verifying with '' @ showNat (length (sr_Untracked s)) @ '' untracked file(s) included'')"

text \<open>\<^verbatim>\<open>git\<close> without trimming, \<^verbatim>\<open>git apply\<close>, and the file system; \<open>sf_stat\<close> answers whether a path is a directory, and its permissions.\<close>

record 'w SyncOps =
  sf_gitRaw :: "'w git"
  sf_gitApply :: "string \<Rightarrow> string \<Rightarrow> 'w \<Rightarrow> bool \<times> 'w"
  sf_stat :: "string \<Rightarrow> 'w \<Rightarrow> (bool \<times> nat) option"
  sf_readFile :: "string \<Rightarrow> 'w \<Rightarrow> fs_error + string"
  sf_mkdirs :: "string \<Rightarrow> 'w \<Rightarrow> fs_error option \<times> 'w"
  sf_writeFile :: "string \<Rightarrow> string \<Rightarrow> nat \<Rightarrow> 'w \<Rightarrow> fs_error option \<times> 'w"

fun copy_untracked :: "'w SyncOps \<Rightarrow> string \<Rightarrow> string \<Rightarrow> string list \<Rightarrow> SyncReport \<Rightarrow> 'w \<Rightarrow> (wt_error + SyncReport) \<times> 'w" where
  "copy_untracked ops srcRepo wtPath [] rep w = (Inr rep, w)"
| "copy_untracked ops srcRepo wtPath (rel # rels) rep w =
     (if rel = [] then copy_untracked ops srcRepo wtPath rels rep w
      else case sf_stat ops (joinPath srcRepo rel) w of
             None \<Rightarrow> copy_untracked ops srcRepo wtPath rels rep w
           | Some (isDir, perm) \<Rightarrow>
               if isDir then copy_untracked ops srcRepo wtPath rels rep w
               else (case sf_readFile ops (joinPath srcRepo rel) w of
                       Inl e \<Rightarrow> (Inl (FsErr e), w)
                     | Inr body \<Rightarrow>
                         (case sf_mkdirs ops (dirPath (joinPath wtPath rel)) w of
                            (Some e, w1) \<Rightarrow> (Inl (FsErr e), w1)
                          | (None, w1) \<Rightarrow>
                              (case sf_writeFile ops (joinPath wtPath rel) body perm w1 of
                                 (Some e, w2) \<Rightarrow> (Inl (FsErr e), w2)
                               | (None, w2) \<Rightarrow>
                                   copy_untracked ops srcRepo wtPath rels (rep\<lparr>sr_Untracked := sr_Untracked rep @ [rel]\<rparr>) w2))))"

definition SyncFrom :: "'w git \<Rightarrow> 'w SyncOps \<Rightarrow> Worktree \<Rightarrow> string \<Rightarrow> 'w \<Rightarrow> (wt_error + SyncReport) \<times> 'w" where
  "SyncFrom git ops wt srcRepo w =
     (case sf_gitRaw ops srcRepo [''diff'', ''HEAD'', ''--binary''] w of
        (None, w1) \<Rightarrow> (Inl GitFailed, w1)
      | (Some diff, w1) \<Rightarrow>
          (case (if isBlank diff then (True, w1) else sf_gitApply ops (wt_Path wt) diff w1) of
             (False, w2) \<Rightarrow> (Inl GitFailed, w2)
           | (True, w2) \<Rightarrow>
               (case git srcRepo [''ls-files'', ''--others'', ''--exclude-standard'', ''-z''] w2 of
                  (None, w3) \<Rightarrow> (Inl GitFailed, w3)
                | (Some others, w3) \<Rightarrow>
                    copy_untracked ops srcRepo (wt_Path wt) (splitOn nul others) \<lparr>sr_Applied = \<not> isBlank diff, sr_Untracked = []\<rparr> w3)))"

lemma copy_untracked_report:
  assumes "copy_untracked ops srcRepo wtPath rels rep w = (Inr rep', w')"
  shows "sr_Applied rep' = sr_Applied rep \<and> (\<exists>copied. sr_Untracked rep' = sr_Untracked rep @ copied \<and> set copied \<subseteq> set rels - {[]})"
  using assms
proof (induction rels arbitrary: rep w)
  case (Cons rel rels)
  from Cons.prems consider
      (skip) w1 where "copy_untracked ops srcRepo wtPath rels rep w1 = (Inr rep', w')"
    | (copy) w1 where "rel \<noteq> []" "copy_untracked ops srcRepo wtPath rels (rep\<lparr>sr_Untracked := sr_Untracked rep @ [rel]\<rparr>) w1 = (Inr rep', w')"
    by (auto split: if_splits option.splits prod.splits sum.splits)
  then show ?case
  proof cases
    case skip
    from Cons.IH [OF this] show ?thesis by auto
  next
    case copy
    from Cons.IH [OF copy(2)] obtain copied where "sr_Applied rep' = sr_Applied rep" "sr_Untracked rep' = sr_Untracked rep @ [rel] @ copied" "set copied \<subseteq> set rels - {[]}"
      by auto
    with copy(1) show ?thesis by (intro conjI exI [of _ "rel # copied"]) auto
  qed
qed simp

text \<open>
  What is said to have been verified is what was brought across.  When the operator's state is
  copied, the report is clean, so that the verdict is said to be about the committed state, exactly
  when no tracked modification was applied and no untracked file copied; every file it lists is one
  git listed as untracked.
\<close>

theorem sync_report_honest:
  assumes "SyncFrom git ops wt srcRepo w = (Inr rep, w')"
  shows "\<exists>diff w1 w2 others w3. sf_gitRaw ops srcRepo [''diff'', ''HEAD'', ''--binary''] w = (Some diff, w1) \<and>
    git srcRepo [''ls-files'', ''--others'', ''--exclude-standard'', ''-z''] w2 = (Some others, w3) \<and>
    sr_Applied rep = (\<not> isBlank diff) \<and> (sr_Applied rep \<longrightarrow> sf_gitApply ops (wt_Path wt) diff w1 = (True, w2)) \<and>
    set (sr_Untracked rep) \<subseteq> set (splitOn nul others) - {[]} \<and> (sync_Clean rep \<longrightarrow> isBlank diff \<and> sr_Untracked rep = [])"
  using assms
  by (fastforce simp: SyncFrom_def sync_Clean_def split: prod.splits option.splits bool.splits if_splits dest!: copy_untracked_report)

definition demo_ops :: "unit SyncOps" where
  "demo_ops = \<lparr>sf_gitRaw = (\<lambda>_ _ w. (Some ''d'', w)), sf_gitApply = (\<lambda>_ _ w. (True, w)), sf_stat = (\<lambda>_ _. Some (False, 420)),
     sf_readFile = (\<lambda>_ _. Inr ''x''), sf_mkdirs = (\<lambda>_ w. (None, w)), sf_writeFile = (\<lambda>_ _ _ w. (None, w))\<rparr>"

theorem sync_report_honest_witness:
  "\<exists>rep. SyncFrom (\<lambda>_ _ w. (Some (''n.go'' @ [nul]), w)) demo_ops demo_wt ''/repo'' () = (Inr rep, ()) \<and>
     sr_Untracked rep = [''n.go''] \<and> sr_Applied rep = (\<not> isBlank ''d'')"
proof -
  have "SyncFrom (\<lambda>_ _ w. (Some (''n.go'' @ [nul]), w)) demo_ops demo_wt ''/repo'' () =
      (Inr \<lparr>sr_Applied = True, sr_Untracked = [''n.go'']\<rparr>, ())" by code_simp
  from sync_report_honest [OF this] this show ?thesis by (auto simp: demo_ops_def)
qed

end
