(* ===== verification/Runner.thy ===== *)
theory Runner
  imports Critic
begin

text \<open>
  \<^verbatim>\<open>src/internal/task/runner.go\<close>, the rest: \<^verbatim>\<open>Run\<close> with its guards, lease and cleanup, and the attempt
  loop \<^verbatim>\<open>run\<close> of an engine that the phases do not drive.  What is particular to a run beside the
  \<open>TaskRunner\<close> is the record \<open>RunEnv\<close>.
\<close>

section \<open>What a run needs beside the runner\<close>

record ('p, 'w) RunEnv =
  re_phase :: "('p, 'w) PhaseEnv"
  re_Critic :: "'w Critic option"
  re_DiagnoseAfter :: int
  re_hasEngine :: bool
  re_root :: string
  re_statOk :: "string \<Rightarrow> 'w \<Rightarrow> bool"
  re_rmTree :: "string \<Rightarrow> 'w \<Rightarrow> bool \<times> 'w"
  re_SyncUncommitted :: bool
  re_sync :: "'w SyncOps"
  re_clearTmp :: "'w \<Rightarrow> 'w"

section \<open>Advice around an attempt\<close>

definition DefaultDiagnoseAfter :: int where
  "DefaultDiagnoseAfter = 2"

definition review :: "('m, 'p, 'w) TaskRunner \<Rightarrow> ('p, 'w) RunEnv \<Rightarrow> Task \<Rightarrow> Worktree \<Rightarrow> Outcome \<Rightarrow> ('w sys, run_error, Outcome) prog" where
  "review r e t wt out =
     (case re_Critic e of
        None \<Rightarrow> goRet out
      | Some c \<Rightarrow>
          goBind (in_world (wt_Diff (ru_git r) wt)) (\<lambda>df.
          case df of
            Inl _ \<Rightarrow> goRet out
          | Inr diff \<Rightarrow>
              if isBlank diff then goRet out
              else goBind (in_world (critic_Review c (task_Title t) diff (out_Results out))) (\<lambda>res.
                   goRet (case res of Inl _ \<Rightarrow> out | Inr rv \<Rightarrow> out\<lparr>out_Review := Some (rv_Concerns rv)\<rparr>))))"

definition diagnose :: "('p, 'w) RunEnv \<Rightarrow> Task \<Rightarrow> int \<Rightarrow> Result list \<Rightarrow> ('w sys, run_error, Hypothesis option) prog" where
  "diagnose e t attempt feedback =
     (case re_Critic e of
        None \<Rightarrow> goRet None
      | Some c \<Rightarrow>
          if feedback = [] \<or> attempt \<le> (if re_DiagnoseAfter e \<le> 0 then DefaultDiagnoseAfter else re_DiagnoseAfter e) then goRet None
          else goBind (in_world (critic_Diagnose c (task_Title t) feedback)) (\<lambda>res.
               goRet (case res of Inl _ \<Rightarrow> None | Inr h \<Rightarrow> Some h)))"

definition diagnosisAsFeedback :: "Hypothesis \<Rightarrow> Result" where
  "diagnosisAsFeedback h =
     \<lparr>res_Recipe = ''diagnosis'', res_Kind = KindCustom, res_Status = Fail,
      res_Summary = no_summary\<lparr>Headline := ''a fresh reading of the repeated failures: '' @ hy_Cause h,
        Findings := no_finding\<lparr>Message := ''Try instead: '' @ hy_Suggestion h\<rparr> #
          map (\<lambda>x. no_finding\<lparr>Message := ''Already ruled out: '' @ x\<rparr>) (hy_RuledOut h)\<rparr>,
      res_ExitCode = 0, res_Duration = 0, res_Candidate = [], res_ArtifactHash = [], res_Err = []\<rparr>"

definition recordMisses :: "'p Packet \<Rightarrow> Result list \<Rightarrow> Outcome \<Rightarrow> Outcome" where
  "recordMisses pkt failures out =
     (if failures = [] then out
      else out\<lparr>out_RetrievalMisses := out_RetrievalMisses out @
             DetectMisses (pkt_SlicePaths pkt) (map (\<lambda>f. (res_Recipe f, map (\<lambda>x. (File x, Message x)) (Findings (res_Summary f)))) failures)\<rparr>)"

section \<open>One attempt\<close>

text \<open>How an attempt ends: the run is over, or the next attempt starts with the outcome so far and the failures.\<close>

datatype attempt_next = Ended "Outcome \<times> run_error option" | Retry Outcome "Result list"

definition end_run :: "('m, 'p, 'w) TaskRunner \<Rightarrow> Task \<Rightarrow> Outcome \<Rightarrow> State \<Rightarrow> ('w sys, run_error, attempt_next) prog" where
  "end_run r t out st = goBind (finish r t out st) (\<lambda>x. goRet (Ended x))"

definition add_reason :: "why \<Rightarrow> Outcome \<Rightarrow> Outcome" where
  "add_reason y out = out\<lparr>out_Reasons := out_Reasons out @ [y]\<rparr>"

definition after_gate :: "('m, 'p, 'w) TaskRunner \<Rightarrow> Task \<Rightarrow> Outcome \<Rightarrow> Gate \<Rightarrow> ('w sys, run_error, attempt_next) prog" where
  "after_gate r t out g =
     (if gate_Decision g = Rejected then
        end_run r t (add_reason (Said (''rejected at the human gate: '' @ gate_Note g)) (out\<lparr>out_Accepted := False\<rparr>)) StateFailed
      else if gate_Open g then
        end_run r t (add_reason (Said (''waiting at a human gate: '' @ gate_Question g)) (out\<lparr>out_Gate := Some g\<rparr>)) StateReview
      else end_run r t out StateAccepted)"

definition shown_diff :: "wt_error + string \<Rightarrow> Outcome \<Rightarrow> Outcome" where
  "shown_diff df out = (case df of Inl _ \<Rightarrow> out | Inr diff \<Rightarrow> out\<lparr>out_Diff := diff\<rparr>)"

definition apply_gate :: "('m, 'p, 'w) TaskRunner \<Rightarrow> ('p, 'w) RunEnv \<Rightarrow> Task \<Rightarrow> Worktree \<Rightarrow> Outcome \<Rightarrow> ('w sys, run_error, attempt_next) prog" where
  "apply_gate r e t wt out =
     goBind (review r e t wt (out\<lparr>out_Accepted := True\<rparr>)) (\<lambda>out1.
     goBind (in_world (wt_Diff (ru_git r) wt)) (\<lambda>df.
     goBind (gate r t (shown_diff df out1)) (after_gate r t (shown_diff df out1))))"

definition scope_evidence :: "Task \<Rightarrow> Outcome \<Rightarrow> GateEvidence" where
  "scope_evidence t out =
     \<lparr>ge_Summary = showNat (length (out_OutOfScope out)) @ '' file(s) outside scope ['' @ joinWith '' '' (Scope (task_Budget t)) @ '']'',
      ge_Impact = None, ge_BreakingCount = 0, ge_OutOfScope = out_OutOfScope out, ge_Diff = out_Diff out, ge_Findings = [], ge_Plan = [],
      ge_PolicyReasons = [], ge_ReviewConcerns = []\<rparr>"

definition scope_gate :: "('m, 'p, 'w) TaskRunner \<Rightarrow> Task \<Rightarrow> Outcome \<Rightarrow> Result list \<Rightarrow> ('w sys, run_error, attempt_next) prog" where
  "scope_gate r t out feedback =
     (case ru_Broker r of
        None \<Rightarrow> goRet (Retry out feedback)
      | Some b \<Rightarrow>
          if out_OutOfScope out = [] then goRet (Retry out feedback)
          else goBind (do_Ask r b (task_ID t) KindOutOfScope ''This task changed files outside its declared scope. Allow it?''
                         (scope_evidence t out) (out_Candidate out)) (\<lambda>g.
               if gate_Open g then end_run r t (out\<lparr>out_Gate := Some g\<rparr>) StateReview else goRet (Retry out feedback)))"

definition with_violations :: "string list \<Rightarrow> Violation list \<Rightarrow> string list" where
  "with_violations scope vs = foldl (\<lambda>sc v. if Violation_Path v \<in> set sc then sc else sc @ [Violation_Path v]) scope vs"

text \<open>\<^verbatim>\<open>Accept\<close> sorts the paths it is given, which are the outcome's own.\<close>

definition judge_attempt ::
  "('m, 'p, 'w) TaskRunner \<Rightarrow> ('p, 'w) RunEnv \<Rightarrow> Task \<Rightarrow> Worktree \<Rightarrow> Outcome \<Rightarrow> Result list \<Rightarrow> ('w sys, run_error, attempt_next) prog" where
  "judge_attempt r e t wt out feedback =
     goBind (external EWorktree (wt_OutOfScope (ru_git r) wt (Scope (task_Budget t)))) (\<lambda>escaped.
     goBind (external EWorktree (wt_ChangedFiles (ru_git r) wt)) (\<lambda>changed.
     let vs = set_Check (ru_Policies r) changed;
         scope = with_violations escaped vs;
         (accepted, reasons) = Accept (task_Verification t) (out_Results out) (out_Candidate out) scope
                                 \<lparr>Made = changed \<noteq> [], Expected = ru_edits r\<rparr>;
         out1 = out\<lparr>out_PolicyViolations := out_PolicyViolations out @ vs, out_OutOfScope := sortStrings scope, out_Reasons := map Contract reasons\<rparr>
     in if accepted then apply_gate r e t wt out1 else scope_gate r t out1 feedback))"

definition work_attempt ::
  "('m, 'p, 'w) TaskRunner \<Rightarrow> ('p, 'w) RunEnv \<Rightarrow> Task \<Rightarrow> Worktree \<Rightarrow> int \<Rightarrow> string \<Rightarrow> Result list \<Rightarrow> int \<Rightarrow> Outcome \<Rightarrow> ('w sys, run_error, attempt_next) prog" where
  "work_attempt r e t wt attempt before feedback remaining out =
     goBind (step_task_engine r t wt attempt before feedback remaining) (\<lambda>(resp, pkt).
     goBind (wt_Candidate r wt) (\<lambda>after.
     let out1 = out\<lparr>out_TokensUsed := out_TokensUsed out + rs_TokensUsed resp, out_Candidate := after\<rparr> in
     if rs_BudgetExhausted resp then end_run r t (add_reason (Said (rs_Summary resp)) out1) StateBlocked
     else goBind (verify_task r t wt after) (\<lambda>results.
          judge_attempt r e t wt (recordMisses pkt (failedOnly results) (out1\<lparr>out_Results := results\<rparr>)) (failedOnly results))))"

definition run_attempt ::
  "('m, 'p, 'w) TaskRunner \<Rightarrow> ('p, 'w) RunEnv \<Rightarrow> Task \<Rightarrow> Worktree \<Rightarrow> int \<Rightarrow> Outcome \<Rightarrow> Result list \<Rightarrow> ('w sys, run_error, attempt_next) prog" where
  "run_attempt r e t wt attempt out feedback =
     goBind (in_world (\<lambda>w. (ru_ctxErr r w, w))) (\<lambda>ended.
     case ended of
       Some msg \<Rightarrow> end_run r t (add_reason (Said (''budget exhausted: '' @ msg)) out) StateBlocked
     | None \<Rightarrow>
         goBind (wt_Candidate r wt) (\<lambda>before.
         goBind (diagnose e t attempt feedback) (\<lambda>diag.
         let out1 = out\<lparr>out_Attempts := attempt, out_Diagnosis := (case diag of None \<Rightarrow> out_Diagnosis out | Some h \<Rightarrow> Some h)\<rparr>;
             fb = feedback @ (case diag of None \<Rightarrow> [] | Some h \<Rightarrow> [diagnosisAsFeedback h]);
             limit = MaxTokens (task_Budget t);
             remaining = (if limit > 0 then limit - out_TokensUsed out1 else 0)
         in if limit > 0 \<and> remaining \<le> 0 then end_run r t (add_reason (Said ''task token budget exhausted'') out1) StateBlocked
            else work_attempt r e t wt attempt before fb remaining out1)))"

section \<open>The loop and a whole run\<close>

definition attemptBudget :: "Task \<Rightarrow> int" where
  "attemptBudget t = (if MaxAttempts (task_Budget t) \<le> 0 then MaxAttempts DefaultBudget else MaxAttempts (task_Budget t))"

definition attempts_exhausted :: "('m, 'p, 'w) TaskRunner \<Rightarrow> Task \<Rightarrow> Worktree \<Rightarrow> Outcome \<Rightarrow> ('w sys, run_error, Outcome \<times> run_error option) prog" where
  "attempts_exhausted r t wt out =
     goBind (in_world (wt_Diff (ru_git r) wt)) (\<lambda>df.
     finish r t (add_reason (Said (''the attempt budget of '' @ showInt (attemptBudget t) @ '' was exhausted without meeting the completion contract''))
       (shown_diff df out)) StateFailed)"

text \<open>The loop counts the attempts that are left; \<open>attempt\<close> is the number of the next one.\<close>

primrec attempt_loop ::
  "nat \<Rightarrow> ('m, 'p, 'w) TaskRunner \<Rightarrow> ('p, 'w) RunEnv \<Rightarrow> Task \<Rightarrow> Worktree \<Rightarrow> int \<Rightarrow> Outcome \<Rightarrow> Result list \<Rightarrow> ('w sys, run_error, Outcome \<times> run_error option) prog" where
  "attempt_loop 0 r e t wt attempt out feedback = attempts_exhausted r t wt out"
| "attempt_loop (Suc n) r e t wt attempt out feedback =
     goBind (run_attempt r e t wt attempt out feedback) (\<lambda>x.
     case x of Ended res \<Rightarrow> goRet res | Retry out' fb \<Rightarrow> attempt_loop n r e t wt (attempt + 1) out' fb)"

definition run_task :: "('m, 'p, 'w) TaskRunner \<Rightarrow> ('p, 'w) RunEnv \<Rightarrow> Task \<Rightarrow> Worktree \<Rightarrow> ('w sys, run_error, Outcome \<times> run_error option) prog" where
  "run_task r e t wt =
     (if ru_phased r \<and> ru_edits r then runPhases r (re_phase e) t wt
      else attempt_loop (nat (attemptBudget t)) r e t wt 1 (new_outcome t) [])"

definition waits_at_gate :: "Outcome \<Rightarrow> bool" where
  "waits_at_gate out = (case out_Gate out of None \<Rightarrow> False | Some g \<Rightarrow> gate_Open g)"

definition after_commit :: "('m, 'p, 'w) TaskRunner \<Rightarrow> ('p, 'w) RunEnv \<Rightarrow> Worktree \<Rightarrow> bool \<Rightarrow> Outcome \<Rightarrow> ('w sys, run_error, Outcome) prog" where
  "after_commit r e wt committed out =
     (if waits_at_gate out \<or> \<not> out_Accepted out then goRet out
      else goBind (in_world (wt_Remove (ru_git r) (re_rmTree e) (Some wt) committed)) (\<lambda>err.
           case err of
             Some _ \<Rightarrow> goRet out
           | None \<Rightarrow> goBind (in_world (\<lambda>w. ((), re_clearTmp e w))) (\<lambda>_. goRet (out\<lparr>out_Worktree := []\<rparr>))))"

definition cleanup :: "('m, 'p, 'w) TaskRunner \<Rightarrow> ('p, 'w) RunEnv \<Rightarrow> Task \<Rightarrow> Worktree \<Rightarrow> Outcome \<Rightarrow> ('w sys, run_error, Outcome) prog" where
  "cleanup r e t wt out =
     (if ru_phased r \<and> task_State (out_Task out) \<noteq> StateAccepted then goRet out
      else goBind (if ru_phased r \<and> ru_edits r then goRet (Inr True) else in_world (wt_Commit (ru_git r) wt (commitMessage t out))) (\<lambda>c.
           case c of
             Inl _ \<Rightarrow> goRet out
           | Inr committed \<Rightarrow> after_commit r e wt committed (if committed then out else out\<lparr>out_Branch := []\<rparr>)))"

section \<open>Run\<close>

text \<open>The checkout of the task: created, or the one a run that did not clean up left behind.\<close>

definition checkout :: "('m, 'p, 'w) TaskRunner \<Rightarrow> ('p, 'w) RunEnv \<Rightarrow> string \<Rightarrow> string \<Rightarrow> ('w sys, run_error, Worktree) prog" where
  "checkout r e repoPath taskID =
     goBind (in_world (wt_Create (ru_git r) (re_statOk e) (re_root e) repoPath taskID)) (\<lambda>c.
     case c of
       Inr wt \<Rightarrow> goRet wt
     | Inl err \<Rightarrow>
         goBind (in_world (wt_Open (ru_git r) (re_statOk e) (re_root e) repoPath taskID)) (\<lambda>o'.
         case o' of Inr wt \<Rightarrow> goRet wt | Inl _ \<Rightarrow> goFail (EWorktree err)))"

definition sync_baseline :: "('m, 'p, 'w) TaskRunner \<Rightarrow> ('p, 'w) RunEnv \<Rightarrow> string \<Rightarrow> Worktree \<Rightarrow> ('w sys, run_error, string \<times> Worktree) prog" where
  "sync_baseline r e repoPath wt =
     (if \<not> re_SyncUncommitted e then goRet (''the committed state (HEAD)'', wt)
      else goBind (external EWorktree (SyncFrom (ru_git r) (re_sync e) wt repoPath)) (\<lambda>rep.
           goBind (external EWorktree (wt_Rebase (ru_git r) wt)) (\<lambda>wt'. goRet (sync_Describe rep, wt'))))"

definition run_leased :: "('m, 'p, 'w) TaskRunner \<Rightarrow> ('p, 'w) RunEnv \<Rightarrow> string \<Rightarrow> Task \<Rightarrow> Worktree \<Rightarrow> ('w sys, run_error, Outcome \<times> run_error option) prog" where
  "run_leased r e repoPath t wt0 =
     goBind (sync_baseline r e repoPath wt0) (\<lambda>(verified, wt).
     goBind (on_tasks r (\<lambda>ok now. SetWorktree ok now (task_ID t) (wt_ID wt))) (\<lambda>_.
     goBind (on_tasks r (\<lambda>ok now. SetState ok now (task_ID t) StateRunning)) (\<lambda>_.
     goBind (run_task r e t wt) (\<lambda>(out, err).
     goBind (cleanup r e t wt (out\<lparr>out_Verified := verified, out_Branch := wt_Branch wt, out_Worktree := wt_Path wt\<rparr>)) (\<lambda>out'.
     goRet (out', err))))))"

text \<open>The deferred release runs on every path once the lease is held; its error is dropped.\<close>

definition deferred :: "('s, 'e, unit) prog \<Rightarrow> ('s, 'e, 'a) prog \<Rightarrow> ('s, 'e, 'a) prog" where
  "deferred d m s = (case m s of (res, s') \<Rightarrow> (res, snd (d s')))"

definition do_Release :: "('m, 'p, 'w) TaskRunner \<Rightarrow> string \<Rightarrow> ('w sys, run_error, unit) prog" where
  "do_Release r wt = on_ledger r (\<lambda>ok now l. case ReleaseLease ok wt (ru_Holder r) l of (err, l') \<Rightarrow> (sum_of_option err, l'))"

definition not_runnable :: "('p, 'w) RunEnv \<Rightarrow> Task \<Rightarrow> string option" where
  "not_runnable e t =
     (if Terminal (task_State t) then
        Some (if task_State t = StateFailed \<or> task_State t = StateAbandoned
              then ''task '' @ task_ID t @ '' is '' @ state_name (task_State t) @ ''; `le task retry '' @ task_ID t @
                   ''` returns it to pending if you have fixed what stopped it''
              else ''task '' @ task_ID t @ '' is already '' @ state_name (task_State t))
      else if \<not> re_hasEngine e then Some ''engine: no engine configured'' else None)"

definition run_unblocked :: "('m, 'p, 'w) TaskRunner \<Rightarrow> ('p, 'w) RunEnv \<Rightarrow> string \<Rightarrow> Task \<Rightarrow> ('w sys, run_error, Outcome \<times> run_error option) prog" where
  "run_unblocked r e repoPath t =
     goBind (checkout r e repoPath (task_ID t)) (\<lambda>wt.
     goBind (on_ledger r (\<lambda>ok now. AcquireLease ok now (wt_ID wt) (task_ID t) (ru_Holder r) 0)) (\<lambda>_.
     deferred (do_Release r (wt_ID wt)) (run_leased r e repoPath t wt)))"

definition Run_task :: "('m, 'p, 'w) TaskRunner \<Rightarrow> ('p, 'w) RunEnv \<Rightarrow> string \<Rightarrow> string \<Rightarrow> ('w sys, run_error, Outcome \<times> run_error option) prog" where
  "Run_task r0 e taskID repoPath =
     (let r = r0\<lparr>ru_repoRoot := repoPath\<rparr> in
      goBind (\<lambda>s. from_sum ETask (task_Get (sl_tasks (sy_store s)) taskID) s) (\<lambda>t.
      case not_runnable e t of
        Some msg \<Rightarrow> goFail (ERefused msg)
      | None \<Rightarrow>
          goBind (\<lambda>s. from_sum ETask (Blockers (sl_tasks (sy_store s)) taskID) s) (\<lambda>blockers.
          if blockers \<noteq> [] then
            goBind (on_tasks r (\<lambda>ok now. SetState ok now taskID StateBlocked)) (\<lambda>_.
            goFail (ERefused (''task '' @ taskID @ '' is blocked on '' @
              joinWith '', '' (map (\<lambda>b. task_ID b @ '' ('' @ state_name (task_State b) @ '')'') blockers))))
          else run_unblocked r e repoPath t)))"

section \<open>What an accepted run has met\<close>

text \<open>The contract on the results an outcome carries, and a gate about its content that let it through.\<close>

definition contract_met :: "('m, 'p, 'w) TaskRunner \<Rightarrow> Task \<Rightarrow> Outcome \<Rightarrow> bool" where
  "contract_met r t out =
     (\<exists>made. fst (Accept (task_Verification t) (out_Results out) (out_Candidate out) [] \<lparr>Made = made, Expected = ru_edits r\<rparr>))"

definition let_through :: "('m, 'p, 'w) TaskRunner \<Rightarrow> Task \<Rightarrow> Outcome \<Rightarrow> bool" where
  "let_through r t out =
     (\<exists>asked s1 g s2. gate r t asked s1 = (Inr g, s2) \<and> gate_Decision g \<noteq> Rejected \<and> gate_Decision g \<noteq> Pending \<and>
        out_Candidate asked = out_Candidate out \<and> out_Results asked = out_Results out)"

definition ended_well :: "('m, 'p, 'w) TaskRunner \<Rightarrow> Task \<Rightarrow> Outcome \<Rightarrow> bool" where
  "ended_well r t out = (task_State (out_Task out) = StateAccepted \<longrightarrow> contract_met r t out \<and> let_through r t out)"

definition in_attempt :: "Task \<Rightarrow> int \<Rightarrow> Outcome \<Rightarrow> bool" where
  "in_attempt t n out = (out_Task out = t \<and> out_Attempts out \<le> n)"

definition attempt_safe :: "('m, 'p, 'w) TaskRunner \<Rightarrow> Task \<Rightarrow> int \<Rightarrow> attempt_next \<Rightarrow> bool" where
  "attempt_safe r t n x = (case x of Ended (out, _) \<Rightarrow> ended_well r t out \<and> out_Attempts out \<le> n | Retry out _ \<Rightarrow> in_attempt t n out)"

lemma wp_any: "(\<And>a s'. Q a s') \<Longrightarrow> wp m Q s"
  by (simp add: wp_def)

lemma wp_exec: "(\<And>a s'. m s = (Inr a, s') \<Longrightarrow> Q a s') \<Longrightarrow> wp m Q s"
  by (simp add: wp_def)

lemma wp_world: "(\<And>a w. f (sy_world s) = (a, w) \<Longrightarrow> Q a (s\<lparr>sy_world := w\<rparr>)) \<Longrightarrow> wp (in_world f) Q s"
  by (auto simp: wp_def in_world_def split: prod.splits)

lemma wp_Ask: "(\<And>g s'. Q g s') \<Longrightarrow> wp (do_Ask r b i k q ev c) Q s"
  by (simp add: wp_def)

lemma wp_finish:
  assumes "\<And>e s'. Q (out, e) s'" and "\<And>s'. Q (out\<lparr>out_Task := (out_Task out)\<lparr>task_State := st\<rparr>\<rparr>, None) s'"
  shows "wp (finish r t out st) Q s"
  unfolding finish_def using assms by (auto simp: wp_eqs split: sum.split intro!: wp_tryAny)

lemma wp_end_run:
  assumes "task_State t \<noteq> StateAccepted" and "in_attempt t n out" and "st = StateAccepted \<Longrightarrow> contract_met r t out \<and> let_through r t out"
  shows "wp (end_run r t out st) (\<lambda>x _. attempt_safe r t n x) s"
  unfolding end_run_def wp_eqs
  using assms by (intro wp_finish) (auto simp: wp_eqs attempt_safe_def in_attempt_def ended_well_def contract_met_def let_through_def)

lemma review_keeps:
  "wp (review r e t wt out) (\<lambda>o' _. out_Task o' = out_Task out \<and> out_Attempts o' = out_Attempts out \<and> out_Results o' = out_Results out \<and> out_Candidate o' = out_Candidate out) s"
  unfolding review_def by (auto simp: wp_eqs split: option.split sum.split intro!: wp_world)

lemma after_gate_safe:
  assumes "task_State t \<noteq> StateAccepted" and "in_attempt t n out" and "contract_met r t out" and "gate r t out s0 = (Inr g, s1)"
  shows "wp (after_gate r t out g) (\<lambda>x _. attempt_safe r t n x) s"
proof -
  have "let_through r t out" if "gate_Decision g \<noteq> Rejected" "\<not> gate_Open g"
    unfolding let_through_def using that assms(4) by (auto simp: gate_Open_def)
  then show ?thesis unfolding after_gate_def using assms(1-3) by (auto simp: add_reason_def in_attempt_def intro!: wp_end_run)
qed

lemma shown_diff_simps [simp]:
  "out_Task (shown_diff df out) = out_Task out" "out_Results (shown_diff df out) = out_Results out" "out_Candidate (shown_diff df out) = out_Candidate out"
  "out_Accepted (shown_diff df out) = out_Accepted out" "out_Gate (shown_diff df out) = out_Gate out" "out_Attempts (shown_diff df out) = out_Attempts out"
  by (simp_all add: shown_diff_def split: sum.split)

lemma contract_met_cong:
  "out_Results o' = out_Results out \<Longrightarrow> out_Candidate o' = out_Candidate out \<Longrightarrow> contract_met r t out \<Longrightarrow> contract_met r t o'"
  by (simp add: contract_met_def)

lemma apply_gate_safe:
  assumes "task_State t \<noteq> StateAccepted" and "in_attempt t n out" and "contract_met r t out"
  shows "wp (apply_gate r e t wt out) (\<lambda>x _. attempt_safe r t n x) s"
  unfolding apply_gate_def wp_eqs
  by (rule wp_mono [OF review_keeps], rule wp_world, rule wp_exec, erule after_gate_safe [rotated 3])
     (use assms in \<open>auto simp: in_attempt_def intro: contract_met_cong\<close>)

lemma scope_gate_safe:
  assumes "task_State t \<noteq> StateAccepted" and "in_attempt t n out"
  shows "wp (scope_gate r t out fb) (\<lambda>x _. attempt_safe r t n x) s"
  unfolding scope_gate_def using assms
  by (auto simp: wp_eqs attempt_safe_def in_attempt_def split: option.split intro!: wp_Ask wp_end_run [unfolded attempt_safe_def])

lemma judge_attempt_safe:
  assumes "task_State t \<noteq> StateAccepted" and "in_attempt t n out"
  shows "wp (judge_attempt r e t wt out fb) (\<lambda>x _. attempt_safe r t n x) s"
proof -
  have met: "contract_met r t out1" if "out_Results out1 = out_Results out" "out_Candidate out1 = out_Candidate out"
      "Accept (task_Verification t) (out_Results out) (out_Candidate out) scope \<lparr>Made = m, Expected = ru_edits r\<rparr> = (True, reasons)" for out1 :: Outcome and scope m reasons
  proof -
    have a: "fst (Accept (task_Verification t) (out_Results out) (out_Candidate out) scope \<lparr>Made = m, Expected = ru_edits r\<rparr>)" using that(3) by simp
    then have "scope = []" unfolding Accept_iff by blast
    then show ?thesis unfolding contract_met_def that(1,2) using a by blast
  qed
  have task: "out_Task out = t" "out_Attempts out \<le> n" using assms(2) by (simp_all add: in_attempt_def)
  show ?thesis
    unfolding judge_attempt_def Let_def wp_eqs
    by (rule wp_any, rule wp_any)
       (auto simp: in_attempt_def task split: prod.splits intro!: apply_gate_safe scope_gate_safe met assms(1))
qed

lemma wp_verify: "(\<And>a s'. Q a s') \<Longrightarrow> wp (verify_task r t wt c) Q s"
  by (simp add: wp_def)

lemma recordMisses_simps [simp]:
  "out_Task (recordMisses pkt fs out) = out_Task out" "out_Attempts (recordMisses pkt fs out) = out_Attempts out"
  "out_Results (recordMisses pkt fs out) = out_Results out" "out_Candidate (recordMisses pkt fs out) = out_Candidate out"
  by (simp_all add: recordMisses_def)

lemma work_attempt_safe:
  assumes "task_State t \<noteq> StateAccepted" and "in_attempt t n out"
  shows "wp (work_attempt r e t wt k before fb remaining out) (\<lambda>x _. attempt_safe r t n x) s"
  unfolding work_attempt_def Let_def wp_eqs
  by (rule wp_any, simp only: prod.case_distrib [of "\<lambda>m. wp m _ _"] split: prod.split, intro allI impI, unfold wp_eqs, rule wp_any)
     (use assms in \<open>auto simp: add_reason_def wp_eqs in_attempt_def intro!: wp_end_run judge_attempt_safe wp_verify\<close>)

lemma run_attempt_safe:
  assumes "task_State t \<noteq> StateAccepted" and "in_attempt t (n - 1) out"
  shows "wp (run_attempt r e t wt n out fb) (\<lambda>x _. attempt_safe r t n x) s"
proof -
  have work: "wp (work_attempt r e t wt n b f k (out\<lparr>out_Attempts := n, out_Diagnosis := d\<rparr>)) (\<lambda>x _. attempt_safe r t n x) s'" for b f k d s'
    using assms by (intro work_attempt_safe) (simp_all add: in_attempt_def)
  have over: "wp (end_run r t (add_reason y (out\<lparr>out_Attempts := n, out_Diagnosis := d\<rparr>)) StateBlocked) (\<lambda>x _. attempt_safe r t n x) s'" for y d s'
    using assms by (intro wp_end_run) (simp_all add: add_reason_def in_attempt_def)
  have late: "wp (end_run r t (add_reason y out) StateBlocked) (\<lambda>x _. attempt_safe r t n x) s'" for y s'
    using assms by (intro wp_end_run) (simp_all add: add_reason_def in_attempt_def)
  show ?thesis
    unfolding run_attempt_def Let_def wp_eqs
    by (rule wp_world) (auto simp: wp_eqs late over work split: option.split intro!: wp_any [of _ "wt_Candidate r wt"] wp_any [of _ "diagnose e t n fb"])
qed

lemma attempt_loop_safe:
  assumes "task_State t \<noteq> StateAccepted" and "in_attempt t (n - 1) out"
  shows "wp (attempt_loop k r e t wt n out fb) (\<lambda>(o', _) _. ended_well r t o' \<and> out_Attempts o' \<le> n - 1 + int k) s"
  using assms(2)
proof (induction k arbitrary: n out fb s)
  case 0
  then show ?case using assms(1)
    by (auto simp: attempts_exhausted_def wp_eqs add_reason_def ended_well_def in_attempt_def intro!: wp_world wp_finish)
next
  case (Suc k)
  show ?case
    unfolding attempt_loop.simps wp_eqs
  proof (rule wp_mono [OF run_attempt_safe [OF assms(1) Suc.prems]])
    fix x s1 assume safe: "attempt_safe r t n x"
    show "wp (case x of Ended res \<Rightarrow> goRet res | Retry out' fb \<Rightarrow> attempt_loop k r e t wt (n + 1) out' fb)
        (\<lambda>(o', _) _. ended_well r t o' \<and> out_Attempts o' \<le> n - 1 + int (Suc k)) s1"
    proof (cases x)
      case (Ended res)
      then show ?thesis using safe by (auto simp: attempt_safe_def wp_eqs)
    next
      case (Retry out' fb')
      then have "in_attempt t (n + 1 - 1) out'" using safe by (simp add: attempt_safe_def)
      from Suc.IH [OF this] show ?thesis by (simp add: Retry algebra_simps)
    qed
  qed
qed


text \<open>A verification-only run in the empty world: one check passes, nothing is changed, no broker is configured.\<close>

definition demo_run_env :: "(unit, unit) RunEnv" where
  "demo_run_env = \<lparr>re_phase = demo_env, re_Critic = None, re_DiagnoseAfter = 0, re_hasEngine = True, re_root = ''/w'', re_statOk = (\<lambda>_ _. True),
     re_rmTree = (\<lambda>_ w. (True, w)), re_SyncUncommitted = False, re_sync = demo_ops, re_clearTmp = (\<lambda>w. w)\<rparr>"

lemma demo_work:
  "\<exists>out s'. work_attempt demo_runner demo_run_env demo_task demo_wt 1 [] [] 0 (new_outcome demo_task\<lparr>out_Attempts := 1\<rparr>) demo_sys =
     (Inr (Ended (out, None)), s') \<and> task_State (out_Task out) = StateAccepted"
proof -
  let ?x = "work_attempt demo_runner demo_run_env demo_task demo_wt 1 [] [] 0 (new_outcome demo_task\<lparr>out_Attempts := 1\<rparr>) demo_sys"
  have "(case fst ?x of Inr (Ended (o', e)) \<Rightarrow> e = None \<and> task_State (out_Task o') = StateAccepted | _ \<Rightarrow> False)" by code_simp
  then show ?thesis by (cases ?x) (auto split: sum.splits attempt_next.splits)
qed

lemma demo_manifest: "wt_Candidate demo_runner demo_wt demo_sys = (Inr [], demo_sys)"
  by code_simp

lemma demo_attempt:
  "\<exists>out s'. attempt_loop 3 demo_runner demo_run_env demo_task demo_wt 1 (new_outcome demo_task) [] demo_sys = (Inr (out, None), s') \<and>
     task_State (out_Task out) = StateAccepted"
proof -
  obtain out s' where work: "work_attempt demo_runner demo_run_env demo_task demo_wt 1 [] [] 0 (new_outcome demo_task\<lparr>out_Attempts := 1\<rparr>) demo_sys =
     (Inr (Ended (out, None)), s')" and acc: "task_State (out_Task out) = StateAccepted"
    using demo_work by blast
  have same: "new_outcome demo_task\<lparr>out_Attempts := 1, out_Diagnosis := out_Diagnosis (new_outcome demo_task)\<rparr> = new_outcome demo_task\<lparr>out_Attempts := 1\<rparr>"
    by (simp add: new_outcome_def)
  have parts: "ru_ctxErr demo_runner () = None" "demo_sys\<lparr>sy_world := ()\<rparr> = demo_sys" "diagnose demo_run_env demo_task 1 [] demo_sys = (Inr None, demo_sys)"
    "MaxTokens (task_Budget demo_task) = 0"
    by (simp_all add: demo_runner_def diagnose_def demo_run_env_def goRet_def demo_task_def DefaultBudget_def demo_sys_def)
  have "run_attempt demo_runner demo_run_env demo_task demo_wt 1 (new_outcome demo_task) [] demo_sys = (Inr (Ended (out, None)), s')"
    using work by (simp add: run_attempt_def goBind_def in_world_def parts demo_manifest same)
  then show ?thesis using acc by (simp add: numeral_3_eq_3 goBind_def goRet_def)
qed

lemma demo_run_is_loop:
  "run_task demo_runner demo_run_env demo_task demo_wt demo_sys = attempt_loop 3 demo_runner demo_run_env demo_task demo_wt 1 (new_outcome demo_task) [] demo_sys"
  by (simp add: run_task_def demo_runner_def attemptBudget_def demo_task_def DefaultBudget_def)


text \<open>
  The attempt budget bounds the work.  However the engine, the checks and the gates answer, a run
  that returns an outcome took at most the task's budget of attempts, or the default when the budget
  is not positive.
\<close>

theorem attempts_within_budget:
  assumes "run_task r e t wt s = (Inr (out, err), s')" and "\<not> (ru_phased r \<and> ru_edits r)" and "task_State t \<noteq> StateAccepted"
  shows "out_Attempts out \<le> (if MaxAttempts (task_Budget t) \<le> 0 then 3 else MaxAttempts (task_Budget t))"
proof -
  have "wp (attempt_loop (nat (attemptBudget t)) r e t wt 1 (new_outcome t) [])
      (\<lambda>(o', _) _. ended_well r t o' \<and> out_Attempts o' \<le> 1 - 1 + int (nat (attemptBudget t))) s"
    by (rule attempt_loop_safe [OF assms(3)]) (simp add: new_outcome_def in_attempt_def)
  then have "out_Attempts out \<le> int (nat (attemptBudget t))" using assms(1,2) unfolding wp_def run_task_def by auto
  then show ?thesis by (simp add: attemptBudget_def DefaultBudget_def split: if_splits)
qed

theorem attempts_within_budget_witness:
  "\<exists>out s'. run_task demo_runner demo_run_env demo_task demo_wt demo_sys = (Inr (out, None), s') \<and> out_Attempts out \<le> 3"
proof -
  obtain out s' where run: "run_task demo_runner demo_run_env demo_task demo_wt demo_sys = (Inr (out, None), s')"
    unfolding demo_run_is_loop using demo_attempt by blast
  have side: "\<not> (ru_phased demo_runner \<and> ru_edits demo_runner)" "task_State demo_task \<noteq> StateAccepted" "MaxAttempts (task_Budget demo_task) = 3"
    by (simp_all add: demo_runner_def demo_task_def DefaultBudget_def)
  from attempts_within_budget [OF run side(1,2)] run side(3) show ?thesis by auto
qed

section \<open>A diff that cannot be read\<close>

lemma stores_keep_gates:
  "on_ledger r f s = (x, s') \<Longrightarrow> sy_gates s' = sy_gates s" "on_tasks r g s = (y, s') \<Longrightarrow> sy_gates s' = sy_gates s"
  by (auto simp: on_ledger_def on_tasks_def from_sum_def goRet_def goFail_def split: prod.splits sum.splits)

lemma finish_ends:
  "\<exists>o' err s'. finish r t out st s = (Inr (o', err), s') \<and> (o' = out \<or> o' = out\<lparr>out_Task := (out_Task out)\<lparr>task_State := st\<rparr>\<rparr>) \<and>
     (err = None \<longrightarrow> task_State (out_Task o') = st) \<and> sy_gates s' = sy_gates s"
proof -
  let ?check = "on_ledger r (\<lambda>ok now l. case Checkpoint ok (task_ID t) (state_name st)
      (Some (ru_json r (JHandoff (task_Title t) (nextAfter st) (out_Accepted out) (out_Reasons out)))) (out_Candidate out) l of (e, l') \<Rightarrow> (sum_of_option e, l'))"
  obtain c s1 where c: "?check s = (c, s1)" by (cases "?check s")
  obtain u s2 where u: "on_tasks r (\<lambda>ok now d. SetState ok now (task_ID t) st d) s1 = (u, s2)" by (cases "on_tasks r (\<lambda>ok now d. SetState ok now (task_ID t) st d) s1")
  have eq: "finish r t out st s = (case c of Inl e \<Rightarrow> (Inr (out, Some e), s1) | Inr _ \<Rightarrow>
      (case u of Inl e \<Rightarrow> (Inr (out, Some e), s2) | Inr _ \<Rightarrow> (Inr (out\<lparr>out_Task := (out_Task out)\<lparr>task_State := st\<rparr>\<rparr>, None), s2)))"
    by (cases c; cases u) (simp_all add: finish_def goBind_def goTry_def c u goRet_def)
  have "sy_gates s1 = sy_gates s" "sy_gates s2 = sy_gates s1" by (rule stores_keep_gates(1) [OF c], rule stores_keep_gates(2) [OF u])
  then show ?thesis unfolding eq by (cases c; cases u) simp_all
qed

text \<open>
  C33. A change whose diff cannot be read passes without a gate.  Once the contract accepts an attempt,
  if the diff of the checkout cannot be computed the gate is told that the task changed nothing: it
  answers without asking anyone, no gate is recorded, and the run is not stopped.
\<close>

theorem diff_failure_skips_gate:
  assumes "\<forall>w. \<exists>w'. wt_Diff (ru_git r) wt w = (Inl GitFailed, w')" and "isBlank (out_Diff out)"
  shows "\<exists>out' err s'. apply_gate r e t wt out s = (Inr (Ended (out', err)), s') \<and> out_Accepted out' \<and> out_Gate out' = out_Gate out \<and>
    sy_gates s' = sy_gates s \<and> (err = None \<longrightarrow> task_State (out_Task out') = StateAccepted)"
proof -
  obtain w1 where d1: "wt_Diff (ru_git r) wt (sy_world s) = (Inl GitFailed, w1)" using assms(1) by blast
  obtain w2 where d2: "wt_Diff (ru_git r) wt w1 = (Inl GitFailed, w2)" using assms(1) by blast
  let ?out = "out\<lparr>out_Accepted := True\<rparr>"
  have reviewed: "\<exists>w. review r e t wt ?out s = (Inr ?out, s\<lparr>sy_world := w\<rparr>)"
  proof (cases "re_Critic e")
    case None
    then show ?thesis by (intro exI [of _ "sy_world s"]) (simp add: review_def goRet_def)
  next
    case (Some c)
    then show ?thesis by (intro exI [of _ w1]) (simp add: review_def goBind_def in_world_def d1 goRet_def)
  qed
  then obtain w where rv: "review r e t wt ?out s = (Inr ?out, s\<lparr>sy_world := w\<rparr>)" by blast
  obtain w3 where d3: "wt_Diff (ru_git r) wt w = (Inl GitFailed, w3)" using assms(1) by blast
  let ?s = "s\<lparr>sy_world := w3\<rparr>"
  have auto_gate: "\<exists>n. gate r t ?out ?s = (Inr (automatic n), ?s)"
    using assms(2) by (auto simp: gate_def goRet_def split: option.split)
  then obtain n where g: "gate r t ?out ?s = (Inr (automatic n), ?s)" by blast
  have decided: "gate_Decision (automatic n) = Approved" by (simp add: automatic_def no_gate_def)
  obtain o' err s' where f: "finish r t ?out StateAccepted ?s = (Inr (o', err), s')"
    and post: "o' = ?out \<or> o' = ?out\<lparr>out_Task := (out_Task ?out)\<lparr>task_State := StateAccepted\<rparr>\<rparr>"
      "err = None \<longrightarrow> task_State (out_Task o') = StateAccepted" and "sy_gates s' = sy_gates ?s"
    using finish_ends [of r t ?out StateAccepted ?s] by blast
  then have "sy_gates s' = sy_gates s" by simp
  moreover have "apply_gate r e t wt out s = (Inr (Ended (o', err)), s')"
    using rv d3 g f decided
    by (simp add: apply_gate_def goBind_def in_world_def shown_diff_def after_gate_def end_run_def gate_Open_def goRet_def)
  ultimately show ?thesis using post by auto
qed

definition broken_runner :: "(unit, unit, unit) TaskRunner" where
  "broken_runner = demo_runner\<lparr>ru_git := (\<lambda>_ _ w. (None, w))\<rparr>"

theorem diff_failure_skips_gate_witness:
  "\<exists>out' err s'. apply_gate broken_runner demo_run_env demo_task demo_wt (new_outcome demo_task) demo_sys = (Inr (Ended (out', err)), s') \<and>
     out_Accepted out' \<and> sy_gates s' = []"
proof -
  have git: "\<forall>w. \<exists>w'. wt_Diff (ru_git broken_runner) demo_wt w = (Inl GitFailed, w')" by (simp add: wt_Diff_def broken_runner_def)
  have blank: "isBlank (out_Diff (new_outcome demo_task))" by (simp add: new_outcome_def)
  from diff_failure_skips_gate [OF git blank, of demo_run_env demo_task demo_sys]
  show ?thesis by (auto simp: demo_sys_def)
qed

section \<open>What is kept after a run\<close>

text \<open>
  Unfinished work is never removed.  When a task waits at a gate or was not accepted, cleaning up
  after it does nothing to the world but try to commit the checkout to the task's branch: the checkout
  stays, the outcome still names it, the stores are untouched, and the branch is left out of the
  outcome only when that commit found nothing to commit.
\<close>

theorem cleanup_keeps_checkout:
  assumes "cleanup r e t wt out s = (Inr out', s')" and "waits_at_gate out \<or> \<not> out_Accepted out"
  shows "out_Worktree out' = out_Worktree out \<and> sy_store s' = sy_store s \<and> sy_gates s' = sy_gates s \<and>
    (sy_world s' = sy_world s \<or> sy_world s' = snd (wt_Commit (ru_git r) wt (commitMessage t out) (sy_world s))) \<and>
    (out_Branch out' = out_Branch out \<or> fst (wt_Commit (ru_git r) wt (commitMessage t out) (sy_world s)) = Inr False)"
proof (cases "ru_phased r \<and> task_State (out_Task out) \<noteq> StateAccepted")
  case True
  then show ?thesis using assms(1) by (simp add: cleanup_def)
next
  case False
  obtain c w where commit: "wt_Commit (ru_git r) wt (commitMessage t out) (sy_world s) = (c, w)" by fastforce
  have kept: "after_commit r e wt b out s1 = (Inr out, s1)" "after_commit r e wt b (out\<lparr>out_Branch := []\<rparr>) s1 = (Inr (out\<lparr>out_Branch := []\<rparr>), s1)" for b s1
    using assms(2) by (auto simp: after_commit_def waits_at_gate_def goRet_def)
  show ?thesis
  proof (cases "ru_phased r \<and> ru_edits r")
    case True
    then have "cleanup r e t wt out s = (Inr out, s)" using False by (simp add: cleanup_def goBind_def goRet_def kept)
    then show ?thesis using assms(1) by simp
  next
    case edits: False
    have "cleanup r e t wt out s = (Inr (if c = Inr False then out\<lparr>out_Branch := []\<rparr> else out), s\<lparr>sy_world := w\<rparr>)"
      using False edits by (cases c) (simp_all only: cleanup_def goBind_def in_world_def commit if_False prod.case sum.case goRet_def kept if_True, auto simp: kept)
    then show ?thesis using assms(1) commit by (auto split: if_splits)
  qed
qed

theorem cleanup_keeps_checkout_witness:
  "\<exists>out' s'. cleanup demo_runner demo_run_env demo_task demo_wt ((new_outcome demo_task)\<lparr>out_Worktree := ''/wt''\<rparr>) demo_sys = (Inr out', s') \<and> out_Worktree out' = ''/wt''"
proof -
  let ?out = "(new_outcome demo_task)\<lparr>out_Worktree := ''/wt''\<rparr>"
  have parts: "wt_Commit (ru_git demo_runner) demo_wt msg w = (Inr False, w)" "\<not> ru_phased demo_runner" "\<not> out_Accepted (new_outcome demo_task)" "out_Gate (new_outcome demo_task) = None" for msg w
    by (simp_all add: wt_Commit_def demo_runner_def new_outcome_def)
  have "\<exists>out' s'. cleanup demo_runner demo_run_env demo_task demo_wt ?out demo_sys = (Inr out', s')"
    unfolding cleanup_def goBind_def in_world_def after_commit_def by (simp add: parts goRet_def)
  then obtain out' s' where run: "cleanup demo_runner demo_run_env demo_task demo_wt ?out demo_sys = (Inr out', s')" by blast
  have "waits_at_gate ?out \<or> \<not> out_Accepted ?out" by (simp add: new_outcome_def)
  from cleanup_keeps_checkout [OF run this] run show ?thesis by auto
qed

section \<open>One supervisor per checkout\<close>

lemma checkout_ID: "checkout r e repo i s = (Inr wt, s') \<Longrightarrow> wt_ID wt = ''wt-'' @ i \<and> sy_store s' = sy_store s"
  by (auto simp: checkout_def goBind_Inr_iff in_world_def wt_Create_def wt_Open_def Let_def split: prod.splits sum.splits option.splits bool.splits if_splits)

lemma task_Get_ID: "task_Get db i = Inr t \<Longrightarrow> task_ID t = i"
  by (auto simp: task_Get_def find_Some_iff split: option.splits)

lemma checkout_store: "sy_store (snd (checkout r e repo i s)) = sy_store s \<and> sy_gates (snd (checkout r e repo i s)) = sy_gates s"
  by (auto simp: checkout_def goBind_def in_world_def goRet_def goFail_def split: prod.splits sum.splits)

lemma run_unblocked_excluded:
  assumes "lease_of (sl_ledger (sy_store s)) (''wt-'' @ task_ID t) = Some l" and "ls_Holder l \<noteq> ru_Holder r" and "\<forall>w. lease_live (snd (fst (ru_tx r w))) l"
  shows "\<exists>err s'. run_unblocked r e repo t s = (Inl err, s') \<and> sy_store s' = sy_store s \<and> sy_gates s' = sy_gates s"
proof (cases "checkout r e repo (task_ID t) s")
  case (Pair x s1)
  have st: "sy_store s1 = sy_store s" "sy_gates s1 = sy_gates s" using checkout_store [of r e repo "task_ID t" s] Pair by simp_all
  show ?thesis
  proof (cases x)
    case (Inl err)
    then show ?thesis using Pair st by (simp add: run_unblocked_def goBind_def)
  next
    case (Inr wt)
    obtain ok now w where tx: "ru_tx r (sy_world s1) = ((ok, now), w)" by (metis surj_pair)
    then have "lease_live now l" using assms(3) by (metis fst_conv snd_conv)
    then have "AcquireLease ok now (wt_ID wt) (task_ID t) (ru_Holder r) 0 (sl_ledger (sy_store s1)) = (Inl (LeaseHeld (ls_Holder l)), sl_ledger (sy_store s1))"
      using assms(1,2) checkout_ID [OF Pair [unfolded Inr]] st by (simp add: AcquireLease_def Let_def)
    then show ?thesis using Pair Inr st tx
      by (simp add: run_unblocked_def goBind_def on_ledger_def from_sum_def goFail_def)
  qed
qed

text \<open>
  C9. Two supervisors never run on one checkout.  While another holder's lease on the task's checkout
  is live, a run returns an error before the engine, a check or the gate is reached: the journal, its
  leases and the workflow state are what they were.
\<close>

theorem excluded_while_leased:
  assumes "lease_of (sl_ledger (sy_store s)) (''wt-'' @ taskID) = Some l" and "ls_Holder l \<noteq> ru_Holder r"
    and "\<forall>w. lease_live (snd (fst (ru_tx r w))) l"
  shows "\<exists>err s'. Run_task r e taskID repo s = (Inl err, s') \<and> sl_ledger (sy_store s') = sl_ledger (sy_store s) \<and>
    sl_workflow (sy_store s') = sl_workflow (sy_store s) \<and> sy_gates s' = sy_gates s"
proof -
  define rr where "rr = r\<lparr>ru_repoRoot := repo\<rparr>"
  let ?db = "sl_tasks (sy_store s)"
  have rr: "ru_Holder rr = ru_Holder r" "ru_tx rr = ru_tx r" by (simp_all add: rr_def)
  show ?thesis
  proof (cases "\<exists>t bs. task_Get ?db taskID = Inr t \<and> not_runnable e t = None \<and> Blockers ?db taskID = Inr bs")
    case False
    then show ?thesis
      by (auto simp: Run_task_def Let_def goBind_def from_sum_def goRet_def goFail_def split: sum.splits option.splits)
  next
    case True
    then obtain t bs where t: "task_Get ?db taskID = Inr t" "not_runnable e t = None" "Blockers ?db taskID = Inr bs" by blast
    show ?thesis
    proof (cases "bs = []")
      case True
      have "Run_task r e taskID repo s = run_unblocked rr e repo t s" using t True by (simp add: Run_task_def Let_def goBind_def from_sum_def goRet_def rr_def)
      then show ?thesis using run_unblocked_excluded [of s t l rr e repo] assms rr task_Get_ID [OF t(1)] by auto
    next
      case False
      obtain x s1 where x: "on_tasks rr (\<lambda>ok now. SetState ok now taskID StateBlocked) s = (x, s1)" by (cases "on_tasks rr (\<lambda>ok now. SetState ok now taskID StateBlocked) s")
      then have kept: "sl_ledger (sy_store s1) = sl_ledger (sy_store s)" "sl_workflow (sy_store s1) = sl_workflow (sy_store s)" "sy_gates s1 = sy_gates s"
        by (auto simp: on_tasks_def from_sum_def goRet_def goFail_def split: prod.splits sum.splits)
      show ?thesis using t False x kept
        by (cases x) (simp_all add: Run_task_def Let_def goBind_def from_sum_def goRet_def goFail_def rr_def)
    qed
  qed
qed

definition demo_lease :: Lease_row where
  "demo_lease = \<lparr>ls_WorktreeID = ''wt-t'', ls_TaskID = ''t'', ls_Holder = ''other'', ls_ExpiresAt = 60000\<rparr>"

definition demo_held :: "unit sys" where
  "demo_held = demo_sys\<lparr>sy_store := (sy_store demo_sys)\<lparr>sl_ledger := \<lparr>lg_ops = [], lg_checkpoints = [], lg_evidence = [], lg_leases = [demo_lease]\<rparr>\<rparr>\<rparr>"

theorem excluded_while_leased_witness:
  "\<exists>err s'. Run_task demo_runner demo_run_env ''t'' ''/repo'' demo_held = (Inl err, s') \<and> lg_leases (sl_ledger (sy_store s')) = [demo_lease]"
proof -
  have l: "lease_of (sl_ledger (sy_store demo_held)) (''wt-'' @ ''t'') = Some demo_lease" by (simp add: lease_of_def demo_held_def demo_lease_def)
  have h: "ls_Holder demo_lease \<noteq> ru_Holder demo_runner" by (simp add: demo_lease_def demo_runner_def)
  have v: "\<forall>w. lease_live (snd (fst (ru_tx demo_runner w))) demo_lease" by (simp add: lease_live_def demo_lease_def demo_runner_def)
  from excluded_while_leased [OF l h v, of demo_run_env "''/repo''"] show ?thesis by (auto simp: demo_held_def)
qed

end
