(* ===== verification/NativeTools.thy ===== *)
theory NativeTools
  imports Runner
begin

text \<open>
  The tools of the native engine: \<^verbatim>\<open>tools.go\<close>, \<^verbatim>\<open>authorize.go\<close> (the schema and access check), \<^verbatim>\<open>progress.go\<close>
  (the loop guard) and \<^verbatim>\<open>exec.go\<close> under \<^verbatim>\<open>src/internal/engine/native\<close>.  What they call outside this
  development (the retriever's search, the JSON decoder, SHA-256, the text of an error) are fields of the
  record \<open>NativeEngine\<close>; files, the code graph and the recipe runner are the models of the other theories.
\<close>

section \<open>Tool names and declarations\<close>

definition ToolReadFile :: string where "ToolReadFile = ''read_file''"
definition ToolWriteFile :: string where "ToolWriteFile = ''write_file''"
definition ToolEditFile :: string where "ToolEditFile = ''edit_file''"
definition ToolListFiles :: string where "ToolListFiles = ''list_files''"
definition ToolSearch :: string where "ToolSearch = ''search_code''"
definition ToolFindSymbol :: string where "ToolFindSymbol = ''find_symbol''"
definition ToolImpact :: string where "ToolImpact = ''impact_of''"
definition ToolRunRecipe :: string where "ToolRunRecipe = ''run_verification''"
definition ToolGitTouch :: string where "ToolGitTouch = ''git_touch''"
definition ToolDone :: string where "ToolDone = ''done''"

lemmas tool_names = ToolReadFile_def ToolWriteFile_def ToolEditFile_def ToolListFiles_def ToolSearch_def ToolFindSymbol_def
  ToolImpact_def ToolRunRecipe_def ToolGitTouch_def ToolDone_def

text \<open>A declaration carries its schema as the text that is sent and as what \<^verbatim>\<open>authorize\<close> decodes of it.\<close>

record SchemaProperty =
  pp_Type :: string
  pp_Enum :: "string list"

record ToolDef =
  td_Name :: string
  td_Description :: string
  td_Schema :: string
  td_Required :: "string list"
  td_Properties :: "(string \<times> SchemaProperty) list"

record Wired =
  wi_Retrieval :: bool
  wi_Graph :: bool
  wi_Recipes :: bool

definition wired_has :: "Wired \<Rightarrow> string \<Rightarrow> bool" where
  "wired_has w name =
     (if name = ToolSearch then wi_Retrieval w
      else if name = ToolFindSymbol \<or> name = ToolImpact \<or> name = ToolGitTouch then wi_Graph w
      else if name = ToolRunRecipe then wi_Recipes w
      else True)"

definition all_tools :: "ToolDef list" where
  "all_tools =
     [\<lparr>td_Name = ToolReadFile,
         td_Description = ''Read part of a file in the worktree. Prefer a line range: reading a whole large file wastes the budget that later steps need.'',
         td_Schema = ''{\"additionalProperties\":false,\"properties\":{\"end_line\":{\"description\":\"Last line, inclusive. Omit for the end.\",\"type\":\"integer\"},\"path\":{\"description\":\"Path relative to the worktree root.\",\"type\":\"string\"},\"start_line\":{\"description\":\"First line, 1-based. Omit for the start.\",\"type\":\"integer\"}},\"required\":[\"path\"],\"type\":\"object\"}'',
         td_Required = [''path''],
         td_Properties = [(''path'', \<lparr>pp_Type = ''string'', pp_Enum = []\<rparr>), (''start_line'', \<lparr>pp_Type = ''integer'', pp_Enum = []\<rparr>), (''end_line'', \<lparr>pp_Type = ''integer'', pp_Enum = []\<rparr>)]\<rparr>,
      \<lparr>td_Name = ToolEditFile,
         td_Description = ''Replace an exact string in a file. The old string must appear exactly once, so include enough surrounding context to be unambiguous. Prefer this over write_file: it cannot silently discard code you did not read.'',
         td_Schema = ''{\"additionalProperties\":false,\"properties\":{\"new\":{\"description\":\"Replacement text.\",\"type\":\"string\"},\"old\":{\"description\":\"Exact text to replace, including indentation.\",\"type\":\"string\"},\"path\":{\"type\":\"string\"}},\"required\":[\"path\",\"old\",\"new\"],\"type\":\"object\"}'',
         td_Required = [''path'', ''old'', ''new''],
         td_Properties = [(''path'', \<lparr>pp_Type = ''string'', pp_Enum = []\<rparr>), (''old'', \<lparr>pp_Type = ''string'', pp_Enum = []\<rparr>), (''new'', \<lparr>pp_Type = ''string'', pp_Enum = []\<rparr>)]\<rparr>,
      \<lparr>td_Name = ToolRunRecipe,
         td_Description = ''Run verification (build, vet, test) and get the findings. Use this after every edit: the compiler and the tests are the most reliable correction available.'',
         td_Schema = ''{\"additionalProperties\":false,\"properties\":{\"kind\":{\"description\":\"Which check to run. build is fastest; run it first.\",\"enum\":[\"build\",\"vet\",\"test\",\"format\",\"lint\"],\"type\":\"string\"}},\"required\":[\"kind\"],\"type\":\"object\"}'',
         td_Required = [''kind''],
         td_Properties = [(''kind'', \<lparr>pp_Type = ''string'', pp_Enum = [''build'', ''vet'', ''test'', ''format'', ''lint'']\<rparr>)]\<rparr>,
      \<lparr>td_Name = ToolSearch,
         td_Description = ''Search the indexed repository for text. Returns file paths and line ranges.'',
         td_Schema = ''{\"additionalProperties\":false,\"properties\":{\"limit\":{\"description\":\"Maximum results, default 10.\",\"type\":\"integer\"},\"query\":{\"type\":\"string\"}},\"required\":[\"query\"],\"type\":\"object\"}'',
         td_Required = [''query''],
         td_Properties = [(''query'', \<lparr>pp_Type = ''string'', pp_Enum = []\<rparr>), (''limit'', \<lparr>pp_Type = ''integer'', pp_Enum = []\<rparr>)]\<rparr>,
      \<lparr>td_Name = ToolFindSymbol,
         td_Description = ''Find a function, method, type or interface by name, with its file, line and signature.'',
         td_Schema = ''{\"additionalProperties\":false,\"properties\":{\"name\":{\"type\":\"string\"}},\"required\":[\"name\"],\"type\":\"object\"}'',
         td_Required = [''name''],
         td_Properties = [(''name'', \<lparr>pp_Type = ''string'', pp_Enum = []\<rparr>)]\<rparr>,
      \<lparr>td_Name = ToolImpact,
         td_Description = ''Report what a change to a symbol would affect: its callers, the types that implement it, and the tests covering it. Use this before changing a signature.'',
         td_Schema = ''{\"additionalProperties\":false,\"properties\":{\"change\":{\"enum\":[\"signature\",\"behaviour\",\"remove\",\"rename\",\"add_field\"],\"type\":\"string\"},\"symbol\":{\"type\":\"string\"}},\"required\":[\"symbol\",\"change\"],\"type\":\"object\"}'',
         td_Required = [''symbol'', ''change''],
         td_Properties = [(''symbol'', \<lparr>pp_Type = ''string'', pp_Enum = []\<rparr>), (''change'', \<lparr>pp_Type = ''string'', pp_Enum = [''signature'', ''behaviour'', ''remove'', ''rename'', ''add_field'']\<rparr>)]\<rparr>,
      \<lparr>td_Name = ToolGitTouch,
         td_Description = ''Show which commits recently touched a file or symbol, with who changed it and when. Useful for finding why code is the way it is before changing it, and for spotting a file that several unrelated changes keep colliding in.'',
         td_Schema = ''{\"additionalProperties\":false,\"properties\":{\"limit\":{\"description\":\"How many commits to return, default 10.\",\"type\":\"integer\"},\"path\":{\"description\":\"A file path relative to the worktree root.\",\"type\":\"string\"},\"symbol\":{\"description\":\"A symbol name, as an alternative to a path.\",\"type\":\"string\"}},\"type\":\"object\"}'',
         td_Required = [],
         td_Properties = [(''path'', \<lparr>pp_Type = ''string'', pp_Enum = []\<rparr>), (''symbol'', \<lparr>pp_Type = ''string'', pp_Enum = []\<rparr>), (''limit'', \<lparr>pp_Type = ''integer'', pp_Enum = []\<rparr>)]\<rparr>,
      \<lparr>td_Name = ToolListFiles,
         td_Description = ''List files under a directory in the worktree.'',
         td_Schema = ''{\"additionalProperties\":false,\"properties\":{\"dir\":{\"description\":\"Directory relative to the worktree root; omit for the root.\",\"type\":\"string\"}},\"type\":\"object\"}'',
         td_Required = [],
         td_Properties = [(''dir'', \<lparr>pp_Type = ''string'', pp_Enum = []\<rparr>)]\<rparr>,
      \<lparr>td_Name = ToolWriteFile,
         td_Description = ''Write a file's entire contents, creating it if needed. Use only for new files; for an existing file use edit_file.'',
         td_Schema = ''{\"additionalProperties\":false,\"properties\":{\"content\":{\"type\":\"string\"},\"path\":{\"type\":\"string\"}},\"required\":[\"path\",\"content\"],\"type\":\"object\"}'',
         td_Required = [''path'', ''content''],
         td_Properties = [(''path'', \<lparr>pp_Type = ''string'', pp_Enum = []\<rparr>), (''content'', \<lparr>pp_Type = ''string'', pp_Enum = []\<rparr>)]\<rparr>,
      \<lparr>td_Name = ToolDone,
         td_Description = ''Declare the objective met. Only call this after verification has passed: the supervisor checks the evidence itself, and calling done early wastes an attempt.'',
         td_Schema = ''{\"additionalProperties\":false,\"properties\":{\"summary\":{\"description\":\"What you changed and why.\",\"type\":\"string\"}},\"required\":[\"summary\"],\"type\":\"object\"}'',
         td_Required = [''summary''],
         td_Properties = [(''summary'', \<lparr>pp_Type = ''string'', pp_Enum = []\<rparr>)]\<rparr>]"

definition Definitions :: "int \<Rightarrow> Wired \<Rightarrow> ToolDef list" where
  "Definitions most wired =
     (let out = filter (\<lambda>t. wired_has wired (td_Name t)) all_tools in
      if most > 0 \<and> most < int (length out) then take (nat most) out else out)"

definition ToolNames :: "ToolDef list \<Rightarrow> string list" where
  "ToolNames defs = sortStrings (map td_Name defs)"

section \<open>Calls and their arguments\<close>

text \<open>A decoded argument: a string, an integral number, another number with its truncation, or anything else.\<close>

datatype jval = JStr string | JInt int | JFrac int | JOther

datatype args_json = BadJson string | NullJson | ArgsJson "(string \<times> jval) list"

record ToolCall =
  tc_ID :: string
  tc_Name :: string
  tc_Arguments :: string

record ToolResult =
  tq_Invalid :: bool
  tq_Content :: string
  tq_Failed :: bool
  tq_Edited :: bool
  tq_Done :: bool
  tq_Summary :: string

definition ok_result :: "string \<Rightarrow> ToolResult" where
  "ok_result s = \<lparr>tq_Invalid = False, tq_Content = s, tq_Failed = False, tq_Edited = False, tq_Done = False, tq_Summary = []\<rparr>"

definition failed_result :: "string \<Rightarrow> ToolResult" where
  "failed_result s = (ok_result s)\<lparr>tq_Failed := True\<rparr>"

definition arg_str :: "(string \<times> jval) list \<Rightarrow> string \<Rightarrow> string" where
  "arg_str args key = (case map_of args key of Some (JStr s) \<Rightarrow> s | _ \<Rightarrow> [])"

definition arg_num :: "(string \<times> jval) list \<Rightarrow> string \<Rightarrow> int" where
  "arg_num args key = (case map_of args key of Some (JInt n) \<Rightarrow> n | Some (JFrac n) \<Rightarrow> n | _ \<Rightarrow> 0)"

section \<open>Authorization\<close>

datatype denial =
    NotAdvertised string | BadArguments | MissingArgument string | UnknownArgument string | NotAString string | NotAllowedValue string
  | NotAnInteger string | UnsupportedType string | AccessDenied access_error

definition check_argument :: "ToolDef \<Rightarrow> string \<times> jval \<Rightarrow> denial option" where
  "check_argument def kv =
     (case kv of (key, v) \<Rightarrow>
      case map_of (td_Properties def) key of
        None \<Rightarrow> Some (UnknownArgument key)
      | Some p \<Rightarrow>
          if pp_Type p = ''string'' then
            (case v of
               JStr txt \<Rightarrow> if pp_Enum p \<noteq> [] \<and> txt \<notin> set (pp_Enum p) then Some (NotAllowedValue key) else None
             | _ \<Rightarrow> Some (NotAString key))
          else if pp_Type p = ''integer'' then
            (case v of JInt n \<Rightarrow> if n < 0 \<or> n > 2147483647 then Some (NotAnInteger key) else None | _ \<Rightarrow> Some (NotAnInteger key))
          else Some (UnsupportedType (pp_Type p)))"

definition path_denial :: "Access \<Rightarrow> FS \<Rightarrow> string \<Rightarrow> string \<Rightarrow> (string \<times> jval) list \<Rightarrow> denial option" where
  "path_denial acc fs wt name args =
     (if name = ToolReadFile \<or> name = ToolWriteFile \<or> name = ToolEditFile
      then map_option AccessDenied (access_Check acc fs wt (arg_str args ''path'') (name \<noteq> ToolReadFile))
      else if name = ToolListFiles
      then map_option AccessDenied (access_Check acc fs wt (if arg_str args ''dir'' = [] then ''.'' else arg_str args ''dir'') False)
      else None)"

definition authorize :: "ToolDef list \<Rightarrow> Access \<Rightarrow> FS \<Rightarrow> string \<Rightarrow> string \<Rightarrow> args_json \<Rightarrow> denial option" where
  "authorize tools acc fs wt name parsed =
     (case find (\<lambda>t. td_Name t = name) tools of
        None \<Rightarrow> Some (NotAdvertised name)
      | Some def \<Rightarrow>
          (case parsed of
             ArgsJson args \<Rightarrow>
               (case find (\<lambda>k. map_of args k = None) (td_Required def) of
                  Some k \<Rightarrow> Some (MissingArgument k)
                | None \<Rightarrow>
                    (case first_error (check_argument def) args of
                       Some e \<Rightarrow> Some e
                     | None \<Rightarrow> path_denial acc fs wt name args))
           | _ \<Rightarrow> Some BadArguments))"

section \<open>The loop guard\<close>

definition repeatLimit :: nat where "repeatLimit = 3"
definition staleLimit :: nat where "staleLimit = 3"

text \<open>What was asked, the digest of the last answer, and how often that pair occurred.\<close>

record progress =
  pg_seen :: "(string \<times> string \<times> nat) list"
  pg_stale :: nat

definition newProgress :: progress where
  "newProgress = \<lparr>pg_seen = [], pg_stale = 0\<rparr>"

datatype verdict = Learned | Repeated

text \<open>\<open>canon\<close> is the argument object with its keys sorted, when the text is an object.\<close>

definition call_fingerprint :: "(string \<Rightarrow> string option) \<Rightarrow> string \<Rightarrow> string \<Rightarrow> string" where
  "call_fingerprint canon name arguments = name @ [nul] @ (case canon arguments of None \<Rightarrow> trimSpace arguments | Some c \<Rightarrow> c)"

definition digest_of :: "(string \<Rightarrow> string) \<Rightarrow> string \<Rightarrow> string" where
  "digest_of sha256 s = hexEncode (take 8 (sha256 s))"

definition observe :: "string \<Rightarrow> string \<Rightarrow> progress \<Rightarrow> (verdict \<times> nat) \<times> progress" where
  "observe fp d p =
     (case map_of (pg_seen p) fp of
        None \<Rightarrow> ((Learned, 1), p\<lparr>pg_seen := AList.update fp (d, 1) (pg_seen p)\<rparr>)
      | Some (d0, n) \<Rightarrow>
          if d0 \<noteq> d then ((Learned, 1), p\<lparr>pg_seen := AList.update fp (d, 1) (pg_seen p)\<rparr>)
          else ((Repeated, Suc n), p\<lparr>pg_seen := AList.update fp (d, Suc n) (pg_seen p)\<rparr>))"

definition endOfStep :: "bool \<Rightarrow> progress \<Rightarrow> progress" where
  "endOfStep learnedAnything p = p\<lparr>pg_stale := (if learnedAnything then 0 else Suc (pg_stale p))\<rparr>"

definition describeCall :: "string \<Rightarrow> string" where
  "describeCall fp =
     (if nul \<notin> set fp then fp
      else let name = takeWhile (\<lambda>c. c \<noteq> nul) fp; args = drop (length name + 1) fp
           in name @ (if length args > 80 then take 80 args @ [CHR 0xE2, CHR 0x80, CHR 0xA6] else args))"

definition topRepeats :: "progress \<Rightarrow> string" where
  "topRepeats p =
     (let es = stable_sort (\<lambda>a b. if snd a \<noteq> snd b then snd a > snd b else fst a < fst b)
                 (map (\<lambda>(fp, _, n). (describeCall fp, n)) (filter (\<lambda>(_, _, n). n > 1) (pg_seen p)))
      in if es = [] then ''no tool call produced a new answer''
         else joinWith '', '' (map (\<lambda>(c, n). c @ [CHR '' '', CHR 0xC3, CHR 0x97] @ showNat n) (take 3 es) @
                (if length es > 3 then [''and '' @ showNat (length es - 3) @ '' other repeated call(s)''] else [])))"

text \<open>\<^verbatim>\<open>stuck\<close> ranges over a Go map; the model takes the calls in the order they were first made.\<close>

definition stuck :: "progress \<Rightarrow> string option" where
  "stuck p =
     (if pg_stale p \<ge> staleLimit
      then Some (''stopped after '' @ showNat (pg_stale p) @ '' consecutive steps that learned nothing new: '' @ topRepeats p)
      else (case find (\<lambda>(_, _, n). n \<ge> repeatLimit) (pg_seen p) of
              None \<Rightarrow> None
            | Some (fp, _, n) \<Rightarrow>
                Some (''stopped after calling '' @ describeCall fp @ '' '' @ showNat n @
                      '' times with the same arguments and getting the same answer every time'')))"

definition repeatNote :: "string \<Rightarrow> nat \<Rightarrow> string" where
  "repeatNote name n =
     ''[supervisor] You have now called '' @ name @ '' with these exact arguments '' @ showNat n @
     '' times and received the same answer each time. You already have this result above. Repeating it will not produce new information'' @
     dash @ ''either act on what you have, or try something different.'' @ [newline]"

section \<open>The engine\<close>

text \<open>What a packet holds for the native engine, beside what the supervisor reads of it.\<close>

record Slice =
  sl_Path :: string
  sl_Symbol :: string
  sl_StartLine :: int
  sl_EndLine :: int
  sl_Signature :: string
  sl_Body :: string

record ProjectNote =
  pn_File :: string
  pn_RepoID :: string
  pn_Commit :: string
  pn_Source :: string
  pn_Text :: string

record MemoryNote =
  mn_Kind :: string
  mn_Source :: string
  mn_Text :: string

record PacketContent =
  pc_ProjectNotes :: "ProjectNote list"
  pc_Notes :: "MemoryNote list"
  pc_NotesDropped :: int
  pc_Slices :: "Slice list"

record Message =
  mg_Role :: string
  mg_Content :: string
  mg_Name :: string
  mg_ToolCallID :: string
  mg_ToolCalls :: "ToolCall list"

record ChatResponse =
  ch_Content :: string
  ch_Reasoning :: string
  ch_ToolCalls :: "ToolCall list"
  ch_PromptTokens :: int
  ch_OutputTokens :: int
  ch_FinishReason :: string

record 'w FileOps =
  fo_fs :: "'w \<Rightarrow> FS"
  fo_readFile :: "'w \<Rightarrow> string \<Rightarrow> fs_error + string"
  fo_stat :: "'w \<Rightarrow> string \<Rightarrow> fs_error + unit"
  fo_readDir :: "'w \<Rightarrow> string \<Rightarrow> fs_error + (string \<times> bool) list"
  fo_mkdirs :: "string \<Rightarrow> 'w \<Rightarrow> fs_error option \<times> 'w"
  fo_writeFile :: "string \<Rightarrow> string \<Rightarrow> 'w \<Rightarrow> fs_error option \<times> 'w"

record 'w NativeEngine =
  ne_chat :: "Message list \<Rightarrow> ToolDef list \<Rightarrow> int \<Rightarrow> int \<Rightarrow> 'w \<Rightarrow> (string + ChatResponse) \<times> 'w"
  ne_search :: "(string \<Rightarrow> int \<Rightarrow> 'w \<Rightarrow> (string + Slice list) \<times> 'w) option"
  ne_graph :: "('w \<Rightarrow> graph_db) option"
  ne_rowOrder :: "Edge list \<Rightarrow> Edge list"
  ne_Recipes :: "'w Runner option"
  ne_probes :: "'w \<Rightarrow> probes"
  ne_files :: "'w FileOps"
  ne_tree :: "string \<Rightarrow> 'w \<Rightarrow> tnode list option"
  ne_sha256 :: "string \<Rightarrow> string"
  ne_tx :: "'w \<Rightarrow> (bool \<times> int) \<times> 'w"
  ne_ctxErr :: "'w \<Rightarrow> string option"
  ne_MaxSteps :: int
  ne_MaxTools :: int
  ne_MaxTokens :: int
  ne_ContextTokens :: int
  ne_fence :: Fence
  ne_system :: string
  ne_args :: "string \<Rightarrow> args_json"
  ne_canon :: "string \<Rightarrow> string option"
  ne_attrs :: "string \<Rightarrow> (string \<times> string) option"
  ne_denialText :: "denial \<Rightarrow> string"
  ne_wtText :: "wt_error \<Rightarrow> string"
  ne_graphText :: "graph_error \<Rightarrow> string"
  ne_quote :: "string \<Rightarrow> string"
  ne_planText :: "Plan \<Rightarrow> string"
  ne_intent :: "string \<Rightarrow> int \<Rightarrow> ToolCall \<Rightarrow> denial option \<Rightarrow> string"
  ne_unintent :: "string \<Rightarrow> (string \<times> int \<times> string \<times> string) option"
  ne_result :: "ToolResult \<Rightarrow> string"
  ne_unresult :: "string \<Rightarrow> ToolResult option"

definition native_tools :: "'w NativeEngine \<Rightarrow> ToolDef list" where
  "native_tools e = Definitions (ne_MaxTools e) \<lparr>wi_Retrieval = ne_search e \<noteq> None, wi_Graph = ne_graph e \<noteq> None, wi_Recipes = ne_Recipes e \<noteq> None\<rparr>"

section \<open>File tools\<close>

definition MaxReadLines :: int where "MaxReadLines = 400"
definition MaxToolOutput :: nat where "MaxToolOutput = 8000"

definition cap_output :: "string \<Rightarrow> string" where
  "cap_output s = (if length s \<le> MaxToolOutput then s
     else take MaxToolOutput s @ [newline, CHR 0xE2, CHR 0x80, CHR 0xA6] @ '' (output truncated)'')"

lemma cap_output_code [code]:
  "cap_output s = (if exceeds 8000 s then int_take 8000 s @ [newline, CHR 0xE2, CHR 0x80, CHR 0xA6] @ '' (output truncated)'' else s)"
  by (simp add: cap_output_def exceeds_iff int_take_eq MaxToolOutput_def)

definition outside_error :: "wt_error \<Rightarrow> bool" where
  "outside_error e = (e \<in> {OutsideEmpty, OutsideAbsolute, OutsideRoot, OutsideViaSymlink, OutsideDangling})"

definition numbered_lines :: "string list \<Rightarrow> int \<Rightarrow> int \<Rightarrow> string" where
  "numbered_lines ls start stop' =
     concat (map (\<lambda>i. showInt i @ [CHR 0x09] @ ls ! nat (i - 1) @ [newline]) [start..stop'])"

definition read_range :: "string \<Rightarrow> string \<Rightarrow> int \<Rightarrow> int \<Rightarrow> ToolResult" where
  "read_range rel body s0 e0 =
     (let ls = splitOn newline (trimRightByte newline body);
          n = int (length ls);
          start = (if s0 \<le> 0 then 1 else s0);
          e1 = (if e0 \<le> 0 \<or> e0 > n then n else e0)
      in if start > n then failed_result (rel @ '' has '' @ showInt n @ '' lines; start_line '' @ showInt start @ '' is past the end.'')
         else let over = e1 - start + 1 > MaxReadLines; stop' = (if over then start + MaxReadLines - 1 else e1)
              in ok_result (cap_output (rel @ '' lines '' @ showInt start @ ''-'' @ showInt stop' @ '' of '' @ showInt n @ '':'' @ [newline] @
                   numbered_lines ls start stop' @
                   (if over then [newline] @ ''(stopped at '' @ showInt MaxReadLines @ '' lines; read the next range if you need more)'' @ [newline] else []))))"

definition tool_readFile :: "'w NativeEngine \<Rightarrow> string \<Rightarrow> (string \<times> jval) list \<Rightarrow> 'w \<Rightarrow> ToolResult" where
  "tool_readFile e wt args w =
     (let rel = arg_str args ''path'' in
      case ReadWithin (fo_fs (ne_files e) w) (fo_readFile (ne_files e) w) wt rel of
        Inl err \<Rightarrow> failed_result (if outside_error err then ne_wtText e err
                     else if err = FsErr NotExist then rel @ '' does not exist. Use list_files to see what is there.''
                     else ''could not read '' @ rel @ '': '' @ ne_wtText e err)
      | Inr body \<Rightarrow> read_range rel body (arg_num args ''start_line'') (arg_num args ''end_line''))"

definition tool_writeFile :: "'w NativeEngine \<Rightarrow> string \<Rightarrow> (string \<times> jval) list \<Rightarrow> 'w \<Rightarrow> ToolResult \<times> 'w" where
  "tool_writeFile e wt args w =
     (let rel = arg_str args ''path''; content = arg_str args ''content''; fo = ne_files e in
      case StatWithin (fo_fs fo w) (fo_stat fo w) wt rel of
        Inr _ \<Rightarrow> (failed_result (rel @ '' already exists. Use edit_file to change part of it; write_file replaces the whole file and would discard anything you have not read.''), w)
      | Inl _ \<Rightarrow>
          (case WriteWithin (fo_fs fo w) (fo_mkdirs fo) (fo_writeFile fo) wt rel content w of
             (Some err, w') \<Rightarrow> (failed_result (ne_wtText e err), w')
           | (None, w') \<Rightarrow> ((ok_result (''Wrote '' @ rel @ '' ('' @ showNat (length content) @ '' bytes).''))\<lparr>tq_Edited := True\<rparr>, w')))"

text \<open>\<^verbatim>\<open>strings.Count\<close> and \<^verbatim>\<open>strings.Replace\<close> with one replacement, for a non-empty string to find.\<close>

fun countStr :: "string \<Rightarrow> string \<Rightarrow> nat" where
  "countStr old [] = 0"
| "countStr old (c # s) = (if hasPrefix (c # s) old then Suc (countStr old (drop (length old - 1) s)) else countStr old s)"

fun replaceFirst :: "string \<Rightarrow> string \<Rightarrow> string \<Rightarrow> string" where
  "replaceFirst old new [] = []"
| "replaceFirst old new (c # s) = (if hasPrefix (c # s) old then new @ drop (length old) (c # s) else c # replaceFirst old new s)"

datatype edit_answer = EmptyOld | NotFound | Ambiguous nat | Edited string

definition edit_text :: "string \<Rightarrow> string \<Rightarrow> string \<Rightarrow> edit_answer" where
  "edit_text old new txt =
     (if old = [] then EmptyOld
      else let n = countStr old txt in
        if n = 0 then NotFound else if n > 1 then Ambiguous n else Edited (replaceFirst old new txt))"

definition tool_editFile :: "'w NativeEngine \<Rightarrow> string \<Rightarrow> (string \<times> jval) list \<Rightarrow> 'w \<Rightarrow> ToolResult \<times> 'w" where
  "tool_editFile e wt args w =
     (let rel = arg_str args ''path''; fo = ne_files e in
      case ReadWithin (fo_fs fo w) (fo_readFile fo w) wt rel of
        Inl err \<Rightarrow> (failed_result (if outside_error err then ne_wtText e err
                      else if err = FsErr NotExist then rel @ '' does not exist. Use write_file to create it.''
                      else ''could not read '' @ rel @ '': '' @ ne_wtText e err), w)
      | Inr body \<Rightarrow>
          (case edit_text (arg_str args ''old'') (arg_str args ''new'') body of
             EmptyOld \<Rightarrow> (failed_result ''The old string is empty. Give the exact text to replace.'', w)
           | NotFound \<Rightarrow> (failed_result (''That exact text does not appear in '' @ rel @ ''. Read the file first: whitespace and indentation must match exactly.''), w)
           | Ambiguous n \<Rightarrow> (failed_result (''That text appears '' @ showNat n @ '' times in '' @ rel @
                              ''. Include more surrounding context so it identifies exactly one place.''), w)
           | Edited txt \<Rightarrow>
               (case WriteWithin (fo_fs fo w) (fo_mkdirs fo) (fo_writeFile fo) wt rel txt w of
                  (Some err, w') \<Rightarrow> (failed_result (ne_wtText e err), w')
                | (None, w') \<Rightarrow> ((ok_result (''Edited '' @ rel @ ''.''))\<lparr>tq_Edited := True\<rparr>, w'))))"

definition tool_listFiles :: "'w NativeEngine \<Rightarrow> string \<Rightarrow> (string \<times> jval) list \<Rightarrow> 'w \<Rightarrow> ToolResult" where
  "tool_listFiles e wt args w =
     (let rel = (if arg_str args ''dir'' = [] then ''.'' else arg_str args ''dir'') in
      case ListWithin (fo_fs (ne_files e) w) (fo_readDir (ne_files e) w) wt rel of
        Inl err \<Rightarrow> failed_result (if outside_error err then ne_wtText e err else ''could not list '' @ rel @ '': '' @ ne_wtText e err)
      | Inr entries \<Rightarrow>
          (let shown = filter (\<lambda>(n, _). n \<notin> {''.git'', ''.le'', ''node_modules''}) entries;
               dirs = sortStrings (map (\<lambda>(n, _). n @ ''/'') (filter snd shown));
               files = sortStrings (map fst (filter (\<lambda>x. \<not> snd x) shown))
           in ok_result (cap_output (rel @ '':'' @ [newline] @ concat (map (\<lambda>d. ''  '' @ d @ [newline]) (dirs @ files))))))"

section \<open>Tools over the index and the checks\<close>

definition firstLine :: "string \<Rightarrow> string" where
  "firstLine s = (case find (\<lambda>l. l \<noteq> []) (map trimSpace (splitOn newline s)) of None \<Rightarrow> [] | Some l \<Rightarrow> l)"

definition slice_lines :: "Slice \<Rightarrow> string" where
  "slice_lines s = sl_Path s @ '':'' @ showInt (sl_StartLine s) @ ''-'' @ showInt (sl_EndLine s) @ [newline] @
     (let body = trimSpace (sl_Body s) in if body \<noteq> [] then ''  '' @ firstLine body @ [newline] else [])"

definition tool_search :: "'w NativeEngine \<Rightarrow> (string \<times> jval) list \<Rightarrow> 'w \<Rightarrow> ToolResult \<times> 'w" where
  "tool_search e args w =
     (case ne_search e of
        None \<Rightarrow> (failed_result ''Search is unavailable: the repository is not indexed.'', w)
      | Some build \<Rightarrow>
          (let l0 = arg_num args ''limit''; limit = (if l0 \<le> 0 \<or> l0 > 25 then 10 else l0) in
           case build (arg_str args ''query'') limit w of
             (Inl err, w') \<Rightarrow> (failed_result (''search failed: '' @ err), w')
           | (Inr slices, w') \<Rightarrow>
               (if slices = [] then (ok_result ''No matches. Try a different term, or find_symbol for a known name.'', w')
                else (ok_result (cap_output (concat (map slice_lines slices))), w'))))"

definition symbol_lines :: "Node \<Rightarrow> string" where
  "symbol_lines n =
     (if sensitive (nd_Path n) then []
      else nd_Kind n @ '' '' @ nd_FQN n @ [newline] @ ''  '' @ nd_Path n @ '':'' @ showInt (nd_StartLine n) @ [newline] @
           (if nd_Signature n \<noteq> [] then ''  '' @ nd_Signature n @ [newline] else []))"

definition tool_findSymbol :: "'w NativeEngine \<Rightarrow> (string \<times> jval) list \<Rightarrow> 'w \<Rightarrow> ToolResult" where
  "tool_findSymbol e args w =
     (case ne_graph e of
        None \<Rightarrow> failed_result ''Symbol lookup is unavailable: the repository is not indexed.''
      | Some g \<Rightarrow>
          (case NodesByName (g w) (arg_str args ''name'') [] 20 of
             Inl err \<Rightarrow> failed_result (''lookup failed: '' @ ne_graphText e err)
           | Inr nodes \<Rightarrow>
               if nodes = [] then ok_result (''No indexed symbol named '' @ ne_quote e (arg_str args ''name'') @ ''. Try search_code.'')
               else ok_result (cap_output (concat (map symbol_lines nodes)))))"

definition padRight :: "nat \<Rightarrow> string \<Rightarrow> string" where
  "padRight n s = s @ replicate (n - length s) CHR '' ''"

definition compat_name :: "Compat \<Rightarrow> string" where
  "compat_name c = (case c of Breaking \<Rightarrow> ''breaking'' | Compiles \<Rightarrow> ''compiles_behaviour_may_differ'' | Compatible \<Rightarrow> ''compatible'' | Undetermined \<Rightarrow> ''undetermined'')"

definition consumer_lines :: "Consumer \<Rightarrow> string" where
  "consumer_lines c = padRight 12 (compat_name (co_Verdict c)) @ '' '' @ padRight 10 (evidence_name (co_Evidence c)) @ '' '' @ nd_FQN (co_Node c) @ [newline] @
     (if co_Migration c \<noteq> [] then ''    '' @ co_Migration c @ [newline] else [])"

definition tool_impact :: "'w NativeEngine \<Rightarrow> (string \<times> jval) list \<Rightarrow> 'w \<Rightarrow> ToolResult" where
  "tool_impact e args w =
     (case ne_graph e of
        None \<Rightarrow> failed_result ''Impact analysis is unavailable: the repository is not indexed.''
      | Some g \<Rightarrow>
          (case ParseChangeKind (arg_str args ''change'') of
             Inl err \<Rightarrow> failed_result (ne_graphText e err)
           | Inr kind \<Rightarrow>
               (case NodesByName (g w) (arg_str args ''symbol'') [] 20 of
                  Inl err \<Rightarrow> failed_result (''lookup failed: '' @ ne_graphText e err)
                | Inr nodes \<Rightarrow>
                    if nodes = [] then ok_result (''No indexed symbol named '' @ ne_quote e (arg_str args ''symbol'') @ ''.'')
                    else (case ImpactOf (ne_rowOrder e) (g w) (map nd_ID nodes) kind of
                            Inl err \<Rightarrow> failed_result (''impact analysis failed: '' @ ne_graphText e err)
                          | Inr imp0 \<Rightarrow>
                              (let imp = PublicImpact imp0 in
                               ok_result (cap_output (impact_Summary imp @ [newline, newline] @
                                 concat (map consumer_lines (take 25 (im_Consumers imp))) @ [newline] @ ImpactCaveat @ [newline])))))))"

definition finding_line :: "Finding \<Rightarrow> string" where
  "finding_line f =
     (let loc = (if Line f > 0 then File f @ '':'' @ showInt (Line f) else File f);
          loc' = (if Test f \<noteq> [] then trimSpace (loc @ '' '' @ Test f) else loc)
      in ''  '' @ loc' @ '' '' @ Message f @ [newline])"

definition describe_result :: "Result \<Rightarrow> string" where
  "describe_result res =
     result_line res @ [newline] @ (if res_Err res \<noteq> [] then res_Err res @ [newline] else []) @
     concat (map finding_line (Findings (res_Summary res))) @
     (if Truncated (res_Summary res) then ''  (more findings omitted)'' @ [newline] else [])"

fun run_presets :: "'w Runner \<Rightarrow> probes \<Rightarrow> string \<Rightarrow> Preset list \<Rightarrow> string \<times> bool \<Rightarrow> 'w \<Rightarrow> (string \<times> bool) \<times> 'w" where
  "run_presets rn pr wt [] acc w = (acc, w)"
| "run_presets rn pr wt (p # ps) (txt, bad) w =
     (case Run rn (preset_Recipe pr p) wt [] w of
        (res, w') \<Rightarrow> run_presets rn pr wt ps (txt @ describe_result res, bad \<or> res_Status res \<noteq> Pass) w')"

definition tool_runRecipe :: "'w NativeEngine \<Rightarrow> string \<Rightarrow> (string \<times> jval) list \<Rightarrow> Preset list \<Rightarrow> 'w \<Rightarrow> ToolResult \<times> 'w" where
  "tool_runRecipe e wt args presets w =
     (let want = arg_str args ''kind'' in
      case ne_Recipes e of
        None \<Rightarrow> (failed_result ''Verification is unavailable in this step.'', w)
      | Some rn \<Rightarrow>
          if presets \<noteq> [] then
            (case run_presets rn (ne_probes e w) wt (filter (\<lambda>p. kind_name (pre_Kind p) = want) presets) ([], False) w of
               ((txt, bad), w') \<Rightarrow>
                 if txt = [] then (failed_result (''No frozen preset of kind '' @ ne_quote e want), w')
                 else ((ok_result (cap_output txt))\<lparr>tq_Failed := bad\<rparr>, w'))
          else (case find (\<lambda>r. kind_name (rec_Kind r) = want) (GoRecipes (ne_probes e w) High) of
                  None \<Rightarrow> (failed_result (''No '' @ ne_quote e want @ '' verification is available here. Try build, vet or test.''), w)
                | Some r \<Rightarrow>
                    (case Run rn r wt [] w of
                       (res, w') \<Rightarrow> ((ok_result (cap_output (describe_result res)))\<lparr>tq_Failed := (res_Status res = Fail)\<rparr>, w'))))"

definition dot_sep :: string where "dot_sep = [CHR '' '', CHR 0xC2, CHR 0xB7, CHR '' '']"

definition commitDetail :: "'w NativeEngine \<Rightarrow> Node \<Rightarrow> string" where
  "commitDetail e n =
     joinWith dot_sep
       ((if nd_Signature n \<noteq> [] then [nd_Signature n] else []) @
        (if nd_Attrs n = [] then []
         else case ne_attrs e (nd_Attrs n) of
                None \<Rightarrow> []
              | Some (author, when) \<Rightarrow> (if author \<noteq> [] then [author] else []) @ (if when \<noteq> [] then [take 10 when] else [])))"

definition firstNonEmpty :: "string \<Rightarrow> string \<Rightarrow> string" where
  "firstNonEmpty a b = (if a \<noteq> [] then a else b)"

text \<open>The commits of one node, while fewer than \<open>limit\<close> were shown; an edge whose commit cannot be read is passed over.\<close>

fun commit_lines :: "'w NativeEngine \<Rightarrow> graph_db \<Rightarrow> int \<Rightarrow> Edge list \<Rightarrow> string \<times> int \<Rightarrow> string \<times> int" where
  "commit_lines e g limit [] acc = acc"
| "commit_lines e g limit (ed # eds) (txt, shown) =
     (if shown \<ge> limit then (txt, shown)
      else case get_node g (ed_Src ed) of
             Inl _ \<Rightarrow> commit_lines e g limit eds (txt, shown)
           | Inr c \<Rightarrow> commit_lines e g limit eds (txt @ ''  '' @ nd_Name c @ '' '' @ commitDetail e c @ [newline], shown + 1))"

fun touched_lines :: "'w NativeEngine \<Rightarrow> graph_db \<Rightarrow> int \<Rightarrow> Node list \<Rightarrow> string \<times> int \<Rightarrow> graph_error + string \<times> int" where
  "touched_lines e g limit [] acc = Inr acc"
| "touched_lines e g limit (n # ns) (txt, shown) =
     (if sensitive (nd_Path n) then touched_lines e g limit ns (txt, shown)
      else case Neighbors g (nd_ID n) Reverse [EdgeTouches] of
             Inl err \<Rightarrow> Inl err
           | Inr eds \<Rightarrow>
               if eds = [] then touched_lines e g limit ns (txt, shown)
               else (case commit_lines e g limit eds (txt @ nd_Path n @ [newline] @ (if nd_Path n = [] then nd_FQN n @ [newline] else []), shown) of
                       (txt', shown') \<Rightarrow> if shown' \<ge> limit then Inr (txt', shown') else touched_lines e g limit ns (txt', shown')))"

definition touch_target :: "string \<Rightarrow> string \<Rightarrow> string \<times> string list" where
  "touch_target path sname =
     (if sname \<noteq> [] then (sname, [''function'', ''method'', ''type'', ''class'', ''interface''])
      else (last (splitOn slash path), [''file'']))"

definition tool_gitTouch :: "'w NativeEngine \<Rightarrow> (string \<times> jval) list \<Rightarrow> 'w \<Rightarrow> ToolResult" where
  "tool_gitTouch e args w =
     (case ne_graph e of
        None \<Rightarrow> failed_result ''Commit history is unavailable: the repository is not indexed.''
      | Some g \<Rightarrow>
          (let path = arg_str args ''path''; sname = arg_str args ''symbol''; l0 = arg_num args ''limit''; limit = (if l0 \<le> 0 \<or> l0 > 50 then 10 else l0) in
           if path = [] \<and> sname = [] then failed_result ''Give either a path or a symbol.''
           else case NodesByName (g w) (fst (touch_target path sname)) (snd (touch_target path sname)) 5 of
                  Inl err \<Rightarrow> failed_result (''history lookup failed: '' @ ne_graphText e err)
                | Inr nodes \<Rightarrow>
                    if nodes = [] then failed_result (''Nothing indexed under '' @ ne_quote e (firstNonEmpty path sname) @ ''. Use list_files or find_symbol first.'')
                    else (case touched_lines e (g w) limit nodes ([], 0) of
                            Inl err \<Rightarrow> failed_result (''history lookup failed: '' @ ne_graphText e err)
                          | Inr (txt, shown) \<Rightarrow>
                              if shown = 0 then ok_result (''No commit history is indexed for '' @ firstNonEmpty path sname @
                                ''. The gitlog analyzer records it; a shallow clone has none to record.'')
                              else ok_result (trimRightByte newline txt))))"

section \<open>Executing a call\<close>

definition native_execute :: "'w NativeEngine \<Rightarrow> string \<Rightarrow> Preset list \<Rightarrow> ToolCall \<Rightarrow> 'w \<Rightarrow> ToolResult \<times> 'w" where
  "native_execute e wt presets call w =
     (case (if tc_Arguments call = [] then ArgsJson [] else ne_args e (tc_Arguments call)) of
        BadJson err \<Rightarrow> (failed_result (''Your arguments were not valid JSON ('' @ err @ ''). Send the arguments as a JSON object matching the tool's schema.''), w)
      | parsed \<Rightarrow>
          (let name = tc_Name call; args = (case parsed of ArgsJson a \<Rightarrow> a | _ \<Rightarrow> []) in
           if name = ToolReadFile then (tool_readFile e wt args w, w)
           else if name = ToolWriteFile then tool_writeFile e wt args w
           else if name = ToolEditFile then tool_editFile e wt args w
           else if name = ToolListFiles then (tool_listFiles e wt args w, w)
           else if name = ToolSearch then tool_search e args w
           else if name = ToolFindSymbol then (tool_findSymbol e args w, w)
           else if name = ToolImpact then (tool_impact e args w, w)
           else if name = ToolRunRecipe then tool_runRecipe e wt args presets w
           else if name = ToolGitTouch then (tool_gitTouch e args w, w)
           else if name = ToolDone then ((ok_result ''Recorded.'')\<lparr>tq_Done := True, tq_Summary := arg_str args ''summary''\<rparr>, w)
           else (failed_result (''There is no tool named '' @ ne_quote e name @ ''. Available tools: '' @ joinWith '', '' (ToolNames (native_tools e)) @ ''.''), w)))"

definition native_authorize :: "'w NativeEngine \<Rightarrow> Access \<Rightarrow> string \<Rightarrow> ToolCall \<Rightarrow> 'w \<Rightarrow> denial option" where
  "native_authorize e acc wt call w =
     authorize (native_tools e) acc (fo_fs (ne_files e) w) wt (tc_Name call) (ne_args e (tc_Arguments call))"

text \<open>What \<^verbatim>\<open>exec\<close> does with a call between its two journal entries: nothing when the call was denied.\<close>

definition perform :: "'w NativeEngine \<Rightarrow> denial option \<Rightarrow> string \<Rightarrow> Preset list \<Rightarrow> ToolCall \<Rightarrow> 'w \<Rightarrow> ToolResult \<times> 'w" where
  "perform e d wt presets call w =
     (case d of
        Some why \<Rightarrow> ((failed_result (''firewall: '' @ ne_denialText e why))\<lparr>tq_Invalid := True\<rparr>, w)
      | None \<Rightarrow> native_execute e wt presets call w)"

section \<open>Only an authorised call changes the worktree\<close>

lemma WriteWithin_world:
  assumes "WriteWithin fs mk wr wt rel body w = (r, w')" and "w' \<noteq> w"
  shows "\<exists>full. Resolve fs wt rel = Inr full \<and> w' \<in> {snd (mk (dirPath full) w), snd (wr full body (snd (mk (dirPath full) w)))}"
  using assms by (auto simp: WriteWithin_def split: sum.splits prod.splits option.splits)

lemma tool_writeFile_world:
  assumes "tool_writeFile e wt args w = (res, w')" and "w' \<noteq> w"
  shows "\<exists>r. WriteWithin (fo_fs (ne_files e) w) (fo_mkdirs (ne_files e)) (fo_writeFile (ne_files e)) wt (arg_str args ''path'') (arg_str args ''content'') w = (r, w')"
  using assms by (auto simp: tool_writeFile_def Let_def split: sum.splits prod.splits option.splits)

lemma tool_editFile_world:
  assumes "tool_editFile e wt args w = (res, w')" and "w' \<noteq> w"
  shows "\<exists>txt r. WriteWithin (fo_fs (ne_files e) w) (fo_mkdirs (ne_files e)) (fo_writeFile (ne_files e)) wt (arg_str args ''path'') txt w = (r, w')"
  using assms by (auto simp: tool_editFile_def Let_def split: sum.splits prod.splits option.splits edit_answer.splits)

lemma find_found: "find P xs = Some x \<Longrightarrow> P x \<and> x \<in> set xs"
  by (auto simp: find_Some_iff)

lemma authorize_NoneD:
  assumes "authorize tools acc fs wt name parsed = None"
  shows "name \<in> td_Name ` set tools \<and> (\<exists>args. parsed = ArgsJson args \<and> path_denial acc fs wt name args = None)"
proof -
  from assms obtain def where "find (\<lambda>t. td_Name t = name) tools = Some def"
    by (cases "find (\<lambda>t. td_Name t = name) tools") (auto simp: authorize_def)
  from find_found [OF this] this assms show ?thesis
    by (auto simp: authorize_def split: args_json.splits option.splits)
qed

definition external_tools :: "string set" where "external_tools = {ToolSearch, ToolRunRecipe}"

lemma native_execute_world:
  assumes "native_execute e wt presets call w = (res, w')" and "w' \<noteq> w" and "ne_args e (tc_Arguments call) = ArgsJson args"
    and "tc_Arguments call \<noteq> []" and "tc_Name call \<notin> external_tools"
  shows "tc_Name call \<in> {ToolWriteFile, ToolEditFile} \<and>
    (\<exists>txt r. WriteWithin (fo_fs (ne_files e) w) (fo_mkdirs (ne_files e)) (fo_writeFile (ne_files e)) wt (arg_str args ''path'') txt w = (r, w'))"
  using assms tool_writeFile_world [of e wt args w res w'] tool_editFile_world [of e wt args w res w']
  by (fastforce simp: native_execute_def Let_def external_tools_def split: if_splits)

text \<open>
  C12. A tool call changes the world only where it was allowed to.  Leave aside the two tools whose work is
  another component's (the search and the verification run, which is sandboxed).  If performing a call
  changes anything, the call is an advertised write or edit with well-formed arguments, the editor's access
  check let its path through for writing, and all that happened is the creation of the directories and the
  write of the one file that path resolves to inside the checkout.  A denied call changes nothing.
\<close>

theorem tool_change_authorised:
  assumes "perform e (native_authorize e acc wt call w) wt presets call w = (res, w')" and "w' \<noteq> w"
    and "tc_Arguments call \<noteq> []" and "tc_Name call \<notin> external_tools"
  shows "tc_Name call \<in> td_Name ` set (native_tools e) \<inter> {ToolWriteFile, ToolEditFile} \<and>
    (\<exists>args full txt. ne_args e (tc_Arguments call) = ArgsJson args \<and>
       access_Check acc (fo_fs (ne_files e) w) wt (arg_str args ''path'') True = None \<and>
       Resolve (fo_fs (ne_files e) w) wt (arg_str args ''path'') = Inr full \<and>
       w' \<in> {snd (fo_mkdirs (ne_files e) (dirPath full) w),
              snd (fo_writeFile (ne_files e) full txt (snd (fo_mkdirs (ne_files e) (dirPath full) w)))})"
proof -
  have none: "native_authorize e acc wt call w = None"
    using assms(1,2) by (cases "native_authorize e acc wt call w") (auto simp: perform_def)
  from authorize_NoneD [OF this [unfolded native_authorize_def]] obtain args
    where adv: "tc_Name call \<in> td_Name ` set (native_tools e)" and args: "ne_args e (tc_Arguments call) = ArgsJson args"
      and path: "path_denial acc (fo_fs (ne_files e) w) wt (tc_Name call) args = None" by blast
  have "native_execute e wt presets call w = (res, w')" using assms(1) none by (simp add: perform_def)
  from native_execute_world [OF this assms(2) args assms(3,4)] obtain newText r
    where name: "tc_Name call \<in> {ToolWriteFile, ToolEditFile}"
      and wr: "WriteWithin (fo_fs (ne_files e) w) (fo_mkdirs (ne_files e)) (fo_writeFile (ne_files e)) wt (arg_str args ''path'') newText w = (r, w')"
    by blast
  from name path have "access_Check acc (fo_fs (ne_files e) w) wt (arg_str args ''path'') True = None"
    by (auto simp: path_denial_def tool_names)
  with WriteWithin_world [OF wr assms(2)] adv name args show ?thesis by blast
qed

text \<open>A concrete engine for the instances below: no index, one file, a world that is the list of the writes made.\<close>

definition demo_args :: "string \<Rightarrow> args_json" where
  "demo_args s =
     (if s = ''w'' then ArgsJson [(''path'', JStr ''lib/x.go''), (''content'', JStr ''package x'')]
      else if s = ''e'' then ArgsJson [(''path'', JStr ''src/a.go''), (''old'', JStr ''1''), (''new'', JStr ''2'')]
      else if s = ''p'' then ArgsJson [(''path'', JStr ''ci/x.go''), (''content'', JStr ''x'')]
      else if s = ''d'' then ArgsJson [(''summary'', JStr ''ok'')]
      else BadJson ''unexpected end'')"

definition demo_files :: "(string \<times> string) list FileOps" where
  "demo_files = \<lparr>fo_fs = (\<lambda>_. demo_fs), fo_readFile = (\<lambda>w p. case map_of w p of Some b \<Rightarrow> Inr b | None \<Rightarrow> if p = ''/w/src/a.go'' then Inr ''x = 1'' else Inl NotExist),
     fo_stat = (\<lambda>w p. if p \<in> fst ` set w \<or> p = ''/w/src/a.go'' then Inr () else Inl NotExist), fo_readDir = (\<lambda>w p. Inr []),
     fo_mkdirs = (\<lambda>p w. (None, w)), fo_writeFile = (\<lambda>p b w. (None, (p, b) # w))\<rparr>"

definition demo_engine :: "(string \<times> string) list NativeEngine" where
  "demo_engine = \<lparr>ne_chat = (\<lambda>ms ts lim rz w. (Inr \<lparr>ch_Content = [], ch_Reasoning = [], ch_ToolCalls =
         [if length ms = 2 then \<lparr>tc_ID = ''1'', tc_Name = ToolEditFile, tc_Arguments = ''e''\<rparr> else \<lparr>tc_ID = ''2'', tc_Name = ToolDone, tc_Arguments = ''d''\<rparr>],
         ch_PromptTokens = 10, ch_OutputTokens = 5, ch_FinishReason = ''tool_calls''\<rparr>, w)),
     ne_search = None, ne_graph = None, ne_rowOrder = id, ne_Recipes = None, ne_probes = (\<lambda>_. demo_probes), ne_files = demo_files,
     ne_tree = (\<lambda>_ w. Some []), ne_sha256 = id, ne_tx = (\<lambda>w. ((True, 7), w)), ne_ctxErr = (\<lambda>_. None), ne_MaxSteps = 20, ne_MaxTools = 0, ne_MaxTokens = 100,
     ne_ContextTokens = 0, ne_fence = \<lparr>fc_nonce = replicate 24 CHR ''a''\<rparr>, ne_system = ''system'', ne_args = demo_args, ne_canon = (\<lambda>_. None), ne_attrs = (\<lambda>_. None),
     ne_denialText = (\<lambda>_. ''denied''), ne_wtText = (\<lambda>_. ''outside''), ne_graphText = (\<lambda>_. []), ne_quote = id, ne_planText = (\<lambda>_. []),
     ne_intent = (\<lambda>s n c d. ''intent''), ne_unintent = (\<lambda>_. None), ne_result = (\<lambda>r. ''result''), ne_unresult = (\<lambda>_. None)\<rparr>"

definition demo_write :: ToolCall where
  "demo_write = \<lparr>tc_ID = ''1'', tc_Name = ToolWriteFile, tc_Arguments = ''w''\<rparr>"

lemma demo_perform:
  "perform demo_engine (native_authorize demo_engine demo_access ''/w'' demo_write []) ''/w'' [] demo_write [] =
   (ok_result ''Wrote lib/x.go (9 bytes).''\<lparr>tq_Edited := True\<rparr>, [(''/w/src/x.go'', ''package x'')])"
  by code_simp

theorem tool_change_authorised_witness:
  "snd (perform demo_engine (native_authorize demo_engine demo_access ''/w'' demo_write []) ''/w'' [] demo_write []) = [(''/w/src/x.go'', ''package x'')] \<and>
   access_Check demo_access demo_fs ''/w'' ''lib/x.go'' True = None"
proof -
  have n: "tc_Arguments demo_write \<noteq> []" "tc_Name demo_write \<notin> external_tools"
    by (simp_all add: demo_write_def external_tools_def tool_names)
  have a: "ne_args demo_engine (tc_Arguments demo_write) = ArgsJson [(''path'', JStr ''lib/x.go''), (''content'', JStr ''package x'')]"
    and f: "fo_fs (ne_files demo_engine) [] = demo_fs"
    by (simp_all add: demo_engine_def demo_write_def demo_args_def demo_files_def)
  from tool_change_authorised [OF demo_perform _ n] a f show ?thesis by (auto simp: arg_str_def demo_perform)
qed

section \<open>An edit replaces the one place found\<close>

text \<open>\<open>first_at old pre post\<close>: the leftmost occurrence of \<open>old\<close> in \<open>pre @ old @ post\<close> is the one after \<open>pre\<close>.\<close>

definition first_at :: "string \<Rightarrow> string \<Rightarrow> string \<Rightarrow> bool" where
  "first_at old pre post = (\<forall>i \<in> {..<length pre}. \<not> hasPrefix (drop i (pre @ old @ post)) old)"

lemma first_at_Nil [simp]: "first_at old [] post"
  by (simp add: first_at_def)

lemma first_at_Cons [simp]: "first_at old (c # pre) post \<longleftrightarrow> \<not> hasPrefix (c # pre @ old @ post) old \<and> first_at old pre post"
  by (auto simp: first_at_def less_Suc_eq_0_disj lessThan_Suc_eq_insert_0)

lemma first_at_exists: "sublist old s \<Longrightarrow> \<exists>pre post. s = pre @ old @ post \<and> first_at old pre post"
proof (induction s)
  case (Cons c s)
  show ?case
  proof (cases "hasPrefix (c # s) old")
    case True
    then obtain t where "c # s = old @ t" by (auto simp: hasPrefix_iff)
    then show ?thesis by (intro exI [of _ "[]"] exI [of _ t]) auto
  next
    case False
    then have "sublist old s" using Cons.prems by (auto simp: sublist_Cons_right prefix_def hasPrefix_iff)
    with Cons.IH obtain pre post where "s = pre @ old @ post" "first_at old pre post" by blast
    with False show ?thesis by (intro exI [of _ "c # pre"] exI [of _ post]) auto
  qed
qed auto

lemma countStr_append: "old \<noteq> [] \<Longrightarrow> countStr old (old @ post) = Suc (countStr old post)"
proof (cases old)
  case (Cons a list)
  then show ?thesis using hasPrefix_append [of old post] by simp
qed simp

lemma replaceFirst_append: "old \<noteq> [] \<Longrightarrow> replaceFirst old new (old @ post) = new @ post"
proof (cases old)
  case (Cons a list)
  then show ?thesis using hasPrefix_append [of old post] by simp
qed simp

lemma at_first:
  assumes "old \<noteq> []"
  shows countStr_first: "first_at old pre post \<Longrightarrow> countStr old (pre @ old @ post) = Suc (countStr old post)"
    and replaceFirst_first: "first_at old pre post \<Longrightarrow> replaceFirst old new (pre @ old @ post) = pre @ new @ post"
  by (induction pre) (use assms in \<open>auto simp: countStr_append replaceFirst_append\<close>)

lemma countStr_zero: "old \<noteq> [] \<Longrightarrow> countStr old s = 0 \<longleftrightarrow> \<not> sublist old s"
proof
  assume "old \<noteq> []" "countStr old s = 0"
  then show "\<not> sublist old s" using first_at_exists [of old s] countStr_first [of old] by fastforce
next
  assume "old \<noteq> []" "\<not> sublist old s"
  then show "countStr old s = 0" by (induction s) (auto simp: sublist_Cons_right prefix_def hasPrefix_iff)
qed

lemma first_at_unique:
  assumes "first_at old pre post" and "first_at old pre' post'" and eq: "pre @ old @ post = pre' @ old @ post'"
  shows "pre' = pre \<and> post' = post"
proof -
  have "length pre = length pre'"
  proof (rule linorder_cases [of "length pre" "length pre'"])
    assume "length pre < length pre'"
    then have "\<not> hasPrefix (drop (length pre) (pre @ old @ post)) old" using assms by (auto simp: first_at_def)
    then show ?thesis by simp
  next
    assume "length pre' < length pre"
    then have "\<not> hasPrefix (drop (length pre') (pre' @ old @ post')) old" using assms(1) eq [symmetric] by (auto simp: first_at_def)
    then show ?thesis by simp
  qed simp
  with eq show ?thesis by auto
qed

text \<open>
  An edit is applied exactly when the old text is not empty and occurs with nothing left of it once the
  leftmost occurrence is taken away; the new text then stands in the place of that occurrence and
  everything before and after it is kept, byte for byte.
\<close>

theorem edit_exact:
  "edit_text old new body = Edited body' \<longleftrightarrow>
   old \<noteq> [] \<and> (\<exists>pre post. body = pre @ old @ post \<and> first_at old pre post \<and> \<not> sublist old post \<and> body' = pre @ new @ post)"
proof (cases "old \<noteq> [] \<and> sublist old body")
  case True
  then obtain pre post where s: "body = pre @ old @ post" "first_at old pre post" using first_at_exists by blast
  have "edit_text old new body = Edited body' \<longleftrightarrow> \<not> sublist old post \<and> body' = pre @ new @ post"
    using True s countStr_first [OF _ s(2)] replaceFirst_first [OF _ s(2), of new] countStr_zero [of old post]
    by (auto simp: edit_text_def Let_def)
  moreover have "body = pre' @ old @ post' \<and> first_at old pre' post' \<longleftrightarrow> pre' = pre \<and> post' = post" for pre' post'
    using first_at_unique [OF s(2), of pre' post'] s by auto
  ultimately show ?thesis using True by metis
next
  case False
  then have "edit_text old new body \<noteq> Edited body'" by (auto simp: edit_text_def Let_def countStr_zero)
  with False show ?thesis by (auto simp: sublist_def)
qed

text \<open>Occurrences that overlap are counted once, so an old text that fits in two places may still be taken as unambiguous.\<close>

lemma edit_overlap_accepted: "edit_text ''aa'' ''b'' ''aaa'' = Edited ''ba'' \<and> ''aaa'' = ''a'' @ ''aa''"
  by (simp add: edit_text_def)

section \<open>The loop guard stops exactly when a call keeps getting the same answer\<close>

text \<open>\<open>answers fp hs\<close>: the answers call \<open>fp\<close> got in the history \<open>hs\<close>, the last one first.\<close>

definition answers :: "string \<Rightarrow> (string \<times> string) list \<Rightarrow> string list" where
  "answers fp hs = rev (map snd (filter (\<lambda>h. fst h = fp) hs))"

definition observe_all :: "(string \<times> string) list \<Rightarrow> progress" where
  "observe_all hs = foldl (\<lambda>p (fp, d). snd (observe fp d p)) newProgress hs"

definition streak :: "string list \<Rightarrow> (string \<times> nat) option" where
  "streak ds = (case ds of [] \<Rightarrow> None | d # rest \<Rightarrow> Some (d, Suc (length (takeWhile ((=) d) rest))))"

lemma observe_seen:
  "map_of (pg_seen (snd (observe fp d p))) fp' =
     (if fp' \<noteq> fp then map_of (pg_seen p) fp'
      else case map_of (pg_seen p) fp of Some (d0, n) \<Rightarrow> if d0 = d then Some (d, Suc n) else Some (d, 1) | None \<Rightarrow> Some (d, 1))"
  by (auto simp: observe_def update_conv' split: option.splits)

lemma observe_keys: "distinct (map fst (pg_seen p)) \<Longrightarrow> distinct (map fst (pg_seen (snd (observe fp d p))))"
  by (auto simp: observe_def distinct_update split: option.splits)

lemma observe_all_seen: "map_of (pg_seen (observe_all hs)) fp = streak (answers fp hs) \<and> distinct (map fst (pg_seen (observe_all hs)))"
proof (induction hs arbitrary: fp rule: rev_induct)
  case Nil
  show ?case by (simp add: observe_all_def newProgress_def answers_def streak_def)
next
  case (snoc h hs)
  obtain f d where h: "h = (f, d)" by force
  have all: "observe_all (hs @ [(f, d)]) = snd (observe f d (observe_all hs))" by (simp add: observe_all_def)
  have st: "streak (d # ds) = (case streak ds of Some (d0, n) \<Rightarrow> if d0 = d then Some (d, Suc n) else Some (d, 1) | None \<Rightarrow> Some (d, 1))" for ds
    by (auto simp: streak_def split: list.splits)
  show ?case
    using snoc observe_keys [of "observe_all hs" f d]
    by (auto simp: all observe_seen answers_def h st)
qed

lemma observe_all_stale: "pg_stale (observe_all hs) = 0"
proof -
  have "pg_stale (foldl (\<lambda>p (fp, d). snd (observe fp d p)) p hs) = pg_stale p" for p
    by (induction hs arbitrary: p) (auto simp: observe_def split: option.splits)
  then show ?thesis by (simp add: observe_all_def newProgress_def)
qed

text \<open>
  The loop guard, over any sequence of calls with their answers and before any step without progress:
  the engine is told to stop exactly when, for some call, the last three answers to that same call were
  the same.  One different answer in between starts the count again, and calls with other arguments do
  not count.
\<close>

theorem loop_guard_exact:
  "stuck (observe_all hs) \<noteq> None \<longleftrightarrow> (\<exists>fp d rest. answers fp hs = d # d # d # rest)"
proof -
  have seen: "(fp, d, n) \<in> set (pg_seen (observe_all hs)) \<longleftrightarrow> streak (answers fp hs) = Some (d, n)" for fp d n
    using observe_all_seen [of hs fp] by (metis map_of_eq_Some_iff)
  have st: "(\<exists>d n. streak ds = Some (d, n) \<and> n \<ge> repeatLimit) \<longleftrightarrow> (\<exists>d rest. ds = d # d # d # rest)" for ds
  proof -
    have two: "length (takeWhile ((=) d) r) \<ge> 2 \<longleftrightarrow> (\<exists>rest. r = d # d # rest)" for d r :: "_ list"
      by (cases r; cases "tl r") auto
    show ?thesis by (cases ds) (simp_all add: streak_def repeatLimit_def two)
  qed
  have "stuck (observe_all hs) \<noteq> None \<longleftrightarrow> (\<exists>x \<in> set (pg_seen (observe_all hs)). snd (snd x) \<ge> repeatLimit)"
    by (auto simp: stuck_def observe_all_stale staleLimit_def find_None_iff dest!: find_found intro!: bexI split: option.splits)
  also have "\<dots> \<longleftrightarrow> (\<exists>fp d n. streak (answers fp hs) = Some (d, n) \<and> n \<ge> repeatLimit)"
    using seen by force
  also have "\<dots> \<longleftrightarrow> (\<exists>fp d rest. answers fp hs = d # d # d # rest)" using st by metis
  finally show ?thesis .
qed

end
