(* ===== verification/NativeEngine.thy ===== *)
theory NativeEngine
  imports NativeTools
begin

text \<open>
  The native engine's loop: \<^verbatim>\<open>native.go\<close> (opening messages, token estimate, \<^verbatim>\<open>Step\<close>), \<^verbatim>\<open>exec\<close> of
  \<^verbatim>\<open>authorize.go\<close> and \<^verbatim>\<open>reconcile.go\<close> under \<^verbatim>\<open>src/internal/engine/native\<close>.  A step is an \<open>engine_run\<close>, the
  form in which the supervisor drives an engine: where the code saves its transcript or writes the
  journal, the run stops and is continued with what the supervisor answers.
\<close>

section \<open>Token estimate and opening messages\<close>

definition message_chars :: "Message \<Rightarrow> nat" where
  "message_chars g = 16 + length (mg_Role g) + length (mg_Content g) + length (mg_ToolCallID g) +
     sum_list (map (\<lambda>c. length (tc_ID c) + length (tc_Name c) + length (tc_Arguments c)) (mg_ToolCalls g))"

definition tool_chars :: "ToolDef \<Rightarrow> nat" where
  "tool_chars t = 16 + length (td_Name t) + length (td_Description t) + length (td_Schema t)"

text \<open>The division by 3.5 characters per token, rounded down.\<close>

definition estimateTokens :: "Message list \<Rightarrow> ToolDef list \<Rightarrow> int" where
  "estimateTokens ms tools = int (2 * (sum_list (map message_chars ms) + sum_list (map tool_chars tools)) div 7)"

definition text_message :: "string \<Rightarrow> string \<Rightarrow> Message" where
  "text_message role content = \<lparr>mg_Role = role, mg_Content = content, mg_Name = [], mg_ToolCallID = [], mg_ToolCalls = []\<rparr>"

definition tool_message :: "ToolCall \<Rightarrow> string \<Rightarrow> Message" where
  "tool_message call content = \<lparr>mg_Role = ''tool'', mg_Content = content, mg_Name = tc_Name call, mg_ToolCallID = tc_ID call, mg_ToolCalls = []\<rparr>"

definition projectNote_text :: "Fence \<Rightarrow> ProjectNote \<Rightarrow> string" where
  "projectNote_text fence n =
     fence_Wrap fence (''memory file='' @ pn_File n @ '' repo='' @ pn_RepoID n @ '' commit='' @ pn_Commit n @ '' source='' @ pn_Source n) (pn_Text n) @ [newline]"

definition memoryNote_text :: "Fence \<Rightarrow> MemoryNote \<Rightarrow> string" where
  "memoryNote_text fence n =
     fence_Wrap fence (''note '' @ mn_Kind n @ '' from '' @ (if mn_Source n = [] then ''unattributed'' else mn_Source n)) (mn_Text n) @ [newline]"

definition slice_text :: "Fence \<Rightarrow> Slice \<Rightarrow> string" where
  "slice_text fence s =
     (let named = sl_Symbol s \<noteq> [] \<and> sl_Symbol s \<noteq> sl_Path s; body = trimSpace (sl_Body s) in
      [newline] @ sl_Path s @ '':'' @ showInt (sl_StartLine s) @ ''-'' @ showInt (sl_EndLine s) @ (if named then ''  '' @ sl_Symbol s else []) @ [newline] @
      (if sl_Signature s \<noteq> [] then ''  '' @ Neutralise (sl_Signature s) @ [newline] else []) @
      (if body \<noteq> [] then fence_Wrap fence (if named then sl_Path s @ '' '' @ sl_Symbol s else sl_Path s) body @ [newline] else []))"

definition briefWith :: "'w NativeEngine \<Rightarrow> PacketContent EngineRequest \<Rightarrow> Fence \<Rightarrow> string" where
  "briefWith e req fence =
     (let pc = pkt_Content (rq_Packet req) in
      ''Objective: '' @ rq_Objective req @ [newline] @
      ''Write scope: ['' @ joinWith '' '' (WriteScope (rq_Access req)) @ ''] (an empty scope permits no writes).'' @ [newline] @
      [newline] @ fence_Preamble fence @ [newline] @
      (case rq_Plan req of None \<Rightarrow> [] | Some p \<Rightarrow> [newline] @ ''Validated plan: '' @ ne_planText e p @ [newline]) @
      (if rq_Attempt req > 1 then [newline] @ ''This is attempt '' @ showInt (rq_Attempt req) @ ''. The previous attempt did not pass verification.'' @ [newline] else []) @
      concat (map (projectNote_text fence) (pc_ProjectNotes pc)) @
      (if pc_Notes pc = [] then []
       else [newline] @ ''What this repository has recorded. These are notes, not code, and each says where it came from:'' @ [newline] @
            concat (map (memoryNote_text fence) (pc_Notes pc)) @
            (if pc_NotesDropped pc > 0 then ''  ('' @ showInt (pc_NotesDropped pc) @ '' more note(s) did not fit)'' @ [newline] else [])) @
      (if pc_Slices pc = [] then []
       else [newline] @ ''Relevant code found by the supervisor's retrieval:'' @ [newline] @ concat (map (slice_text fence) (pc_Slices pc)) @
            (case pkt_Impact (rq_Packet req) of
               None \<Rightarrow> []
             | Some imp \<Rightarrow> if im_Consumers imp = [] then [] else [newline] @ ''Impact of changing this: '' @ impact_Summary imp @ [newline])) @
      (if rq_Feedback req = [] then []
       else [newline] @ ''Verification findings from the previous attempt'' @ dash @ ''fix these:'' @ [newline] @
            concat (map (\<lambda>f. [newline] @ describe_result f) (rq_Feedback req))))"

definition seed :: "'w NativeEngine \<Rightarrow> PacketContent EngineRequest \<Rightarrow> Fence \<Rightarrow> Message list" where
  "seed e req fence = [text_message ''system'' (ne_system e), text_message ''user'' (briefWith e req fence)]"

section \<open>Saving and finishing\<close>

type_synonym 'w native_run = "(Message, 'w) engine_run"

text \<open>The error of a transcript that could not be saved; its text is the supervisor's.\<close>

definition save_error :: string where "save_error = ''transcript not saved''"

definition persist_tr :: "Message Transcript \<Rightarrow> Message list \<Rightarrow> 'w \<Rightarrow> (Message Transcript \<Rightarrow> 'w \<Rightarrow> 'w native_run) \<Rightarrow> 'w native_run" where
  "persist_tr tr ms w k =
     EngineSave (tr\<lparr>tr_Messages := ms\<rparr>) w (\<lambda>ok tr' w'. if ok then k tr' w' else EngineDone (Inl save_error) tr' w')"

definition finish_step :: "Response \<Rightarrow> Message Transcript \<Rightarrow> Message list \<Rightarrow> 'w \<Rightarrow> 'w native_run" where
  "finish_step resp tr ms w =
     persist_tr (tr\<lparr>tr_Closed := True, tr_Summary := rs_Summary resp, tr_ClaimsDone := rs_ClaimsDone resp,
                tr_BudgetExhausted := rs_BudgetExhausted resp, tr_Truncated := rs_Truncated resp\<rparr>) ms w
       (\<lambda>tr' w'. EngineDone (Inr resp) tr' w')"

section \<open>Journalled execution\<close>

definition tool_error :: "ToolCall \<Rightarrow> string" where
  "tool_error call = ''native: journal tool '' @ tc_Name call"

definition exec_call ::
  "'w NativeEngine \<Rightarrow> PacketContent EngineRequest \<Rightarrow> Fence \<Rightarrow> ToolCall \<Rightarrow> Message Transcript \<Rightarrow> 'w \<Rightarrow> (ToolResult \<Rightarrow> 'w \<Rightarrow> 'w native_run) \<Rightarrow> 'w native_run" where
  "exec_call e req fence call tr w k =
     (let d = native_authorize e (rq_Access req) (rq_Worktree req) call w; stop = EngineDone (Inl (tool_error call)) tr in
      case ContentManifest (ne_sha256 e) (ne_tree e (rq_Worktree req) w) of
        Inl _ \<Rightarrow> stop w
      | Inr before \<Rightarrow>
          (case ne_tx e w of ((ok, now), w1) \<Rightarrow>
           let begin' = Begin ok now (rq_TaskID req) KindDecision (Some (ne_intent e (fence_Token fence) (tr_Steps tr) call d)) before in
           EngineJournal (\<lambda>db. snd (begin' db)) (\<lambda>db.
             case fst (begin' db) of
               Inl _ \<Rightarrow> stop w1
             | Inr h \<Rightarrow>
                 (case perform e d (rq_Worktree req) (rq_Presets req) call w1 of (res, w2) \<Rightarrow>
                  case ContentManifest (ne_sha256 e) (ne_tree e (rq_Worktree req) w2) of
                    Inl _ \<Rightarrow> stop w2
                  | Inr after \<Rightarrow>
                      (case ne_tx e w2 of ((ok', now'), w3) \<Rightarrow>
                       let complete' = Complete ok' now' (Some (ne_result e res)) after [] h in
                       EngineJournal (\<lambda>db. snd (snd (complete' db))) (\<lambda>db.
                         case fst (complete' db) of Some _ \<Rightarrow> stop w3 | None \<Rightarrow> k res w3))))))"

section \<open>The calls of one batch\<close>

definition maxToolCalls :: int where "maxToolCalls = 40"
definition maxVerifyRuns :: int where "maxVerifyRuns = 3"
definition maxInvalidCalls :: int where "maxInvalidCalls = 3"

definition batch_exhausted :: "Message Transcript \<Rightarrow> ToolCall \<Rightarrow> bool" where
  "batch_exhausted tr call =
     (tr_Tools tr \<ge> maxToolCalls \<or> (tc_Name call = ToolRunRecipe \<and> tr_VerifyRuns tr \<ge> maxVerifyRuns) \<or> tr_InvalidCalls tr \<ge> maxInvalidCalls)"

definition counted :: "ToolCall \<Rightarrow> ToolResult \<Rightarrow> Message Transcript \<Rightarrow> Message Transcript" where
  "counted call res tr =
     tr\<lparr>tr_Tools := tr_Tools tr + 1, tr_VerifyRuns := (if tc_Name call = ToolRunRecipe then tr_VerifyRuns tr + 1 else tr_VerifyRuns tr),
        tr_InvalidCalls := (if tq_Invalid res then tr_InvalidCalls tr + 1 else tr_InvalidCalls tr)\<rparr>"

text \<open>What the loop carries: the response so far, the loop guard, the conversation.\<close>

record loop =
  lp_resp :: Response
  lp_prog :: progress
  lp_msgs :: "Message list"

definition observed :: "'w NativeEngine \<Rightarrow> ToolCall \<Rightarrow> ToolResult \<Rightarrow> progress \<Rightarrow> (verdict \<times> nat) \<times> progress" where
  "observed e call res = observe (call_fingerprint (ne_canon e) (tc_Name call) (tc_Arguments call)) (digest_of (ne_sha256 e) (tq_Content res))"

definition answer :: "'w NativeEngine \<Rightarrow> Fence \<Rightarrow> ToolCall \<Rightarrow> ToolResult \<Rightarrow> progress \<Rightarrow> Message" where
  "answer e fence call res p =
     (let (v, n) = fst (observed e call res p) in
      tool_message call ((if v = Repeated \<and> n > 1 then repeatNote (tc_Name call) n else []) @ fence_Wrap fence (''result of '' @ tc_Name call) (tq_Content res)))"

definition after_call :: "'w NativeEngine \<Rightarrow> Fence \<Rightarrow> ToolCall \<Rightarrow> ToolResult \<Rightarrow> loop \<Rightarrow> loop" where
  "after_call e fence call res lp =
     lp\<lparr>lp_prog := snd (observed e call res (lp_prog lp)), lp_msgs := lp_msgs lp @ [answer e fence call res (lp_prog lp)],
        lp_resp := (let r = lp_resp lp; r1 = (if tq_Edited res then r\<lparr>rs_Edited := True\<rparr> else r)
                    in if tq_Done res then r1\<lparr>rs_Summary := tq_Summary res, rs_ClaimsDone := True\<rparr> else r1)\<rparr>"

primrec run_calls ::
  "'w NativeEngine \<Rightarrow> PacketContent EngineRequest \<Rightarrow> Fence \<Rightarrow> (bool \<Rightarrow> loop \<Rightarrow> Message Transcript \<Rightarrow> 'w \<Rightarrow> 'w native_run)
   \<Rightarrow> ToolCall list \<Rightarrow> bool \<Rightarrow> loop \<Rightarrow> Message Transcript \<Rightarrow> 'w \<Rightarrow> 'w native_run" where
  "run_calls e req fence k [] learned lp tr w = k learned lp tr w"
| "run_calls e req fence k (call # rest) learned lp tr w =
     (if batch_exhausted tr call
      then finish_step ((lp_resp lp)\<lparr>rs_BudgetExhausted := True, rs_Summary := ''EDIT tool, verification or invalid-call budget exhausted''\<rparr>)
             (tr\<lparr>tr_Pending := False\<rparr>)
             (lp_msgs lp @ map (\<lambda>u. tool_message u ''Not executed: EDIT phase budget exhausted.'') (call # rest)) w
      else persist_tr (tr\<lparr>tr_Pending := True\<rparr>) (lp_msgs lp) w (\<lambda>tr w.
           exec_call e req fence call tr w (\<lambda>res w.
             let learned' = (learned \<or> fst (fst (observed e call res (lp_prog lp))) = Learned \<or> tq_Edited res \<or> tq_Done res);
                 lp' = after_call e fence call res lp;
                 tr' = (counted call res tr)\<lparr>tr_Pending := (rest \<noteq> [])\<rparr>
             in if tq_Done res then finish_step (lp_resp lp') tr' (lp_msgs lp') w
                else persist_tr tr' (lp_msgs lp') w (\<lambda>tr w. run_calls e req fence k rest learned' lp' tr w))))"

section \<open>One attempt\<close>

definition DefaultMaxSteps :: int where "DefaultMaxSteps = 20"

definition maxSteps :: "'w NativeEngine \<Rightarrow> int" where
  "maxSteps e = (if ne_MaxSteps e \<le> 0 then DefaultMaxSteps else ne_MaxSteps e)"

text \<open>\<open>tighter own want\<close>: the request's limit, when it sets one and it is below the engine's own.\<close>

definition tighter :: "int \<Rightarrow> int \<Rightarrow> int" where
  "tighter own want = (if want > 0 \<and> (own \<le> 0 \<or> want < own) then want else own)"

definition outputLimit :: "'w NativeEngine \<Rightarrow> PacketContent EngineRequest \<Rightarrow> int" where
  "outputLimit e req = (let l = tighter (ne_MaxTokens e) (rq_OutputTokens req) in if l \<le> 0 then 4096 else l)"

datatype limit = Boundary_at string | Room int

definition step_limit :: "'w NativeEngine \<Rightarrow> PacketContent EngineRequest \<Rightarrow> int \<Rightarrow> int \<Rightarrow> limit" where
  "step_limit e req used estimate =
     (let out = outputLimit e req; ctx = tighter (ne_ContextTokens e) (rq_ContextTokens req) in
      if ctx > 0 \<and> estimate + out > ctx then Boundary_at ''EDIT context budget exhausted; a supervisor phase boundary is required''
      else if rq_MaxTokens req > 0 then
        (let remaining = rq_MaxTokens req - used - estimate in
         if remaining \<le> 0 then Boundary_at ''task token budget exhausted'' else Room (min out remaining))
      else Room out)"

definition answered_tokens :: "int \<Rightarrow> ChatResponse \<Rightarrow> int" where
  "answered_tokens estimate out =
     (if ch_PromptTokens out \<le> 0 then estimate else ch_PromptTokens out) +
     (if ch_OutputTokens out \<le> 0
      then estimateTokens [(text_message ''assistant'' (ch_Content out @ ch_Reasoning out))\<lparr>mg_ToolCalls := ch_ToolCalls out\<rparr>] []
      else ch_OutputTokens out)"

text \<open>The model answered without a tool call.\<close>

definition stop_response :: "int \<Rightarrow> int \<Rightarrow> ChatResponse \<Rightarrow> Response \<Rightarrow> Response" where
  "stop_response step allowed out resp =
     (if ch_FinishReason out = ''length'' \<and> trimSpace (ch_Content out) = []
      then resp\<lparr>rs_Truncated := True,
             rs_Summary := ''the output budget of '' @ showInt allowed @ '' tokens ran out on step '' @ showInt step @
               '' before the model produced an answer or a tool call'' @
               (let n = length (trimSpace (ch_Reasoning out)) in
                if n > 0 then ''; it was spent on '' @ showNat n @ '' characters of reasoning, so the budget is too small for this model's thinking'' else [])\<rparr>
      else resp\<lparr>rs_Summary := (let s = trimSpace (ch_Content out) in
               if s = [] then ''the model stopped after '' @ showInt step @ '' step(s) without calling a tool'' else s)\<rparr>)"

definition done_misplaced :: "ToolCall list \<Rightarrow> bool" where
  "done_misplaced calls = (length calls > 1 \<and> list_ex (\<lambda>c. tc_Name c = ToolDone) calls)"

text \<open>Steps \<open>maxSteps - n + 1\<close> to \<open>maxSteps\<close>; the loop is structural in the number of steps left.\<close>

primrec step_loop :: "'w NativeEngine \<Rightarrow> PacketContent EngineRequest \<Rightarrow> Fence \<Rightarrow> nat \<Rightarrow> loop \<Rightarrow> Message Transcript \<Rightarrow> 'w \<Rightarrow> 'w native_run" where
  "step_loop e req fence 0 lp tr w =
     finish_step ((lp_resp lp)\<lparr>rs_Summary := ''reached the step limit of '' @ showInt (maxSteps e) @ '' without declaring completion''\<rparr>) tr (lp_msgs lp) w"
| "step_loop e req fence (Suc n) lp tr w =
     (let step = maxSteps e - int n; estimate = estimateTokens (lp_msgs lp) (native_tools e) in
      case ne_ctxErr e w of
        Some err \<Rightarrow> EngineDone (Inr ((lp_resp lp)\<lparr>rs_Summary := ''stopped after '' @ showInt (step - 1) @ '' step(s): '' @ err\<rparr>)) tr w
      | None \<Rightarrow>
          (case step_limit e req (rs_TokensUsed (lp_resp lp)) estimate of
             Boundary_at why \<Rightarrow> finish_step ((lp_resp lp)\<lparr>rs_BudgetExhausted := True, rs_Summary := why\<rparr>) tr (lp_msgs lp) w
           | Room allowed \<Rightarrow>
               (case ne_chat e (lp_msgs lp) (native_tools e) allowed (min (rq_ReasoningTokens req) (max 1 (allowed - 1))) w of
                  (Inl err, w1) \<Rightarrow> EngineDone (Inl (''native: step '' @ showInt step @ '': '' @ err)) tr w1
                | (Inr out, w1) \<Rightarrow>
                    (let t = answered_tokens estimate out;
                         lp1 = lp\<lparr>lp_resp := (lp_resp lp)\<lparr>rs_TokensUsed := rs_TokensUsed (lp_resp lp) + t\<rparr>\<rparr>;
                         tr1 = tr\<lparr>tr_Tokens := tr_Tokens tr + t, tr_Steps := step\<rparr>
                     in if ch_ToolCalls out = [] then finish_step (stop_response step allowed out (lp_resp lp1)) tr1 (lp_msgs lp @ [text_message ''assistant'' (ch_Content out)]) w1
                        else if done_misplaced (ch_ToolCalls out) then EngineDone (Inl ''native: done must be the only call in its batch'') tr1 w1
                        else run_calls e req fence
                               (\<lambda>learned lp tr w.
                                  let p = endOfStep learned (lp_prog lp) in
                                  case stuck p of
                                    Some why \<Rightarrow> finish_step ((lp_resp lp)\<lparr>rs_Summary := why\<rparr>) tr (lp_msgs lp) w
                                  | None \<Rightarrow> step_loop e req fence n (lp\<lparr>lp_prog := p\<rparr>) tr w)
                               (ch_ToolCalls out) False
                               (lp1\<lparr>lp_msgs := lp_msgs lp @ [(text_message ''assistant'' (ch_Content out))\<lparr>mg_ToolCalls := ch_ToolCalls out\<rparr>]\<rparr>) tr1 w1))))"

section \<open>Reconciling an interrupted batch\<close>

definition has_calls :: "Message \<Rightarrow> bool" where
  "has_calls g = (mg_Role g = ''assistant'' \<and> mg_ToolCalls g \<noteq> [])"

text \<open>The last message that asks for tools, and what follows it.\<close>

definition last_batch :: "Message list \<Rightarrow> (Message \<times> Message list) option" where
  "last_batch ms =
     (case dropWhile (\<lambda>g. \<not> has_calls g) (rev ms) of [] \<Rightarrow> None | g # _ \<Rightarrow> Some (g, rev (takeWhile (\<lambda>g. \<not> has_calls g) (rev ms))))"

definition op_matches :: "'w NativeEngine \<Rightarrow> Message Transcript \<Rightarrow> ToolCall \<Rightarrow> Operation \<Rightarrow> bool" where
  "op_matches e tr call o' = (ne_unintent e (op_Intent o') = Some (tr_FenceToken tr, tr_Steps tr, tc_ID call, tc_Arguments call))"

record recovery =
  ry_msgs :: "Message list"
  ry_results :: "(ToolCall \<times> ToolResult) list"
  ry_candidate :: string
  ry_boundary :: bool

fun recover :: "'w NativeEngine \<Rightarrow> Fence \<Rightarrow> Message Transcript \<Rightarrow> string list \<Rightarrow> Operation list \<Rightarrow> ToolCall list \<Rightarrow> recovery \<Rightarrow> string + recovery" where
  "recover e fence tr completed ops [] acc = Inr acc"
| "recover e fence tr completed ops (call # rest) acc =
     (if tc_ID call \<in> set completed then recover e fence tr completed ops rest acc
      else case find (op_matches e tr call) (rev ops) of
             None \<Rightarrow> recover e fence tr completed ops rest
                       (acc\<lparr>ry_boundary := True, ry_msgs := ry_msgs acc @ [tool_message call ''Not executed: process stopped before this action was journalled.'']\<rparr>)
           | Some o' \<Rightarrow>
               if Uncertain o' then Inl (''native: tool '' @ tc_ID call @ '' has an uncertain side effect; explicit recovery is required'')
               else (case ne_unresult e (op_Outcome o') of
                       None \<Rightarrow> Inl ''native: recorded outcome''
                     | Some res \<Rightarrow>
                         if op_CandidateBefore o' \<noteq> ry_candidate acc then Inl ''native: interrupted action candidate chain does not match''
                         else recover e fence tr completed ops rest
                                (acc\<lparr>ry_candidate := op_CandidateAfter o',
                                     ry_msgs := ry_msgs acc @ [tool_message call (fence_Wrap fence (''result of '' @ tc_Name call) (tq_Content res))],
                                     ry_results := ry_results acc @ [(call, res)]\<rparr>)))"

text \<open>The counters of the recovered calls, in order; a recovered \<^verbatim>\<open>done\<close> closes the transcript.\<close>

definition recount :: "(ToolCall \<times> ToolResult) list \<Rightarrow> Message Transcript \<Rightarrow> Message Transcript" where
  "recount rs tr =
     foldl (\<lambda>tr (call, res). let tr' = counted call res tr in
              if tq_Done res then tr'\<lparr>tr_Closed := True, tr_ClaimsDone := True, tr_Summary := tq_Summary res\<rparr> else tr') tr rs"

definition reconciled :: "recovery \<Rightarrow> string \<Rightarrow> Message Transcript \<Rightarrow> Message Transcript" where
  "reconciled rcv current tr =
     (let tr1 = (recount (ry_results rcv) (tr\<lparr>tr_Messages := tr_Messages tr @ ry_msgs rcv\<rparr>))\<lparr>tr_Pending := False, tr_Candidate := current\<rparr> in
      if ry_boundary rcv
      then tr1\<lparr>tr_Closed := True, tr_BudgetExhausted := True, tr_Summary := ''interrupted batch reconciled; unfinished calls require a new phase''\<rparr>
      else tr1)"

definition reconcile :: "'w NativeEngine \<Rightarrow> PacketContent EngineRequest \<Rightarrow> Message Transcript \<Rightarrow> 'w \<Rightarrow> (Message Transcript \<Rightarrow> 'w \<Rightarrow> 'w native_run) \<Rightarrow> 'w native_run" where
  "reconcile e req tr w k =
     (let stop = (\<lambda>why. EngineDone (Inl why) tr w) in
      case RestoreFence (tr_FenceToken tr) of
        None \<Rightarrow> stop ''trust: invalid fence token''
      | Some fence \<Rightarrow>
          (case ContentManifest (ne_sha256 e) (ne_tree e (rq_Worktree req) w) of
             Inl _ \<Rightarrow> stop ''ledger: content manifest''
           | Inr current \<Rightarrow>
               (case last_batch (tr_Messages tr) of
                  None \<Rightarrow> stop ''native: pending transcript has no tool batch''
                | Some (batch, later) \<Rightarrow>
                    (case ne_tx e w of ((ok, _), w1) \<Rightarrow>
                     EngineJournal id (\<lambda>db.
                       if \<not> ok then EngineDone (Inl ''ledger: operations'') tr w1
                       else case recover e fence tr (map mg_ToolCallID (filter (\<lambda>g. mg_Role g = ''tool'') later)) (Operations db (rq_TaskID req))
                                   (mg_ToolCalls batch) \<lparr>ry_msgs = [], ry_results = [], ry_candidate = tr_Candidate tr, ry_boundary = False\<rparr> of
                              Inl why \<Rightarrow> EngineDone (Inl why) tr w1
                            | Inr rcv \<Rightarrow>
                                if ry_candidate rcv = [] \<or> ry_candidate rcv \<noteq> current
                                then EngineDone (Inl ''native: candidate changed outside the recorded actions'') tr w1
                                else let tr' = reconciled rcv current tr in
                                  EngineSave tr' w1 (\<lambda>ok tr'' w2. if ok then k tr'' w2 else EngineDone (Inl save_error) tr'' w2))))))"

definition closed_response :: "Message Transcript \<Rightarrow> Response" where
  "closed_response tr = \<lparr>rs_Summary = tr_Summary tr, rs_ClaimsDone = tr_ClaimsDone tr, rs_TokensUsed = 0, rs_Edited = False,
     rs_Truncated = tr_Truncated tr, rs_BudgetExhausted = tr_BudgetExhausted tr\<rparr>"

definition no_response :: Response where
  "no_response = \<lparr>rs_Summary = [], rs_ClaimsDone = False, rs_TokensUsed = 0, rs_Edited = False, rs_Truncated = False, rs_BudgetExhausted = False\<rparr>"

definition attempt_steps :: "'w NativeEngine \<Rightarrow> PacketContent EngineRequest \<Rightarrow> Fence \<Rightarrow> Message list \<Rightarrow> Message Transcript \<Rightarrow> 'w \<Rightarrow> 'w native_run" where
  "attempt_steps e req fence ms tr w =
     persist_tr tr ms w (\<lambda>tr w. step_loop e req fence (nat (maxSteps e - tr_Steps tr)) \<lparr>lp_resp = no_response, lp_prog = newProgress, lp_msgs = ms\<rparr> tr w)"

definition open_step :: "'w NativeEngine \<Rightarrow> PacketContent EngineRequest \<Rightarrow> Message Transcript \<Rightarrow> 'w \<Rightarrow> 'w native_run" where
  "open_step e req tr w =
     (if tr_Closed tr then EngineDone (Inr (closed_response tr)) tr w
      else if tr_Messages tr = [] then attempt_steps e req (ne_fence e) (seed e req (ne_fence e)) (tr\<lparr>tr_FenceToken := fence_Token (ne_fence e)\<rparr>) w
      else case RestoreFence (tr_FenceToken tr) of
             None \<Rightarrow> EngineDone (Inl ''trust: invalid fence token'') tr w
           | Some fence \<Rightarrow> attempt_steps e req fence (tr_Messages tr) tr w)"

definition native_Step :: "'w NativeEngine \<Rightarrow> PacketContent EngineRequest \<Rightarrow> Message Transcript \<Rightarrow> 'w \<Rightarrow> 'w native_run" where
  "native_Step e req tr w =
     (if \<not> (rq_Phase req = None \<or> rq_Phase req = Some Edit) then EngineDone (Inl ''native: tools are only available in EDIT'') tr w
      else if tr_Pending tr then reconcile e req tr w (\<lambda>tr w. open_step e req tr w)
      else open_step e req tr w)"

section \<open>What every run of the engine keeps\<close>

text \<open>
  \<open>engine_all P Q run\<close>: whatever the journal holds and whatever the supervisor answers to a save (which may
  set the candidate), every transcript saved satisfies \<open>P\<close> and the run ends with a result and a transcript
  in \<open>Q\<close>.
\<close>

primrec engine_all :: "('m Transcript \<Rightarrow> bool) \<Rightarrow> (string + Response \<Rightarrow> 'm Transcript \<Rightarrow> bool) \<Rightarrow> ('m, 'w) engine_run \<Rightarrow> bool" where
  "engine_all P Q (EngineDone r tr w) = Q r tr"
| "engine_all P Q (EngineSave tr w k) = (P tr \<and> (\<forall>ok c w'. engine_all P Q (k ok (tr\<lparr>tr_Candidate := c\<rparr>) w')))"
| "engine_all P Q (EngineJournal f k) = (\<forall>db. engine_all P Q (k db))"

lemma engine_all_mono:
  "engine_all P Q run \<Longrightarrow> (\<And>tr. P tr \<Longrightarrow> P' tr) \<Longrightarrow> (\<And>r tr. Q r tr \<Longrightarrow> Q' r tr) \<Longrightarrow> engine_all P' Q' run"
proof (induction run)
  case (EngineSave tr w k)
  then show ?case using EngineSave.IH [OF rangeI rangeI rangeI] by auto
qed auto

text \<open>The identifiers of the calls still to be answered; \<open>None\<close> when an answer is missing, repeated or out of order.\<close>

definition conv_step :: "Message \<Rightarrow> string list \<Rightarrow> string list option" where
  "conv_step g aw =
     (if aw = [] then (if has_calls g then Some (map tc_ID (mg_ToolCalls g)) else if mg_Role g = ''tool'' then None else Some [])
      else if mg_Role g = ''tool'' \<and> mg_ToolCallID g = hd aw then Some (tl aw) else None)"

fun awaiting :: "string list \<Rightarrow> Message list \<Rightarrow> string list option" where
  "awaiting aw [] = Some aw"
| "awaiting aw (g # ms) = (case conv_step g aw of None \<Rightarrow> None | Some aw' \<Rightarrow> awaiting aw' ms)"

definition conv_ok :: "Message Transcript \<Rightarrow> bool" where
  "conv_ok tr = (case awaiting [] (tr_Messages tr) of None \<Rightarrow> False | Some ids \<Rightarrow> tr_Pending tr \<or> ids = [])"

text \<open>The limits of an attempt; \<open>x\<close> counts the calls an interrupted batch may add when it is reconciled.\<close>

definition budget_ok :: "'w NativeEngine \<Rightarrow> nat \<Rightarrow> Message Transcript \<Rightarrow> bool" where
  "budget_ok e x tr = (tr_Steps tr \<le> maxSteps e \<and> tr_Tools tr \<le> maxToolCalls + int x \<and> tr_VerifyRuns tr \<le> maxVerifyRuns + int x \<and>
     tr_InvalidCalls tr \<le> maxInvalidCalls + int x)"

abbreviation engine_keeps :: "'w NativeEngine \<Rightarrow> nat \<Rightarrow> 'w native_run \<Rightarrow> bool" where
  "engine_keeps e x \<equiv> engine_all (\<lambda>tr. conv_ok tr \<and> budget_ok e x tr) (\<lambda>_ tr. conv_ok tr \<and> budget_ok e x tr)"

lemma budget_ok_upd [simp]:
  "budget_ok e x (tr\<lparr>tr_Pending := b\<rparr>) = budget_ok e x tr" "budget_ok e x (tr\<lparr>tr_Messages := ms\<rparr>) = budget_ok e x tr"
  "budget_ok e x (tr\<lparr>tr_Candidate := c\<rparr>) = budget_ok e x tr" "budget_ok e x (tr\<lparr>tr_FenceToken := f\<rparr>) = budget_ok e x tr"
  "budget_ok e x (tr\<lparr>tr_Tokens := n\<rparr>) = budget_ok e x tr"
  by (simp_all add: budget_ok_def)

lemma awaiting_append: "awaiting aw (ms @ ms') = (case awaiting aw ms of None \<Rightarrow> None | Some aw' \<Rightarrow> awaiting aw' ms')"
  by (induction ms arbitrary: aw) (auto split: option.splits)

lemma awaiting_answers: "awaiting (map tc_ID calls @ ids) (map (\<lambda>u. tool_message u (f u)) calls) = Some ids"
  by (induction calls) (auto simp: conv_step_def tool_message_def)

lemma awaiting_all_answered: "awaiting (map tc_ID calls) (map (\<lambda>u. tool_message u (f u)) calls) = Some []"
  using awaiting_answers [of calls "[]" f] by simp

lemma awaiting_tool [simp]: "awaiting (tc_ID call # ids) [tool_message call s] = Some ids"
  by (simp add: conv_step_def tool_message_def)

lemma awaiting_text [simp]: "role \<noteq> ''tool'' \<Longrightarrow> awaiting [] [text_message role s] = Some []"
  by (simp add: conv_step_def text_message_def has_calls_def)

lemma awaiting_batch [simp]:
  "calls \<noteq> [] \<Longrightarrow> awaiting [] [(text_message ''assistant'' s)\<lparr>mg_ToolCalls := calls\<rparr>] = Some (map tc_ID calls)"
  by (simp add: conv_step_def text_message_def has_calls_def)

lemma awaiting_seed [simp]: "awaiting [] (seed e req fence) = Some []"
  by (simp add: seed_def conv_step_def text_message_def has_calls_def)

lemma answer_eq: "\<exists>s. answer e fence call res p = tool_message call s"
  by (auto simp: answer_def Let_def split: prod.splits)

lemma result_not_Done [simp]: "\<not> tq_Done (ok_result s)" "\<not> tq_Done (failed_result s)"
  by (simp_all add: ok_result_def failed_result_def)

lemma tools_not_Done:
  "\<not> tq_Done (tool_readFile e wt args w)" "\<not> tq_Done (fst (tool_writeFile e wt args w))" "\<not> tq_Done (fst (tool_editFile e wt args w))"
  "\<not> tq_Done (tool_listFiles e wt args w)" "\<not> tq_Done (fst (tool_search e args w))" "\<not> tq_Done (tool_findSymbol e args w)"
  "\<not> tq_Done (tool_impact e args w)" "\<not> tq_Done (fst (tool_runRecipe e wt args presets w))" "\<not> tq_Done (tool_gitTouch e args w)"
  by (simp_all add: tool_readFile_def tool_writeFile_def tool_editFile_def tool_listFiles_def tool_search_def tool_findSymbol_def tool_impact_def
        tool_runRecipe_def tool_gitTouch_def read_range_def Let_def split: sum.split prod.split option.split edit_answer.split)

lemma execute_Done: "tq_Done (fst (native_execute e wt presets call w)) \<Longrightarrow> tc_Name call = ToolDone"
  by (auto simp: native_execute_def Let_def tools_not_Done split: args_json.splits if_splits)

lemma exec_call_all:
  assumes "Q (Inl (tool_error call)) tr" and "\<And>res w. (tq_Done res \<Longrightarrow> tc_Name call = ToolDone) \<Longrightarrow> engine_all P Q (k res w)"
  shows "engine_all P Q (exec_call e req fence call tr w k)"
proof -
  have d: "perform e d wt presets call w = (res, w') \<Longrightarrow> tq_Done res \<Longrightarrow> tc_Name call = ToolDone" for d wt presets w res w'
    using execute_Done [of e wt presets call w] by (cases d) (auto simp: perform_def)
  show ?thesis using assms(1)
    by (auto simp: exec_call_def Let_def split: sum.splits prod.splits option.splits intro!: assms(2) elim: d)
qed

lemma finish_step_all:
  assumes "awaiting [] ms = Some []" and "\<not> tr_Pending tr" and "budget_ok e x tr"
  shows "engine_keeps e x (finish_step resp tr ms w)"
  using assms by (simp add: finish_step_def persist_tr_def conv_ok_def budget_ok_def)

lemma persist_tr_all:
  assumes "awaiting [] ms = Some ids" and "tr_Pending tr \<or> ids = []" and "budget_ok e x tr"
    and "\<And>c w. engine_keeps e x (k (tr\<lparr>tr_Messages := ms, tr_Candidate := c\<rparr>) w)"
  shows "engine_keeps e x (persist_tr tr ms w k)"
  using assms by (simp add: persist_tr_def conv_ok_def budget_ok_def)

lemma budget_counted:
  assumes "budget_ok e x tr" and "\<not> batch_exhausted tr call"
  shows "budget_ok e x ((counted call res tr)\<lparr>tr_Pending := b\<rparr>)"
  using assms by (auto simp: budget_ok_def batch_exhausted_def counted_def)

lemma run_calls_all:
  assumes k: "\<And>learned lp tr w. awaiting [] (lp_msgs lp) = Some [] \<Longrightarrow> tr_Messages tr = lp_msgs lp \<Longrightarrow> \<not> tr_Pending tr \<Longrightarrow> budget_ok e x tr \<Longrightarrow>
      engine_keeps e x (k learned lp tr w)"
  shows "awaiting [] (lp_msgs lp) = Some (map tc_ID calls) \<Longrightarrow> (calls = [] \<Longrightarrow> tr_Messages tr = lp_msgs lp \<and> \<not> tr_Pending tr) \<Longrightarrow>
      budget_ok e x tr \<Longrightarrow> (\<And>c. c \<in> set calls \<Longrightarrow> tc_Name c = ToolDone \<Longrightarrow> calls = [c]) \<Longrightarrow>
      engine_keeps e x (run_calls e req fence k calls learned lp tr w)"
proof (induction calls arbitrary: learned lp tr w)
  case Nil
  then show ?case using k by simp
next
  case (Cons call rest)
  show ?case
  proof (cases "batch_exhausted tr call")
    case True
    have "awaiting [] (lp_msgs lp @ map (\<lambda>u. tool_message u ''Not executed: EDIT phase budget exhausted.'') (call # rest)) = Some []"
      using Cons.prems(1) awaiting_all_answered [of "call # rest"] by (simp only: awaiting_append option.case)
    from finish_step_all [OF this, of "tr\<lparr>tr_Pending := False\<rparr>" e x _ w] True Cons.prems(3) show ?thesis by simp
  next
    case False
    have step: "engine_keeps e x (let learned' = (learned \<or> fst (fst (observed e call res (lp_prog lp))) = Learned \<or> tq_Edited res \<or> tq_Done res);
                 lp' = after_call e fence call res lp; tr' = (counted call res tr')\<lparr>tr_Pending := (rest \<noteq> [])\<rparr>
             in if tq_Done res then finish_step (lp_resp lp') tr' (lp_msgs lp') w
                else persist_tr tr' (lp_msgs lp') w (\<lambda>tr w. run_calls e req fence k rest learned' lp' tr w))"
      if tr': "tr' = tr\<lparr>tr_Pending := True, tr_Messages := lp_msgs lp, tr_Candidate := c\<rparr>" and d: "tq_Done res \<Longrightarrow> tc_Name call = ToolDone"
      for res tr' c w
    proof -
      have b: "budget_ok e x ((counted call res tr')\<lparr>tr_Pending := p\<rparr>)" for p
        using Cons.prems(3) False by (intro budget_counted) (auto simp: tr' budget_ok_def batch_exhausted_def)
      have aw: "awaiting [] (lp_msgs (after_call e fence call res lp)) = Some (map tc_ID rest)"
        using Cons.prems(1) answer_eq [of e fence call res "lp_prog lp"] by (auto simp: after_call_def awaiting_append simp del: awaiting.simps)
      have none: "tc_Name c' \<noteq> ToolDone" if "c' \<in> set rest" for c' using Cons.prems(4) [of c'] that by auto
      show ?thesis
      proof (cases "tq_Done res")
        case True
        then have "rest = []" using Cons.prems(4) [of call] d by auto
        with True aw b show ?thesis by (auto simp: Let_def intro!: finish_step_all)
      next
        case False
        then show ?thesis
          using aw b none by (auto simp: Let_def intro!: persist_tr_all [OF aw] Cons.IH)
      qed
    qed
    have "conv_ok (tr\<lparr>tr_Pending := True, tr_Messages := lp_msgs lp, tr_Candidate := c\<rparr>)" for c
      using Cons.prems(1) by (simp add: conv_ok_def)
    then have "engine_keeps e x (persist_tr (tr\<lparr>tr_Pending := True\<rparr>) (lp_msgs lp) w (\<lambda>tr w. exec_call e req fence call tr w (\<lambda>res w.
             let learned' = (learned \<or> fst (fst (observed e call res (lp_prog lp))) = Learned \<or> tq_Edited res \<or> tq_Done res);
                 lp' = after_call e fence call res lp; tr' = (counted call res tr)\<lparr>tr_Pending := (rest \<noteq> [])\<rparr>
             in if tq_Done res then finish_step (lp_resp lp') tr' (lp_msgs lp') w
                else persist_tr tr' (lp_msgs lp') w (\<lambda>tr w. run_calls e req fence k rest learned' lp' tr w))))"
      using Cons.prems(3) by (intro persist_tr_all [OF Cons.prems(1)] exec_call_all step) auto
    with False show ?thesis by simp
  qed
qed

lemma step_loop_all:
  "awaiting [] (lp_msgs lp) = Some [] \<Longrightarrow> tr_Messages tr = lp_msgs lp \<Longrightarrow> \<not> tr_Pending tr \<Longrightarrow> budget_ok e x tr \<Longrightarrow>
   engine_keeps e x (step_loop e req fence n lp tr w)"
proof (induction n arbitrary: lp tr w)
  case 0
  then show ?case by (simp add: finish_step_all)
next
  case (Suc n)
  let ?est = "estimateTokens (lp_msgs lp) (native_tools e)"
  have ok: "conv_ok tr" using Suc.prems by (simp add: conv_ok_def)
  have answered: "engine_keeps e x
      (let t = answered_tokens ?est out;
           lp1 = lp\<lparr>lp_resp := (lp_resp lp)\<lparr>rs_TokensUsed := rs_TokensUsed (lp_resp lp) + t\<rparr>\<rparr>;
           tr1 = tr\<lparr>tr_Tokens := tr_Tokens tr + t, tr_Steps := maxSteps e - int n\<rparr>
       in if ch_ToolCalls out = [] then finish_step (stop_response (maxSteps e - int n) allowed out (lp_resp lp1)) tr1 (lp_msgs lp @ [text_message ''assistant'' (ch_Content out)]) w1
          else if done_misplaced (ch_ToolCalls out) then EngineDone (Inl ''native: done must be the only call in its batch'') tr1 w1
          else run_calls e req fence
                 (\<lambda>learned lp tr w.
                    let p = endOfStep learned (lp_prog lp) in
                    case stuck p of
                      Some why \<Rightarrow> finish_step ((lp_resp lp)\<lparr>rs_Summary := why\<rparr>) tr (lp_msgs lp) w
                    | None \<Rightarrow> step_loop e req fence n (lp\<lparr>lp_prog := p\<rparr>) tr w)
                 (ch_ToolCalls out) False
                 (lp1\<lparr>lp_msgs := lp_msgs lp @ [(text_message ''assistant'' (ch_Content out))\<lparr>mg_ToolCalls := ch_ToolCalls out\<rparr>]\<rparr>) tr1 w1)" for out allowed w1
  proof -
    have b: "budget_ok e x (tr\<lparr>tr_Tokens := t, tr_Steps := maxSteps e - int n\<rparr>)" for t using Suc.prems(4) by (simp add: budget_ok_def)
    have one: "calls = [c]" if "\<not> done_misplaced calls" "c \<in> set calls" "tc_Name c = ToolDone" for calls c
      using that by (cases calls) (auto simp: done_misplaced_def list_ex_iff)
    have c: "conv_ok (tr\<lparr>tr_Tokens := t, tr_Steps := n'\<rparr>)" for t n' using ok by (auto simp: conv_ok_def split: option.splits)
    show ?thesis using Suc.prems b c
      by (auto simp: Let_def awaiting_append simp del: awaiting.simps
            intro!: finish_step_all run_calls_all Suc.IH intro: one split: option.splits)
  qed
  show ?case using Suc.prems ok answered
    by (auto simp: Let_def finish_step_all split: option.splits limit.splits prod.splits sum.splits simp del: awaiting.simps)
qed

lemma attempt_steps_all:
  assumes "awaiting [] ms = Some []" and "\<not> tr_Pending tr" and "budget_ok e x tr"
  shows "engine_keeps e x (attempt_steps e req fence ms tr w)"
  using assms by (auto simp: attempt_steps_def simp del: step_loop.simps intro!: persist_tr_all [OF assms(1)] step_loop_all)

lemma open_step_all:
  assumes "conv_ok tr" and "\<not> tr_Pending tr" and "budget_ok e x tr"
  shows "engine_keeps e x (open_step e req tr w)"
proof -
  have "awaiting [] (tr_Messages tr) = Some []" using assms(1,2) by (auto simp: conv_ok_def split: option.splits)
  with assms show ?thesis by (auto simp: open_step_def intro!: attempt_steps_all split: option.splits)
qed

lemma awaiting_given:
  "list_all (\<lambda>z. mg_Role z = ''tool'') zs \<Longrightarrow> map mg_ToolCallID zs = ids \<Longrightarrow> awaiting ids zs = Some []"
  by (induction zs arbitrary: ids) (auto simp: conv_step_def)

lemma awaiting_no_calls:
  "awaiting aw ms = Some ids \<Longrightarrow> list_all (\<lambda>g. \<not> has_calls g) ms \<Longrightarrow> aw = map mg_ToolCallID (filter (\<lambda>g. mg_Role g = ''tool'') ms) @ ids"
proof (induction ms arbitrary: aw)
  case (Cons g ms)
  then show ?case by (cases aw) (auto simp: conv_step_def split: if_splits)
qed simp

lemma last_batch_split:
  assumes "last_batch ms = Some (g, later)"
  obtains pre where "ms = pre @ g # later" and "has_calls g" and "list_all (\<lambda>g. \<not> has_calls g) later"
proof -
  let ?P = "\<lambda>g. \<not> has_calls g"
  from assms obtain xs where d: "dropWhile ?P (rev ms) = g # xs" and l: "later = rev (takeWhile ?P (rev ms))"
    by (auto simp: last_batch_def split: list.splits)
  have "rev ms = takeWhile ?P (rev ms) @ g # xs" using takeWhile_dropWhile_id [of ?P "rev ms"] d by simp
  then have "ms = rev (g # xs) @ rev (takeWhile ?P (rev ms))" using arg_cong [of _ _ rev] by (metis rev_append rev_rev_ident)
  then have "ms = rev xs @ g # later" by (simp add: l)
  moreover have "has_calls g" using hd_dropWhile [of ?P "rev ms"] d by simp
  moreover have "list_all ?P later" using set_takeWhileD [of _ ?P "rev ms"] by (auto simp: l list_all_iff)
  ultimately show ?thesis using that by blast
qed

lemma last_batch_awaiting:
  assumes "awaiting [] ms = Some ids" and "last_batch ms = Some (g, later)"
  shows "map tc_ID (mg_ToolCalls g) = map mg_ToolCallID (filter (\<lambda>m. mg_Role m = ''tool'') later) @ ids"
proof -
  from last_batch_split [OF assms(2)] obtain pre where ms: "ms = pre @ g # later" and g: "has_calls g" and l: "list_all (\<lambda>g. \<not> has_calls g) later"
    by blast
  from assms(1) ms obtain aw where "awaiting [] pre = Some aw" "awaiting aw (g # later) = Some ids"
    by (auto simp: awaiting_append split: option.splits)
  with g have "awaiting (map tc_ID (mg_ToolCalls g)) later = Some ids"
    by (auto simp: conv_step_def has_calls_def split: if_splits)
  from awaiting_no_calls [OF this l] show ?thesis .
qed

lemma recover_answers:
  "recover e fence tr completed ops calls acc = Inr acc' \<Longrightarrow>
   \<exists>zs. ry_msgs acc' = ry_msgs acc @ zs \<and> list_all (\<lambda>z. mg_Role z = ''tool'') zs \<and>
        map mg_ToolCallID zs = map tc_ID (filter (\<lambda>c. tc_ID c \<notin> set completed) calls) \<and>
        length (ry_results acc') \<le> length (ry_results acc) + length zs"
proof (induction e fence tr completed ops calls acc rule: recover.induct)
  case (2 e fence tr completed ops call rest acc)
  show ?case
  proof (cases "tc_ID call \<in> set completed")
    case True
    then show ?thesis using 2 by simp
  next
    case False
    have new: "\<exists>zs. ry_msgs acc' = ry_msgs acc @ zs \<and> list_all (\<lambda>z. mg_Role z = ''tool'') zs \<and>
        map mg_ToolCallID zs = map tc_ID (filter (\<lambda>c. tc_ID c \<notin> set completed) (call # rest)) \<and>
        length (ry_results acc') \<le> length (ry_results acc) + length zs"
      if "\<exists>zs. ry_msgs acc' = ry_msgs acc @ tool_message call s # zs \<and> list_all (\<lambda>z. mg_Role z = ''tool'') zs \<and>
        map mg_ToolCallID zs = map tc_ID (filter (\<lambda>c. tc_ID c \<notin> set completed) rest) \<and>
        length (ry_results acc') \<le> Suc (length (ry_results acc) + length zs)" for s
    proof -
      from that obtain zs where "ry_msgs acc' = ry_msgs acc @ tool_message call s # zs" "list_all (\<lambda>z. mg_Role z = ''tool'') zs"
        "map mg_ToolCallID zs = map tc_ID (filter (\<lambda>c. tc_ID c \<notin> set completed) rest)"
        "length (ry_results acc') \<le> Suc (length (ry_results acc) + length zs)" by blast
      with False show ?thesis by (intro exI [of _ "tool_message call s # zs"]) (simp add: tool_message_def)
    qed
    show ?thesis
    proof (cases "find (op_matches e tr call) (rev ops)")
      case None
      with False 2(2) [OF False None] 2(4) show ?thesis by (intro new) (auto 0 3)
    next
      case (Some o')
      with False 2(4) obtain res where u: "\<not> Uncertain o'" "ne_unresult e (op_Outcome o') = Some res" "op_CandidateBefore o' = ry_candidate acc"
        by (auto split: if_splits option.splits)
      with False Some 2(3) [OF False Some u(1) u(2)] 2(4) show ?thesis
        by (intro new [of "fence_Wrap fence (''result of '' @ tc_Name call) (tq_Content res)"]) auto
    qed
  qed
qed simp

lemma recount_keeps:
  "tr_Messages (recount rs tr) = tr_Messages tr \<and> (budget_ok e x tr \<longrightarrow> budget_ok e (x + length rs) (recount rs tr))"
proof (induction rs arbitrary: tr x)
  case (Cons r rs)
  obtain call res where r: "r = (call, res)" by force
  let ?t = "let tr' = counted call res tr in if tq_Done res then tr'\<lparr>tr_Closed := True, tr_ClaimsDone := True, tr_Summary := tq_Summary res\<rparr> else tr'"
  have "tr_Messages ?t = tr_Messages tr" and "budget_ok e x tr \<longrightarrow> budget_ok e (Suc x) ?t"
    by (auto simp: counted_def budget_ok_def Let_def)
  moreover have "recount (r # rs) tr = recount rs ?t" by (simp add: recount_def r)
  ultimately show ?case using Cons.IH [of ?t "Suc x"] by simp
qed (simp add: recount_def)

lemma reconcile_all:
  assumes conv: "awaiting [] (tr_Messages tr) = Some ids" and pend: "tr_Pending tr" and b: "budget_ok e 0 tr"
    and dist: "\<And>g later. last_batch (tr_Messages tr) = Some (g, later) \<Longrightarrow> distinct (map tc_ID (mg_ToolCalls g))"
    and k: "\<And>tr w. conv_ok tr \<Longrightarrow> \<not> tr_Pending tr \<Longrightarrow> budget_ok e (length ids) tr \<Longrightarrow> engine_keeps e (length ids) (k tr w)"
  shows "engine_keeps e (length ids) (reconcile e req tr w k)"
proof -
  have ok: "conv_ok tr" "budget_ok e (length ids) tr" using conv pend b by (auto simp: conv_ok_def budget_ok_def)
  have rec: "conv_ok (reconciled rcv current tr) \<and> \<not> tr_Pending (reconciled rcv current tr) \<and> budget_ok e (length ids) (reconciled rcv current tr)"
    if lb: "last_batch (tr_Messages tr) = Some (g, later)"
      and r: "recover e fence tr (map mg_ToolCallID (filter (\<lambda>g. mg_Role g = ''tool'') later)) ops (mg_ToolCalls g)
                \<lparr>ry_msgs = [], ry_results = [], ry_candidate = tr_Candidate tr, ry_boundary = False\<rparr> = Inr rcv"
    for g later fence ops rcv current
  proof -
    let ?done = "map mg_ToolCallID (filter (\<lambda>g. mg_Role g = ''tool'') later)"
    have calls: "map tc_ID (mg_ToolCalls g) = ?done @ ids" using last_batch_awaiting [OF conv lb] .
    with dist [OF lb] have "distinct (?done @ ids)" by simp
    then have "filter (\<lambda>i. i \<notin> set ?done) (?done @ ids) = ids" by (auto simp: filter_id_conv)
    then have rest: "map tc_ID (filter (\<lambda>c. tc_ID c \<notin> set ?done) (mg_ToolCalls g)) = ids"
      using calls by (metis (no_types, lifting) filter_cong filter_map comp_apply)
    obtain zs where zs: "ry_msgs rcv = zs" "list_all (\<lambda>z. mg_Role z = ''tool'') zs" "map mg_ToolCallID zs = ids" "length (ry_results rcv) \<le> length zs"
      using recover_answers [OF r] by (auto simp only: rest recovery.simps append_Nil list.size add_0)
    have n: "length (ry_results rcv) \<le> length ids" using zs(3,4) by (metis length_map)
    have aw: "awaiting [] (tr_Messages tr @ ry_msgs rcv) = Some []"
      using conv awaiting_given [OF zs(2,3)] zs(1) by (simp add: awaiting_append)
    have "budget_ok e (length (ry_results rcv)) (recount (ry_results rcv) (tr\<lparr>tr_Messages := tr_Messages tr @ ry_msgs rcv\<rparr>))"
      using recount_keeps [of "ry_results rcv" "tr\<lparr>tr_Messages := tr_Messages tr @ ry_msgs rcv\<rparr>" e 0] b by simp
    then have "budget_ok e (length ids) (recount (ry_results rcv) (tr\<lparr>tr_Messages := tr_Messages tr @ ry_msgs rcv\<rparr>))"
      using n by (auto simp: budget_ok_def)
    then show ?thesis using aw recount_keeps [of "ry_results rcv" "tr\<lparr>tr_Messages := tr_Messages tr @ ry_msgs rcv\<rparr>" e 0]
      by (auto simp: reconciled_def Let_def conv_ok_def budget_ok_def)
  qed
  have upd: "conv_ok (t\<lparr>tr_Candidate := c\<rparr>) = conv_ok t" for t :: "Message Transcript" and c by (auto simp: conv_ok_def split: option.splits)
  show ?thesis using ok rec k
    by (auto simp: reconcile_def Let_def upd split: option.splits sum.splits prod.splits)
qed

text \<open>
  C20. The conversation the engine keeps is always well formed.  Take a transcript that is well formed:
  every batch of tool calls is answered by exactly one tool message per call, in the order of the calls,
  before anything else is said, except for a suffix of the last batch while the transcript is marked
  pending.  Whatever the provider answers, whatever the journal holds and however saves turn out, every
  transcript the engine saves and the one it ends with are well formed again, also when it first has to
  reconcile an interrupted batch, provided the calls of that batch have distinct identifiers.
\<close>

theorem conversation_well_formed:
  assumes "conv_ok tr" and "budget_ok e 0 tr"
    and "\<And>g later. last_batch (tr_Messages tr) = Some (g, later) \<Longrightarrow> distinct (map tc_ID (mg_ToolCalls g))"
  shows "engine_all conv_ok (\<lambda>_. conv_ok) (native_Step e req tr w)"
proof -
  from assms(1) obtain ids where ids: "awaiting [] (tr_Messages tr) = Some ids" "tr_Pending tr \<or> ids = []"
    by (auto simp: conv_ok_def split: option.splits)
  have b: "budget_ok e (length ids) tr" using assms(2) by (auto simp: budget_ok_def)
  then have open': "\<not> tr_Pending tr \<Longrightarrow> engine_keeps e (length ids) (open_step e req tr w)"
    using assms(1) by (intro open_step_all)
  have "tr_Pending tr \<Longrightarrow> engine_keeps e (length ids) (reconcile e req tr w (\<lambda>tr w. open_step e req tr w))"
    using assms by (intro reconcile_all [OF ids(1)] open_step_all) auto
  with open' assms(1) have "engine_keeps e (length ids) (native_Step e req tr w)"
    using b by (simp add: native_Step_def)
  then show ?thesis by (rule engine_all_mono) auto
qed

text \<open>
  The engine's work is bounded whatever the model answers.  From a transcript within the limits and not
  pending, every transcript that is saved and the one the run ends with have at most the configured
  number of steps (20 by default), 40 tool calls, 3 verification runs and 3 refused calls.
\<close>

theorem engine_bounded:
  assumes "conv_ok tr" and "\<not> tr_Pending tr" and "budget_ok e 0 tr"
  shows "engine_all (\<lambda>tr. tr_Steps tr \<le> maxSteps e \<and> tr_Tools tr \<le> 40 \<and> tr_VerifyRuns tr \<le> 3 \<and> tr_InvalidCalls tr \<le> 3)
    (\<lambda>_ tr. tr_Steps tr \<le> maxSteps e \<and> tr_Tools tr \<le> 40 \<and> tr_VerifyRuns tr \<le> 3 \<and> tr_InvalidCalls tr \<le> 3) (native_Step e req tr w)"
proof -
  have "engine_keeps e 0 (native_Step e req tr w)"
    using assms by (auto simp: native_Step_def intro!: open_step_all)
  then show ?thesis
    by (rule engine_all_mono) (auto simp: budget_ok_def maxToolCalls_def maxVerifyRuns_def maxInvalidCalls_def)
qed
section \<open>A tool call is in the journal before it runs, and is not run twice\<close>

lemma Operations_inv:
  assumes "journal_inv db"
  shows "Operations db task = filter (\<lambda>o'. op_TaskID o' = task) (lg_ops db)"
proof -
  let ?xs = "filter (\<lambda>o'. op_TaskID o' = task) (lg_ops db)"
  have "map op_Seq ?xs = map (\<lambda>i. int (Suc i)) [0..<length ?xs]"
    using assms unfolding journal_inv_def task_seqs_def by (metis length_map)
  then have "sorted_wrt (\<lambda>a b. op_Seq a < op_Seq b) ?xs" by (rule sorted_wrt_map_upt)
  then show ?thesis unfolding Operations_def by (rule stable_sort_sorted) simp
qed

text \<open>The operation of a tool call, as it is left in the journal once it completed.\<close>

definition tool_op :: "ledger_db \<Rightarrow> int \<Rightarrow> int \<Rightarrow> string \<Rightarrow> string \<Rightarrow> string \<Rightarrow> string \<Rightarrow> string \<Rightarrow> Operation" where
  "tool_op db now now' task intent outcome before after =
     \<lparr>op_ID = next_id db, op_TaskID = task, op_Seq = last_seq db task + 1, op_Kind = KindDecision, op_Intent = intent, op_Outcome = outcome,
      op_CandidateBefore = before, op_CandidateAfter = after, op_EvidenceID = [], op_StartedAt = now, op_FinishedAt = now', op_Error = []\<rparr>"

lemma begun_completed:
  assumes "Begin ok now task KindDecision (Some intent) before db = (Inr h, db1)"
    and "Complete ok' now' (Some outcome) after [] h db1 = (None, h', db2)"
  shows "db2 = db\<lparr>lg_ops := lg_ops db @ [tool_op db now now' task intent outcome before after]\<rparr>"
proof -
  have "map (\<lambda>o'. if op_ID o' = next_id db then f o' else o') (lg_ops db) = lg_ops db" for f
    using next_id_fresh [of db] by (intro map_idI) force
  then show ?thesis using assms
    by (auto simp: Begin_def Complete_def h_finish_def update_op_def tool_op_def Let_def split: if_splits)
qed

text \<open>
  C13. A tool never runs unrecorded.  If the journal cannot take the entry, the run stops with an error and the
  tool is not performed.  Otherwise the tool is performed exactly once, and when the loop goes on the
  journal has exactly one entry more, with the decision, the result, and the content of the checkout
  before and after.
\<close>

theorem tool_journalled:
  assumes "ContentManifest (ne_sha256 e) (ne_tree e (rq_Worktree req) w) = Inr before" and "ne_tx e w = ((ok, now), w1)"
    and "perform e d (rq_Worktree req) (rq_Presets req) call w1 = (res, w2)" and "d = native_authorize e (rq_Access req) (rq_Worktree req) call w"
    and "ContentManifest (ne_sha256 e) (ne_tree e (rq_Worktree req) w2) = Inr after" and "ne_tx e w2 = ((True, now'), w3)"
  shows "run_engine save (exec_call e req fence call tr w k) x s =
    (if \<not> ok then (Inl (tool_error call), tr, x, s\<lparr>sy_world := w1\<rparr>)
     else run_engine save (k res w3) x
       (s\<lparr>sy_store := (sy_store s)\<lparr>sl_ledger := (sl_ledger (sy_store s))\<lparr>lg_ops := lg_ops (sl_ledger (sy_store s)) @
          [tool_op (sl_ledger (sy_store s)) now now' (rq_TaskID req) (ne_intent e (fence_Token fence) (tr_Steps tr) call d) (ne_result e res) before after]\<rparr>\<rparr>\<rparr>))"
proof (cases ok)
  case True
  let ?db = "sl_ledger (sy_store s)"
  let ?i = "Some (ne_intent e (fence_Token fence) (tr_Steps tr) call d)"
  obtain h db1 where b: "Begin True now (rq_TaskID req) KindDecision ?i before ?db = (Inr h, db1)" and h: "\<not> h_done h"
    by (auto simp: Begin_def Let_def)
  then obtain h' db2 where c: "Complete True now' (Some (ne_result e res)) after [] h db1 = (None, h', db2)"
    by (auto simp: Complete_def h_finish_def)
  have "run_engine save (exec_call e req fence call tr w k) x s = run_engine save (k res w3) x (s\<lparr>sy_store := (sy_store s)\<lparr>sl_ledger := db2\<rparr>\<rparr>)"
    using assms True b c by (simp add: exec_call_def Let_def)
  with begun_completed [OF b c] True show ?thesis by simp
next
  case False
  then show ?thesis using assms by (simp add: exec_call_def Let_def Begin_def)
qed

section \<open>Instances\<close>

definition demo_request :: "PacketContent EngineRequest" where
  "demo_request = \<lparr>rq_Presets = [], rq_TaskID = ''t'', rq_Objective = ''set x'', rq_Worktree = ''/w'',
     rq_Packet = \<lparr>pkt_SlicePaths = [], pkt_Rejected = [], pkt_Tokens = 0, pkt_Impact = None,
       pkt_Content = \<lparr>pc_ProjectNotes = [], pc_Notes = [], pc_NotesDropped = 0, pc_Slices = []\<rparr>\<rparr>,
     rq_Feedback = [], rq_Attempt = 1, rq_Access = demo_access, rq_Phase = None, rq_Plan = None, rq_MaxTokens = 0, rq_ContextTokens = 0,
     rq_OutputTokens = 0, rq_ReasoningTokens = 0\<rparr>"

definition demo_sys :: "(string \<times> string) list sys" where
  "demo_sys = \<lparr>sy_world = [], sy_store = demo_store, sy_gates = []\<rparr>"

text \<open>A transcript interrupted after the first of two calls was answered.\<close>

definition demo_pending :: "Message Transcript" where
  "demo_pending = no_transcript\<lparr>tr_Pending := True, tr_Steps := 1, tr_Tools := 1, tr_FenceToken := replicate 32 CHR ''a'', tr_Candidate := ''c'',
     tr_Messages := [text_message ''system'' [], text_message ''user'' [],
       (text_message ''assistant'' [])\<lparr>mg_ToolCalls := [demo_write, demo_write\<lparr>tc_ID := ''2''\<rparr>]\<rparr>, tool_message demo_write ''ok'']\<rparr>"

theorem conversation_well_formed_witness:
  "awaiting [] (tr_Messages demo_pending) = Some [''2''] \<and> engine_all conv_ok (\<lambda>_. conv_ok) (native_Step demo_engine demo_request demo_pending [])"
proof -
  have aw: "awaiting [] (tr_Messages demo_pending) = Some [''2'']" by code_simp
  have lb: "last_batch (tr_Messages demo_pending) = Some ((text_message ''assistant'' [])\<lparr>mg_ToolCalls := [demo_write, demo_write\<lparr>tc_ID := ''2''\<rparr>]\<rparr>, [tool_message demo_write ''ok''])"
    by code_simp
  have "conv_ok demo_pending" using aw by (simp add: conv_ok_def demo_pending_def)
  moreover have "budget_ok demo_engine 0 demo_pending"
    by (simp add: budget_ok_def demo_pending_def no_transcript_def maxSteps_def demo_engine_def maxToolCalls_def maxVerifyRuns_def maxInvalidCalls_def)
  moreover have "distinct (map tc_ID (mg_ToolCalls g))" if "last_batch (tr_Messages demo_pending) = Some (g, later)" for g later
    using that lb by (auto simp: demo_write_def)
  ultimately show ?thesis using aw conversation_well_formed [of demo_pending demo_engine demo_request "[]"] by blast
qed

theorem engine_bounded_witness:
  "maxSteps demo_engine = 20 \<and>
   engine_all (\<lambda>tr. tr_Steps tr \<le> 20 \<and> tr_Tools tr \<le> 40 \<and> tr_VerifyRuns tr \<le> 3 \<and> tr_InvalidCalls tr \<le> 3)
     (\<lambda>_ tr. tr_Steps tr \<le> 20 \<and> tr_Tools tr \<le> 40 \<and> tr_VerifyRuns tr \<le> 3 \<and> tr_InvalidCalls tr \<le> 3) (native_Step demo_engine demo_request no_transcript [])"
proof -
  have m: "maxSteps demo_engine = 20" by (simp add: maxSteps_def demo_engine_def)
  have "conv_ok no_transcript" "\<not> tr_Pending (no_transcript :: Message Transcript)" "budget_ok demo_engine 0 no_transcript"
    by (simp_all add: conv_ok_def budget_ok_def no_transcript_def m maxToolCalls_def maxVerifyRuns_def maxInvalidCalls_def)
  from engine_bounded [OF this, of demo_request "[]"] m show ?thesis by simp
qed

lemma native_manifest: "ContentManifest (ne_sha256 demo_engine) (ne_tree demo_engine ''/w'' w) = Inr []"
  by (simp add: demo_engine_def ContentManifest_def manifest_bytes_def)

theorem tool_journalled_witness:
  "(case run_engine (\<lambda>tr x s. (True, tr, x, s)) (exec_call demo_engine demo_request (ne_fence demo_engine) demo_write no_transcript [] (\<lambda>res w. EngineDone (Inr no_response) no_transcript w))
      () demo_sys of (res, tr, x, s) \<Rightarrow>
      sy_world s = [(''/w/src/x.go'', ''package x'')] \<and>
      map op_Outcome (lg_ops (sl_ledger (sy_store s))) = map op_Outcome (lg_ops (sl_ledger demo_store)) @ [''result''])"
proof -
  have r: "rq_Worktree demo_request = ''/w''" "rq_Presets demo_request = []" "rq_Access demo_request = demo_access" by (simp_all add: demo_request_def)
  have tx: "ne_tx demo_engine w = ((True, 7), w)" and o: "ne_result demo_engine r' = ''result''" for w r' by (simp_all add: demo_engine_def)
  note j = tool_journalled [of demo_engine demo_request "[]" "[]" True 7 "[]" _ demo_write "ok_result ''Wrote lib/x.go (9 bytes).''\<lparr>tq_Edited := True\<rparr>"
      "[(''/w/src/x.go'', ''package x'')]" "[]" 7 "[(''/w/src/x.go'', ''package x'')]", unfolded r, OF native_manifest tx demo_perform refl native_manifest tx]
  show ?thesis by (simp add: j demo_sys_def tool_op_def o)
qed
text \<open>A codec that satisfies the laws: fields escaped byte by byte, one after the other.\<close>

fun esc :: "string \<Rightarrow> string" where
  "esc [] = ''.''"
| "esc (c # s) = CHR ''c'' # c # esc s"

fun unesc :: "string \<Rightarrow> string \<times> string" where
  "unesc (x # y # r) = (if x = CHR ''c'' then (y # fst (unesc r), snd (unesc r)) else ([], y # r))"
| "unesc r = ([], [])"

lemma unesc_esc [simp]: "unesc (esc s @ r) = (s, r)"
proof (induction s)
  case Nil
  show ?case by (cases r) simp_all
qed simp

definition int_text :: "int \<Rightarrow> string" where
  "int_text n = (if n < 0 then replicate (nat (- n)) CHR ''-'' else replicate (nat n) CHR ''+'')"

definition text_int :: "string \<Rightarrow> int" where
  "text_int s = (if s \<noteq> [] \<and> hd s = CHR ''-'' then - int (length s) else int (length s))"

lemma text_int_text [simp]: "text_int (int_text n) = n"
  by (auto simp: int_text_def text_int_def)

definition flag :: "bool \<Rightarrow> string" where "flag b = (if b then ''t'' else [])"

lemma flag_eq [simp]: "(flag b \<noteq> []) = b"
  by (simp add: flag_def)

definition demo_codec_engine :: "(string \<times> string) list NativeEngine" where
  "demo_codec_engine = demo_engine\<lparr>ne_intent := (\<lambda>t n c d. esc t @ esc (int_text n) @ esc (tc_ID c) @ esc (tc_Arguments c)),
     ne_unintent := (\<lambda>s. let (t, r1) = unesc s; (n, r2) = unesc r1; (i, r3) = unesc r2; (a, _) = unesc r3 in Some (t, text_int n, i, a)),
     ne_result := (\<lambda>r. esc (flag (tq_Invalid r)) @ esc (tq_Content r) @ esc (flag (tq_Failed r)) @ esc (flag (tq_Edited r)) @ esc (flag (tq_Done r)) @ esc (tq_Summary r)),
     ne_unresult := (\<lambda>s. let (a, r1) = unesc s; (b, r2) = unesc r1; (c, r3) = unesc r2; (d, r4) = unesc r3; (f, r5) = unesc r4; (g, _) = unesc r5
        in Some \<lparr>tq_Invalid = (a \<noteq> []), tq_Content = b, tq_Failed = (c \<noteq> []), tq_Edited = (d \<noteq> []), tq_Done = (f \<noteq> []), tq_Summary = g\<rparr>)\<rparr>"

lemma unesc_esc_end [simp]: "unesc (esc s) = (s, [])"
  using unesc_esc [of s "[]"] by simp

lemma esc_not_Nil [simp]: "esc s \<noteq> []"
  by (cases s) simp_all


section \<open>The engine under the phased run\<close>

lemma run_engine_final:
  assumes save: "\<And>tr x s. \<exists>c. fst (snd (save tr x s)) = tr\<lparr>tr_Candidate := c\<rparr>"
  shows "engine_all P Q run \<Longrightarrow> run_engine save run x s = (res, tr, x', s') \<Longrightarrow> Q res tr"
proof (induction run arbitrary: x s)
  case (EngineSave t w k)
  obtain ok t1 x1 s1 where sv: "save t x (s\<lparr>sy_world := w\<rparr>) = (ok, t1, x1, s1)" by (metis prod_cases4)
  with save [of t x "s\<lparr>sy_world := w\<rparr>"] obtain c where c: "t1 = t\<lparr>tr_Candidate := c\<rparr>" by auto
  from EngineSave.prems(1) c have "engine_all P Q (k ok t1 (sy_world s1))" by simp
  with EngineSave.IH [OF rangeI rangeI rangeI this] EngineSave.prems(2) sv show ?case by simp
next
  case (EngineJournal f k)
  then show ?case using EngineJournal.IH [OF rangeI] by auto
qed simp

lemma save_transcript_candidate: "\<exists>c. fst (snd (save_transcript r t wt tr x sys)) = tr\<lparr>tr_Candidate := c\<rparr>"
proof -
  obtain res sys1 where c: "wt_Candidate r wt sys = (res, sys1)"
    by (cases "wt_Candidate r wt sys")
  show ?thesis
  proof (cases res)
    case (Inl e)
    show ?thesis
      by (rule exI [of _ "[]"]) (simp only: save_transcript_def c Inl Let_def case_prod_beta sum.case fst_conv snd_conv)
  next
    case (Inr cand)
    show ?thesis
      by (rule exI [of _ cand]) (simp only: save_transcript_def c Inr Let_def case_prod_beta sum.case fst_conv snd_conv)
  qed
qed

text \<open>
  Composition with the phased run.  When the runner's engine is the native engine and the EDIT transcript
  of the workflow state is well formed and within its limits and not pending, then after the engine's
  step, through every save into the task store, the transcript in the state is well formed and within its
  limits again, so the next run can resume it.
\<close>

theorem edit_phase_keeps_transcript:
  assumes "ru_Engine r = native_Step e" and "conv_ok (w_Edit (ps_s p))" and "\<not> tr_Pending (w_Edit (ps_s p))" and "budget_ok e 0 (w_Edit (ps_s p))"
    and "edit_engine r d t wt pkt p = (res, p')"
  shows "conv_ok (w_Edit (ps_s p')) \<and> budget_ok e 0 (w_Edit (ps_s p'))"
proof -
  let ?run = "native_Step e (edit_request r d t wt (ps_s p) pkt) (w_Edit (ps_s p)) (sy_world (ps_sys p))"
  have all: "engine_keeps e 0 ?run" using assms(2-4) by (auto simp: native_Step_def intro!: open_step_all)
  obtain out tr x' s' where r: "run_engine (save_transcript r t wt) ?run (tr_Tokens (w_Edit (ps_s p)), ps_s p) (ps_sys p) = (out, tr, x', s')"
    by (metis prod_cases4)
  from run_engine_final [OF save_transcript_candidate all r] have "conv_ok tr \<and> budget_ok e 0 tr" .
  moreover have "w_Edit (ps_s p') = tr" using assms(1,5) r by (auto simp: edit_engine_def Let_def split: prod.splits)
  ultimately show ?thesis by simp
qed

definition native_runner :: "(Message, PacketContent, (string \<times> string) list) TaskRunner" where
  "native_runner = \<lparr>ru_tx = (\<lambda>w. ((True, 0), w)), ru_ctxErr = (\<lambda>_. None), ru_random = (\<lambda>w. (None, w)), ru_git = (\<lambda>_ _ w. (Some [], w)),
     ru_fs = (\<lambda>_. demo_fs), ru_tree = (\<lambda>_ _. Some []), ru_sha = id,
     ru_codec = \<lparr>wc_state = (\<lambda>_. Some ''s''), wc_unstate = (\<lambda>_. None), wc_intent = (\<lambda>_ _. ''i''), wc_outcome = (\<lambda>_. ''o'')\<rparr>,
     ru_json = (\<lambda>_. ''j''), ru_summaryJSON = (\<lambda>_. ''d''), ru_Broker = None, ru_Sandbox = None, ru_SandboxSpec = demo_spec,
     ru_dirs = \<lparr>td_Tmp = ''/t'', td_GoBuildCache = ''/b'', td_GoModCache = ''/m''\<rparr>, ru_self = ''/le'',
     ru_ensureDirs = (\<lambda>_ w. w), ru_Artifacts = None, ru_showDuration = showInt, ru_probes = (\<lambda>_. demo_probes), ru_declared = (\<lambda>_ _ _ _. []),
     ru_ports = (\<lambda>_ _. None), ru_phased = True, ru_edits = True, ru_engineName = ''native/demo'', ru_Engine = native_Step demo_engine,
     ru_Build = (\<lambda>_ w. (Inr (rq_Packet demo_request), w)), ru_Dirty = None, ru_Refresh = (\<lambda>_ w. (None, w)), ru_repoRoot = ''/repo'',
     ru_Policies = \<lparr>Policies = []\<rparr>, ru_Holder = ''h''\<rparr>"

definition native_env :: "(PacketContent, (string \<times> string) list) PhaseEnv" where
  "native_env = \<lparr>pe_structured = True, pe_hasReviewModel = False, pe_budgets = [], pe_chat = (\<lambda>_ _ _ _ _ _ w. (Inl ''no model'', w)), pe_marshal = (\<lambda>_. Some ''{}''),
     pe_unplan = (\<lambda>_. None), pe_unverdict = (\<lambda>_. None), pe_unselection = (\<lambda>_ _. None), pe_skeleton = (\<lambda>_ _. Inr []), pe_withoutBodies = id,
     pe_repoMap = None, pe_notes = (\<lambda>_ _. None), pe_expandTerms = (\<lambda>_. []), pe_grep = (\<lambda>_ _ _. Inl RipgrepMissing), pe_nodes = (\<lambda>_ _. Some []),
     pe_readFile = (\<lambda>_ _. Inr ''x''), pe_stat = (\<lambda>_ _. Inr (True, 1)), pe_toml = (\<lambda>_. None), pe_readPkg = (\<lambda>_ _. Unreadable),
     pe_fp = (\<lambda>_. \<lparr>fe_marshalFinding = (\<lambda>_. []), fe_marshalBody = (\<lambda>_. []), fe_sha256 = id, fe_supports = (\<lambda>_. False), fe_readWithin = (\<lambda>_ _. None),
        fe_enclosing = (\<lambda>_ _ _. None)\<rparr>),
     pe_signatures = (\<lambda>_ _ _. Inr []), pe_supported = (\<lambda>_. False), pe_live = (\<lambda>_ _ _ w. ([], w)), pe_errText = (\<lambda>_. ''e''),
     pe_writeCard = (\<lambda>_ _ _ _ _ _ w. (None, w)), pe_repoID = (\<lambda>_. ''r'')\<rparr>"

definition native_state :: "(Message, (string \<times> string) list) pstate" where
  "native_state = \<lparr>ps_s = new_workflow demo_wt 0, ps_out = new_outcome demo_task, ps_sys = demo_sys\<rparr>"

theorem edit_phase_keeps_transcript_witness:
  "conv_ok (w_Edit (ps_s (snd (edit_engine native_runner native_env demo_task demo_wt (rq_Packet demo_request) native_state)))) \<and>
   ru_Engine native_runner = native_Step demo_engine \<and> tr_Messages (w_Edit (ps_s native_state)) = []"
proof -
  have s: "w_Edit (ps_s native_state) = no_transcript" by (simp add: native_state_def new_workflow_def)
  have e: "ru_Engine native_runner = native_Step demo_engine" by (simp add: native_runner_def)
  have ok: "conv_ok (w_Edit (ps_s native_state))" "\<not> tr_Pending (w_Edit (ps_s native_state))" "budget_ok demo_engine 0 (w_Edit (ps_s native_state))"
    unfolding s by (simp_all add: conv_ok_def budget_ok_def no_transcript_def maxSteps_def demo_engine_def maxToolCalls_def maxVerifyRuns_def maxInvalidCalls_def)
  from edit_phase_keeps_transcript [OF e ok prod.collapse [symmetric], of native_env demo_task demo_wt "rq_Packet demo_request"] e s
  show ?thesis by (simp add: no_transcript_def)
qed

end
