(* ===== verification/Providers.thy ===== *)
theory Providers
  imports NativeEngine
begin

text \<open>
  The model providers (\<^verbatim>\<open>src/internal/llm/provider.go\<close>, \<^verbatim>\<open>openai.go\<close>, \<^verbatim>\<open>anthropic.go\<close>): what a provider
  declares, the request it sends on the wire for a conversation with tools and images, and how it reads the
  reply.  The HTTP client and the JSON codec are the record \<open>Wire\<close>.
\<close>

section \<open>Capabilities, conversations and requests\<close>

definition KindLlamaCPP :: string where "KindLlamaCPP = ''llamacpp''"
definition KindOpenAICompatible :: string where "KindOpenAICompatible = ''openai_compatible''"
definition KindAnthropic :: string where "KindAnthropic = ''anthropic''"
definition KindOpenAI :: string where "KindOpenAI = ''openai''"

text \<open>Floating-point numbers are only passed on; they are rationals here.\<close>

record Capabilities =
  cb_Kind :: string
  cb_ToolCalling :: bool
  cb_StructuredOutput :: bool
  cb_Grammar :: bool
  cb_Infill :: bool
  cb_Embeddings :: bool
  cb_Vision :: bool
  cb_ThinkingControl :: bool
  cb_MaxContext :: int
  cb_Local :: bool
  cb_CostPerMTokIn :: rat
  cb_CostPerMTokOut :: rat

definition no_capabilities :: Capabilities where
  "no_capabilities = \<lparr>cb_Kind = [], cb_ToolCalling = False, cb_StructuredOutput = False, cb_Grammar = False, cb_Infill = False,
     cb_Embeddings = False, cb_Vision = False, cb_ThinkingControl = False, cb_MaxContext = 0, cb_Local = False,
     cb_CostPerMTokIn = 0, cb_CostPerMTokOut = 0\<rparr>"

record Image =
  im_MediaType :: string
  im_Data :: string

text \<open>A turn of a conversation as the provider gets it: the message of the engine with its images.\<close>

record ChatMessage = Message +
  mg_Images :: "Image list"

definition HasImages :: "ChatMessage list \<Rightarrow> bool" where
  "HasImages ms = list_ex (\<lambda>g. mg_Images g \<noteq> []) ms"

record ChatRequest =
  cr_ReasoningBudgetTokens :: int
  cr_Model :: string
  cr_Messages :: "ChatMessage list"
  cr_Temperature :: "rat option"
  cr_TopP :: "rat option"
  cr_TopK :: "int option"
  cr_MinP :: "rat option"
  cr_MaxTokens :: int
  cr_Stop :: "string list"
  cr_Seed :: "int option"
  cr_Thinking :: string
  cr_Tools :: "ToolDef list"
  cr_ToolChoice :: string

record FullResponse = ChatResponse +
  cx_CachedTokens :: int
  cx_Model :: string
  cx_DurationMS :: int
  cx_PrefillMS :: int
  cx_DecodeMS :: int

definition WantsTools :: "'a ChatResponse_scheme option \<Rightarrow> bool" where
  "WantsTools r = (case r of None \<Rightarrow> False | Some x \<Rightarrow> ch_ToolCalls x \<noteq> [])"

datatype llm_error =
    Unsupported string string
  | NoSchema
  | NoUserTurns string
  | EndsOnAssistant string
  | Refused string string string
  | BadURL string
  | Unmarshalable
  | TransportFailed string string
  | BodyUnread string
  | BadStatus string int string
  | Undecodable string
  | NoChoices string
  | NotReady string string

section \<open>The wire\<close>

datatype wire =
    WStr string
  | WInt int
  | WNum rat
  | WBool bool
  | WRaw string
  | WArr "wire list"
  | WObj "(string \<times> wire) list"

record OAChoice =
  oc_Content :: string
  oc_Reasoning :: string
  oc_ToolCalls :: "ToolCall list"
  oc_FinishReason :: string

record OAReply =
  oy_Model :: string
  oy_Choices :: "OAChoice list"
  oy_PromptTokens :: int
  oy_CompletionTokens :: int
  oy_CachedTokens :: int
  oy_TimingsCacheN :: int
  oy_CacheN :: int
  oy_PromptMS :: rat
  oy_PredictedMS :: rat

datatype reply_block = TextBlock string | ToolUseBlock string string string | OtherBlock string

record ANReply =
  ay_Model :: string
  ay_Content :: "reply_block list"
  ay_StopReason :: string
  ay_StopDetails :: "(string \<times> string) option"
  ay_InputTokens :: int
  ay_OutputTokens :: int
  ay_CacheReadTokens :: int
  ay_CacheCreationTokens :: int

text \<open>
  The HTTP client and the codec: a URL that parses, the exchange (a transport error, or the status with the body as far as
  it could be read), marshalling, decoding into each reply type, and the milliseconds the call took.
\<close>

record Wire =
  hw_URLOk :: "string \<Rightarrow> bool"
  hw_Do :: "string \<Rightarrow> string \<Rightarrow> (string \<times> string) list \<Rightarrow> string \<Rightarrow> string + int \<times> string option"
  hw_Marshal :: "wire \<Rightarrow> string option"
  hw_OpenAI :: "string \<Rightarrow> OAReply option"
  hw_Anthropic :: "string \<Rightarrow> ANReply option"
  hw_Vectors :: "string \<Rightarrow> (string \<times> rat list list) option"
  hw_Infill :: "string \<Rightarrow> (string \<times> int \<times> int) option"
  hw_Elapsed :: int

record Endpoint =
  ep_name :: string
  ep_baseURL :: string
  ep_apiKey :: string
  ep_model :: string
  ep_caps :: Capabilities
  ep_timeout :: int

definition trimSlashes :: "string \<Rightarrow> string" where
  "trimSlashes s = rev (dropWhile ((=) CHR ''/'') (rev s))"

definition MaxReply :: nat where "MaxReply = 64 * 2 ^ 20"

definition cut_mark :: string where "cut_mark = map char_of [226, 128, 166 :: nat]"

definition oa_headers :: "Endpoint \<Rightarrow> (string \<times> string) list" where
  "oa_headers p = (if ep_apiKey p \<noteq> [] then [(''Authorization'', ''Bearer '' @ ep_apiKey p)] else [])"

text \<open>One POST: only a reply with status 200 that decodes is an answer.\<close>

definition post_with ::
  "Wire \<Rightarrow> (string \<times> string) list \<Rightarrow> (string \<Rightarrow> string) \<Rightarrow> (string \<Rightarrow> 'a option) \<Rightarrow> Endpoint \<Rightarrow> string \<Rightarrow> wire \<Rightarrow> llm_error + 'a" where
  "post_with w headers snippet decode p path payload =
     (case hw_Marshal w payload of None \<Rightarrow> Inl Unmarshalable | Some body \<Rightarrow>
      if \<not> hw_URLOk w (ep_baseURL p @ path) then Inl (BadURL (ep_baseURL p @ path))
      else (case hw_Do w ''POST'' (ep_baseURL p @ path) headers body of
          Inl e \<Rightarrow> Inl (TransportFailed path e)
        | Inr (status, None) \<Rightarrow> Inl (BodyUnread path)
        | Inr (status, Some full) \<Rightarrow>
            let raw = take MaxReply full in
            if status \<noteq> 200 then Inl (BadStatus path status (snippet raw))
            else (case decode raw of None \<Rightarrow> Inl (Undecodable path) | Some out \<Rightarrow> Inr out)))"

definition oa_snippet :: "string \<Rightarrow> string" where
  "oa_snippet raw = trimSpace (if length raw > 512 then take 512 raw @ cut_mark else raw)"

definition oa_post :: "Wire \<Rightarrow> (string \<Rightarrow> 'a option) \<Rightarrow> Endpoint \<Rightarrow> string \<Rightarrow> wire \<Rightarrow> llm_error + 'a" where
  "oa_post w decode p path payload =
     post_with w ((''Content-Type'', ''application/json'') # oa_headers p) oa_snippet decode p path payload"

definition an_headers :: "Endpoint \<Rightarrow> (string \<times> string) list" where
  "an_headers p = [(''x-api-key'', ep_apiKey p), (''anthropic-version'', ''2023-06-01''), (''content-type'', ''application/json'')]"

definition an_snippet :: "string \<Rightarrow> string" where
  "an_snippet raw = (let s = trimSpace raw in if length s > 512 then take 512 s @ cut_mark else s)"

definition an_post :: "Wire \<Rightarrow> (string \<Rightarrow> 'a option) \<Rightarrow> Endpoint \<Rightarrow> string \<Rightarrow> wire \<Rightarrow> llm_error + 'a" where
  "an_post w decode p path payload = post_with w (an_headers p) an_snippet decode p path payload"

text \<open>\<^verbatim>\<open>base64.StdEncoding\<close>.\<close>

definition b64_char :: "nat \<Rightarrow> char" where
  "b64_char n = ''ABCDEFGHIJKLMNOPQRSTUVWXYZabcdefghijklmnopqrstuvwxyz0123456789+/'' ! n"

fun b64_encode :: "string \<Rightarrow> string" where
  "b64_encode [] = []"
| "b64_encode [a] = (let x = of_char a in [b64_char (x div 4), b64_char (x mod 4 * 16), CHR ''='', CHR ''=''])"
| "b64_encode [a, b] = (let x = of_char a; y = of_char b in
     [b64_char (x div 4), b64_char (x mod 4 * 16 + y div 16), b64_char (y mod 16 * 4), CHR ''=''])"
| "b64_encode (a # b # c # rest) = (let x = of_char a; y = of_char b; z = of_char c in
     [b64_char (x div 4), b64_char (x mod 4 * 16 + y div 16), b64_char (y mod 16 * 4 + z div 64), b64_char (z mod 64)] @
     b64_encode rest)"

definition dataURI :: "Image \<Rightarrow> string" where
  "dataURI img = ''data:'' @ (if im_MediaType img = [] then ''application/octet-stream'' else im_MediaType img) @ '';base64,'' @ b64_encode (im_Data img)"

section \<open>The OpenAI-compatible surface\<close>

definition oa_call :: "ToolCall \<Rightarrow> wire" where
  "oa_call c = WObj [(''id'', WStr (tc_ID c)), (''type'', WStr ''function''),
     (''function'', WObj [(''name'', WStr (tc_Name c)), (''arguments'', WStr (tc_Arguments c))])]"

definition oa_content :: "ChatMessage \<Rightarrow> wire" where
  "oa_content g =
     (if mg_Images g \<noteq> [] then
        WArr ((if mg_Content g \<noteq> [] then [WObj [(''type'', WStr ''text''), (''text'', WStr (mg_Content g))]] else []) @
              map (\<lambda>img. WObj [(''type'', WStr ''image_url''), (''image_url'', WObj [(''url'', WStr (dataURI img))])]) (mg_Images g))
      else WStr (mg_Content g))"

definition oa_message :: "ChatMessage \<Rightarrow> wire" where
  "oa_message g = WObj ([(''role'', WStr (mg_Role g)), (''content'', oa_content g)] @
     (if mg_Name g \<noteq> [] then [(''name'', WStr (mg_Name g))] else []) @
     (if mg_ToolCallID g \<noteq> [] then [(''tool_call_id'', WStr (mg_ToolCallID g))] else []) @
     (if mg_ToolCalls g \<noteq> [] then [(''tool_calls'', WArr (map oa_call (mg_ToolCalls g)))] else []))"

definition openAIMessages :: "ChatMessage list \<Rightarrow> wire list" where
  "openAIMessages ms = map oa_message ms"

definition opt_field :: "string \<Rightarrow> ('a \<Rightarrow> wire) \<Rightarrow> 'a option \<Rightarrow> (string \<times> wire) list" where
  "opt_field k f x = (case x of None \<Rightarrow> [] | Some v \<Rightarrow> [(k, f v)])"

definition oa_tool :: "ToolDef \<Rightarrow> wire" where
  "oa_tool t = WObj [(''type'', WStr ''function''),
     (''function'', WObj [(''name'', WStr (td_Name t)), (''description'', WStr (td_Description t)), (''parameters'', WRaw (td_Schema t))])]"

text \<open>The request, or the refusal: what the provider does not declare is not sent.\<close>

definition oa_body :: "Endpoint \<Rightarrow> ChatRequest \<Rightarrow> string option \<Rightarrow> llm_error + (string \<times> wire) list" where
  "oa_body p req schema =
     (if cr_Tools req \<noteq> [] \<and> \<not> cb_ToolCalling (ep_caps p) then Inl (Unsupported (ep_name p) ''tool calling'')
      else if HasImages (cr_Messages req) \<and> \<not> cb_Vision (ep_caps p) then Inl (Unsupported (ep_name p) ''vision'')
      else Inr (
        [(''model'', WStr (if cr_Model req = [] then ep_model p else cr_Model req)), (''messages'', WArr (openAIMessages (cr_Messages req)))] @
        (if cr_Tools req \<noteq> [] then
           (''tools'', WArr (map oa_tool (cr_Tools req))) # (if cr_ToolChoice req \<noteq> [] then [(''tool_choice'', WStr (cr_ToolChoice req))] else [])
         else []) @
        opt_field ''temperature'' WNum (cr_Temperature req) @ opt_field ''top_p'' WNum (cr_TopP req) @
        opt_field ''top_k'' WInt (cr_TopK req) @ opt_field ''min_p'' WNum (cr_MinP req) @
        (if cr_MaxTokens req > 0 then [(''max_tokens'', WInt (cr_MaxTokens req))] else []) @
        (if cr_Stop req \<noteq> [] then [(''stop'', WArr (map WStr (cr_Stop req)))] else []) @
        opt_field ''seed'' WInt (cr_Seed req) @
        opt_field ''response_format'' (\<lambda>s. WObj [(''type'', WStr ''json_schema''),
          (''json_schema'', WObj [(''name'', WStr ''response''), (''strict'', WBool True), (''schema'', WRaw s)])]) schema @
        (if cr_Thinking req \<noteq> [] \<and> cb_ThinkingControl (ep_caps p)
         then [(''chat_template_kwargs'', WObj [(''enable_thinking'', WBool (cr_Thinking req \<noteq> ''off''))])] else []) @
        (if cr_ReasoningBudgetTokens req > 0 \<and> cb_Kind (ep_caps p) = KindLlamaCPP
         then [(''reasoning_budget_tokens'', WInt (cr_ReasoningBudgetTokens req))] else [])))"

definition to_int64 :: "rat \<Rightarrow> int" where
  "to_int64 x = (if x < 0 then - \<lfloor>- x\<rfloor> else \<lfloor>x\<rfloor>)"

definition oa_answer :: "int \<Rightarrow> OAReply \<Rightarrow> OAChoice \<Rightarrow> FullResponse" where
  "oa_answer elapsed out c =
     \<lparr>ch_Content = oc_Content c, ch_Reasoning = oc_Reasoning c,
      ch_ToolCalls = map (\<lambda>u. if trimSpace (tc_Arguments u) = [] then u\<lparr>tc_Arguments := ''{}''\<rparr> else u) (oc_ToolCalls c),
      ch_PromptTokens = oy_PromptTokens out, ch_OutputTokens = oy_CompletionTokens out, ch_FinishReason = oc_FinishReason c,
      cx_CachedTokens = (if oy_CachedTokens out \<noteq> 0 then oy_CachedTokens out
                         else if oy_TimingsCacheN out \<noteq> 0 then oy_TimingsCacheN out else oy_CacheN out),
      cx_Model = oy_Model out, cx_DurationMS = elapsed, cx_PrefillMS = to_int64 (oy_PromptMS out), cx_DecodeMS = to_int64 (oy_PredictedMS out)\<rparr>"

definition oa_chat :: "Wire \<Rightarrow> Endpoint \<Rightarrow> ChatRequest \<Rightarrow> string option \<Rightarrow> llm_error + FullResponse" where
  "oa_chat w p req schema =
     (case oa_body p req schema of Inl e \<Rightarrow> Inl e | Inr body \<Rightarrow>
      case oa_post w (hw_OpenAI w) p ''/v1/chat/completions'' (WObj body) of Inl e \<Rightarrow> Inl e | Inr out \<Rightarrow>
      case oy_Choices out of [] \<Rightarrow> Inl (NoChoices (ep_name p)) | c # _ \<Rightarrow> Inr (oa_answer (hw_Elapsed w) out c))"

definition oa_ChatStructured :: "Wire \<Rightarrow> Endpoint \<Rightarrow> ChatRequest \<Rightarrow> string \<Rightarrow> llm_error + FullResponse" where
  "oa_ChatStructured w p req schema =
     (if \<not> cb_StructuredOutput (ep_caps p) then Inl (Unsupported (ep_name p) ''structured output'')
      else if schema = [] then Inl NoSchema else oa_chat w p req (Some schema))"

definition oa_Embed :: "Wire \<Rightarrow> Endpoint \<Rightarrow> string \<Rightarrow> string list \<Rightarrow> llm_error + (string \<times> rat list list \<times> int)" where
  "oa_Embed w p model input =
     (if \<not> cb_Embeddings (ep_caps p) then Inl (Unsupported (ep_name p) ''embeddings'')
      else case oa_post w (hw_Vectors w) p ''/v1/embeddings''
             (WObj [(''model'', WStr (if model = [] then ep_model p else model)), (''input'', WArr (map WStr input))]) of
          Inl e \<Rightarrow> Inl e
        | Inr (m, vs) \<Rightarrow> Inr (m, vs, case vs of [] \<Rightarrow> 0 | v # _ \<Rightarrow> int (length v)))"

definition oa_Infill :: "Wire \<Rightarrow> Endpoint \<Rightarrow> string \<Rightarrow> string \<Rightarrow> int \<Rightarrow> llm_error + FullResponse" where
  "oa_Infill w p before after most =
     (if \<not> cb_Infill (ep_caps p) then Inl (Unsupported (ep_name p) ''infill'')
      else case oa_post w (hw_Infill w) p ''/infill''
             (WObj ([(''input_prefix'', WStr before), (''input_suffix'', WStr after)] @ (if most > 0 then [(''n_predict'', WInt most)] else []))) of
          Inl e \<Rightarrow> Inl e
        | Inr (content, promptN, predictedN) \<Rightarrow>
            Inr \<lparr>ch_Content = content, ch_Reasoning = [], ch_ToolCalls = [], ch_PromptTokens = promptN, ch_OutputTokens = predictedN,
                 ch_FinishReason = ''stop'', cx_CachedTokens = 0, cx_Model = ep_model p, cx_DurationMS = hw_Elapsed w, cx_PrefillMS = 0, cx_DecodeMS = 0\<rparr>)"

definition probe_ok :: "Wire \<Rightarrow> Endpoint \<Rightarrow> string \<Rightarrow> bool" where
  "probe_ok w p path = (case hw_Do w ''GET'' (ep_baseURL p @ path) (oa_headers p) [] of Inl _ \<Rightarrow> False | Inr (status, _) \<Rightarrow> status = 200)"

definition oa_Health :: "Wire \<Rightarrow> Endpoint \<Rightarrow> llm_error option" where
  "oa_Health w p =
     (if \<not> hw_URLOk w (ep_baseURL p @ ''/health'') then Some (BadURL (ep_baseURL p @ ''/health''))
      else if probe_ok w p ''/health'' then None
      else if \<not> hw_URLOk w (ep_baseURL p @ ''/v1/models'') then Some (BadURL (ep_baseURL p @ ''/v1/models''))
      else if probe_ok w p ''/v1/models'' then None
      else Some (NotReady (ep_name p) (ep_baseURL p)))"


section \<open>The Anthropic surface\<close>

text \<open>
  A turn is a role with plain text or with blocks; only a turn with blocks takes in the result of a tool.
\<close>

datatype block = TextPart string | ToolUse string string string | ToolResultPart string string | ImagePart string string

datatype turn_content = Plain string | Blocks "block list"

record Turn =
  tn_Role :: string
  tn_Content :: turn_content

definition text_part :: "ChatMessage \<Rightarrow> block list" where
  "text_part g = (if mg_Content g \<noteq> [] then [TextPart (mg_Content g)] else [])"

definition add_result :: "Turn list \<Rightarrow> block \<Rightarrow> Turn list" where
  "add_result turns b =
     (if turns \<noteq> [] \<and> tn_Role (last turns) = ''user'' then
        (case tn_Content (last turns) of
           Blocks bs \<Rightarrow> butlast turns @ [\<lparr>tn_Role = ''user'', tn_Content = Blocks (bs @ [b])\<rparr>]
         | Plain _ \<Rightarrow> turns @ [\<lparr>tn_Role = ''user'', tn_Content = Blocks [b]\<rparr>])
      else turns @ [\<lparr>tn_Role = ''user'', tn_Content = Blocks [b]\<rparr>])"

definition add_turn :: "Turn list \<Rightarrow> ChatMessage \<Rightarrow> Turn list" where
  "add_turn turns g =
     (if mg_Role g = ''system'' then turns
      else if mg_Role g = ''tool'' then add_result turns (ToolResultPart (mg_ToolCallID g) (mg_Content g))
      else if mg_ToolCalls g \<noteq> [] then
        turns @ [\<lparr>tn_Role = mg_Role g, tn_Content = Blocks (text_part g @
          map (\<lambda>c. ToolUse (tc_ID c) (tc_Name c) (if tc_Arguments c \<noteq> [] then tc_Arguments c else ''{}'')) (mg_ToolCalls g))\<rparr>]
      else if mg_Images g \<noteq> [] then
        turns @ [\<lparr>tn_Role = mg_Role g, tn_Content = Blocks (text_part g @
          map (\<lambda>img. ImagePart (if im_MediaType img = [] then ''image/png'' else im_MediaType img) (b64_encode (im_Data img))) (mg_Images g))\<rparr>]
      else turns @ [\<lparr>tn_Role = mg_Role g, tn_Content = Plain (mg_Content g)\<rparr>])"

definition an_turns :: "ChatMessage list \<Rightarrow> Turn list" where
  "an_turns ms = foldl add_turn [] ms"

definition an_system :: "ChatMessage list \<Rightarrow> string list" where
  "an_system ms = map mg_Content (filter (\<lambda>g. mg_Role g = ''system'') ms)"

fun block_wire :: "block \<Rightarrow> wire" where
  "block_wire (TextPart s) = WObj [(''type'', WStr ''text''), (''text'', WStr s)]"
| "block_wire (ToolUse ident name input) = WObj [(''type'', WStr ''tool_use''), (''id'', WStr ident), (''name'', WStr name), (''input'', WRaw input)]"
| "block_wire (ToolResultPart ident s) = WObj [(''type'', WStr ''tool_result''), (''tool_use_id'', WStr ident), (''content'', WStr s)]"
| "block_wire (ImagePart media d) = WObj [(''type'', WStr ''image''),
     (''source'', WObj [(''type'', WStr ''base64''), (''media_type'', WStr media), (''data'', WStr d)])]"

definition turn_wire :: "Turn \<Rightarrow> wire" where
  "turn_wire t = WObj [(''role'', WStr (tn_Role t)),
     (''content'', case tn_Content t of Plain s \<Rightarrow> WStr s | Blocks bs \<Rightarrow> WArr (map block_wire bs))]"

definition an_tool :: "ToolDef \<Rightarrow> wire" where
  "an_tool t = WObj [(''name'', WStr (td_Name t)), (''description'', WStr (td_Description t)), (''input_schema'', WRaw (td_Schema t))]"

definition an_thinking :: "string \<Rightarrow> (string \<times> wire) list" where
  "an_thinking th =
     (if th = ''off'' then [(''thinking'', WObj [(''type'', WStr ''disabled'')])]
      else if th = ''auto'' \<or> th = ''always'' then [(''thinking'', WObj [(''type'', WStr ''adaptive'')])] else [])"

definition an_body :: "Endpoint \<Rightarrow> ChatRequest \<Rightarrow> string option \<Rightarrow> llm_error + (string \<times> wire) list" where
  "an_body p req schema =
     (if cr_Tools req \<noteq> [] \<and> \<not> cb_ToolCalling (ep_caps p) then Inl (Unsupported (ep_name p) ''tool calling'')
      else if HasImages (cr_Messages req) \<and> \<not> cb_Vision (ep_caps p) then Inl (Unsupported (ep_name p) ''vision'')
      else let turns = an_turns (cr_Messages req); system = an_system (cr_Messages req) in
      if turns = [] then Inl (NoUserTurns (ep_name p))
      else if tn_Role (last turns) = ''assistant'' then Inl (EndsOnAssistant (ep_name p))
      else Inr (
        [(''model'', WStr (if cr_Model req = [] then ep_model p else cr_Model req)),
         (''max_tokens'', WInt (if cr_MaxTokens req \<le> 0 then 16000 else cr_MaxTokens req)), (''messages'', WArr (map turn_wire turns))] @
        (if cr_Tools req \<noteq> [] then
           (''tools'', WArr (map an_tool (cr_Tools req))) #
           (if cr_ToolChoice req = ''none'' then [(''tool_choice'', WObj [(''type'', WStr ''none'')])] else [])
         else []) @
        (if system \<noteq> [] then [(''system'', WStr (joinWith [newline, newline] system))] else []) @
        opt_field ''temperature'' WNum (cr_Temperature req) @ opt_field ''top_p'' WNum (cr_TopP req) @
        (if cr_Stop req \<noteq> [] then [(''stop_sequences'', WArr (map WStr (cr_Stop req)))] else []) @
        opt_field ''output_config'' (\<lambda>s. WObj [(''format'', WObj [(''type'', WStr ''json_schema''), (''schema'', WRaw s)])]) schema @
        (if cb_ThinkingControl (ep_caps p) then an_thinking (cr_Thinking req) else [])))"

fun reply_text :: "reply_block \<Rightarrow> string" where
  "reply_text (TextBlock s) = s"
| "reply_text _ = []"

fun reply_calls :: "reply_block \<Rightarrow> ToolCall list" where
  "reply_calls (ToolUseBlock ident name input) = [\<lparr>tc_ID = ident, tc_Name = name, tc_Arguments = (if input = [] then ''{}'' else input)\<rparr>]"
| "reply_calls _ = []"

definition an_answer :: "int \<Rightarrow> ANReply \<Rightarrow> FullResponse" where
  "an_answer elapsed out =
     \<lparr>ch_Content = concat (map reply_text (ay_Content out)), ch_Reasoning = [], ch_ToolCalls = concat (map reply_calls (ay_Content out)),
      ch_PromptTokens = ay_InputTokens out + ay_CacheReadTokens out + ay_CacheCreationTokens out, ch_OutputTokens = ay_OutputTokens out,
      ch_FinishReason = ay_StopReason out, cx_CachedTokens = ay_CacheReadTokens out, cx_Model = ay_Model out, cx_DurationMS = elapsed,
      cx_PrefillMS = 0, cx_DecodeMS = 0\<rparr>"

definition an_messages :: "Wire \<Rightarrow> Endpoint \<Rightarrow> ChatRequest \<Rightarrow> string option \<Rightarrow> llm_error + FullResponse" where
  "an_messages w p req schema =
     (case an_body p req schema of Inl e \<Rightarrow> Inl e | Inr body \<Rightarrow>
      case an_post w (hw_Anthropic w) p ''/v1/messages'' (WObj body) of Inl e \<Rightarrow> Inl e | Inr out \<Rightarrow>
      if ay_StopReason out = ''refusal'' then
        (let (category, explanation) = (case ay_StopDetails out of None \<Rightarrow> ([], []) | Some d \<Rightarrow> d) in Inl (Refused (ep_name p) category explanation))
      else Inr (an_answer (hw_Elapsed w) out))"

definition an_ChatStructured :: "Wire \<Rightarrow> Endpoint \<Rightarrow> ChatRequest \<Rightarrow> string \<Rightarrow> llm_error + FullResponse" where
  "an_ChatStructured w p req schema =
     (if \<not> cb_StructuredOutput (ep_caps p) then Inl (Unsupported (ep_name p) ''structured output'')
      else if schema = [] then Inl NoSchema else an_messages w p req (Some schema))"

definition an_Health :: "Wire \<Rightarrow> (string \<Rightarrow> bool) \<Rightarrow> Endpoint \<Rightarrow> llm_error option" where
  "an_Health w decodes p =
     (if \<not> hw_URLOk w (ep_baseURL p @ ''/v1/models'') then Some (BadURL (ep_baseURL p @ ''/v1/models''))
      else case hw_Do w ''GET'' (ep_baseURL p @ ''/v1/models'') (an_headers p) [] of
          Inl e \<Rightarrow> Some (TransportFailed ''/v1/models'' e)
        | Inr (status, body) \<Rightarrow>
            if status \<noteq> 200 then Some (BadStatus ''/v1/models'' status [])
            else (case body of None \<Rightarrow> Some (BodyUnread ''/v1/models'') | Some raw \<Rightarrow>
              if decodes (take (2 ^ 20) raw) then None else Some (Undecodable ''/v1/models'')))"

section \<open>Construction\<close>

record Options =
  op_Name :: string
  op_BaseURL :: string
  op_APIKey :: string
  op_Model :: string
  op_Caps :: Capabilities
  op_Timeout :: int

definition minute :: int where "minute = 60 * 10 ^ 9"
definition DefaultTimeout :: int where "DefaultTimeout = 10 * minute"

definition NewOpenAICompatible :: "Options \<Rightarrow> Endpoint" where
  "NewOpenAICompatible o' =
     \<lparr>ep_name = op_Name o', ep_baseURL = trimSlashes (op_BaseURL o'), ep_apiKey = op_APIKey o', ep_model = op_Model o',
      ep_caps = (if cb_Kind (op_Caps o') = [] then (op_Caps o')\<lparr>cb_Kind := KindOpenAICompatible\<rparr> else op_Caps o'),
      ep_timeout = (if op_Timeout o' \<le> 0 then DefaultTimeout else op_Timeout o')\<rparr>"

definition NewLlamaCPP :: "Options \<Rightarrow> Endpoint" where
  "NewLlamaCPP o' = NewOpenAICompatible
     (if cb_Kind (op_Caps o') = [] then
        o'\<lparr>op_Caps := no_capabilities\<lparr>cb_Kind := KindLlamaCPP, cb_ToolCalling := True, cb_StructuredOutput := True, cb_Grammar := True,
             cb_ThinkingControl := True, cb_Local := True, cb_MaxContext := cb_MaxContext (op_Caps o')\<rparr>\<rparr>
      else o')"

definition NewAnthropic :: "Options \<Rightarrow> Endpoint" where
  "NewAnthropic o' =
     \<lparr>ep_name = op_Name o', ep_baseURL = trimSlashes (if op_BaseURL o' = [] then ''https://api.anthropic.com'' else op_BaseURL o'),
      ep_apiKey = op_APIKey o', ep_model = (if op_Model o' = [] then ''claude-opus-5'' else op_Model o'),
      ep_caps = (op_Caps o')\<lparr>cb_Kind := KindAnthropic, cb_Local := False\<rparr>,
      ep_timeout = (if op_Timeout o' \<le> 0 then DefaultTimeout else op_Timeout o')\<rparr>"

datatype ModelProvider = OpenAICompatible Endpoint | Anthropic Endpoint

fun endpoint :: "ModelProvider \<Rightarrow> Endpoint" where
  "endpoint (OpenAICompatible p) = p"
| "endpoint (Anthropic p) = p"

fun provider_Chat :: "Wire \<Rightarrow> ModelProvider \<Rightarrow> ChatRequest \<Rightarrow> llm_error + FullResponse" where
  "provider_Chat w (OpenAICompatible p) req = oa_chat w p req None"
| "provider_Chat w (Anthropic p) req = an_messages w p req None"

fun provider_ChatStructured :: "Wire \<Rightarrow> ModelProvider \<Rightarrow> ChatRequest \<Rightarrow> string \<Rightarrow> llm_error + FullResponse" where
  "provider_ChatStructured w (OpenAICompatible p) req schema = oa_ChatStructured w p req schema"
| "provider_ChatStructured w (Anthropic p) req schema = an_ChatStructured w p req schema"

fun provider_Embed :: "Wire \<Rightarrow> ModelProvider \<Rightarrow> string \<Rightarrow> string list \<Rightarrow> llm_error + (string \<times> rat list list \<times> int)" where
  "provider_Embed w (OpenAICompatible p) model input = oa_Embed w p model input"
| "provider_Embed w (Anthropic p) model input = Inl (Unsupported (ep_name p) ''embeddings'')"

fun provider_Infill :: "Wire \<Rightarrow> ModelProvider \<Rightarrow> string \<Rightarrow> string \<Rightarrow> int \<Rightarrow> llm_error + FullResponse" where
  "provider_Infill w (OpenAICompatible p) before after most = oa_Infill w p before after most"
| "provider_Infill w (Anthropic p) before after most = Inl (Unsupported (ep_name p) ''infill'')"

section \<open>Every answer reaches the API in the turn after its calls\<close>

definition block_uses :: "block \<Rightarrow> string list" where
  "block_uses b = (case b of ToolUse ident _ _ \<Rightarrow> [ident] | _ \<Rightarrow> [])"

definition block_results :: "block \<Rightarrow> string list" where
  "block_results b = (case b of ToolResultPart ident _ \<Rightarrow> [ident] | _ \<Rightarrow> [])"

definition tool_uses :: "Turn \<Rightarrow> string list" where
  "tool_uses t = (case tn_Content t of Plain _ \<Rightarrow> [] | Blocks bs \<Rightarrow> concat (map block_uses bs))"

definition tool_results :: "Turn \<Rightarrow> string list" where
  "tool_results t = (case tn_Content t of Plain _ \<Rightarrow> [] | Blocks bs \<Rightarrow> concat (map block_results bs))"

text \<open>
  What the API asks of the turns: after a turn that uses tools comes one user turn with exactly their
  results, in order, and results come nowhere else.
\<close>

fun answered :: "string list \<Rightarrow> Turn list \<Rightarrow> bool" where
  "answered aw [] = (aw = [])"
| "answered aw (t # ts) =
     (if aw = [] then tool_results t = [] \<and> answered (tool_uses t) ts
      else tn_Role t = ''user'' \<and> tool_results t = aw \<and> tool_uses t = [] \<and> answered [] ts)"

lemmas turn_facts = tool_uses_def tool_results_def block_uses_def block_results_def

lemma answered_append: "answered aw a \<Longrightarrow> answered aw (a @ b) = answered [] b"
  by (induction aw a rule: answered.induct) (auto split: if_splits)

lemma awaiting_split:
  assumes "awaiting ids ms = Some []" and "ids \<noteq> []"
  obtains answers rest where "ms = answers @ rest" and "\<forall>g \<in> set answers. mg_Role g = ''tool''"
    and "map mg_ToolCallID answers = ids" and "awaiting [] rest = Some []"
  using assms
proof (induction ms arbitrary: ids thesis)
  case (Cons g ms)
  then have g: "mg_Role g = ''tool''" "mg_ToolCallID g = hd ids" and rest: "awaiting (tl ids) ms = Some []"
    by (auto simp: conv_step_def split: option.splits if_splits)
  show ?case
  proof (cases "tl ids = []")
    case True
    then have "ids = [hd ids]" using Cons.prems(3) by (metis list.collapse)
    with Cons.prems(1) [of "[g]" ms] g rest True show ?thesis by simp
  next
    case False
    from Cons.IH [OF _ rest False] obtain answers more' where "ms = answers @ more'" "\<forall>g \<in> set answers. mg_Role g = ''tool''"
      "map mg_ToolCallID answers = tl ids" "awaiting [] more' = Some []" by blast
    then show ?thesis using Cons.prems(1) [of "g # answers" more'] g Cons.prems(3) by simp
  qed
qed simp

text \<open>The answers of one batch end up in one turn.\<close>

lemma add_results_merge:
  assumes "\<forall>g \<in> set ms. mg_Role g = ''tool''"
  shows "foldl add_turn (turns @ [\<lparr>tn_Role = ''user'', tn_Content = Blocks bs\<rparr>]) ms =
     turns @ [\<lparr>tn_Role = ''user'', tn_Content = Blocks (bs @ map (\<lambda>g. ToolResultPart (mg_ToolCallID g) (mg_Content g)) ms)\<rparr>]"
  using assms by (induction ms arbitrary: bs) (simp_all add: add_turn_def add_result_def)

lemma add_batch:
  assumes "\<forall>g \<in> set ms. mg_Role g = ''tool''" and "ms \<noteq> []" and "tn_Role t = ''assistant''"
  shows "foldl add_turn (turns @ [t]) ms =
     turns @ [t, \<lparr>tn_Role = ''user'', tn_Content = Blocks (map (\<lambda>g. ToolResultPart (mg_ToolCallID g) (mg_Content g)) ms)\<rparr>]"
proof -
  obtain g rest where ms: "ms = g # rest" using assms(2) by (cases ms) auto
  show ?thesis
    using add_results_merge [of rest "turns @ [t]" "[ToolResultPart (mg_ToolCallID g) (mg_Content g)]"] assms
    by (simp add: ms add_turn_def add_result_def)
qed

lemma batch_answered:
  "answered [] [\<lparr>tn_Role = r, tn_Content = Blocks (text_part g @ map (\<lambda>c. ToolUse (tc_ID c) (tc_Name c) (f c)) calls)\<rparr>,
     \<lparr>tn_Role = ''user'', tn_Content = Blocks (map (\<lambda>g. ToolResultPart (mg_ToolCallID g) (mg_Content g)) ms)\<rparr>]"
  if "map mg_ToolCallID ms = map tc_ID calls" "calls \<noteq> []"
proof -
  have *: "concat (map block_uses (text_part g)) = []" "concat (map block_results (text_part g)) = []"
    by (simp_all add: text_part_def turn_facts)
  have **: "concat (map (block_uses \<circ> (\<lambda>c. ToolUse (tc_ID c) (tc_Name c) (f c))) calls) = map tc_ID calls" for calls
    by (induction calls) (simp_all add: turn_facts)
  have ***: "concat (map (block_results \<circ> (\<lambda>c. ToolUse (tc_ID c) (tc_Name c) (f c))) calls) = []" for calls
    by (induction calls) (simp_all add: turn_facts)
  have r: "concat (map (block_results \<circ> (\<lambda>g. ToolResultPart (mg_ToolCallID g) (mg_Content g))) ms) = map mg_ToolCallID ms" for ms
    by (induction ms) (simp_all add: turn_facts)
  have u: "concat (map (block_uses \<circ> (\<lambda>g. ToolResultPart (mg_ToolCallID g) (mg_Content g))) ms) = []" for ms
    by (induction ms) (simp_all add: turn_facts)
  show ?thesis using that by (simp add: tool_uses_def tool_results_def * ** *** r u)
qed

lemma plain_answered: "answered [] turns \<Longrightarrow> mg_Role g \<noteq> ''tool'' \<Longrightarrow> mg_ToolCalls g = [] \<Longrightarrow> answered [] (add_turn turns g)"
proof -
  have "concat (map (block_results \<circ> (\<lambda>img. ImagePart (h img) (f img))) is') = []"
    "concat (map (block_uses \<circ> (\<lambda>img. ImagePart (h img) (f img))) is') = []" for h f and is' :: "Image list"
    by (induction is') (simp_all add: turn_facts)
  then show "answered [] turns \<Longrightarrow> mg_Role g \<noteq> ''tool'' \<Longrightarrow> mg_ToolCalls g = [] \<Longrightarrow> answered [] (add_turn turns g)"
    by (auto simp: add_turn_def answered_append tool_uses_def tool_results_def text_part_def block_uses_def block_results_def)
qed

text \<open>
  C34. A conversation in which every tool call was answered becomes turns the API accepts: each assistant
  turn with tool calls is followed by one user turn with exactly their results, in the order of the calls.
\<close>

theorem results_follow_calls:
  assumes "awaiting [] (map Message.truncate ms) = Some []"
    and "\<forall>g \<in> set ms. mg_ToolCalls g \<noteq> [] \<longrightarrow> mg_Role g = ''assistant''"
  shows "answered [] (an_turns ms)"
proof -
  have "answered [] (foldl add_turn turns ms)" if "answered [] turns" for turns
    using assms that
  proof (induction "length ms" arbitrary: ms turns rule: less_induct)
    case less
    show ?case
    proof (cases ms)
      case Nil
      then show ?thesis using less.prems by simp
    next
      case (Cons g rest)
      have *: "Message.truncate g = \<lparr>mg_Role = mg_Role g, mg_Content = mg_Content g, mg_Name = mg_Name g,
        mg_ToolCallID = mg_ToolCallID g, mg_ToolCalls = mg_ToolCalls g\<rparr>" for g :: ChatMessage
        by (simp add: Message.truncate_def)
      have sel: "mg_ToolCallID (Message.truncate g) = mg_ToolCallID g" "mg_Role (Message.truncate g) = mg_Role g" for g :: ChatMessage
        by (simp_all add: *)
      show ?thesis
      proof (cases "mg_ToolCalls g = []")
        case True
        then have "mg_Role g \<noteq> ''tool''" "awaiting [] (map Message.truncate rest) = Some []"
          using less.prems(1) by (auto simp: Cons conv_step_def has_calls_def * split: if_splits)
        then show ?thesis
          using less.hyps [of rest "add_turn turns g"] less.prems(2,3) plain_answered [of turns g] True by (simp add: Cons)
      next
        case False
        then have a: "mg_Role g = ''assistant''" using less.prems(2) by (simp add: Cons)
        then have "awaiting (map tc_ID (mg_ToolCalls g)) (map Message.truncate rest) = Some []"
          using less.prems(1) False by (auto simp: Cons conv_step_def has_calls_def * split: if_splits)
        from awaiting_split [OF this] False obtain ma mb where
          split: "map Message.truncate rest = ma @ mb" "\<forall>g \<in> set ma. mg_Role g = ''tool''"
            "map mg_ToolCallID ma = map tc_ID (mg_ToolCalls g)" "awaiting [] mb = Some []" by auto
        then obtain as bs where ab: "rest = as @ bs" "map Message.truncate as = ma" "map Message.truncate bs = mb"
          by (auto simp: map_eq_append_conv)
        have as: "\<forall>g \<in> set as. mg_Role g = ''tool''" "map mg_ToolCallID as = map tc_ID (mg_ToolCalls g)"
          using split(2,3) by (auto simp: ab(2) [symmetric] sel comp_def)
        let ?t = "\<lparr>tn_Role = ''assistant'', tn_Content = Blocks (text_part g @
          map (\<lambda>c. ToolUse (tc_ID c) (tc_Name c) (if tc_Arguments c \<noteq> [] then tc_Arguments c else ''{}'')) (mg_ToolCalls g))\<rparr>"
        let ?u = "\<lparr>tn_Role = ''user'', tn_Content = Blocks (map (\<lambda>g. ToolResultPart (mg_ToolCallID g) (mg_Content g)) as)\<rparr>"
        have ne: "as \<noteq> []" using as(2) False by auto
        have "add_turn turns g = turns @ [?t]" using a False by (simp add: add_turn_def)
        then have "foldl add_turn turns ms = foldl add_turn (turns @ [?t, ?u]) bs"
          using add_batch [OF as(1) ne, of ?t turns] by (simp add: Cons ab(1))
        moreover have "answered [] (turns @ [?t, ?u])"
          unfolding answered_append [OF less.prems(3)] by (rule batch_answered [OF as(2) False])
        ultimately show ?thesis
          using less.hyps [of bs] less.prems(2) split(4) by (simp add: Cons ab)
      qed
    qed
  qed
  from this [of "[]"] show ?thesis by (simp add: an_turns_def)
qed

definition demo_chat :: "ChatMessage list" where
  "demo_chat =
     [\<lparr>mg_Role = ''system'', mg_Content = ''s'', mg_Name = [], mg_ToolCallID = [], mg_ToolCalls = [], mg_Images = []\<rparr>,
      \<lparr>mg_Role = ''user'', mg_Content = ''u'', mg_Name = [], mg_ToolCallID = [], mg_ToolCalls = [], mg_Images = []\<rparr>,
      \<lparr>mg_Role = ''assistant'', mg_Content = [], mg_Name = [], mg_ToolCallID = [],
       mg_ToolCalls = [\<lparr>tc_ID = ''a'', tc_Name = ''f'', tc_Arguments = []\<rparr>, \<lparr>tc_ID = ''b'', tc_Name = ''g'', tc_Arguments = ''{}''\<rparr>], mg_Images = []\<rparr>,
      \<lparr>mg_Role = ''tool'', mg_Content = ''x'', mg_Name = ''f'', mg_ToolCallID = ''a'', mg_ToolCalls = [], mg_Images = []\<rparr>,
      \<lparr>mg_Role = ''tool'', mg_Content = ''y'', mg_Name = ''g'', mg_ToolCallID = ''b'', mg_ToolCalls = [], mg_Images = []\<rparr>]"

theorem results_follow_calls_witness: "answered [] (an_turns demo_chat) \<and> map tool_results (an_turns demo_chat) = [[], [], [''a'', ''b'']]"
proof
  show "answered [] (an_turns demo_chat)"
    by (rule results_follow_calls) (simp_all add: demo_chat_def Message.truncate_def conv_step_def has_calls_def)
  show "map tool_results (an_turns demo_chat) = [[], [], [''a'', ''b'']]"
    by (simp add: demo_chat_def an_turns_def add_turn_def add_result_def turn_facts text_part_def)
qed

section \<open>What a request carries\<close>

definition has_key :: "string \<Rightarrow> (string \<times> wire) list \<Rightarrow> bool" where
  "has_key k body = (k \<in> fst ` set body)"

lemma has_key_simps [simp]:
  "has_key k [] = False" "has_key k (x # xs) = (k = fst x \<or> has_key k xs)" "has_key k (xs @ ys) = (has_key k xs \<or> has_key k ys)"
  "has_key k (if b then xs else []) = (b \<and> has_key k xs)" "has_key k (opt_field k' f v) = (v \<noteq> None \<and> k = k')"
  "has_key k (an_thinking t) = (k = ''thinking'' \<and> t \<in> {''off'', ''auto'', ''always''})"
  by (auto simp: has_key_def opt_field_def an_thinking_def split: option.splits)

lemma if_inr_cases:
  assumes "(if b then Inl e else x) = Inr y" obtains "\<not> b" and "x = Inr y"
  using assms by (cases b) auto

lemma oa_body_declared:
  "oa_body p req schema = Inr body \<Longrightarrow> (has_key ''tools'' body \<longrightarrow> cb_ToolCalling (ep_caps p)) \<and> (HasImages (cr_Messages req) \<longrightarrow> cb_Vision (ep_caps p)) \<and>
     (has_key ''response_format'' body \<longleftrightarrow> schema \<noteq> None)"
  unfolding oa_body_def by (elim if_inr_cases) auto

lemma an_body_declared:
  "an_body p req schema = Inr body \<Longrightarrow> (has_key ''tools'' body \<longrightarrow> cb_ToolCalling (ep_caps p)) \<and> (HasImages (cr_Messages req) \<longrightarrow> cb_Vision (ep_caps p)) \<and>
     (has_key ''output_config'' body \<longleftrightarrow> schema \<noteq> None)"
  unfolding an_body_def Let_def by (elim if_inr_cases) auto

text \<open>
  A request that is sent carries tools or images only to a provider that declared them, and its constraint to a
  schema exactly when one was asked for, on both surfaces.
\<close>

theorem only_declared_is_sent:
  assumes "oa_body p req schema = Inr b1" and "an_body q req schema = Inr b2"
  shows "(has_key ''tools'' b1 \<longrightarrow> cb_ToolCalling (ep_caps p)) \<and> (has_key ''tools'' b2 \<longrightarrow> cb_ToolCalling (ep_caps q)) \<and>
     (HasImages (cr_Messages req) \<longrightarrow> cb_Vision (ep_caps p) \<and> cb_Vision (ep_caps q)) \<and>
     (has_key ''response_format'' b1 \<longleftrightarrow> schema \<noteq> None) \<and> (has_key ''output_config'' b2 \<longleftrightarrow> schema \<noteq> None)"
  using oa_body_declared [OF assms(1)] an_body_declared [OF assms(2)] by blast

definition demo_endpoint :: Endpoint where
  "demo_endpoint = \<lparr>ep_name = ''p'', ep_baseURL = ''http://h'', ep_apiKey = [], ep_model = ''m'', ep_caps = no_capabilities, ep_timeout = 1\<rparr>"

definition demo_chat_request :: ChatRequest where
  "demo_chat_request = \<lparr>cr_ReasoningBudgetTokens = 0, cr_Model = [], cr_Messages = demo_chat, cr_Temperature = None, cr_TopP = None, cr_TopK = None,
     cr_MinP = None, cr_MaxTokens = 5, cr_Stop = [], cr_Seed = None, cr_Thinking = [], cr_Tools = [], cr_ToolChoice = []\<rparr>"

theorem only_declared_is_sent_witness:
  "\<exists>b1 b2. oa_body demo_endpoint demo_chat_request (Some ''s'') = Inr b1 \<and> an_body demo_endpoint demo_chat_request (Some ''s'') = Inr b2 \<and>
     has_key ''response_format'' b1 \<and> \<not> has_key ''tools'' b1 \<and> has_key ''output_config'' b2 \<and> \<not> has_key ''tools'' b2"
proof -
  obtain b1 where b1: "oa_body demo_endpoint demo_chat_request (Some ''s'') = Inr b1"
    by (simp add: oa_body_def demo_chat_request_def demo_chat_def HasImages_def)
  obtain b2 where b2: "an_body demo_endpoint demo_chat_request (Some ''s'') = Inr b2"
    by (simp add: an_body_def demo_chat_request_def demo_chat_def HasImages_def an_turns_def add_turn_def add_result_def Let_def)
  show ?thesis
    using only_declared_is_sent [OF b1 b2] b1 b2 by (simp add: demo_endpoint_def no_capabilities_def)
qed

text \<open>The OpenAI surface sends every image; the other drops those of a system, tool or tool-calling turn.\<close>

lemma oa_images_sent: "mg_Images g \<noteq> [] \<Longrightarrow> \<exists>parts. oa_content g = WArr parts \<and> length (mg_Images g) \<le> length parts"
  by (simp add: oa_content_def)

lemma an_images_dropped:
  "mg_Role g \<in> {''system'', ''tool''} \<or> mg_ToolCalls g \<noteq> [] \<Longrightarrow> add_turn turns (g\<lparr>mg_Images := imgs\<rparr>) = add_turn turns g"
  by (auto simp: add_turn_def text_part_def)

text \<open>Only a reply with status 200 that decodes is an answer, and a refusal is an error of its own.\<close>

lemma post_answers:
  assumes "post_with w hs sn decode p path payload = Inr out"
  obtains body full where "hw_Marshal w payload = Some body" and "hw_Do w ''POST'' (ep_baseURL p @ path) hs body = Inr (200, Some full)"
    and "decode (take MaxReply full) = Some out"
  using assms by (auto simp: post_with_def Let_def split: option.splits sum.splits if_splits)

lemma refusal_is_error: "an_messages w p req schema = Inr r \<Longrightarrow> ch_FinishReason r \<noteq> ''refusal''"
  by (auto simp: an_messages_def an_answer_def Let_def split: sum.splits if_splits prod.splits)

text \<open>
  What is declared for a llama.cpp server without repeating its kind is replaced by the defaults: embeddings
  that were declared are refused.
\<close>

lemma llamacpp_declaration_dropped:
  "cb_Kind (op_Caps opts) = [] \<Longrightarrow>
     provider_Embed w (OpenAICompatible (NewLlamaCPP opts)) model input = Inl (Unsupported (op_Name opts) ''embeddings'')"
  by (simp add: NewLlamaCPP_def NewOpenAICompatible_def no_capabilities_def oa_Embed_def KindLlamaCPP_def)

end
