(* ===== verification/Router.thy ===== *)
theory Router
  imports Providers
begin

text \<open>
  The routing of roles to providers and the managed model server (\<^verbatim>\<open>src/internal/llm/router.go\<close> and
  \<^verbatim>\<open>managed.go\<close>): what a providers file may declare, the check of offline mode, the route of each role, and
  the one slot in which a model server of the program's own runs.  The environment, \<^verbatim>\<open>net/url\<close> and the process are
  arguments.
\<close>

section \<open>Roles and the providers file\<close>

definition AllRoles :: "string list" where
  "AllRoles = [''orchestration'', ''planning'', ''coding'', ''repository_search'', ''summarization'', ''review'',
     ''classification'', ''reranking'', ''verification'', ''embedding'']"

record ServerProcess =
  sp_Argv :: "string list"
  sp_BinarySHA256 :: string
  sp_ReadyTimeoutSeconds :: int

record ProviderSpec =
  ps_Process :: "ServerProcess option"
  ps_Name :: string
  ps_Kind :: string
  ps_BaseURL :: string
  ps_Model :: string
  ps_APIKeyEnv :: string
  ps_Capabilities :: "Capabilities option"
  ps_TimeoutSeconds :: int

record ProvidersFile =
  pf_Default :: string
  pf_Providers :: "ProviderSpec list"
  pf_Roles :: "(string \<times> string) list"

definition DefaultProvidersFile :: "string \<Rightarrow> string \<Rightarrow> ProvidersFile" where
  "DefaultProvidersFile baseURL model =
     \<lparr>pf_Default = ''local'',
      pf_Providers = [\<lparr>ps_Process = None, ps_Name = ''local'', ps_Kind = KindLlamaCPP, ps_BaseURL = baseURL, ps_Model = model,
                       ps_APIKeyEnv = [], ps_Capabilities = None, ps_TimeoutSeconds = 0\<rparr>],
      pf_Roles = []\<rparr>"

datatype router_error =
    NoProviders
  | ProcessUnsupported
  | ProviderUnnamed
  | KeyUnset string string
  | NegativeTimeout string
  | NeedsBaseURL string
  | UnknownKind string string
  | ManagedURLInvalid
  | ManagedNotLoopback
  | ManagedPort
  | ManagedUnpinned
  | ManagedTimeout
  | OfflineRemote string string
  | DefaultUndeclared string
  | NotARole string
  | RouteUndeclared string string
  | NoProviderFor string

section \<open>Managed providers\<close>

text \<open>What \<^verbatim>\<open>url.Parse\<close> says of a URL.\<close>

record URLParts =
  ul_Scheme :: string
  ul_Hostname :: string
  ul_Port :: string
  ul_Host :: string
  ul_User :: bool

datatype Provider =
    Direct ModelProvider
  | Serialized ModelProvider string
  | Managed ModelProvider ServerProcess string

fun base_provider :: "Provider \<Rightarrow> ModelProvider" where
  "base_provider (Direct p) = p"
| "base_provider (Serialized p _) = p"
| "base_provider (Managed p _ _) = p"

definition provider_caps :: "Provider \<Rightarrow> Capabilities" where
  "provider_caps p = ep_caps (endpoint (base_provider p))"

definition valid_port :: "string \<Rightarrow> bool" where
  "valid_port s = (s \<noteq> [] \<and> list_all isDigit s \<and> 1 \<le> atoi s \<and> atoi s \<le> 65535)"

definition newManaged :: "(string \<Rightarrow> URLParts option) \<Rightarrow> ModelProvider \<Rightarrow> ProviderSpec \<Rightarrow> ServerProcess \<Rightarrow> router_error + Provider" where
  "newManaged parseURL p spec process =
     (case parseURL (ps_BaseURL spec) of None \<Rightarrow> Inl ManagedURLInvalid | Some u \<Rightarrow>
      if ul_Scheme u \<noteq> ''http'' \<or> ul_Hostname u \<noteq> ''127.0.0.1'' \<or> ul_User u then Inl ManagedNotLoopback
      else if \<not> valid_port (ul_Port u) then Inl ManagedPort
      else if sp_Argv process = [] \<or> \<not> isAbs (hd (sp_Argv process)) \<or> length (sp_BinarySHA256 process) \<noteq> 64 then Inl ManagedUnpinned
      else let secs = (if sp_ReadyTimeoutSeconds process = 0 then 300 else sp_ReadyTimeoutSeconds process) in
      if secs < 1 \<or> secs > 1800 then Inl ManagedTimeout
      else Inr (Managed p
             (process\<lparr>sp_Argv := sp_Argv process @ [''--parallel'', ''1'', ''--host'', ''127.0.0.1'', ''--port'', ul_Port u],
                      sp_ReadyTimeoutSeconds := secs\<rparr>) (ul_Host u)))"

section \<open>Building the router\<close>

definition isLocalURL :: "string \<Rightarrow> bool" where
  "isLocalURL u = (containsStr u ''127.0.0.1'' \<or> containsStr u ''localhost'' \<or> containsStr u ''[::1]'' \<or> containsStr u ''host.docker.internal'')"

definition build_options :: "(string \<Rightarrow> string) \<Rightarrow> ProviderSpec \<Rightarrow> router_error + Options" where
  "build_options getenv spec =
     (if ps_Name spec = [] then Inl ProviderUnnamed
      else if ps_APIKeyEnv spec \<noteq> [] \<and> getenv (ps_APIKeyEnv spec) = [] then Inl (KeyUnset (ps_Name spec) (ps_APIKeyEnv spec))
      else if ps_TimeoutSeconds spec < 0 then Inl (NegativeTimeout (ps_Name spec))
      else Inr \<lparr>op_Name = ps_Name spec, op_BaseURL = ps_BaseURL spec,
                op_APIKey = (if ps_APIKeyEnv spec \<noteq> [] then getenv (ps_APIKeyEnv spec) else []), op_Model = ps_Model spec,
                op_Caps = (case ps_Capabilities spec of None \<Rightarrow> no_capabilities | Some c \<Rightarrow> c), op_Timeout = ps_TimeoutSeconds spec * 10 ^ 9\<rparr>)"

definition build :: "(string \<Rightarrow> string) \<Rightarrow> (string \<Rightarrow> URLParts option) \<Rightarrow> ProviderSpec \<Rightarrow> router_error + Provider" where
  "build getenv parseURL spec =
     (if ps_Process spec \<noteq> None \<and> ps_Kind spec \<noteq> KindLlamaCPP then Inl ProcessUnsupported
      else case build_options getenv spec of Inl e \<Rightarrow> Inl e | Inr opts \<Rightarrow>
      if ps_Kind spec = KindLlamaCPP then
        (if ps_BaseURL spec = [] then Inl (NeedsBaseURL (ps_Name spec))
         else (case ps_Process spec of
             Some process \<Rightarrow> newManaged parseURL (OpenAICompatible (NewLlamaCPP opts)) spec process
           | None \<Rightarrow> Inr (Serialized (OpenAICompatible (NewLlamaCPP opts)) (ps_BaseURL spec))))
      else if ps_Kind spec = KindOpenAICompatible then
        (if ps_BaseURL spec = [] then Inl (NeedsBaseURL (ps_Name spec))
         else let caps = (if ps_Capabilities spec = None
                          then no_capabilities\<lparr>cb_Kind := KindOpenAICompatible, cb_ToolCalling := True, cb_Local := isLocalURL (ps_BaseURL spec)\<rparr>
                          else op_Caps opts) in
           Inr (Direct (OpenAICompatible (NewOpenAICompatible (opts\<lparr>op_Caps := caps\<lparr>cb_Kind := KindOpenAICompatible\<rparr>\<rparr>)))))
      else if ps_Kind spec = KindOpenAI then
        Inr (Direct (OpenAICompatible (NewOpenAICompatible
          (opts\<lparr>op_BaseURL := (if op_BaseURL opts = [] then ''https://api.openai.com'' else op_BaseURL opts),
                op_Caps := no_capabilities\<lparr>cb_Kind := KindOpenAI, cb_ToolCalling := True, cb_StructuredOutput := True, cb_Embeddings := True,
                  cb_Vision := True, cb_MaxContext := cb_MaxContext (op_Caps opts)\<rparr>\<rparr>))))
      else if ps_Kind spec = KindAnthropic then
        Inr (Direct (Anthropic (NewAnthropic
          (opts\<lparr>op_BaseURL := (if op_BaseURL opts = [] then ''https://api.anthropic.com'' else op_BaseURL opts),
                op_Caps := no_capabilities\<lparr>cb_Kind := KindAnthropic, cb_ToolCalling := True, cb_StructuredOutput := True, cb_Vision := True,
                  cb_ThinkingControl := True, cb_MaxContext := cb_MaxContext (op_Caps opts)\<rparr>\<rparr>))))
      else Inl (UnknownKind (ps_Name spec) (ps_Kind spec)))"

record Router =
  rt_providers :: "string \<rightharpoonup> Provider"
  rt_roles :: "string \<rightharpoonup> string"
  rt_def :: string
  rt_offline :: bool

fun add_providers ::
  "(string \<Rightarrow> string) \<Rightarrow> (string \<Rightarrow> URLParts option) \<Rightarrow> bool \<Rightarrow> ProviderSpec list \<Rightarrow> (string \<rightharpoonup> Provider) \<Rightarrow> router_error + (string \<rightharpoonup> Provider)" where
  "add_providers getenv parseURL offline [] m = Inr m"
| "add_providers getenv parseURL offline (spec # specs) m =
     (case build getenv parseURL spec of Inl e \<Rightarrow> Inl e | Inr p \<Rightarrow>
      if offline \<and> \<not> cb_Local (provider_caps p) then Inl (OfflineRemote (ps_Name spec) (ps_Kind spec))
      else add_providers getenv parseURL offline specs (m(ps_Name spec \<mapsto> p)))"

fun add_roles :: "(string \<rightharpoonup> Provider) \<Rightarrow> (string \<times> string) list \<Rightarrow> (string \<rightharpoonup> string) \<Rightarrow> router_error + (string \<rightharpoonup> string)" where
  "add_roles m [] roles = Inr roles"
| "add_roles m ((role, name) # rest) roles =
     (if role \<notin> set AllRoles then Inl (NotARole role)
      else if m name = None then Inl (RouteUndeclared role name)
      else add_roles m rest (roles(role \<mapsto> name)))"

definition NewRouter ::
  "(string \<Rightarrow> string) \<Rightarrow> (string \<Rightarrow> URLParts option) \<Rightarrow> ProvidersFile \<Rightarrow> bool \<Rightarrow> router_error + Router" where
  "NewRouter getenv parseURL f offline =
     (if pf_Providers f = [] then Inl NoProviders
      else case add_providers getenv parseURL offline (pf_Providers f) Map.empty of Inl e \<Rightarrow> Inl e | Inr m \<Rightarrow>
      let def' = (if pf_Default f = [] then ps_Name (hd (pf_Providers f)) else pf_Default f) in
      if m def' = None then Inl (DefaultUndeclared def')
      else case add_roles m (pf_Roles f) Map.empty of Inl e \<Rightarrow> Inl e | Inr roles \<Rightarrow>
      Inr \<lparr>rt_providers = m, rt_roles = roles, rt_def = def', rt_offline = offline\<rparr>)"

definition route_name :: "Router \<Rightarrow> string \<Rightarrow> string" where
  "route_name r role = (case rt_roles r role of Some n \<Rightarrow> n | None \<Rightarrow> rt_def r)"

definition router_For :: "Router \<Rightarrow> string \<Rightarrow> router_error + Provider" where
  "router_For r role = (case rt_providers r (route_name r role) of None \<Rightarrow> Inl (NoProviderFor role) | Some p \<Rightarrow> Inr p)"

definition Routing :: "Router \<Rightarrow> (string \<times> string) list" where
  "Routing r = map (\<lambda>role. (role, route_name r role)) AllRoles"

lemma add_providers_built:
  "add_providers getenv parseURL offline specs m = Inr m' \<Longrightarrow> m' n = Some p \<Longrightarrow>
     m n = Some p \<or> (\<exists>spec \<in> set specs. build getenv parseURL spec = Inr p \<and> ps_Name spec = n \<and> (offline \<longrightarrow> cb_Local (provider_caps p)))"
proof (induction specs arbitrary: m)
  case (Cons spec specs)
  from Cons.prems(1) obtain q where q: "build getenv parseURL spec = Inr q" "offline \<longrightarrow> cb_Local (provider_caps q)"
    "add_providers getenv parseURL offline specs (m(ps_Name spec \<mapsto> q)) = Inr m'"
    by (auto split: sum.splits if_splits)
  from Cons.IH [OF q(3) Cons.prems(2)] q(1,2) show ?case by (auto split: if_splits)
qed simp

lemma add_roles_declared:
  "add_roles m rs roles = Inr roles' \<Longrightarrow> \<forall>role n. roles role = Some n \<longrightarrow> m n \<noteq> None \<Longrightarrow> roles' role = Some n \<Longrightarrow> m n \<noteq> None"
proof (induction rs arbitrary: roles)
  case (Cons r rs)
  obtain role' name where r: "r = (role', name)" by (cases r)
  from Cons.prems(1) have "m name \<noteq> None" "add_roles m rs (roles(role' \<mapsto> name)) = Inr roles'"
    by (auto simp: r split: if_splits)
  with Cons.IH [OF this(2) _ Cons.prems(3)] Cons.prems(2) show ?case by auto
qed simp

lemma new_router_inv:
  assumes "NewRouter getenv parseURL f offline = Inr r"
  shows "add_providers getenv parseURL offline (pf_Providers f) Map.empty = Inr (rt_providers r)"
    and "rt_providers r (rt_def r) \<noteq> None" and "add_roles (rt_providers r) (pf_Roles f) Map.empty = Inr (rt_roles r)"
  using assms by (auto simp: NewRouter_def Let_def split: sum.splits if_splits)

text \<open>
  A router that was built resolves every role to a declared provider: no later request can find its role
  without one, and what \<^verbatim>\<open>Routing\<close> reports is where the role goes.
\<close>

theorem every_role_resolves:
  assumes "NewRouter getenv parseURL f offline = Inr r"
  shows "\<exists>p spec. router_For r role = Inr p \<and> spec \<in> set (pf_Providers f) \<and> build getenv parseURL spec = Inr p \<and> ps_Name spec = route_name r role"
proof -
  have "rt_providers r (route_name r role) \<noteq> None"
    using add_roles_declared [OF new_router_inv(3) [OF assms]] new_router_inv(2) [OF assms]
    by (auto simp: route_name_def split: option.splits)
  then obtain p where p: "rt_providers r (route_name r role) = Some p" by blast
  from add_providers_built [OF new_router_inv(1) [OF assms] p] p show ?thesis
    by (auto simp: router_For_def)
qed

lemma build_cloud_not_local:
  "build getenv parseURL spec = Inr p \<Longrightarrow> ps_Kind spec = KindOpenAI \<or> ps_Kind spec = KindAnthropic \<Longrightarrow> \<not> cb_Local (provider_caps p)"
  by (auto simp: build_def provider_caps_def NewOpenAICompatible_def NewAnthropic_def no_capabilities_def KindOpenAI_def KindAnthropic_def
      KindLlamaCPP_def KindOpenAICompatible_def split: sum.splits if_splits)

text \<open>
  In offline mode no role is ever routed to one of the two cloud services, and every provider that is
  reached declares that it is local.
\<close>

theorem offline_reaches_no_cloud:
  assumes "NewRouter getenv parseURL f True = Inr r" and "router_For r role = Inr p"
  shows "cb_Local (provider_caps p) \<and>
     (\<exists>spec \<in> set (pf_Providers f). build getenv parseURL spec = Inr p \<and> ps_Kind spec \<in> {KindLlamaCPP, KindOpenAICompatible})"
proof -
  from assms(2) have "rt_providers r (route_name r role) = Some p"
    by (auto simp: router_For_def split: option.splits)
  from add_providers_built [OF new_router_inv(1) [OF assms(1)] this]
  obtain spec where s: "spec \<in> set (pf_Providers f)" "build getenv parseURL spec = Inr p" "cb_Local (provider_caps p)" by auto
  moreover have "ps_Kind spec \<in> {KindLlamaCPP, KindOpenAICompatible, KindOpenAI, KindAnthropic}"
    using s(2) by (auto simp: build_def split: sum.splits if_splits)
  ultimately show ?thesis using build_cloud_not_local [OF s(2)] by blast
qed

lemma build_remote_llamacpp:
  assumes "url \<noteq> []"
  shows "\<exists>p. build getenv parseURL (hd (pf_Providers (DefaultProvidersFile url model))) = Inr p \<and> cb_Local (provider_caps p) \<and>
     ep_baseURL (endpoint (base_provider p)) = trimSlashes url"
  using assms by (simp add: DefaultProvidersFile_def build_def build_options_def provider_caps_def NewLlamaCPP_def NewOpenAICompatible_def no_capabilities_def KindLlamaCPP_def)

text \<open>
  Offline mode does not look at the address of a llama.cpp provider: with any base URL, on any host, the
  router is built and every role goes there.
\<close>

theorem offline_admits_any_address:
  assumes "url \<noteq> []"
  shows "\<exists>r p. NewRouter getenv parseURL (DefaultProvidersFile url model) True = Inr r \<and> router_For r role = Inr p \<and>
     ep_baseURL (endpoint (base_provider p)) = trimSlashes url"
proof -
  from build_remote_llamacpp [OF assms] obtain p where
    "build getenv parseURL (hd (pf_Providers (DefaultProvidersFile url model))) = Inr p" "cb_Local (provider_caps p)"
    "ep_baseURL (endpoint (base_provider p)) = trimSlashes url" by blast
  then show ?thesis
    by (simp add: NewRouter_def DefaultProvidersFile_def router_For_def route_name_def Let_def)
qed

definition demo_parse :: "string \<Rightarrow> URLParts option" where
  "demo_parse u = Some \<lparr>ul_Scheme = ''http'', ul_Hostname = ''127.0.0.1'', ul_Port = ''80'', ul_Host = ''127.0.0.1:80'', ul_User = False\<rparr>"

definition demo_providers :: ProvidersFile where
  "demo_providers = DefaultProvidersFile ''http://10.0.0.9:80'' ''m''"

lemma demo_router:
  obtains r where "NewRouter (\<lambda>_. []) demo_parse demo_providers True = Inr r"
  by (simp add: NewRouter_def Let_def demo_providers_def DefaultProvidersFile_def build_def build_options_def provider_caps_def NewLlamaCPP_def
      NewOpenAICompatible_def no_capabilities_def KindLlamaCPP_def)

theorem every_role_resolves_witness:
  "\<exists>r p spec. NewRouter (\<lambda>_. []) demo_parse demo_providers True = Inr r \<and> router_For r ''review'' = Inr p \<and> spec \<in> set (pf_Providers demo_providers)"
proof -
  obtain r where "NewRouter (\<lambda>_. []) demo_parse demo_providers True = Inr r" by (rule demo_router)
  from this every_role_resolves [OF this, of "''review''"] show ?thesis by blast
qed

theorem offline_reaches_no_cloud_witness:
  "\<exists>r p. NewRouter (\<lambda>_. []) demo_parse demo_providers True = Inr r \<and> router_For r ''review'' = Inr p \<and> cb_Local (provider_caps p)"
proof -
  obtain r where r: "NewRouter (\<lambda>_. []) demo_parse demo_providers True = Inr r" by (rule demo_router)
  then obtain p where "router_For r ''review'' = Inr p"
    by (auto simp: NewRouter_def Let_def demo_providers_def DefaultProvidersFile_def router_For_def route_name_def split: sum.splits if_splits)
  with offline_reaches_no_cloud [OF r this] r show ?thesis by blast
qed

theorem offline_admits_any_address_witness:
  "\<exists>r p. NewRouter (\<lambda>_. []) demo_parse (DefaultProvidersFile ''https://models.example.com'' ''m'') True = Inr r \<and> router_For r ''coding'' = Inr p \<and>
     ep_baseURL (endpoint (base_provider p)) = ''https://models.example.com''"
  using offline_admits_any_address [of "''https://models.example.com''" "\<lambda>_. []" demo_parse "''m''" "''coding''"]
  by (simp add: trimSlashes_def)

text \<open>The address test for the other servers looks for a local name anywhere in the URL.\<close>

lemma local_url_lookalike: "isLocalURL ''https://localhost.example.com''"
  by (simp add: isLocalURL_def)


section \<open>The slot of the managed server\<close>

text \<open>
  The process in the slot, the provider that owns it (its identity, and its process configuration, whose JSON text is the key), and
  the processes that are alive.  The gate of the slot lets one operation through at a time.
\<close>

record Slot =
  sl_cmd :: "nat option"
  sl_owner :: "(nat \<times> ServerProcess) option"
  sl_alive :: "nat set"
  sl_next :: nat

definition slot_empty :: Slot where
  "slot_empty = \<lparr>sl_cmd = None, sl_owner = None, sl_alive = {}, sl_next = 0\<rparr>"

datatype startup = StartupReady | StartupExited | StartupTimedOut bool

text \<open>
  What an operation meets: whether a process that is told to stop exits within the two grace periods, the hash of the
  executable, whether the port is free, whether the process starts, and how its startup ends.
\<close>

record SlotEnv =
  se_stops :: bool
  se_sha256 :: "string option"
  se_portFree :: bool
  se_starts :: bool
  se_startup :: startup

datatype slot_error = DidNotExit | BinaryUnreadable | BinaryDiffers | EndpointOccupied | StartFailed | ExitedDuringStartup | StartupTimeout

definition slot_running :: "Slot \<Rightarrow> bool" where
  "slot_running s = (case sl_cmd s of None \<Rightarrow> False | Some pid \<Rightarrow> pid \<in> sl_alive s)"

definition slot_stop :: "bool \<Rightarrow> Slot \<Rightarrow> slot_error option \<times> Slot" where
  "slot_stop stops s =
     (case sl_cmd s of None \<Rightarrow> (None, s)
      | Some pid \<Rightarrow> if slot_running s \<and> \<not> stops then (Some DidNotExit, s)
          else (None, s\<lparr>sl_cmd := None, sl_owner := None, sl_alive := sl_alive s - {pid}\<rparr>))"

definition slot_start :: "SlotEnv \<Rightarrow> nat \<Rightarrow> ServerProcess \<Rightarrow> Slot \<Rightarrow> slot_error option \<times> Slot" where
  "slot_start e ident process s =
     (case se_sha256 e of None \<Rightarrow> (Some BinaryUnreadable, s) | Some h \<Rightarrow>
      if h \<noteq> sp_BinarySHA256 process then (Some BinaryDiffers, s)
      else if \<not> se_portFree e then (Some EndpointOccupied, s)
      else if \<not> se_starts e then (Some StartFailed, s)
      else let pid = sl_next s;
             s1 = \<lparr>sl_cmd = Some pid, sl_owner = Some (ident, process), sl_alive = insert pid (sl_alive s), sl_next = Suc pid\<rparr> in
        (case se_startup e of
           StartupReady \<Rightarrow> (None, s1)
         | StartupExited \<Rightarrow> (Some ExitedDuringStartup, s1\<lparr>sl_cmd := None, sl_owner := None, sl_alive := sl_alive s1 - {pid}\<rparr>)
         | StartupTimedOut stops \<Rightarrow> (Some StartupTimeout, snd (slot_stop stops s1))))"

definition prepare :: "SlotEnv \<Rightarrow> nat \<Rightarrow> ServerProcess \<Rightarrow> Slot \<Rightarrow> slot_error option \<times> Slot" where
  "prepare e ident process s =
     (let same = (case sl_owner s of None \<Rightarrow> False | Some (_, k) \<Rightarrow> k = process) in
      if same \<and> slot_running s then (None, s)
      else (case slot_stop (se_stops e) (if same then s\<lparr>sl_cmd := None, sl_owner := None\<rparr> else s) of
          (Some x, s1) \<Rightarrow> (Some x, s1)
        | (None, s1) \<Rightarrow> slot_start e ident process s1))"

definition managed_Close :: "bool \<Rightarrow> nat \<Rightarrow> Slot \<Rightarrow> slot_error option \<times> Slot" where
  "managed_Close stops ident s =
     (case sl_owner s of None \<Rightarrow> (None, s) | Some (i, _) \<Rightarrow> if i = ident then slot_stop stops s else (None, s))"

inductive slot_step :: "Slot \<Rightarrow> Slot \<Rightarrow> bool" where
  S_request: "slot_step s (snd (prepare e ident process s))"
| S_close: "slot_step s (snd (managed_Close stops ident s))"
| S_exit: "slot_step s (s\<lparr>sl_alive := sl_alive s - {pid}\<rparr>)"

definition slot_inv :: "Slot \<Rightarrow> bool" where
  "slot_inv s \<longleftrightarrow> sl_alive s \<subseteq> set_option (sl_cmd s) \<and> (sl_cmd s = None \<longleftrightarrow> sl_owner s = None)"

lemma stop_inv:
  "slot_inv s \<Longrightarrow> slot_inv (snd (slot_stop stops s)) \<and> sl_next (snd (slot_stop stops s)) = sl_next s \<and>
     (fst (slot_stop stops s) = None \<longrightarrow> sl_alive (snd (slot_stop stops s)) = {})"
  by (auto simp: slot_inv_def slot_stop_def slot_running_def split: option.splits)

lemma forget_inv: "slot_inv s \<Longrightarrow> \<not> slot_running s \<Longrightarrow> slot_inv (s\<lparr>sl_cmd := None, sl_owner := None\<rparr>)"
  by (auto simp: slot_inv_def slot_running_def split: option.splits)

lemma start_inv:
  assumes "slot_inv s" and "sl_alive s = {}"
  shows "slot_inv (snd (slot_start e ident process s))"
    and "fst (slot_start e ident process s) = None \<Longrightarrow> snd (slot_start e ident process s) =
      \<lparr>sl_cmd = Some (sl_next s), sl_owner = Some (ident, process), sl_alive = {sl_next s}, sl_next = Suc (sl_next s)\<rparr>"
    and "sl_next (snd (slot_start e ident process s)) \<noteq> sl_next s \<Longrightarrow> se_sha256 e = Some (sp_BinarySHA256 process)"
  using assms by (auto simp: slot_start_def Let_def slot_inv_def slot_stop_def slot_running_def split: option.splits startup.splits if_splits)

lemma prepare_inv:
  assumes "slot_inv s"
  shows "slot_inv (snd (prepare e ident process s)) \<and>
    (fst (prepare e ident process s) = None \<longrightarrow>
      (\<exists>pid i. sl_alive (snd (prepare e ident process s)) = {pid} \<and> sl_cmd (snd (prepare e ident process s)) = Some pid \<and>
         sl_owner (snd (prepare e ident process s)) = Some (i, process))) \<and>
    (sl_next (snd (prepare e ident process s)) \<noteq> sl_next s \<longrightarrow> se_sha256 e = Some (sp_BinarySHA256 process))"
proof (cases "(case sl_owner s of None \<Rightarrow> False | Some (_, k) \<Rightarrow> k = process) \<and> slot_running s")
  case True
  then have "prepare e ident process s = (None, s)" by (simp add: prepare_def Let_def)
  then show ?thesis using True assms by (auto simp: slot_inv_def slot_running_def split: option.splits)
next
  case False
  let ?same = "case sl_owner s of None \<Rightarrow> False | Some (_, k) \<Rightarrow> k = process"
  let ?s0 = "if ?same then s\<lparr>sl_cmd := None, sl_owner := None\<rparr> else s"
  have inv0: "slot_inv ?s0" using False assms forget_inv by auto
  have next0: "sl_next ?s0 = sl_next s" by simp
  obtain r s1 where st: "slot_stop (se_stops e) ?s0 = (r, s1)" by (cases "slot_stop (se_stops e) ?s0")
  have p: "prepare e ident process s = (case (r, s1) of (Some x, s1) \<Rightarrow> (Some x, s1) | (None, s1) \<Rightarrow> slot_start e ident process s1)"
    using False st unfolding prepare_def Let_def by (simp only: if_False split_conv)
  from stop_inv [OF inv0, of "se_stops e"] have s1: "slot_inv s1" "sl_next s1 = sl_next s" "r = None \<longrightarrow> sl_alive s1 = {}"
    unfolding st next0 by simp_all
  show ?thesis
  proof (cases r)
    case (Some x)
    then show ?thesis using p s1 by simp
  next
    case None
    with p have "prepare e ident process s = slot_start e ident process s1" by simp
    with start_inv [OF s1(1), of e ident process] s1(2,3) None show ?thesis by auto
  qed
qed

lemma slot_reachable: "slot_step\<^sup>*\<^sup>* slot_empty s \<Longrightarrow> slot_inv s"
proof (induction rule: rtranclp_induct)
  case (step s s')
  from step.hyps(2) show ?case
  proof cases
    case (S_request e ident process)
    then show ?thesis using prepare_inv [OF step.IH] by simp
  next
    case (S_close stops ident)
    then show ?thesis using step.IH stop_inv [OF step.IH] by (auto simp: managed_Close_def split: option.splits)
  next
    case (S_exit pid)
    then show ?thesis using step.IH by (auto simp: slot_inv_def)
  qed
qed (simp add: slot_empty_def slot_inv_def)

text \<open>
  C35. Whatever the order of requests, closings and exits, at most one managed model server is alive, and it is the
  one in the slot.
\<close>

theorem one_model_at_a_time:
  assumes "slot_step\<^sup>*\<^sup>* slot_empty s"
  shows "card (sl_alive s) \<le> 1 \<and> sl_alive s \<subseteq> set_option (sl_cmd s)"
proof -
  from slot_reachable [OF assms] have *: "sl_alive s \<subseteq> set_option (sl_cmd s)" by (simp add: slot_inv_def)
  moreover have "finite (set_option (sl_cmd s))" "card (set_option (sl_cmd s)) \<le> 1" by (cases "sl_cmd s"; simp)+
  ultimately show ?thesis using card_mono [of "set_option (sl_cmd s)" "sl_alive s"] by linarith
qed

text \<open>
  A request goes to the server of its own profile: when the preparation succeeds, the one process alive was started for that
  process configuration, and a process is started only from a binary with the pinned hash.
\<close>

theorem request_meets_own_server:
  assumes "slot_step\<^sup>*\<^sup>* slot_empty s" and "prepare e ident process s = (r, s')"
  shows "(r = None \<longrightarrow> (\<exists>pid i. sl_alive s' = {pid} \<and> sl_cmd s' = Some pid \<and> sl_owner s' = Some (i, process))) \<and>
    (sl_next s' \<noteq> sl_next s \<longrightarrow> se_sha256 e = Some (sp_BinarySHA256 process))"
  using prepare_inv [OF slot_reachable [OF assms(1)], of e ident process] assms(2) by simp

definition demo_process :: ServerProcess where
  "demo_process = \<lparr>sp_Argv = [''/srv''], sp_BinarySHA256 = ''h'', sp_ReadyTimeoutSeconds = 300\<rparr>"

definition demo_slot_env :: SlotEnv where
  "demo_slot_env = \<lparr>se_stops = True, se_sha256 = Some ''h'', se_portFree = True, se_starts = True, se_startup = StartupReady\<rparr>"

definition demo_slot :: Slot where
  "demo_slot = snd (prepare demo_slot_env 1 demo_process slot_empty)"

lemma demo_slot_reachable: "slot_step\<^sup>*\<^sup>* slot_empty demo_slot"
  unfolding demo_slot_def by (rule r_into_rtranclp, rule S_request)

theorem one_model_at_a_time_witness: "sl_alive demo_slot = {0} \<and> card (sl_alive demo_slot) \<le> 1"
  using one_model_at_a_time [OF demo_slot_reachable]
  by (simp add: demo_slot_def prepare_def slot_empty_def slot_stop_def slot_start_def demo_slot_env_def demo_process_def)

theorem request_meets_own_server_witness:
  "\<exists>s'. prepare demo_slot_env 2 (demo_process\<lparr>sp_Argv := [''/other'']\<rparr>) demo_slot = (None, s') \<and> sl_alive s' = {1} \<and>
     sl_owner s' = Some (2, demo_process\<lparr>sp_Argv := [''/other'']\<rparr>)"
proof -
  obtain s' where s': "prepare demo_slot_env 2 (demo_process\<lparr>sp_Argv := [''/other'']\<rparr>) demo_slot = (None, s')"
    "sl_alive s' = {1}" "sl_owner s' = Some (2, demo_process\<lparr>sp_Argv := [''/other'']\<rparr>)"
    by (simp add: demo_slot_def prepare_def slot_empty_def slot_stop_def slot_start_def slot_running_def demo_slot_env_def demo_process_def)
  with request_meets_own_server [OF demo_slot_reachable s'(1)] show ?thesis by blast
qed

end
