(* ===== verification/Supervise.thy ===== *)
theory Supervise
  imports NativeTools
begin

text \<open>
  Supervision of an executor that is not the program's own model loop: \<^verbatim>\<open>src/internal/supervisor/lifecycle.go\<close>
  (starting a task, recording what the executor did and was told, recording verifications, the final review) and the
  calls an editor session makes of it (\<^verbatim>\<open>src/internal/mcp/supervise.go\<close>, \<^verbatim>\<open>edit.go\<close>, the confinement in
  \<^verbatim>\<open>server.go\<close>).  The JSON codec of journal entries, git's output and the policies directory are arguments.
\<close>

section \<open>What is recorded\<close>

record CheckResult =
  kr_Name :: string
  kr_Status :: Status
  kr_Headline :: string

record VerificationRecord =
  vr_Accepted :: bool
  vr_Candidate :: string
  vr_Reasons :: "why list"
  vr_OutOfScope :: "string list"
  vr_Checks :: "CheckResult list"

record UserDecision =
  de_Question :: string
  de_Answer :: string
  de_At :: int

datatype review_verdict = UNVERIFIED | VERIFIED | NOT_VERIFIED

datatype warning = NeverVerified | NotAccepted why | TreeUnchanged | ProtectedChanged

record Review =
  rw_TaskID :: string
  rw_Intent :: string
  rw_Verdict :: review_verdict
  rw_Decisions :: "UserDecision list"
  rw_FilesChangedCount :: nat
  rw_FilesChanged :: "string list"
  rw_Checks :: "CheckResult list"
  rw_Protected :: "string list"
  rw_Warnings :: "warning list"
  rw_FinishedAt :: int

text \<open>
  The store of a workspace as far as these calls use it, and the statements of a call: whether the \<open>i\<close>-th one
  succeeds, and the clock it reads.
\<close>

record SupStore =
  su_tasks :: task_db
  su_ledger :: ledger_db

type_synonym statements = "nat \<Rightarrow> bool \<times> int"

text \<open>The JSON of the journal entries; decoding gives the fields the code reads back.\<close>

record JournalCodec =
  jc_start :: "string \<Rightarrow> string option"
  jc_answer :: "string \<Rightarrow> string \<Rightarrow> string option"
  jc_toDecision :: "string \<Rightarrow> (string \<times> string \<times> string) option"
  jc_verification :: "VerificationRecord \<Rightarrow> string option"
  jc_toVerification :: "string \<Rightarrow> VerificationRecord option"
  jc_review :: "Review \<Rightarrow> string option"

datatype sup_error = NoObjective | TaskErr task_error | JournalErr ledger_error | IncompleteDecision

definition RecordEvent :: "statements \<Rightarrow> string \<Rightarrow> OpKind \<Rightarrow> string option \<Rightarrow> SupStore \<Rightarrow> sup_error option \<times> SupStore" where
  "RecordEvent tx task kind detail st =
     (case Begin (fst (tx 0)) (snd (tx 0)) task kind detail [] (su_ledger st) of
        (Inl e, db) \<Rightarrow> (Some (JournalErr e), st\<lparr>su_ledger := db\<rparr>)
      | (Inr h, db) \<Rightarrow>
          (case Complete (fst (tx 1)) (snd (tx 1)) detail [] [] h db of
             (e, _, db') \<Rightarrow> (map_option JournalErr e, st\<lparr>su_ledger := db'\<rparr>)))"

definition StartTask ::
  "statements \<Rightarrow> JournalCodec \<Rightarrow> string \<Rightarrow> string \<Rightarrow> Level \<Rightarrow> SupStore \<Rightarrow> (sup_error + string) \<times> SupStore" where
  "StartTask tx jc newID objective0 level st =
     (let objective = trimSpace objective0 in
      if objective = [] then (Inl NoObjective, st)
      else let t = \<lparr>task_ID = newID, task_WorkspaceID = [], task_RequirementID = [], task_ParentID = [], task_Title = objective,
               task_Kind = ''supervised'', task_WorktreeID = [], task_State = StateUnset, task_Verification = level,
               task_Budget = \<lparr>MaxAttempts = 1, MaxWallTime = 1800000, MaxTokens = 0, Scope = []\<rparr>,
               task_CreatedAt = 0, task_UpdatedAt = 0, task_FinishedAt = None\<rparr> in
        (case task_Create (fst (tx 2)) (snd (tx 2)) t (su_tasks st) of
           (Inl e, db) \<Rightarrow> (Inl (TaskErr e), st\<lparr>su_tasks := db\<rparr>)
         | (Inr _, db) \<Rightarrow>
             (case RecordEvent tx newID KindSessionStart (jc_start jc objective) (st\<lparr>su_tasks := db\<rparr>) of
                (Some e, st') \<Rightarrow> (Inl e, st')
              | (None, st') \<Rightarrow> (Inr newID, st'))))"

definition RecordAnswer :: "statements \<Rightarrow> JournalCodec \<Rightarrow> string \<Rightarrow> string \<Rightarrow> string \<Rightarrow> SupStore \<Rightarrow> sup_error option \<times> SupStore" where
  "RecordAnswer tx jc task question0 answer0 st =
     (let question = trimSpace question0; answer = trimSpace answer0 in
      if question = [] \<or> answer = [] then (Some IncompleteDecision, st)
      else RecordEvent tx task KindDecision (jc_answer jc question answer) st)"

definition decision_of :: "JournalCodec \<Rightarrow> Operation \<Rightarrow> UserDecision list" where
  "decision_of jc o' =
     (if op_Kind o' \<noteq> KindDecision then []
      else case jc_toDecision jc (op_Intent o') of
          None \<Rightarrow> []
        | Some (q, a, source) \<Rightarrow> if source \<noteq> ''user'' then [] else [\<lparr>de_Question = q, de_Answer = a, de_At = op_StartedAt o'\<rparr>])"

definition Decisions :: "JournalCodec \<Rightarrow> SupStore \<Rightarrow> string \<Rightarrow> UserDecision list" where
  "Decisions jc st task = concat (map (decision_of jc) (Operations (su_ledger st) task))"

definition record_of :: "Outcome \<Rightarrow> VerificationRecord" where
  "record_of out = \<lparr>vr_Accepted = out_Accepted out, vr_Candidate = out_Candidate out, vr_Reasons = out_Reasons out,
     vr_OutOfScope = out_OutOfScope out,
     vr_Checks = map (\<lambda>r. \<lparr>kr_Name = res_Recipe r, kr_Status = res_Status r, kr_Headline = Headline (res_Summary r)\<rparr>) (out_Results out)\<rparr>"

definition RecordVerification ::
  "statements \<Rightarrow> JournalCodec \<Rightarrow> string \<Rightarrow> Outcome option \<Rightarrow> SupStore \<Rightarrow> sup_error option \<times> SupStore" where
  "RecordVerification tx jc task out st =
     (case out of None \<Rightarrow> (None, st) | Some x \<Rightarrow> RecordEvent tx task KindRecipeRun (jc_verification jc (record_of x)) st)"

fun latest_verification :: "JournalCodec \<Rightarrow> Operation list \<Rightarrow> VerificationRecord option \<Rightarrow> VerificationRecord option" where
  "latest_verification jc [] latest = latest"
| "latest_verification jc (o' # ops) latest =
     latest_verification jc ops
       (if op_Kind o' \<noteq> KindRecipeRun then latest
        else case jc_toVerification jc (op_Intent o') of None \<Rightarrow> latest | Some r \<Rightarrow> Some r)"

definition LastVerification :: "JournalCodec \<Rightarrow> SupStore \<Rightarrow> string \<Rightarrow> VerificationRecord option" where
  "LastVerification jc st task = latest_verification jc (Operations (su_ledger st) task) None"

section \<open>The final review\<close>

text \<open>\<^verbatim>\<open>strings.Cut\<close>: what follows the first occurrence of a separator.\<close>

fun cutAfter :: "string \<Rightarrow> string \<Rightarrow> string option" where
  "cutAfter sep [] = None"
| "cutAfter sep (c # s) = (if hasPrefix (c # s) sep then Some (drop (length sep) (c # s)) else cutAfter sep s)"

definition trimCR :: "string \<Rightarrow> string" where
  "trimCR s = rev (dropWhile ((=) (CHR 0x0D)) (rev s))"

definition porcelain_path :: "string \<Rightarrow> string list" where
  "porcelain_path line0 =
     (let line = trimCR line0 in
      if length line < 4 then []
      else let path = drop 3 line;
               p = trimSpace (case cutAfter '' -> '' path of Some after \<Rightarrow> after | None \<Rightarrow> path) in
        if p = [] then [] else [p])"

definition parsePorcelain :: "string \<Rightarrow> string list" where
  "parsePorcelain out = sortStrings (concat (map porcelain_path (splitOn newline out)))"

definition changedFiles :: "string option \<Rightarrow> string list" where
  "changedFiles status = (case status of None \<Rightarrow> [] | Some out \<Rightarrow> parsePorcelain out)"

definition protectedViolations :: "policy_error + PolicySet \<Rightarrow> string list \<Rightarrow> string list" where
  "protectedViolations loaded changed =
     (case loaded of Inl _ \<Rightarrow> [] | Inr ps \<Rightarrow> if Policies ps = [] then [] else map Violation_Path (set_Check ps changed))"

definition verdict_of :: "VerificationRecord option \<Rightarrow> review_verdict" where
  "verdict_of v = (case v of None \<Rightarrow> UNVERIFIED | Some r \<Rightarrow> if vr_Accepted r then VERIFIED else NOT_VERIFIED)"

text \<open>
  The review: \<open>status\<close> is what \<^verbatim>\<open>git status\<close> printed, \<open>loaded\<close> the policies of the repository; the two last statements of the
  call are the journal entry (0 and 1) and the state (2).
\<close>

definition build_review ::
  "JournalCodec \<Rightarrow> policy_error + PolicySet \<Rightarrow> string option \<Rightarrow> int \<Rightarrow> Task \<Rightarrow> SupStore \<Rightarrow> Review" where
  "build_review jc loaded status now t st =
     (let v = LastVerification jc st (task_ID t);
          changed = changedFiles status;
          hits = protectedViolations loaded changed in
      \<lparr>rw_TaskID = task_ID t, rw_Intent = task_Title t, rw_Verdict = verdict_of v, rw_Decisions = Decisions jc st (task_ID t),
       rw_FilesChangedCount = length changed, rw_FilesChanged = changed,
       rw_Checks = (case v of None \<Rightarrow> [] | Some r \<Rightarrow> vr_Checks r),
       rw_Protected = (case v of None \<Rightarrow> [] | Some r \<Rightarrow> vr_OutOfScope r) @ hits,
       rw_Warnings = (case v of None \<Rightarrow> [NeverVerified] | Some r \<Rightarrow> if vr_Accepted r then [] else map NotAccepted (vr_Reasons r)) @
         (if changed = [] then [TreeUnchanged] else []) @ (if hits \<noteq> [] then [ProtectedChanged] else []),
       rw_FinishedAt = now\<rparr>)"

definition FinishTask ::
  "statements \<Rightarrow> JournalCodec \<Rightarrow> policy_error + PolicySet \<Rightarrow> string option \<Rightarrow> int \<Rightarrow> string \<Rightarrow> SupStore \<Rightarrow> (sup_error + Review) \<times> SupStore" where
  "FinishTask tx jc loaded status now task st =
     (case task_Get (su_tasks st) task of
        Inl e \<Rightarrow> (Inl (TaskErr e), st)
      | Inr t \<Rightarrow>
          let rev' = build_review jc loaded status now t st in
          (case RecordEvent tx task KindReview (jc_review jc rev') st of
             (Some e, st1) \<Rightarrow> (Inl e, st1)
           | (None, st1) \<Rightarrow>
               (case SetState (fst (tx 2)) (snd (tx 2)) task (if rw_Verdict rev' \<noteq> VERIFIED then StateFailed else StateAccepted) (su_tasks st1) of
                  (Inl e, db) \<Rightarrow> (Inl (TaskErr e), st1\<lparr>su_tasks := db\<rparr>)
                | (Inr _, db) \<Rightarrow> (Inr rev', st1\<lparr>su_tasks := db\<rparr>))))"

section \<open>The calls of an editor session\<close>

text \<open>
  A call first binds to a workspace; \<open>root\<close> is the directory of that workspace, or the error text of the binding.
\<close>

datatype mcp_error =
    NotBound string
  | NotAllowed access_error
  | FileAbsent string
  | FileUnread wt_error
  | PastTheEnd nat int
  | NoNonce
  | TaskIDMissing
  | NothingToDo
  | CallTask task_error
  | CreateNeedsEmptyOld
  | NotWritten wt_error
  | TextAbsent
  | TextAmbiguous
  | SecretFound string
  | CallSup sup_error
  | ObjectiveMissing
  | LevelUnknown string
  | PathAbsolute string
  | PathEscapes string
  | WorkDirBroken fs_error

text \<open>The directory a call may be about: below the one the server was started in.\<close>

definition mcp_confine :: "FS \<Rightarrow> string \<Rightarrow> string \<Rightarrow> mcp_error + string" where
  "mcp_confine fs workDir path =
     (case evalSymlinks fs workDir of
        Inl e \<Rightarrow> Inl (WorkDirBroken e)
      | Inr base \<Rightarrow>
          if trimSpace path = [] then Inr base
          else if isAbs path then Inl (PathAbsolute path)
          else let joined = (case evalSymlinks fs (joinPath base path) of Inr resolved \<Rightarrow> resolved | Inl _ \<Rightarrow> joinPath base path);
                   rel = relPath base joined in
            if rel = ''..'' \<or> hasPrefix rel ''../'' then Inl (PathEscapes path) else Inr joined)"

definition protectedSet :: "policy_error + PolicySet \<Rightarrow> PolicySet" where
  "protectedSet loaded = (case loaded of Inl _ \<Rightarrow> \<lparr>Policies = []\<rparr> | Inr ps \<Rightarrow> ps)"

record readOut =
  ro_Path :: string
  ro_StartLine :: int
  ro_EndLine :: int
  ro_Content :: string
  ro_Truncated :: bool

datatype read_reply = ReadRefused mcp_error | ReadPanics | ReadReply string readOut

definition maxReadBytes :: nat where "maxReadBytes = 256 * 1024"

text \<open>The lines of a range; slicing with a start beyond the end is a panic of the run-time system.\<close>

definition session_read_range :: "(string option) \<Rightarrow> string \<Rightarrow> int \<Rightarrow> int \<Rightarrow> string \<Rightarrow> bool \<Rightarrow> read_reply" where
  "session_read_range rnd path startLine endLine body truncated =
     (let ls = splitOn newline body; n = int (length ls);
          start = (if startLine > 0 then startLine else 1);
          end' = (if endLine > 0 \<and> endLine < n then endLine else n) in
      if start > n then ReadRefused (PastTheEnd (length ls) start)
      else if start - 1 > end' then ReadPanics
      else let content = joinWith [newline] (take (nat (end' - start + 1)) (drop (nat (start - 1)) ls)) in
        (case NewFence rnd of
           None \<Rightarrow> ReadRefused NoNonce
         | Some fence \<Rightarrow>
             ReadReply (fence_Preamble fence @ [newline] @
               fence_Wrap fence (''source=file path='' @ path @ '' lines='' @ showInt start @ ''-'' @ showInt end') content)
               \<lparr>ro_Path = path, ro_StartLine = start, ro_EndLine = end', ro_Content = content, ro_Truncated = truncated\<rparr>))"

definition mcp_readFile :: "FS \<Rightarrow> (string \<Rightarrow> fs_error + string) \<Rightarrow> policy_error + PolicySet \<Rightarrow> string option \<Rightarrow> string + string \<Rightarrow>
    string \<Rightarrow> int \<Rightarrow> int \<Rightarrow> read_reply" where
  "mcp_readFile fs contents loaded rnd session path startLine endLine =
     (case session of Inl e \<Rightarrow> ReadRefused (NotBound e) | Inr root' \<Rightarrow>
      case access_Check \<lparr>WriteScope = [], AccessProtected = protectedSet loaded\<rparr> fs root' path False of Some e \<Rightarrow> ReadRefused (NotAllowed e) | None \<Rightarrow>
      case ReadWithin fs contents root' path of
        Inl e \<Rightarrow> ReadRefused (if e = FsErr NotExist then FileAbsent path else FileUnread e)
      | Inr body \<Rightarrow> session_read_range rnd path startLine endLine (take maxReadBytes body) (length body > maxReadBytes))"

text \<open>\<^verbatim>\<open>strings.Count\<close> finds the empty string once in an empty file and more than once in any other.\<close>

definition edit_once :: "string \<Rightarrow> string \<Rightarrow> string \<Rightarrow> mcp_error + string" where
  "edit_once old new body =
     (if old = [] then (if body = [] then Inr new else Inl TextAmbiguous)
      else let n = countStr old body in
        if n = 0 then Inl TextAbsent else if n > 1 then Inl TextAmbiguous else Inr (replaceFirst old new body))"

definition mcp_editFile ::
  "'w FileOps \<Rightarrow> task_db \<Rightarrow> policy_error + PolicySet \<Rightarrow> string + string \<Rightarrow> string \<Rightarrow> string \<Rightarrow> string \<Rightarrow> string \<Rightarrow> 'w \<Rightarrow> mcp_error option \<times> 'w" where
  "mcp_editFile fo db loaded session task path old new w =
     (if trimSpace task = [] then (Some TaskIDMissing, w)
      else if old = new then (Some NothingToDo, w)
      else case session of Inl e \<Rightarrow> (Some (NotBound e), w) | Inr root' \<Rightarrow>
      case task_Get db task of Inl e \<Rightarrow> (Some (CallTask e), w) | Inr t \<Rightarrow>
      case access_Check \<lparr>WriteScope = Scope (task_Budget t), AccessProtected = protectedSet loaded\<rparr> (fo_fs fo w) root' path True of
        Some e \<Rightarrow> (Some (NotAllowed e), w)
      | None \<Rightarrow>
      (case ReadWithin (fo_fs fo w) (fo_readFile fo w) root' path of
         Inl e \<Rightarrow>
           if e = FsErr NotExist then
             (if old \<noteq> [] then (Some CreateNeedsEmptyOld, w)
              else (case WriteWithin (fo_fs fo w) (fo_mkdirs fo) (fo_writeFile fo) root' path new w of
                      (Some x, w') \<Rightarrow> (Some (NotWritten x), w') | (None, w') \<Rightarrow> (None, w')))
           else (Some (FileUnread e), w)
       | Inr body \<Rightarrow>
           (case edit_once old new body of
              Inl e \<Rightarrow> (Some e, w)
            | Inr updated \<Rightarrow>
                (case WriteWithin (fo_fs fo w) (fo_mkdirs fo) (fo_writeFile fo) root' path updated w of
                   (Some x, w') \<Rightarrow> (Some (NotWritten x), w') | (None, w') \<Rightarrow> (None, w')))))"

definition taskAnswer ::
  "statements \<Rightarrow> JournalCodec \<Rightarrow> string + string \<Rightarrow> string \<Rightarrow> string \<Rightarrow> string \<Rightarrow> SupStore \<Rightarrow> mcp_error option \<times> SupStore" where
  "taskAnswer tx jc session task question answer st =
     (case session of Inl e \<Rightarrow> (Some (NotBound e), st) | Inr _ \<Rightarrow>
      case CheckContentSecrets ''this answer'' (question @ [newline] @ answer) of
        Some e \<Rightarrow> (Some (SecretFound e), st)
      | None \<Rightarrow> (case RecordAnswer tx jc task question answer st of (e, st') \<Rightarrow> (map_option CallSup e, st')))"

definition taskFinish ::
  "statements \<Rightarrow> JournalCodec \<Rightarrow> policy_error + PolicySet \<Rightarrow> string option \<Rightarrow> int \<Rightarrow> string + string \<Rightarrow> string \<Rightarrow> SupStore \<Rightarrow> (mcp_error + Review) \<times> SupStore" where
  "taskFinish tx jc loaded status now session task st =
     (case session of Inl e \<Rightarrow> (Inl (NotBound e), st) | Inr _ \<Rightarrow>
      case FinishTask tx jc loaded status now task st of
        (Inl e, st') \<Rightarrow> (Inl (CallSup e), st') | (Inr r, st') \<Rightarrow> (Inr r, st'))"

definition taskStart ::
  "statements \<Rightarrow> string + string \<Rightarrow> string \<Rightarrow> string \<Rightarrow> string list \<Rightarrow> SupStore \<Rightarrow> (mcp_error + string \<times> Kind list) \<times> SupStore" where
  "taskStart tx session newID objective scope st =
     (if trimSpace objective = [] then (Inl ObjectiveMissing, st)
      else case session of Inl e \<Rightarrow> (Inl (NotBound e), st) | Inr _ \<Rightarrow>
      let t = \<lparr>task_ID = newID, task_WorkspaceID = [], task_RequirementID = [], task_ParentID = [], task_Title = trimSpace objective,
               task_Kind = ''supervised'', task_WorktreeID = [], task_State = StateUnset, task_Verification = Standard,
               task_Budget = \<lparr>MaxAttempts = 1, MaxWallTime = 1800000, MaxTokens = 0, Scope = scope\<rparr>,
               task_CreatedAt = 0, task_UpdatedAt = 0, task_FinishedAt = None\<rparr> in
      (case task_Create (fst (tx 0)) (snd (tx 0)) t (su_tasks st) of
         (Inl e, db) \<Rightarrow> (Inl (CallTask e), st\<lparr>su_tasks := db\<rparr>)
       | (Inr _, db) \<Rightarrow> (Inr (newID, Required Standard), st\<lparr>su_tasks := db\<rparr>)))"

text \<open>
  Verification runs as a task of its own, at the level the caller names; \<open>judged\<close> is the outcome of that run, at that level.
\<close>

definition parse_level :: "string \<Rightarrow> mcp_error + Level" where
  "parse_level s = (if s = [] then Inr Standard else if s = ''low'' then Inr Low else if s = ''standard'' then Inr Standard
     else if s = ''high'' then Inr High else Inl (LevelUnknown s))"

definition mcp_verify ::
  "statements \<Rightarrow> JournalCodec \<Rightarrow> string + string \<Rightarrow> string \<Rightarrow> (Level \<Rightarrow> task_error + Outcome) \<Rightarrow> string \<Rightarrow> string \<Rightarrow> SupStore \<Rightarrow>
     (mcp_error + Outcome) \<times> SupStore" where
  "mcp_verify tx jc session newID judged task level st =
     (case parse_level level of Inl e \<Rightarrow> (Inl e, st) | Inr l \<Rightarrow>
      case session of Inl e \<Rightarrow> (Inl (NotBound e), st) | Inr name \<Rightarrow>
      let t = \<lparr>task_ID = newID, task_WorkspaceID = [], task_RequirementID = [], task_ParentID = [], task_Title = ''verify '' @ name,
               task_Kind = ''verification'', task_WorktreeID = [], task_State = StateUnset, task_Verification = l,
               task_Budget = \<lparr>MaxAttempts = 1, MaxWallTime = 1800000, MaxTokens = 0, Scope = []\<rparr>,
               task_CreatedAt = 0, task_UpdatedAt = 0, task_FinishedAt = None\<rparr> in
      (case task_Create (fst (tx 2)) (snd (tx 2)) t (su_tasks st) of
         (Inl e, db) \<Rightarrow> (Inl (CallTask e), st\<lparr>su_tasks := db\<rparr>)
       | (Inr _, db) \<Rightarrow>
           (case judged l of
              Inl e \<Rightarrow> (Inl (CallTask e), st\<lparr>su_tasks := db\<rparr>)
            | Inr out \<Rightarrow>
                if task = [] then (Inr out, st\<lparr>su_tasks := db\<rparr>)
                else (case RecordVerification tx jc task (Some out) (st\<lparr>su_tasks := db\<rparr>) of
                        (Some e, st') \<Rightarrow> (Inl (CallSup e), st') | (None, st') \<Rightarrow> (Inr out, st')))))"

section \<open>The journal of a supervised task\<close>

lemma operations_filter:
  assumes "journal_inv db"
  shows "Operations db task = filter (\<lambda>o'. op_TaskID o' = task) (lg_ops db)"
proof -
  let ?xs = "filter (\<lambda>o'. op_TaskID o' = task) (lg_ops db)"
  have "map op_Seq ?xs = map (\<lambda>i. int (Suc i)) [0..<length ?xs]"
    using assms unfolding journal_inv_def task_seqs_def by (metis length_map)
  then have "sorted_wrt (\<lambda>a b. op_Seq a < op_Seq b) ?xs" by (rule sorted_wrt_map_upt)
  then show ?thesis unfolding Operations_def by (rule stable_sort_sorted) simp
qed

lemma update_fresh:
  assumes "lg_ops db = os @ [row]" and "\<forall>o' \<in> set os. op_ID o' \<noteq> op_ID row"
  shows "lg_ops (update_op (op_ID row) f db) = os @ [f row]"
proof -
  have "map (\<lambda>o'. if op_ID o' = op_ID row then f o' else o') os = os"
    using assms(2) by (intro map_idI) auto
  then show ?thesis using assms(1) by (simp add: update_op_def)
qed

text \<open>An event that was recorded is the last entry of its task's journal, and of no other's.\<close>

lemma record_event:
  assumes "journal_inv (su_ledger st)" and "RecordEvent tx task kind detail st = (None, st')"
  obtains d row where "detail = Some d" and "op_Kind row = kind" and "op_Intent row = d" and "op_StartedAt row = snd (tx 0)"
    and "Operations (su_ledger st') task = Operations (su_ledger st) task @ [row]"
    and "journal_inv (su_ledger st')" and "su_tasks st' = su_tasks st"
    and "\<And>t. t \<noteq> task \<Longrightarrow> Operations (su_ledger st') t = Operations (su_ledger st) t"
proof -
  let ?db = "su_ledger st"
  obtain h db1 where b: "Begin (fst (tx 0)) (snd (tx 0)) task kind detail [] ?db = (Inr h, db1)"
    using assms(2) by (auto simp: RecordEvent_def split: prod.splits sum.splits)
  obtain d where d: "detail = Some d" using b by (auto simp: Begin_def split: option.splits)
  define row where "row = \<lparr>op_ID = next_id ?db, op_TaskID = task, op_Seq = last_seq ?db task + 1, op_Kind = kind, op_Intent = d, op_Outcome = [],
    op_CandidateBefore = [], op_CandidateAfter = [], op_EvidenceID = [], op_StartedAt = snd (tx 0), op_FinishedAt = 0, op_Error = []\<rparr>"
  have h: "h_id h = op_ID row" "h_done h = False" and db1: "lg_ops db1 = lg_ops ?db @ [row]"
    using b by (auto simp: d Begin_def Let_def row_def split: if_splits)
  define row' where "row' = row\<lparr>op_Outcome := d, op_CandidateAfter := [], op_EvidenceID := [], op_FinishedAt := snd (tx 1)\<rparr>"
  have fresh: "\<forall>o' \<in> set (lg_ops ?db). op_ID o' \<noteq> op_ID row"
    using next_id_fresh [of ?db] by (simp add: row_def) (metis image_eqI)
  obtain h' db2 where c: "Complete (fst (tx 1)) (snd (tx 1)) detail [] [] h db1 = (None, h', db2)" and st': "st' = st\<lparr>su_ledger := db2\<rparr>"
    using assms(2) b by (auto simp: RecordEvent_def split: prod.splits)
  have ops: "lg_ops db2 = lg_ops ?db @ [row']"
    using c update_fresh [OF db1 fresh] by (auto simp: Complete_def h_finish_def d h row'_def split: if_splits)
  have i1: "journal_inv db1" using journal_inv_Begin [OF assms(1), of "fst (tx 0)" "snd (tx 0)" task kind detail "[]"] b by simp
  have i2: "journal_inv db2" using journal_inv_finish [OF i1, of "fst (tx 1)" "snd (tx 1)" detail "[]" "[]" h] c by (simp add: Complete_def)
  show ?thesis
    by (rule that [of d row']) (use i2 assms(1) in \<open>auto simp: d row'_def row_def st' operations_filter ops\<close>)
qed

lemma latest_verification_append:
  "latest_verification jc (xs @ ys) v = latest_verification jc ys (latest_verification jc xs v)"
  by (induction xs arbitrary: v) auto

text \<open>A task that was finished: its review, and the state its row has then.\<close>

lemma finish_review:
  assumes "FinishTask tx jc loaded status now task st = (Inr rev', st')"
  obtains t where "task_ID t = task" and "rev' = build_review jc loaded status now t st"
proof -
  obtain t where t: "task_Get (su_tasks st) task = Inr t" using assms by (auto simp: FinishTask_def split: sum.splits)
  then have "task_ID t = task" by (auto simp: task_Get_def find_Some_iff split: option.splits)
  moreover have "rev' = build_review jc loaded status now t st"
    using assms t by (auto simp: FinishTask_def Let_def split: prod.splits option.splits sum.splits)
  ultimately show ?thesis by (rule that)
qed

lemma set_row_state:
  "(\<And>t. task_State (f t) = s) \<Longrightarrow> (\<And>t. task_ID (f t) = task_ID t) \<Longrightarrow> \<forall>t \<in> set (db_tasks (set_row i f db)). task_ID t = i \<longrightarrow> task_State t = s"
  by (auto simp: set_row_def)

lemma SetState_sets:
  assumes "SetState ok now i s db = (r, db')"
  shows "r = Inr () \<longrightarrow> (\<forall>t \<in> set (db_tasks db'). task_ID t = i \<longrightarrow> task_State t = s)"
proof (cases "\<not> ok \<or> (s = StateUnset \<and> i \<in> set (map task_ID (db_tasks db)))")
  case True
  then have "SetState ok now i s db = (Inl DbFailed, db)" unfolding SetState_def by (rule if_P)
  then show ?thesis using assms by simp
next
  case False
  let ?f = "\<lambda>t. t\<lparr>task_State := s, task_UpdatedAt := now, task_FinishedAt := (if Terminal s then Some now else None)\<rparr>"
  have "SetState ok now i s db = (Inr (), set_row i ?f db)" unfolding SetState_def by (rule if_not_P [OF False])
  then have "db' = set_row i ?f db" using assms by simp
  moreover have "\<forall>t \<in> set (db_tasks (set_row i ?f db)). task_ID t = i \<longrightarrow> task_State t = s"
    by (rule set_row_state) simp_all
  ultimately show ?thesis by simp
qed

lemma finish_state:
  assumes "FinishTask tx jc loaded status now task st = (Inr rev', st')"
  shows "\<forall>t \<in> set (db_tasks (su_tasks st')). task_ID t = task \<longrightarrow> task_State t = (if rw_Verdict rev' \<noteq> VERIFIED then StateFailed else StateAccepted)"
proof -
  obtain t where t: "task_Get (su_tasks st) task = Inr t" using assms by (auto simp: FinishTask_def split: sum.splits)
  let ?rev = "build_review jc loaded status now t st"
  obtain e st1 where r: "RecordEvent tx task KindReview (jc_review jc ?rev) st = (e, st1)" by fastforce
  have "e = None" using assms t r by (cases e) (simp_all add: FinishTask_def Let_def)
  obtain x db where s: "SetState (fst (tx 2)) (snd (tx 2)) task (if rw_Verdict ?rev \<noteq> VERIFIED then StateFailed else StateAccepted) (su_tasks st1) = (x, db)"
    by fastforce
  have f: "FinishTask tx jc loaded status now task st =
      (case x of Inl e \<Rightarrow> (Inl (TaskErr e), st1\<lparr>su_tasks := db\<rparr>) | Inr _ \<Rightarrow> (Inr ?rev, st1\<lparr>su_tasks := db\<rparr>))"
    unfolding FinishTask_def t sum.case Let_def r \<open>e = None\<close> option.case prod.case s ..
  obtain u where "x = Inr u" "rev' = ?rev" "st' = st1\<lparr>su_tasks := db\<rparr>"
    using assms unfolding f by (cases x) auto
  with SetState_sets [OF s] show ?thesis by simp
qed

text \<open>
  C29. What a finished task is said to be is what its last verification found: when a verification was recorded and
  the task is finished next, the verdict, the checks and the state that is stored are those of that verification.
\<close>

theorem finish_reports_verification:
  assumes "journal_inv (su_ledger st)" and "\<And>d. jc_verification jc (record_of out) = Some d \<Longrightarrow> jc_toVerification jc d = Some (record_of out)"
    and "RecordVerification tx jc task (Some out) st = (None, st1)" and "FinishTask tx' jc loaded status now task st1 = (Inr rev', st2)"
  shows "rw_Verdict rev' = (if out_Accepted out then VERIFIED else NOT_VERIFIED) \<and> rw_Checks rev' = vr_Checks (record_of out) \<and>
    (\<forall>t \<in> set (db_tasks (su_tasks st2)). task_ID t = task \<longrightarrow> task_State t = (if out_Accepted out then StateAccepted else StateFailed))"
proof -
  from assms(3) have "RecordEvent tx task KindRecipeRun (jc_verification jc (record_of out)) st = (None, st1)"
    by (simp add: RecordVerification_def)
  then obtain d row where r: "jc_verification jc (record_of out) = Some d" "op_Kind row = KindRecipeRun"
    "op_Intent row = d" "Operations (su_ledger st1) task = Operations (su_ledger st) task @ [row]" by (rule record_event [OF assms(1)]) (rule that)
  then have lv: "LastVerification jc st1 task = Some (record_of out)"
    using assms(2) [OF r(1)] by (simp add: LastVerification_def latest_verification_append)
  obtain t where t: "task_ID t = task" "rev' = build_review jc loaded status now t st1" by (rule finish_review [OF assms(4)])
  have v: "rw_Verdict rev' = (if out_Accepted out then VERIFIED else NOT_VERIFIED)" "rw_Checks rev' = vr_Checks (record_of out)"
    by (simp_all add: t build_review_def Let_def lv verdict_of_def record_of_def)
  show ?thesis using finish_state [OF assms(4)] v by auto
qed

text \<open>
  A finished task is accepted only on a record: its state becomes accepted exactly when the review says
  verified, and then its journal holds a verification that accepted.
\<close>

theorem accepted_needs_record:
  assumes "FinishTask tx jc loaded status now task st = (Inr rev', st')"
  shows "(\<forall>t \<in> set (db_tasks (su_tasks st')). task_ID t = task \<longrightarrow> (task_State t = StateAccepted \<longleftrightarrow> rw_Verdict rev' = VERIFIED)) \<and>
    (rw_Verdict rev' = VERIFIED \<longrightarrow> (\<exists>o' \<in> set (Operations (su_ledger st) task). \<exists>r. op_Kind o' = KindRecipeRun \<and>
       jc_toVerification jc (op_Intent o') = Some r \<and> vr_Accepted r))"
proof -
  have found: "latest_verification jc ops v = Some r \<Longrightarrow> v = Some r \<or>
      (\<exists>o' \<in> set ops. op_Kind o' = KindRecipeRun \<and> jc_toVerification jc (op_Intent o') = Some r)" for ops v r
  proof (induction ops arbitrary: v)
    case (Cons o' ops)
    from Cons.IH [of "if op_Kind o' \<noteq> KindRecipeRun then v else case jc_toVerification jc (op_Intent o') of None \<Rightarrow> v | Some r \<Rightarrow> Some r"] Cons.prems
    show ?case by (auto split: if_splits option.splits)
  qed simp
  obtain t where t: "task_ID t = task" "rev' = build_review jc loaded status now t st" by (rule finish_review [OF assms])
  have "\<exists>o' \<in> set (Operations (su_ledger st) task). \<exists>r. op_Kind o' = KindRecipeRun \<and> jc_toVerification jc (op_Intent o') = Some r \<and> vr_Accepted r"
    if "rw_Verdict rev' = VERIFIED"
  proof -
    from that obtain r where r: "LastVerification jc st task = Some r" "vr_Accepted r"
      by (auto simp: t build_review_def Let_def verdict_of_def split: option.splits if_splits)
    from found [OF r(1) [unfolded LastVerification_def]] r(2) show ?thesis by blast
  qed
  moreover have "\<forall>t \<in> set (db_tasks (su_tasks st')). task_ID t = task \<longrightarrow> (task_State t = StateAccepted \<longleftrightarrow> rw_Verdict rev' = VERIFIED)"
    using finish_state [OF assms] by simp
  ultimately show ?thesis by blast
qed


text \<open>
  An answer of the user is never lost: once it was recorded, what the task's decisions are read back as ends with it,
  in the order the questions were answered.
\<close>

theorem answer_read_back:
  assumes "journal_inv (su_ledger st)"
    and "\<And>q a d. jc_answer jc q a = Some d \<Longrightarrow> jc_toDecision jc d = Some (q, a, ''user'')"
    and "taskAnswer tx jc session task question answer st = (None, st')"
  shows "Decisions jc st' task = Decisions jc st task @
    [\<lparr>de_Question = trimSpace question, de_Answer = trimSpace answer, de_At = snd (tx 0)\<rparr>]"
proof -
  have "RecordEvent tx task KindDecision (jc_answer jc (trimSpace question) (trimSpace answer)) st = (None, st')"
    using assms(3) by (auto simp: taskAnswer_def RecordAnswer_def Let_def split: sum.splits option.splits prod.splits if_splits)
  then obtain d row where "jc_answer jc (trimSpace question) (trimSpace answer) = Some d" "op_Kind row = KindDecision"
    "op_Intent row = d" "op_StartedAt row = snd (tx 0)" "Operations (su_ledger st') task = Operations (su_ledger st) task @ [row]" by (rule record_event [OF assms(1)]) (rule that)
  then show ?thesis using assms(2) by (simp add: Decisions_def decision_of_def)
qed

definition demo_outcome :: Outcome where
  "demo_outcome = (new_outcome (TaskStore.demo_task ''t''))\<lparr>out_Accepted := True\<rparr>"

definition demo_journal :: JournalCodec where
  "demo_journal = \<lparr>jc_start = Some, jc_answer = (\<lambda>q a. if slash \<in> set q then None else Some (q @ slash # a)),
     jc_toDecision = (\<lambda>d. if slash \<in> set d then Some (takeWhile (\<lambda>c. c \<noteq> slash) d, drop 1 (dropWhile (\<lambda>c. c \<noteq> slash) d), ''user'') else None),
     jc_verification = (\<lambda>r. if r = record_of demo_outcome then Some ''v'' else None),
     jc_toVerification = (\<lambda>d. if d = ''v'' then Some (record_of demo_outcome) else None), jc_review = (\<lambda>_. Some ''r'')\<rparr>"

definition demo_supstore :: SupStore where
  "demo_supstore = \<lparr>su_tasks = \<lparr>db_ws = ''w'', db_tasks = [TaskStore.demo_task ''t''], db_reqs = [], db_deps = []\<rparr>, su_ledger = empty_ledger\<rparr>"

definition demo_verified :: SupStore where
  "demo_verified = snd (RecordVerification (\<lambda>_. (True, 5)) demo_journal ''t'' (Some demo_outcome) demo_supstore)"

lemma demo_journal_inv: "journal_inv (su_ledger demo_supstore)"
  by (simp add: demo_supstore_def journal_inv_def empty_ledger_def task_seqs_def)

lemma record_event_succeeds:
  "\<forall>i. fst (tx i) \<Longrightarrow> \<exists>st'. RecordEvent tx task kind (Some d) st = (None, st')"
  by (simp add: RecordEvent_def Begin_def Let_def Complete_def h_finish_def)

lemma finish_succeeds:
  assumes "\<forall>i. fst (tx i)" and "task_Get (su_tasks st) task = Inr t" and "\<forall>r. jc_review jc r \<noteq> None"
  obtains r st' where "FinishTask tx jc loaded status now task st = (Inr r, st')"
proof -
  obtain d where d: "jc_review jc (build_review jc loaded status now t st) = Some d" using assms(3) by blast
  obtain st1 where "RecordEvent tx task KindReview (Some d) st = (None, st1)" using record_event_succeeds [OF assms(1)] by blast
  moreover have "\<exists>db. SetState (fst (tx 2)) (snd (tx 2)) task (if b then StateFailed else StateAccepted) (su_tasks st1) = (Inr (), db)" for b
    using assms(1) by (cases b) (simp_all add: SetState_def)
  then obtain db where "SetState (fst (tx 2)) (snd (tx 2)) task
    (if rw_Verdict (build_review jc loaded status now t st) \<noteq> VERIFIED then StateFailed else StateAccepted) (su_tasks st1) = (Inr (), db)" by blast
  ultimately have "FinishTask tx jc loaded status now task st = (Inr (build_review jc loaded status now t st), st1\<lparr>su_tasks := db\<rparr>)"
    unfolding FinishTask_def by (simp only: assms(2) d sum.case option.case prod.case Let_def)
  then show ?thesis by (rule that)
qed

lemma demo_verified_ok: "RecordVerification (\<lambda>_. (True, 5)) demo_journal ''t'' (Some demo_outcome) demo_supstore = (None, demo_verified)"
  using record_event_succeeds [of "\<lambda>_. (True, 5)" "''t''" KindRecipeRun "''v''" demo_supstore]
  by (auto simp: demo_verified_def RecordVerification_def demo_journal_def)

lemma demo_finish:
  obtains r st' where "FinishTask (\<lambda>_. (True, 6)) demo_journal loaded status 7 ''t'' demo_verified = (Inr r, st')"
proof -
  from demo_verified_ok have "RecordEvent (\<lambda>_. (True, 5)) ''t'' KindRecipeRun (Some ''v'') demo_supstore = (None, demo_verified)"
    by (simp add: RecordVerification_def demo_journal_def)
  from record_event [OF demo_journal_inv this] have "su_tasks demo_verified = su_tasks demo_supstore" by blast
  then have t: "task_Get (su_tasks demo_verified) ''t'' = Inr (TaskStore.demo_task ''t'')"
    by (simp add: demo_supstore_def task_Get_def TaskStore.demo_task_def)
  have a: "\<forall>i::nat. fst ((\<lambda>_. (True, 6 :: int)) i)" and c: "\<forall>r. jc_review demo_journal r \<noteq> None"
    by (simp_all add: demo_journal_def)
  show ?thesis by (rule finish_succeeds [OF a t c]) (rule that)
qed

theorem finish_reports_verification_witness:
  "\<exists>r st'. FinishTask (\<lambda>_. (True, 6)) demo_journal (Inl ReadDirFailed) None 7 ''t'' demo_verified = (Inr r, st') \<and> rw_Verdict r = VERIFIED"
proof -
  obtain r st' where f: "FinishTask (\<lambda>_. (True, 6)) demo_journal (Inl ReadDirFailed) None 7 ''t'' demo_verified = (Inr r, st')" by (rule demo_finish)
  have "jc_verification demo_journal (record_of demo_outcome) = Some d \<Longrightarrow> jc_toVerification demo_journal d = Some (record_of demo_outcome)" for d
    by (simp add: demo_journal_def)
  from finish_reports_verification [OF demo_journal_inv this demo_verified_ok f] f show ?thesis by (simp add: demo_outcome_def)
qed

theorem accepted_needs_record_witness:
  "\<exists>r st'. FinishTask (\<lambda>_. (True, 6)) demo_journal (Inr \<lparr>Policies = []\<rparr>) None 7 ''t'' demo_verified = (Inr r, st') \<and>
     (\<forall>t \<in> set (db_tasks (su_tasks st')). task_ID t = ''t'' \<longrightarrow> (task_State t = StateAccepted \<longleftrightarrow> rw_Verdict r = VERIFIED))"
proof -
  obtain r st' where f: "FinishTask (\<lambda>_. (True, 6)) demo_journal (Inr \<lparr>Policies = []\<rparr>) None 7 ''t'' demo_verified = (Inr r, st')" by (rule demo_finish)
  from accepted_needs_record [OF f] f show ?thesis by blast
qed


theorem answer_read_back_witness:
  "Decisions demo_journal (snd (taskAnswer (\<lambda>_. (True, 5)) demo_journal (Inr ''w'') ''t'' ''q'' ''a'' demo_supstore)) ''t'' =
     Decisions demo_journal demo_supstore ''t'' @ [\<lparr>de_Question = trimSpace ''q'', de_Answer = trimSpace ''a'', de_At = 5\<rparr>]"
proof -
  have s: "CheckContentSecrets ''this answer'' (''q'' @ [newline] @ ''a'') = None" by code_simp
  have tr: "trimSpace ''q'' = ''q''" "trimSpace ''a'' = ''a''" by code_simp+
  obtain st' where a: "taskAnswer (\<lambda>_. (True, 5)) demo_journal (Inr ''w'') ''t'' ''q'' ''a'' demo_supstore = (None, st')"
    unfolding taskAnswer_def sum.case s option.case RecordAnswer_def Let_def tr
    by (simp add: RecordEvent_def demo_journal_def demo_supstore_def Begin_def Let_def Complete_def h_finish_def)
  have d: "jc_answer demo_journal q a = Some d \<Longrightarrow> jc_toDecision demo_journal d = Some (q, a, ''user'')" for q a d
    by (auto simp: demo_journal_def takeWhile_append dropWhile_append split: if_splits)
  from answer_read_back [OF demo_journal_inv d a] a show ?thesis by simp
qed

section \<open>The file tools of an editor session\<close>

text \<open>
  A read whose last line lies before its first one by more than one line takes the server down: the range check only
  compares the first line with the length of the file, and the slice panics.
\<close>

theorem read_backwards_panics:
  assumes "access_Check \<lparr>WriteScope = [], AccessProtected = protectedSet loaded\<rparr> fs root' path False = None"
    and "ReadWithin fs contents root' path = Inr body"
    and "startLine \<le> int (length (splitOn newline (take maxReadBytes body)))" and "0 < endLine" and "endLine + 1 < startLine"
  shows "mcp_readFile fs contents loaded rnd (Inr root') path startLine endLine = ReadPanics"
  using assms by (simp add: mcp_readFile_def session_read_range_def Let_def)

text \<open>Any other range that starts in the file is answered with exactly its lines.\<close>

lemma session_read_range_lines:
  assumes "0 < startLine" and "startLine \<le> endLine" and "endLine < int (length (splitOn newline body))" and "NewFence rnd = Some fence"
  shows "\<exists>shown. session_read_range rnd path startLine endLine body truncated = ReadReply shown
     \<lparr>ro_Path = path, ro_StartLine = startLine, ro_EndLine = endLine,
      ro_Content = joinWith [newline] (take (nat (endLine - startLine + 1)) (drop (nat (startLine - 1)) (splitOn newline body))),
      ro_Truncated = truncated\<rparr>"
  using assms by (simp add: session_read_range_def Let_def)

lemma edit_once_replaces:
  assumes "edit_once old new body = Inr updated" and "old \<noteq> []"
  obtains pre post where "body = pre @ old @ post" and "updated = pre @ new @ post" and "countStr old body = 1"
proof -
  from assms have c: "countStr old body = 1" and u: "updated = replaceFirst old new body"
    by (auto simp: edit_once_def Let_def split: if_splits)
  then obtain pre post where f: "body = pre @ old @ post" "first_at old pre post"
    using first_at_exists [of old body] countStr_zero [OF assms(2), of body] by auto
  show ?thesis by (rule that [of pre post]) (use f c u replaceFirst_first [OF assms(2) f(2)] in auto)
qed

text \<open>
  C31. An edit that is reported as made wrote one file, at a path inside the checkout of the session that the scope of the named task
  covers, both as it was written and as it resolves, and that neither names a secret nor is protected.
\<close>

theorem session_edit_confined:
  assumes "mcp_editFile fo db loaded session task path old new w = (None, w')"
  shows "\<exists>root' t full croot updated w1. session = Inr root' \<and> task_Get db task = Inr t \<and> Resolve (fo_fs fo w) root' path = Inr full \<and>
    evalSymlinks (fo_fs fo w) root' = Inr croot \<and> fo_mkdirs fo (dirPath full) w = (None, w1) \<and> fo_writeFile fo full updated w1 = (None, w') \<and>
    (\<forall>n \<in> {cleanPath path, relPath croot full}. covers (Scope (task_Budget t)) n \<and> \<not> sensitive n \<and> \<not> under ''.git'' n \<and> \<not> under ''.le'' n \<and>
       \<not> Generated n \<and> set_Check (protectedSet loaded) [n] = [])"
proof -
  from assms obtain root' t where s: "session = Inr root'" and t: "task_Get db task = Inr t"
    by (auto simp: mcp_editFile_def split: if_splits sum.splits)
  let ?a = "\<lparr>WriteScope = Scope (task_Budget t), AccessProtected = protectedSet loaded\<rparr>"
  have acc: "access_Check ?a (fo_fs fo w) root' path True = None"
    using assms by (auto simp: mcp_editFile_def s t split: if_splits option.splits)
  then obtain full croot where f: "Resolve (fo_fs fo w) root' path = Inr full" "evalSymlinks (fo_fs fo w) root' = Inr croot"
    and n: "check_name ?a True (cleanPath path) = None" "check_name ?a True (relPath croot full) = None"
    by (auto simp: access_Check_def split: sum.splits option.splits)
  have "\<exists>updated. WriteWithin (fo_fs fo w) (fo_mkdirs fo) (fo_writeFile fo) root' path updated w = (None, w')"
    using assms by (auto simp: mcp_editFile_def s t acc split: if_splits option.splits sum.splits prod.splits)
  then obtain updated where wr: "WriteWithin (fo_fs fo w) (fo_mkdirs fo) (fo_writeFile fo) root' path updated w = (None, w')" by blast
  obtain e1 w1 e2 w2 where m: "fo_mkdirs fo (dirPath full) w = (e1, w1)" "fo_writeFile fo full updated w1 = (e2, w2)" by fastforce
  then have "e1 = None" "e2 = None" "w2 = w'"
    using wr by (cases e1; cases e2; simp add: WriteWithin_def f)+
  with m have "fo_mkdirs fo (dirPath full) w = (None, w1)" "fo_writeFile fo full updated w1 = (None, w')" by simp_all
  with s t f n show ?thesis by (fastforce simp: check_name_None_iff)
qed

lemma relPath_outside:
  assumes "list_all plain_seg bs" and "list_all plain_seg ts"
    and "relPath (abs_of bs) (abs_of ts) \<noteq> ''..''" and "\<not> hasPrefix (relPath (abs_of bs) (abs_of ts)) ''../''"
  obtains us where "ts = bs @ us"
proof (cases "bs = ts")
  case False
  obtain x y where xy: "strip_common bs ts = (x, y)" by fastforce
  have sc: "\<exists>c. bs = c @ fst (strip_common bs ts) \<and> ts = c @ snd (strip_common bs ts)" for bs ts :: "string list"
  proof (induction bs ts rule: strip_common.induct)
    case (1 a as b bs)
    then show ?case by (cases "a = b") (auto intro: exI [of _ "b # _"])
  qed simp_all
  then obtain c where c: "bs = c @ x" "ts = c @ y" using xy by (metis fst_conv snd_conv)
  have rel: "relPath (abs_of bs) (abs_of ts) = joinWith ''/'' (map (\<lambda>_. ''..'') x @ y)"
    using False assms(1,2) xy by (simp add: relPath_def Let_def cleanPath_abs_of abs_of_inject path_segs_abs_of)
  have "x = []"
  proof (rule ccontr)
    assume "x \<noteq> []"
    then obtain a x' where x: "x = a # x'" by (cases x) auto
    show False
      using assms(3,4) unfolding rel x by (cases "map (\<lambda>_. ''..'') x' @ y") (auto simp: hasPrefix_iff)
  qed
  with c that show ?thesis by auto
qed (use that in auto)

text \<open>
  The directory a call may be about lies in the one the server was started in: a path that is accepted resolves to the
  base itself or below it.
\<close>

theorem confined_below_base:
  assumes "fs_documented fs" and "isAbs workDir" and "mcp_confine fs workDir path = Inr dir"
  shows "\<exists>bs us. evalSymlinks fs workDir = Inr (abs_of bs) \<and> dir = abs_of (bs @ us) \<and> list_all plain_seg (bs @ us)"
proof -
  from assms(3) obtain base where b: "evalSymlinks fs workDir = Inr base" by (auto simp: mcp_confine_def split: sum.splits)
  from fs_documentedD [OF assms(1,2) b] obtain bs where bs: "list_all plain_seg bs" "base = abs_of bs" by blast
  show ?thesis
  proof (cases "trimSpace path = []")
    case True
    then show ?thesis using assms(3) b bs by (intro exI [of _ bs] exI [of _ "[]"]) (simp add: mcp_confine_def)
  next
    case False
    then have "path \<noteq> []" by (auto simp: trimSpace_Nil_iff)
    let ?j = "case evalSymlinks fs (joinPath base path) of Inr resolved \<Rightarrow> resolved | Inl _ \<Rightarrow> joinPath base path"
    have dir: "dir = ?j" "relPath base ?j \<noteq> ''..''" "\<not> hasPrefix (relPath base ?j) ''../''"
      using assms(3) False b by (auto simp: mcp_confine_def Let_def split: if_splits)
    have jp: "\<exists>ss. list_all plain_seg ss \<and> joinPath base path = abs_of ss"
      using joinPath_abs_shape [OF bs(1) \<open>path \<noteq> []\<close>] bs(2) by simp
    then have "isAbs (joinPath base path)" by auto
    then obtain ts where "list_all plain_seg ts" "?j = abs_of ts"
      using fs_documentedD [OF assms(1)] jp by (cases "evalSymlinks fs (joinPath base path)") auto
    with relPath_outside [OF bs(1) this(1)] dir bs b show ?thesis by metis
  qed
qed

text \<open>
  A path that does not exist yet is only compared as it was written: below a symbolic link it is accepted although the
  link leads elsewhere.
\<close>

lemma confine_missing_below_link: "mcp_confine demo_fs ''/w'' ''out/new'' = Inr ''/w/out/new'' \<and> evalSymlinks demo_fs ''/w/out'' = Inr ''/etc''"
  by code_simp

text \<open>A path that \<^verbatim>\<open>git status\<close> prints as it is: no line break, no arrow, no white space at its ends.\<close>

definition plain_path :: "string \<Rightarrow> bool" where
  "plain_path p = (p \<noteq> [] \<and> newline \<notin> set p \<and> cutAfter '' -> '' p = None \<and> trimSpace p = p \<and> last p \<noteq> CHR 0x0D)"

definition status_line :: "char \<times> char \<times> string \<Rightarrow> string" where
  "status_line e = (case e of (x, y, p) \<Rightarrow> [x, y, CHR 0x20] @ p @ [newline])"

lemma trimCR_snoc: "p \<noteq> [] \<Longrightarrow> last p \<noteq> CHR 0x0D \<Longrightarrow> trimCR (a @ p) = a @ p"
  by (cases p rule: rev_cases) (simp_all add: trimCR_def eq_commute)

text \<open>
  The changed files are the ones git lists: from the status output for plain paths, whatever the status codes, the
  parser recovers exactly the paths, sorted.
\<close>

theorem porcelain_roundtrip:
  assumes "\<forall>(x, y, p) \<in> set entries. x \<noteq> newline \<and> y \<noteq> newline \<and> plain_path p"
  shows "parsePorcelain (concat (map status_line entries)) = sortStrings (map (\<lambda>(x, y, p). p) entries)"
proof -
  have "concat (map porcelain_path (splitOn newline (concat (map status_line entries)))) = map (\<lambda>(x, y, p). p) entries"
    using assms
  proof (induction entries)
    case (Cons e entries)
    obtain x y p where e: "e = (x, y, p)" by (cases e)
    then have p: "plain_path p" "newline \<notin> set (x # y # CHR 0x20 # p)" using Cons.prems by (auto simp: plain_path_def)
    have len: "\<not> length (x # y # CHR 0x20 # p) < 4" using p(1) by (cases p) (auto simp: plain_path_def)
    have "trimCR (x # y # CHR 0x20 # p) = x # y # CHR 0x20 # p"
      using trimCR_snoc [of p "[x, y, CHR 0x20]"] p(1) by (simp add: plain_path_def)
    then have "porcelain_path (x # y # CHR 0x20 # p) = [p]"
      unfolding porcelain_path_def Let_def using len p(1) by (simp add: plain_path_def)
    moreover have "splitOn newline (concat (map status_line (e # entries))) =
        (x # y # CHR 0x20 # p) # splitOn newline (concat (map status_line entries))"
      using splitOn_append_sep [OF p(2), of "concat (map status_line entries)"] by (simp add: e status_line_def)
    ultimately show ?case using Cons by (simp add: e)
  qed (simp add: porcelain_path_def Let_def trimCR_def)
  then show ?thesis by (simp add: parsePorcelain_def)
qed

theorem porcelain_roundtrip_witness:
  "parsePorcelain (concat (map status_line [(CHR '' '', CHR ''M'', ''limit.go''), (CHR ''?'', CHR ''?'', ''a.go'')])) = [''a.go'', ''limit.go'']"
proof -
  have p: "plain_path ''limit.go''" "plain_path ''a.go''" by code_simp+
  have "parsePorcelain (concat (map status_line [(CHR '' '', CHR ''M'', ''limit.go''), (CHR ''?'', CHR ''?'', ''a.go'')])) =
      sortStrings (map (\<lambda>(x, y, p). p) [(CHR '' '', CHR ''M'', ''limit.go''), (CHR ''?'', CHR ''?'', ''a.go'')])"
    by (rule porcelain_roundtrip) (use p in simp)
  also have "\<dots> = [''a.go'', ''limit.go'']" by code_simp
  finally show ?thesis .
qed

definition demo_scoped :: task_db where
  "demo_scoped = \<lparr>db_ws = ''w'', db_tasks = [(TaskStore.demo_task ''t'')\<lparr>task_Budget := DefaultBudget\<lparr>Scope := [''src'']\<rparr>\<rparr>], db_reqs = [], db_deps = []\<rparr>"

theorem session_edit_confined_witness:
  "mcp_editFile demo_files demo_scoped (Inl ReadDirFailed) (Inr ''/w'') ''t'' ''src/a.go'' ''1'' ''2'' [] = (None, [(''/w/src/a.go'', ''x = 2'')]) \<and>
   \<not> sensitive (cleanPath ''src/a.go'')"
proof -
  have e: "mcp_editFile demo_files demo_scoped (Inl ReadDirFailed) (Inr ''/w'') ''t'' ''src/a.go'' ''1'' ''2'' [] = (None, [(''/w/src/a.go'', ''x = 2'')])"
    by code_simp
  from session_edit_confined [OF e] e show ?thesis by blast
qed

theorem read_backwards_panics_witness:
  "mcp_readFile demo_fs (\<lambda>_. Inr (''a'' @ [newline] @ ''b'' @ [newline] @ ''c'')) (Inl ReadDirFailed) None (Inr ''/w'') ''lib/x.go'' 3 1 = ReadPanics"
proof (rule read_backwards_panics)
  show "access_Check \<lparr>WriteScope = [], AccessProtected = protectedSet (Inl ReadDirFailed)\<rparr> demo_fs ''/w'' ''lib/x.go'' False = None" by code_simp
  show "ReadWithin demo_fs (\<lambda>_. Inr (''a'' @ [newline] @ ''b'' @ [newline] @ ''c'')) ''/w'' ''lib/x.go'' = Inr (''a'' @ [newline] @ ''b'' @ [newline] @ ''c'')"
    by code_simp
  have "take maxReadBytes (''a'' @ [newline] @ ''b'' @ [newline] @ ''c'') = ''a'' @ [newline] @ ''b'' @ [newline] @ ''c''"
    by (rule take_all) (simp add: maxReadBytes_def)
  moreover have "length (splitOn newline (''a'' @ [newline] @ ''b'' @ [newline] @ ''c'')) = 3" by code_simp
  ultimately show "3 \<le> int (length (splitOn newline (take maxReadBytes (''a'' @ [newline] @ ''b'' @ [newline] @ ''c''))))" by simp
qed simp_all

theorem confined_below_base_witness:
  "mcp_confine demo_fs ''/w'' ''lib'' = Inr ''/w/src'' \<and> (\<exists>bs us. ''/w/src'' = abs_of (bs @ us) \<and> list_all plain_seg (bs @ us))"
proof -
  have c: "mcp_confine demo_fs ''/w'' ''lib'' = Inr ''/w/src''" by code_simp
  from confined_below_base [OF demo_fs_documented _ c] c show ?thesis by (auto simp: isAbs_def)
qed

end
