(* ===== verification/Spec2Isabelle.thy ===== *)
theory Spec2Isabelle
  imports Retrieval Egress Storage Procman Router Supervise
begin

text \<open>
  A verification development for local-engineer (\<^verbatim>\<open>src/\<close>, written in Go): a supervisor that lets a
  language model change a repository under deterministic control.  The supervisor owns the
  repository's checkouts, the database, the checks and the network; the model only answers prompts and
  asks for tools.  What makes the program correct is therefore in the deterministic part: which
  changes are authorised, what is journalled before it happens, which results a verdict may rest on,
  and what keeps one workspace from another.  That part is what this development models.

  \<^bold>\<open>How the program is put together.\<close>  A task (\<^verbatim>\<open>internal/task\<close>) is run in a git worktree of its own
  (\<^verbatim>\<open>internal/worktree\<close>), under a lease (\<^verbatim>\<open>internal/ledger\<close>), either as a loop of attempts or through the
  phases of a workflow (\<^verbatim>\<open>internal/workflow\<close>), from INTAKE to FINALIZE.  An engine
  (\<^verbatim>\<open>internal/engine/native\<close>) drives the model through a bounded loop of tools; each tool call answers to
  the firewall (\<^verbatim>\<open>internal/firewall\<close>, \<^verbatim>\<open>internal/policy\<close>) and is journalled before it takes effect.
  Prompts are built from the code graph (\<^verbatim>\<open>internal/graph\<close>), retrieval (\<^verbatim>\<open>internal/retrieval\<close>), memory
  (\<^verbatim>\<open>internal/memory\<close>) and an append-only pack (\<^verbatim>\<open>internal/contextpack\<close>), with repository text fenced
  (\<^verbatim>\<open>internal/trust\<close>).  Recipes (\<^verbatim>\<open>internal/recipe\<close>) verify the result in a sandbox
  (\<^verbatim>\<open>internal/sandbox\<close>); the completion contract decides on their results and a human answers gates
  (\<^verbatim>\<open>internal/broker\<close>).  Everything is stored per workspace (\<^verbatim>\<open>internal/workspace\<close>, \<^verbatim>\<open>internal/store\<close>,
  \<^verbatim>\<open>internal/cache\<close>), and the only way out to the network is a proxy (\<^verbatim>\<open>internal/proxy\<close>).

  \<^bold>\<open>Conventions.\<close>  A struct is a record whose fields carry the source's names behind a short prefix; an
  enumeration is a datatype, or a string where the source stores it as text.  A Go string is a list
  of bytes.  An error is the left side of a sum or an option, so that every early return of the source
  is a branch of the model.  Integers are unbounded where the source only compares and counts, and
  words where the width matters (ports in \<^verbatim>\<open>Sandbox\<close>).  State is passed explicitly; the effects of a
  run of a task are programs over one system state (\<^verbatim>\<open>TaskRun\<close>).  Code that is not in the repository (git,
  SQLite, YAML and JSON codecs, SHA-256, the model, the kernel) is an argument, and what a theorem needs
  of it is a hypothesis that states its documented behaviour, with a witness that instantiates it.

  \<^bold>\<open>Theories, in the order of their imports.\<close>

  \<^item> \<^verbatim>\<open>LE_Prelude\<close>: Go's \<^verbatim>\<open>strings\<close>, \<^verbatim>\<open>sort\<close> and \<^verbatim>\<open>strconv\<close> as the code uses them, the named collections
    \<^verbatim>\<open>go_str\<close> and \<^verbatim>\<open>go_sort\<close>, and lemmas on lists that the components share.  \<^verbatim>\<open>Go_Path\<close>: \<^verbatim>\<open>filepath\<close> (Clean,
    Join, Dir, Base, Rel) and glob matching, with the calculus of cleaned absolute paths.
  \<^item> \<^verbatim>\<open>Policy\<close>, \<^verbatim>\<open>Worktree\<close>, \<^verbatim>\<open>Firewall\<close>: protected paths, write scopes and sensitive names
    (\<^verbatim>\<open>policy.go\<close>, \<^verbatim>\<open>scope.go\<close>); confinement of paths to a worktree in the presence of symbolic links
    and the git operations on it (\<^verbatim>\<open>worktree.go\<close>); editor authority and the credential scan (\<^verbatim>\<open>access.go\<close>,
    \<^verbatim>\<open>secrets.go\<close>).  A path that resolves stays under the root, and a write that is allowed is in scope, not
    protected, not generated and not metadata.
  \<^item> \<^verbatim>\<open>Summarize\<close>, \<^verbatim>\<open>Recipe\<close>, \<^verbatim>\<open>Presets\<close>: reading tool output, running recipes with their timeouts and
    evidence, the built-in commands.  A verdict says what the tool said about the code, all recipes of a
    level are run, and a preset runs only for the toolchain it was made for.
  \<^item> \<^verbatim>\<open>Accept\<close>, \<^verbatim>\<open>TaskStore\<close>: the completion contract (exactly which results accept a change), the ranking
    of candidates, the tables of tasks, requirements and plan steps.
  \<^item> \<^verbatim>\<open>Ledger\<close>: the journal of operations, leases, recovery after a crash, evidence and the content
    manifest.  An operation that was begun and not completed is found uncertain; two holders never have a
    live lease on one worktree; equal manifests mean equal tracked content.
  \<^item> \<^verbatim>\<open>Graph\<close>, \<^verbatim>\<open>GraphStore\<close>: the code graph, bounded traversal refined to a set-based specification, impact
    analysis, and the SQL store with its upserts.
  \<^item> \<^verbatim>\<open>Workflow\<close>, \<^verbatim>\<open>Broker\<close>: the contract between phases, plan and change authority, failure signatures;
    gates that a human decides, bound to the content they were asked about.
  \<^item> \<^verbatim>\<open>Trust\<close>, \<^verbatim>\<open>ContextPack\<close>: fences around repository text; the pack that only grows between
    compactions and whose cards do not depend on the order of arrival.
  \<^item> \<^verbatim>\<open>TaskRun\<close>, \<^verbatim>\<open>PhaseCalls\<close>, \<^verbatim>\<open>Phases\<close>, \<^verbatim>\<open>Critic\<close>, \<^verbatim>\<open>Runner\<close>: one system state (stores, ledger, gates,
    outside world), programs over it with a weakest-precondition calculus, the calls of the phases, the
    phase machine and the attempt loop.  An accepted run met the contract and went through every
    phase; runs end within their budgets; a failed diff never reaches the gate.
  \<^item> \<^verbatim>\<open>NativeTools\<close>, \<^verbatim>\<open>NativeEngine\<close>: the tools with their authorization and loop guard, the tool loop with
    its transcript, and reconciliation after an interruption.
  \<^item> \<^verbatim>\<open>Memory\<close>, \<^verbatim>\<open>Retrieval\<close>: notes with provenance and caps, imported lessons, project cards; packets
    within their token budgets, isolated to the active workspace; live search.
  \<^item> \<^verbatim>\<open>Sandbox\<close>, \<^verbatim>\<open>Egress\<close>: sandbox specs, bubblewrap command lines, Landlock rule sets with 16-bit ports; the
    egress allowlist, the handlers of the proxy as a step relation over interleaved connections, the
    provisioning lanes.
  \<^item> \<^verbatim>\<open>Identity\<close>, \<^verbatim>\<open>WorkspaceDir\<close>, \<^verbatim>\<open>Storage\<close>: workspace identifiers from the length-prefixed encoding to
    base 32, the marker file, creation, opening and adoption; the byte store and the analysis cache; schema
    migrations with their backup and stamp, the layout of the data directory, open workspaces.

  \<^item> \<^verbatim>\<open>Procman\<close>: supervised child processes (\<^verbatim>\<open>internal/procman\<close>): the restart loop with its window and backoff, one
    run of a child as a step relation over the channel its exit arrives on.
  \<^item> \<^verbatim>\<open>Providers\<close>, \<^verbatim>\<open>Router\<close>: model providers (\<^verbatim>\<open>internal/llm\<close>): the conversation in both wire formats, refusals of what a
    provider does not declare, replies; routes of roles, offline mode, and the slot of the managed model server as a
    step relation over requests, closings and exits.
  \<^item> \<^verbatim>\<open>Supervise\<close>: supervision of an editor's agent (\<^verbatim>\<open>internal/supervisor/lifecycle.go\<close>, \<^verbatim>\<open>internal/mcp\<close>): the journal of a
    supervised task, its final review and state, the confined file tools.

  \<^bold>\<open>Interfaces.\<close>  What several components rely on is stated once as a locale and interpreted on the model:
  \<^verbatim>\<open>scope_check\<close> (Policy), \<^verbatim>\<open>ranking_order\<close> (Accept: candidates, findings, violations), \<^verbatim>\<open>journal\<close> (Ledger) and
  \<^verbatim>\<open>self_delimiting\<close> (Identity: variable-length integers and hashed components).

  \<^bold>\<open>Loops, bounds and fuel.\<close>  Loops that the source bounds are recursion on what bounds them: attempts on
  the attempts left, the tool loop on the steps left, with its limits of 40 tool calls, 3 verifications
  and 3 invalid answers as in the source.  The phase machine runs on fuel; \<^verbatim>\<open>phases_bounded\<close> shows that the fuel it
  is given is always enough, because every step lowers a measure of the phase and its budgets.  Other
  loops are \<^verbatim>\<open>function\<close>s with a termination proof (walking up directories, glob matching, the port loop of
  Landlock, whose distance to the last port shrinks modulo \<open>2 ^ 16\<close>).

  \<^bold>\<open>Not modelled.\<close>  The language analyzers and symbol extraction, the language-server client, the source
  index, the benchmark harness, the measurements of models, the command line, the HTTP API and the configuration of
  other programs: they parse third-party formats, relay messages, count or print, and reach the model as arguments or as the
  data it starts from.  SQL is modelled by the tables and the statements' effect on them, not by SQLite;
  floating-point ranking (the repository map) is left out.  Signals and processes are effects of the operating system.  Timing
  enters as the clock values the code reads; concurrency is modelled where the code shares state between
  goroutines (the proxy's tunnels, the exit channel of a child, the slot of the model server) and by explicit
  sequences of operations of several holders for leases and gates.
\<close>

end
